(* ===== verification/Prelude.thy ===== *)
theory Prelude
  imports Main "HOL-Library.Finite_Map" "HOL-Library.Word" "HOL-Library.Sublist"
begin

section \<open>Shared vocabulary of the development\<close>

text \<open>
  The collections of rewrite rules the component theories extend, the types that several
  components share (Go's 64-bit \<open>int\<close>, instants and durations, results with an error), and
  the generic facts on finite maps, words and lists that no single component owns.

  A Go \<open>int\<close> is a 64-bit word read with \<open>sint\<close>, so \<open>+\<close> wraps as the machine does. A
  \<open>time.Time\<close> is the number of nanoseconds since the Unix epoch and a \<open>time.Duration\<close> a
  number of nanoseconds, both unbounded: the code only handles instants within a few hours of
  the clock, far from the limits of Go's representation.
\<close>

named_theorems text_simps
  \<open>evaluation rules of the string and character functions\<close>

named_theorems row_simps
  \<open>what an operation on a table leaves in each table of the database\<close>

named_theorems safe_intros
  \<open>introduction rules for the invariants of the system\<close>

type_synonym go_int = "64 word"
type_synonym instant = int
type_synonym duration = int
type_synonym bytes = string

subsection \<open>Instants and durations\<close>

definition nanosecond :: duration where
  "nanosecond = 1"

definition second :: duration where
  "second = 1000000000"

definition minute :: duration where
  "minute = 60 * second"

definition hour :: duration where
  "hour = 60 * minute"

lemmas duration_defs = nanosecond_def second_def minute_def hour_def

lemma second_pos [simp]: "0 < second"
  by (simp add: second_def)

text \<open>The zero \<open>time.Time\<close> is January 1 of year 1, UTC.\<close>

definition zero_time :: instant where
  "zero_time = -62135596800 * second"

definition is_zero_time :: "instant \<Rightarrow> bool" where
  "is_zero_time t \<longleftrightarrow> t = zero_time"

text \<open>\<open>time.Unix(sec, 0)\<close>.\<close>

definition time_unix :: "int \<Rightarrow> instant" where
  "time_unix s = s * second"

text \<open>
  \<open>t.Truncate(time.Second)\<close> rounds down to a whole second; the zero time is itself a whole
  number of seconds from the epoch, so rounding from either origin is the same.
\<close>

definition trunc_second :: "instant \<Rightarrow> instant" where
  "trunc_second t = t - t mod second"

text \<open>\<open>t.Sub(u)\<close> saturates at the limits of \<open>time.Duration\<close>.\<close>

definition time_sub :: "instant \<Rightarrow> instant \<Rightarrow> duration" where
  "time_sub t u = max (- (2 ^ 63)) (min (2 ^ 63 - 1) (t - u))"

text \<open>Go's integer division truncates towards zero; \<open>int64(d / time.Second)\<close> uses it.\<close>

definition go_div :: "int \<Rightarrow> int \<Rightarrow> int" where
  "go_div a b = sgn a * sgn b * (\<bar>a\<bar> div \<bar>b\<bar>)"

lemma trunc_second_le: "trunc_second t \<le> t"
  by (simp add: trunc_second_def)

lemma trunc_second_gt: "t < trunc_second t + second"
  by (simp add: trunc_second_def)

lemma trunc_second_dvd [simp]: "second dvd trunc_second t"
  by (simp add: trunc_second_def minus_mod_eq_mult_div)

lemma trunc_second_idem [simp]: "trunc_second (trunc_second t) = trunc_second t"
  by (simp add: trunc_second_def minus_mod_eq_mult_div)

lemma trunc_second_id: "second dvd t \<Longrightarrow> trunc_second t = t"
  by (simp add: trunc_second_def)

lemma trunc_second_mono: "s \<le> t \<Longrightarrow> trunc_second s \<le> trunc_second t"
  by (simp add: trunc_second_def minus_mod_eq_mult_div zdiv_mono1)

lemma go_div_pos: "0 \<le> a \<Longrightarrow> 0 < b \<Longrightarrow> go_div a b = a div b"
  by (cases "a = 0") (simp_all add: go_div_def)

lemma time_sub_le_iff:
  "- (2 ^ 63) \<le> w \<Longrightarrow> w < 2 ^ 63 - 1 \<Longrightarrow> time_sub t u \<le> w \<longleftrightarrow> t - u \<le> w"
  by (auto simp: time_sub_def)

lemma time_sub_ge_iff:
  "- (2 ^ 63) < w \<Longrightarrow> w \<le> 2 ^ 63 - 1 \<Longrightarrow> w \<le> time_sub t u \<longleftrightarrow> w \<le> t - u"
  by (auto simp: time_sub_def)

subsection \<open>64-bit integers\<close>

text \<open>The largest \<open>int\<close>, written \<open>int(^uint(0)>>1)\<close> in the code.\<close>

definition max_int :: go_int where
  "max_int = 9223372036854775807"

lemma sint_max_int: "sint max_int = 2 ^ 63 - 1"
  by (simp add: max_int_def)

lemma sint_go_int_range: "- (2 ^ 63) \<le> sint (x :: go_int)" "sint (x :: go_int) < 2 ^ 63"
  using sint_ge [of x] sint_lt [of x] by simp_all

text \<open>Adding one to anything but the largest \<open>int\<close> does not wrap.\<close>

lemma sint_add_one:
  assumes "(x :: go_int) \<noteq> max_int"
  shows "sint (x + 1) = sint x + 1"
proof -
  have "sint x \<noteq> sint max_int"
    using assms signed_word_eqI by blast
  then have "sint x + 1 < 2 ^ 63"
    using sint_go_int_range(2) [of x] by (simp add: sint_max_int)
  moreover have "- (2 ^ 63) \<le> sint x + 1"
    using sint_go_int_range(1) [of x] by simp
  ultimately have "signed_take_bit 63 (sint x + 1) = sint x + 1"
    by (intro signed_take_bit_int_eq_self) simp_all
  then show ?thesis
    by (simp add: sint_word_add)
qed

lemma sint_eq_iff: "sint (x :: go_int) = sint y \<longleftrightarrow> x = y"
  by (auto intro: signed_word_eqI)

subsection \<open>Finite maps\<close>

text \<open>\<open>len(m)\<close> of a Go map.\<close>

definition fmlen :: "('k, 'v) fmap \<Rightarrow> nat" where
  "fmlen m = fcard (fmdom m)"

lemma fmpred_fmap_of_list [text_simps]:
  "fmpred P (fmap_of_list xs) \<longleftrightarrow> list_all (\<lambda>(k, v). map_of xs k = Some v \<longrightarrow> P k v) xs"
  by (auto simp: fmpred_iff fmlookup_of_list list_all_iff dest: map_of_SomeD)

lemma fmlen_fmap_of_list [text_simps]:
  "fmlen (fmap_of_list xs) = length (remdups (map fst xs))"
  by (simp add: fmlen_def fmdom_fmap_of_list fcard.rep_eq fset_of_list.rep_eq
    length_remdups_card_conv)

lemma fmlen_fmempty [simp]: "fmlen fmempty = 0"
  by (simp add: fmlen_def)

lemma fmlen_fmupd [simp]:
  "fmlen (fmupd k v m) = (if k |\<in>| fmdom m then fmlen m else Suc (fmlen m))"
  by (simp add: fmlen_def fcard_finsert_if)

lemma fmap_ext_on_dom:
  assumes "fmdom m = fmdom n"
    and "\<And>k v w. fmlookup m k = Some v \<Longrightarrow> fmlookup n k = Some w \<Longrightarrow> v = w"
  shows "m = n"
proof (rule fmap_ext)
  fix k
  show "fmlookup m k = fmlookup n k"
  proof (cases "fmlookup m k")
    case None
    then show ?thesis
      using assms(1) by (metis fmdom_notD fmdom_notI)
  next
    case (Some v)
    then obtain w where "fmlookup n k = Some w"
      using assms(1) by (metis fmdomI fmdom_notD fmlookup_dom_iff)
    with Some show ?thesis
      using assms(2) by simp
  qed
qed

subsection \<open>Lists used as tables\<close>

lemma find_Some_iff_key:
  "find P xs = Some x \<Longrightarrow> x \<in> set xs \<and> P x"
  by (induction xs) (auto split: if_splits)

lemma find_None_iff_none: "find P xs = None \<longleftrightarrow> (\<forall>x \<in> set xs. \<not> P x)"
  by (induction xs) auto

lemma find_key_eq:
  "distinct (map key xs) \<Longrightarrow> x \<in> set xs \<Longrightarrow> find (\<lambda>y. key y = key x) xs = Some x"
  by (induction xs) (auto simp: rev_image_eqI)

lemma filter_key_eq:
  "distinct (map key xs) \<Longrightarrow> x \<in> set xs \<Longrightarrow> filter (\<lambda>y. key y = key x) xs = [x]"
proof (induction xs)
  case (Cons y xs)
  show ?case
  proof (cases "x = y")
    case True
    have "key z \<noteq> key x" if "z \<in> set xs" for z
      using Cons.prems(1) that True by (metis distinct.simps(2) imageI list.set_map list.simps(9))
    then show ?thesis using True by (simp add: filter_empty_conv)
  next
    case False
    then have "key y \<noteq> key x" using Cons.prems by (auto simp: rev_image_eqI)
    then show ?thesis using Cons False by simp
  qed
qed simp

lemma find_map_key:
  "(\<And>x. key (f x) = key x) \<Longrightarrow>
   find (\<lambda>y. key y = k) (map f xs) = map_option f (find (\<lambda>y. key y = k) xs)"
  by (induction xs) auto

lemma distinct_key_inj:
  "distinct (map key xs) \<Longrightarrow> x \<in> set xs \<Longrightarrow> y \<in> set xs \<Longrightarrow> key x = key y \<Longrightarrow> x = y"
  by (induction xs) (auto simp: rev_image_eqI)

end
