(* ===== verification/Go_Text.thy ===== *)
theory Go_Text
  imports Prelude "HOL-Library.Char_ord"
begin

section \<open>Strings and characters of the Go standard library\<close>

text \<open>
  A Go string is a sequence of bytes, here a \<open>string\<close> whose characters are bytes
  (\<open>of_char\<close> reads the value). This theory models what the code uses of the packages
  \<open>strings\<close>, \<open>strconv\<close>, \<open>unicode\<close> and \<open>unicode/utf8\<close>, and proves the facts about
  them that the components rely on.

  Four functions need the Unicode character database and are arguments of the model, the
  fields of \<open>unicode_lib\<close>: Normalization Form C (\<open>golang.org/x/text/unicode/norm\<close>), and
  \<open>strings.ToUpper\<close>, \<open>strings.ToLower\<close> and \<open>strings.EqualFold\<close> on strings with a byte outside
  ASCII.
\<close>

record unicode_lib =
  nfc :: "bytes \<Rightarrow> bytes"
  upper_text :: "bytes \<Rightarrow> bytes"
  lower_text :: "bytes \<Rightarrow> bytes"
  fold_text :: "bytes \<Rightarrow> bytes \<Rightarrow> bool"

text \<open>
  A library whose Normalization Form C is the identity, as it is on every ASCII string; it
  instantiates the parameter in the examples.
\<close>

definition ascii_lib :: unicode_lib where
  "ascii_lib = \<lparr>nfc = (\<lambda>s. s), upper_text = (\<lambda>s. s), lower_text = (\<lambda>s. s), fold_text = (=)\<rparr>"

abbreviation byte :: "char \<Rightarrow> nat" where
  "byte c \<equiv> of_char c"

lemma byte_less_256 [simp]: "byte c < 256"
  using nat_of_char_less_256 by simp

subsection \<open>UTF-8 and runes\<close>

definition rune_error :: nat where
  "rune_error = 0xFFFD"

definition continuation :: "char \<Rightarrow> bool" where
  "continuation c \<longleftrightarrow> 0x80 \<le> byte c \<and> byte c \<le> 0xBF"

text \<open>
  \<open>utf8.DecodeRuneInString\<close>: the first rune of the string and the number of bytes it
  takes. An invalid encoding is \<open>(RuneError, 1)\<close> and the empty string is
  \<open>(RuneError, 0)\<close>. The second byte is restricted after \<open>E0\<close>, \<open>ED\<close>, \<open>F0\<close> and \<open>F4\<close>,
  which excludes overlong forms, surrogates and values above \<open>10FFFF\<close>.
\<close>

definition decode_rune2 :: "char \<Rightarrow> bytes \<Rightarrow> nat \<times> nat" where
  "decode_rune2 b0 rest =
    (case rest of
       b1 # _ \<Rightarrow>
         if continuation b1 then ((byte b0 - 0xC0) * 64 + (byte b1 - 0x80), 2)
         else (rune_error, 1)
     | [] \<Rightarrow> (rune_error, 1))"

definition decode_rune3 :: "char \<Rightarrow> bytes \<Rightarrow> nat \<times> nat" where
  "decode_rune3 b0 rest =
    (case rest of
       b1 # b2 # _ \<Rightarrow>
         if continuation b1 \<and> continuation b2
            \<and> (byte b0 = 0xE0 \<longrightarrow> 0xA0 \<le> byte b1) \<and> (byte b0 = 0xED \<longrightarrow> byte b1 \<le> 0x9F)
         then ((byte b0 - 0xE0) * 4096 + (byte b1 - 0x80) * 64 + (byte b2 - 0x80), 3)
         else (rune_error, 1)
     | _ \<Rightarrow> (rune_error, 1))"

definition decode_rune4 :: "char \<Rightarrow> bytes \<Rightarrow> nat \<times> nat" where
  "decode_rune4 b0 rest =
    (case rest of
       b1 # b2 # b3 # _ \<Rightarrow>
         if continuation b1 \<and> continuation b2 \<and> continuation b3
            \<and> (byte b0 = 0xF0 \<longrightarrow> 0x90 \<le> byte b1) \<and> (byte b0 = 0xF4 \<longrightarrow> byte b1 \<le> 0x8F)
         then ((byte b0 - 0xF0) * 262144 + (byte b1 - 0x80) * 4096 + (byte b2 - 0x80) * 64
               + (byte b3 - 0x80), 4)
         else (rune_error, 1)
     | _ \<Rightarrow> (rune_error, 1))"

fun decode_rune :: "bytes \<Rightarrow> nat \<times> nat" where
  "decode_rune [] = (rune_error, 0)"
| "decode_rune (b0 # rest) =
    (if byte b0 < 0x80 then (byte b0, 1)
     else if 0xC2 \<le> byte b0 \<and> byte b0 \<le> 0xDF then decode_rune2 b0 rest
     else if 0xE0 \<le> byte b0 \<and> byte b0 \<le> 0xEF then decode_rune3 b0 rest
     else if 0xF0 \<le> byte b0 \<and> byte b0 \<le> 0xF4 then decode_rune4 b0 rest
     else (rune_error, 1))"

lemma decode_multi_size:
  "0 < snd (decode_rune2 b s)" "0 < snd (decode_rune3 b s)" "0 < snd (decode_rune4 b s)"
  by (simp_all add: decode_rune2_def decode_rune3_def decode_rune4_def split: list.split)

text \<open>The bytes of a rune after its first are continuation bytes.\<close>

lemma decode_multi_tail:
  "c \<in> set (take (snd (decode_rune2 b s) - 1) s) \<Longrightarrow> continuation c"
  "c \<in> set (take (snd (decode_rune3 b s) - 1) s) \<Longrightarrow> continuation c"
  "c \<in> set (take (snd (decode_rune4 b s) - 1) s) \<Longrightarrow> continuation c"
  by (auto simp: decode_rune2_def decode_rune3_def decode_rune4_def
      split: list.splits if_split_asm)

lemma decode_rune_size_pos: "s \<noteq> [] \<Longrightarrow> 0 < snd (decode_rune s)"
  using decode_multi_size by (cases s) auto

lemma decode_rune_ascii [simp]: "byte b < 0x80 \<Longrightarrow> decode_rune (b # s) = (byte b, 1)"
  by simp

lemma decode_rune_tail:
  assumes "c \<in> set (take (snd (decode_rune (b # s)) - 1) s)"
  shows "0x80 \<le> byte c"
proof -
  have "continuation c"
    using assms decode_multi_tail by (simp split: if_split_asm)
  then show ?thesis by (simp add: continuation_def)
qed

text \<open>Only an ASCII byte starts an ASCII rune.\<close>

lemma decode_rune2_large: "0xC2 \<le> byte b \<Longrightarrow> 0x80 \<le> fst (decode_rune2 b s)"
  by (auto simp: decode_rune2_def rune_error_def split: list.split)

lemma decode_rune3_large: "0xE0 \<le> byte b \<Longrightarrow> 0x80 \<le> fst (decode_rune3 b s)"
proof -
  have "0x800 \<le> (x - 0xE0) * 4096 + (y - 0x80) * 64"
    if "(0xE0::nat) \<le> x" "x = 0xE0 \<longrightarrow> 0xA0 \<le> y" for x y :: nat
    using that by (cases "x = 0xE0") auto
  then show "0xE0 \<le> byte b \<Longrightarrow> 0x80 \<le> fst (decode_rune3 b s)"
    by (fastforce simp: decode_rune3_def rune_error_def split: list.split)
qed

lemma decode_rune4_large: "0xF0 \<le> byte b \<Longrightarrow> 0x80 \<le> fst (decode_rune4 b s)"
proof -
  have "0x10000 \<le> (x - 0xF0) * 262144 + (y - 0x80) * 4096"
    if "(0xF0::nat) \<le> x" "x = 0xF0 \<longrightarrow> 0x90 \<le> y" for x y :: nat
    using that by (cases "x = 0xF0") auto
  then show "0xF0 \<le> byte b \<Longrightarrow> 0x80 \<le> fst (decode_rune4 b s)"
    by (fastforce simp: decode_rune4_def rune_error_def split: list.split)
qed

lemma decode_rune_nonascii: "\<not> byte b < 0x80 \<Longrightarrow> 0x80 \<le> fst (decode_rune (b # s))"
  using decode_rune2_large decode_rune3_large decode_rune4_large
  by (simp add: rune_error_def)

declare decode_rune.simps(2) [simp del]

lemmas [text_simps] =
  decode_rune.simps(2) decode_rune2_def decode_rune3_def decode_rune4_def
  continuation_def rune_error_def

text \<open>The runes that \<open>for _, r := range s\<close> visits.\<close>

function runes :: "bytes \<Rightarrow> nat list" where
  "runes [] = []"
| "runes (b # s) = (let (r, n) = decode_rune (b # s) in r # runes (drop (n - 1) s))"
  by pat_completeness auto
termination
  by (relation "measure length") auto

text \<open>\<open>utf8.ValidString\<close>.\<close>

function valid_string :: "bytes \<Rightarrow> bool" where
  "valid_string [] = True"
| "valid_string (b # s) =
     (let (r, n) = decode_rune (b # s)
      in \<not> (r = rune_error \<and> n = 1) \<and> valid_string (drop (n - 1) s))"
  by pat_completeness auto
termination
  by (relation "measure length") auto

lemma runes_ascii_Cons [simp]: "byte b < 0x80 \<Longrightarrow> runes (b # s) = byte b # runes s"
  by (simp add: decode_rune_ascii)

lemma valid_string_ascii_Cons [simp]: "byte b < 0x80 \<Longrightarrow> valid_string (b # s) = valid_string s"
  by (simp add: decode_rune_ascii rune_error_def)

definition ascii :: "bytes \<Rightarrow> bool" where
  "ascii s \<longleftrightarrow> list_all (\<lambda>c. byte c < 0x80) s"

lemma ascii_runes: "ascii s \<Longrightarrow> runes s = map byte s"
  by (induction s) (simp_all add: ascii_def)

lemma ascii_valid_string: "ascii s \<Longrightarrow> valid_string s"
  by (induction s) (simp_all add: ascii_def rune_error_def)

text \<open>
  An ASCII byte anywhere in a string is one of its runes: no encoding of another rune
  contains it. A check on the runes of a string is therefore also a check on its ASCII
  bytes.
\<close>

lemma ascii_byte_in_runes:
  "c \<in> set s \<Longrightarrow> byte c < 0x80 \<Longrightarrow> byte c \<in> set (runes s)"
proof (induction s rule: runes.induct)
  case 1
  then show ?case by simp
next
  case (2 b s)
  obtain r n where rn: "decode_rune (b # s) = (r, n)" by fastforce
  show ?case
  proof (cases "c = b")
    case True
    with "2.prems"(2) show ?thesis by simp
  next
    case False
    with "2.prems"(1) have "c \<in> set s" by simp
    moreover have "c \<notin> set (take (n - 1) s)"
      using decode_rune_tail [of c b s] rn "2.prems"(2) by auto
    ultimately have "c \<in> set (drop (n - 1) s)"
      by (metis Un_iff append_take_drop_id set_append)
    with "2.IH" [OF rn [symmetric]] "2.prems"(2) rn show ?thesis by simp
  qed
qed

text \<open>
  An ASCII byte is a rune boundary: a string is valid when its parts before and from the
  byte are.
\<close>

lemma decode_rune_before_ascii:
  assumes "byte c < 0x80"
  shows "decode_rune ((b # s) @ c # t) = decode_rune (b # s)"
proof -
  have nc: "\<not> continuation c" using assms by (simp add: continuation_def)
  have "decode_rune2 b (s @ c # t) = decode_rune2 b s"
    using nc by (simp add: decode_rune2_def split: list.split)
  moreover have "decode_rune3 b (s @ c # t) = decode_rune3 b s"
    using nc by (cases s; cases "tl s") (simp_all add: decode_rune3_def split: list.split)
  moreover have "decode_rune4 b (s @ c # t) = decode_rune4 b s"
    using nc
    by (cases s; cases "tl s"; cases "tl (tl s)") (simp_all add: decode_rune4_def split: list.split)
  ultimately show ?thesis by (simp add: decode_rune.simps(2))
qed

lemma decode_rune_fits: "snd (decode_rune s) \<le> length s"
proof (cases s)
  case (Cons b t)
  have "snd (decode_rune2 b t) \<le> Suc (length t)" "snd (decode_rune3 b t) \<le> Suc (length t)"
    "snd (decode_rune4 b t) \<le> Suc (length t)"
    by (auto simp: decode_rune2_def decode_rune3_def decode_rune4_def split: list.split)
  then show ?thesis using Cons by (simp add: decode_rune.simps(2))
qed simp

lemma valid_string_append_ascii:
  "byte c < 0x80 \<Longrightarrow> valid_string (s @ c # t) \<longleftrightarrow> valid_string s \<and> valid_string t"
proof (induction s rule: valid_string.induct)
  case 1
  then show ?case by (simp add: rune_error_def)
next
  case (2 b s)
  obtain r n where rn: "decode_rune (b # s) = (r, n)" by fastforce
  then have n: "n - 1 \<le> length s"
    using decode_rune_fits [of "b # s"] by simp
  have "decode_rune (b # s @ c # t) = (r, n)"
    using decode_rune_before_ascii [OF "2.prems", of b s t] rn by simp
  with "2.IH" [OF rn [symmetric]] "2.prems" n rn show ?case by simp
qed

declare runes.simps(2) [simp del] valid_string.simps(2) [simp del]

subsection \<open>Character classes\<close>

text \<open>\<open>unicode.IsControl\<close>, \<open>unicode.IsSpace\<close> and the \<open>Pattern_Syntax\<close> table.\<close>

definition is_control :: "nat \<Rightarrow> bool" where
  "is_control r \<longleftrightarrow> r < 0x20 \<or> 0x7F \<le> r \<and> r < 0xA0"

definition is_space :: "nat \<Rightarrow> bool" where
  "is_space r \<longleftrightarrow> 9 \<le> r \<and> r \<le> 13 \<or> r = 0x20 \<or> r = 0x85 \<or> r = 0xA0 \<or> r = 0x1680
     \<or> 0x2000 \<le> r \<and> r \<le> 0x200A \<or> r = 0x2028 \<or> r = 0x2029 \<or> r = 0x202F \<or> r = 0x205F
     \<or> r = 0x3000"

definition pattern_syntax_ranges :: "(nat \<times> nat) list" where
  "pattern_syntax_ranges =
    [(0x21, 0x2F), (0x3A, 0x40), (0x5B, 0x5E), (0x60, 0x60), (0x7B, 0x7E), (0xA1, 0xA7),
     (0xA9, 0xA9), (0xAB, 0xAC), (0xAE, 0xAE), (0xB0, 0xB1), (0xB6, 0xB6), (0xBB, 0xBB),
     (0xBF, 0xBF), (0xD7, 0xD7), (0xF7, 0xF7), (0x2010, 0x203E), (0x2041, 0x2053),
     (0x2055, 0x205E), (0x2190, 0x245F), (0x2500, 0x2775), (0x2794, 0x2BFF),
     (0x2E00, 0x2E7F), (0x3001, 0x3003), (0x3008, 0x3020), (0x3030, 0x3030),
     (0xFD3E, 0xFD3F), (0xFE45, 0xFE46)]"

definition is_pattern_syntax :: "nat \<Rightarrow> bool" where
  "is_pattern_syntax r \<longleftrightarrow> list_ex (\<lambda>(a, b). a \<le> r \<and> r \<le> b) pattern_syntax_ranges"

lemmas [text_simps] =
  is_control_def is_space_def is_pattern_syntax_def pattern_syntax_ranges_def

subsection \<open>Trimming\<close>

text \<open>
  \<open>strings.TrimSpace\<close> removes leading and trailing runes that are spaces. The last rune is
  found by \<open>utf8.DecodeLastRuneInString\<close>, which steps back over at most three
  continuation bytes and decodes forward from there.
\<close>

fun trim_left :: "bytes \<Rightarrow> bytes" where
  "trim_left [] = []"
| "trim_left (b # s) =
     (if is_space (fst (decode_rune (b # s)))
      then trim_left (drop (snd (decode_rune (b # s)) - 1) s) else b # s)"

text \<open>
  \<open>rune_start_back n rev_s\<close> counts the continuation bytes, at most \<open>n\<close>, at the head of
  the reversed string.
\<close>

fun rune_start_back :: "nat \<Rightarrow> bytes \<Rightarrow> nat" where
  "rune_start_back 0 s = 0"
| "rune_start_back (Suc n) [] = 0"
| "rune_start_back (Suc n) (c # s) = (if continuation c then Suc (rune_start_back n s) else 0)"

definition decode_last_rune :: "bytes \<Rightarrow> nat \<times> nat" where
  "decode_last_rune s =
    (if s = [] then (rune_error, 0)
     else if byte (last s) < 0x80 then (byte (last s), 1)
     else
       let k = min (length s) (Suc (rune_start_back 3 (rev s)));
           (r, n) = decode_rune (drop (length s - k) s)
       in if n = k then (r, n) else (rune_error, 1))"

lemma decode_last_rune_size: "s \<noteq> [] \<Longrightarrow> 0 < snd (decode_last_rune s)"
  by (auto simp: decode_last_rune_def Let_def simp flip: length_greater_0_conv split: prod.splits)

function trim_right :: "bytes \<Rightarrow> bytes" where
  "trim_right s =
    (if s \<noteq> [] \<and> is_space (fst (decode_last_rune s))
     then trim_right (take (length s - snd (decode_last_rune s)) s) else s)"
  by pat_completeness auto
termination
proof (relation "measure length")
  fix s :: bytes
  assume "s \<noteq> [] \<and> is_space (fst (decode_last_rune s))"
  then have "s \<noteq> []" "0 < snd (decode_last_rune s)"
    by (simp_all add: decode_last_rune_size)
  then show "(take (length s - snd (decode_last_rune s)) s, s) \<in> measure length"
    by (cases s) auto
qed simp

declare trim_right.simps [simp del]

definition trim_space :: "bytes \<Rightarrow> bytes" where
  "trim_space s = trim_right (trim_left s)"

lemma trim_left_length: "length (trim_left s) \<le> length s"
  by (induction s rule: trim_left.induct) (auto intro: le_trans)

lemma trim_right_length: "length (trim_right s) \<le> length s"
proof (induction s rule: trim_right.induct)
  case (1 s)
  then show ?case
    by (subst trim_right.simps) auto
qed

text \<open>A string is trimmed exactly when neither its first nor its last rune is a space.\<close>

lemma trim_left_id: "trim_left s = s \<longleftrightarrow> s = [] \<or> \<not> is_space (fst (decode_rune s))"
proof (cases s)
  case (Cons b t)
  have "length (trim_left (drop n t)) < length (b # t)" for n
    using trim_left_length [of "drop n t"] by simp
  then show ?thesis
    using Cons by (metis list.distinct(1) nat_neq_iff trim_left.simps(2))
qed simp

lemma trim_right_id: "trim_right s = s \<longleftrightarrow> s = [] \<or> \<not> is_space (fst (decode_last_rune s))"
proof -
  have "trim_right (take (length s - snd (decode_last_rune s)) s) \<noteq> s" if "s \<noteq> []"
  proof
    assume "trim_right (take (length s - snd (decode_last_rune s)) s) = s"
    then have "length s \<le> length s - snd (decode_last_rune s)"
      using trim_right_length [of "take (length s - snd (decode_last_rune s)) s"] by simp
    with that decode_last_rune_size [OF that] show False by (cases s) auto
  qed
  then show ?thesis
    by (subst trim_right.simps) auto
qed

lemma trim_space_id:
  "trim_space s = s \<longleftrightarrow>
   s = [] \<or> \<not> is_space (fst (decode_rune s)) \<and> \<not> is_space (fst (decode_last_rune s))"
proof
  assume *: "trim_space s = s"
  then have "length s \<le> length (trim_left s)"
    by (metis trim_right_length trim_space_def)
  moreover have "trim_left s = s \<or> length (trim_left s) < length s"
  proof (cases s)
    case (Cons b t)
    then show ?thesis
      using trim_left_length [of "drop (snd (decode_rune (b # t)) - 1) t"] by auto
  qed simp
  ultimately have l: "trim_left s = s" by linarith
  with * have "trim_right s = s" by (simp add: trim_space_def)
  with l show "s = [] \<or> \<not> is_space (fst (decode_rune s)) \<and> \<not> is_space (fst (decode_last_rune s))"
    using trim_left_id trim_right_id by blast
next
  assume "s = [] \<or> \<not> is_space (fst (decode_rune s)) \<and> \<not> is_space (fst (decode_last_rune s))"
  then show "trim_space s = s"
    using trim_left_id [of s] trim_right_id [of s] by (auto simp: trim_space_def)
qed

lemma trim_space_Nil [simp]: "trim_space [] = []"
  by (simp add: trim_space_def trim_right.simps)

lemma trim_space_ascii_id:
  "byte (hd s) < 0x80 \<Longrightarrow> byte (last s) < 0x80 \<Longrightarrow>
   \<not> is_space (byte (hd s)) \<Longrightarrow> \<not> is_space (byte (last s)) \<Longrightarrow> trim_space s = s"
  by (cases s) (auto simp: trim_space_id decode_last_rune_def decode_rune_ascii)

end
