(* ===== verification/Base64.thy ===== *)
theory Base64
  imports Go_Text
begin

section \<open>Base64\<close>

text \<open>
  \<open>encoding/base64\<close> of the Go standard library, as the code uses it: the URL alphabet without
  padding (\<open>RawURLEncoding\<close>) and the standard alphabet with padding (\<open>StdEncoding\<close>). Like Go's,
  the decoders skip line feeds and carriage returns and do not look at the unused low bits of
  the last character. Decoding what was encoded gives back the bytes, and the length of an
  encoding is determined by the length of the bytes.
\<close>

definition url_alphabet :: bytes where
  "url_alphabet = ''ABCDEFGHIJKLMNOPQRSTUVWXYZabcdefghijklmnopqrstuvwxyz0123456789-_''"

definition std_alphabet :: bytes where
  "std_alphabet = ''ABCDEFGHIJKLMNOPQRSTUVWXYZabcdefghijklmnopqrstuvwxyz0123456789+/''"

fun char_index :: "nat \<Rightarrow> bytes \<Rightarrow> char \<Rightarrow> nat option" where
  "char_index n [] c = None"
| "char_index n (d # ds) c = (if c = d then Some n else char_index (Suc n) ds c)"

fun b64_encode :: "bytes \<Rightarrow> bytes \<Rightarrow> bytes" where
  "b64_encode al (a # b # c # rest) =
    (let n = byte a * 65536 + byte b * 256 + byte c
     in [al ! (n div 262144), al ! (n div 4096 mod 64), al ! (n div 64 mod 64), al ! (n mod 64)]
        @ b64_encode al rest)"
| "b64_encode al [a, b] =
    (let n = byte a * 65536 + byte b * 256
     in [al ! (n div 262144), al ! (n div 4096 mod 64), al ! (n div 64 mod 64)])"
| "b64_encode al [a] =
    (let n = byte a * 65536 in [al ! (n div 262144), al ! (n div 4096 mod 64)])"
| "b64_encode al [] = []"

fun b64_decode :: "bytes \<Rightarrow> bytes \<Rightarrow> bytes option" where
  "b64_decode al (a # b # c # d # rest) =
    (case (char_index 0 al a, char_index 0 al b, char_index 0 al c, char_index 0 al d) of
       (Some x, Some y, Some z, Some w) \<Rightarrow>
         (let n = x * 262144 + y * 4096 + z * 64 + w
          in map_option (\<lambda>r. [char_of (n div 65536), char_of (n div 256 mod 256), char_of (n mod 256)] @ r)
               (b64_decode al rest))
     | _ \<Rightarrow> None)"
| "b64_decode al [a, b, c] =
    (case (char_index 0 al a, char_index 0 al b, char_index 0 al c) of
       (Some x, Some y, Some z) \<Rightarrow>
         (let n = x * 262144 + y * 4096 + z * 64
          in Some [char_of (n div 65536), char_of (n div 256 mod 256)])
     | _ \<Rightarrow> None)"
| "b64_decode al [a, b] =
    (case (char_index 0 al a, char_index 0 al b) of
       (Some x, Some y) \<Rightarrow> Some [char_of ((x * 262144 + y * 4096) div 65536)]
     | _ \<Rightarrow> None)"
| "b64_decode al [a] = None"
| "b64_decode al [] = Some []"

definition is_newline :: "char \<Rightarrow> bool" where
  "is_newline c \<longleftrightarrow> byte c = 10 \<or> byte c = 13"

definition raw_url_encode :: "bytes \<Rightarrow> bytes" where
  "raw_url_encode s = b64_encode url_alphabet s"

definition raw_url_decode :: "bytes \<Rightarrow> bytes option" where
  "raw_url_decode s = b64_decode url_alphabet (filter (\<lambda>c. \<not> is_newline c) s)"

text \<open>With padding, the number of characters is a multiple of four, up to two of them \<open>=\<close>.\<close>

definition strip_padding :: "bytes \<Rightarrow> bytes" where
  "strip_padding s =
    (if drop (length s - 2) s = ''=='' then take (length s - 2) s
     else if drop (length s - 1) s = ''='' then take (length s - 1) s
     else s)"

definition std_decode :: "bytes \<Rightarrow> bytes option" where
  "std_decode s =
    (let t = filter (\<lambda>c. \<not> is_newline c) s
     in if length t mod 4 \<noteq> 0 then None else b64_decode std_alphabet (strip_padding t))"

subsection \<open>Round trip\<close>

lemma char_index_nth:
  "distinct al \<Longrightarrow> i < length al \<Longrightarrow> char_index n al (al ! i) = Some (n + i)"
proof (induction al arbitrary: n i)
  case (Cons d al)
  then show ?case by (cases i) auto
qed simp

lemma sextets:
  fixes a b c :: nat
  assumes "a < 256" "b < 256" "c < 256"
  shows "(a * 65536 + b * 256 + c) div 262144 < 64"
    and "(a * 65536 + b * 256 + c) div 262144 * 262144 + (a * 65536 + b * 256 + c) div 4096 mod 64 * 4096
         + (a * 65536 + b * 256 + c) div 64 mod 64 * 64 + (a * 65536 + b * 256 + c) mod 64
         = a * 65536 + b * 256 + c"
proof -
  let ?n = "a * 65536 + b * 256 + c"
  show "?n div 262144 < 64" using assms by simp
  have "?n = ?n div 64 * 64 + ?n mod 64"
    "?n div 64 = ?n div 64 div 64 * 64 + ?n div 64 mod 64"
    "?n div 4096 = ?n div 4096 div 64 * 64 + ?n div 4096 mod 64"
    by simp_all
  moreover have "?n div 64 div 64 = ?n div 4096" "?n div 4096 div 64 = ?n div 262144"
    by (simp_all add: div_mult2_eq [symmetric])
  ultimately show "?n div 262144 * 262144 + ?n div 4096 mod 64 * 4096
      + ?n div 64 mod 64 * 64 + ?n mod 64 = ?n"
    by linarith
qed

lemma octets:
  fixes a b c :: nat
  assumes "a < 256" "b < 256" "c < 256"
  shows "(a * 65536 + b * 256 + c) div 65536 = a" "(a * 65536 + b * 256 + c) div 256 mod 256 = b"
    "(a * 65536 + b * 256 + c) mod 256 = c"
proof -
  have n: "a * 65536 + b * 256 + c = c + 256 * (b + 256 * a)" by simp
  have "(a * 65536 + b * 256 + c) div 256 = b + 256 * a"
    unfolding n using assms by simp
  then show "(a * 65536 + b * 256 + c) div 256 mod 256 = b" using assms by simp
  show "(a * 65536 + b * 256 + c) mod 256 = c"
    unfolding n mod_mult_self2 using assms by simp
  show "(a * 65536 + b * 256 + c) div 65536 = a" using assms by simp
qed

lemma decoded_char: "n mod 256 = byte c \<Longrightarrow> char_of n = c"
  by (simp add: char_of_eq_iff take_bit_eq_mod)

lemma decode_group:
  assumes "\<And>i. i < 64 \<Longrightarrow> char_index 0 al (al ! i) = Some i"
    and "b64_decode al (b64_encode al rest) = Some rest"
  shows "b64_decode al (b64_encode al (a # b # c # rest)) = Some (a # b # c # rest)"
proof -
  define n where "n = byte a * 65536 + byte b * 256 + byte c"
  have n: "n div 262144 < 64" "n div 65536 = byte a" "n div 256 mod 256 = byte b" "n mod 256 = byte c"
    "n div 262144 * 262144 + n div 4096 mod 64 * 4096 + n div 64 mod 64 * 64 + n mod 64 = n"
    unfolding n_def by (rule sextets octets; simp)+
  show ?thesis
    unfolding b64_encode.simps n_def [symmetric] Let_def
    by (simp add: assms n decoded_char del: div_mult_mult1_if)
qed

lemma decode_two:
  assumes "\<And>i. i < 64 \<Longrightarrow> char_index 0 al (al ! i) = Some i"
  shows "b64_decode al (b64_encode al [a, b]) = Some [a, b]"
proof -
  define n where "n = byte a * 65536 + byte b * 256"
  have n: "n div 262144 < 64" "n div 65536 = byte a" "n div 256 mod 256 = byte b"
    "n div 262144 * 262144 + n div 4096 mod 64 * 4096 + n div 64 mod 64 * 64 = n"
    using sextets [of "byte a" "byte b" 0] octets [of "byte a" "byte b" 0]
    by (simp_all add: n_def)
  show ?thesis
    unfolding b64_encode.simps n_def [symmetric] Let_def by (simp add: assms n decoded_char)
qed

lemma decode_one:
  assumes "\<And>i. i < 64 \<Longrightarrow> char_index 0 al (al ! i) = Some i"
  shows "b64_decode al (b64_encode al [a]) = Some [a]"
proof -
  define n where "n = byte a * 65536"
  have n: "n div 262144 < 64" "n div 65536 = byte a"
    "n div 262144 * 262144 + n div 4096 mod 64 * 4096 = n"
    using sextets [of "byte a" 0 0] octets [of "byte a" 0 0] by (simp_all add: n_def)
  show ?thesis
    unfolding b64_encode.simps n_def [symmetric] Let_def by (simp add: assms n)
qed

lemma b64_decode_encode_aux:
  assumes "\<And>i. i < 64 \<Longrightarrow> char_index 0 al (al ! i) = Some i"
  shows "b64_decode al (b64_encode al s) = Some s"
  using assms
proof (induction al s rule: b64_encode.induct)
  case (1 al a b c rest)
  then show ?case by (intro decode_group) blast+
next
  case (2 al a b)
  then show ?case by (rule decode_two)
next
  case (3 al a)
  then show ?case by (rule decode_one)
next
  case (4 al)
  show ?case by simp
qed

lemma b64_decode_encode:
  assumes "distinct al" "length al = 64"
  shows "b64_decode al (b64_encode al s) = Some s"
proof (rule b64_decode_encode_aux)
  show "char_index 0 al (al ! i) = Some i" if "i < 64" for i
    using char_index_nth [OF assms(1), of i 0] assms(2) that by simp
qed

text \<open>An encoding of \<open>n\<close> bytes takes \<open>\<lceil>4 n / 3\<rceil>\<close> characters of the alphabet.\<close>

lemma length_b64_encode: "length (b64_encode al s) = (4 * length s + 2) div 3"
  by (induction al s rule: b64_encode.induct) (simp_all add: Let_def)

lemma set_b64_encode:
  assumes "length al = 64"
  shows "set (b64_encode al s) \<subseteq> set al"
  using assms
proof (induction al s rule: b64_encode.induct)
  case (1 al a b c rest)
  have "(byte a * 65536 + byte b * 256 + byte c) div 262144 < 64"
    by (rule sextets) simp_all
  with 1 show ?case by (simp add: Let_def)
next
  case (2 al a b)
  have "(byte a * 65536 + byte b * 256) div 262144 < 64"
    using sextets(1) [of "byte a" "byte b" 0] by simp
  with 2 show ?case by (simp add: Let_def)
next
  case (3 al a)
  have "byte a * 65536 div 262144 < 64"
    using sextets(1) [of "byte a" 0 0] by simp
  with 3 show ?case by (simp add: Let_def del: div_mult_mult1_if)
qed simp

lemma url_alphabet_facts: "distinct url_alphabet" "length url_alphabet = 64"
  by (simp_all add: url_alphabet_def)

lemma raw_url_decode_encode [simp]: "raw_url_decode (raw_url_encode s) = Some s"
proof -
  have "\<not> is_newline c" if "c \<in> set url_alphabet" for c
    using that by (simp add: url_alphabet_def is_newline_def) (elim disjE; simp)
  then have "filter (\<lambda>c. \<not> is_newline c) (raw_url_encode s) = raw_url_encode s"
    using set_b64_encode [OF url_alphabet_facts(2), of s]
    by (intro filter_True) (auto simp: raw_url_encode_def)
  then show ?thesis
    using b64_decode_encode [OF url_alphabet_facts]
    by (simp add: raw_url_decode_def raw_url_encode_def)
qed

lemma raw_url_encode_inj: "raw_url_encode s = raw_url_encode t \<longleftrightarrow> s = t"
  by (metis option.inject raw_url_decode_encode)

lemma raw_url_encode_Nil [simp]: "raw_url_encode s = [] \<longleftrightarrow> s = []"
  using raw_url_encode_inj [of s "[]"] by (simp add: raw_url_encode_def)

lemma length_raw_url_encode_32: "length s = 32 \<Longrightarrow> length (raw_url_encode s) = 43"
  by (simp add: raw_url_encode_def length_b64_encode)

end
