(* ===== verification/Go_Strings.thy ===== *)
theory Go_Strings
  imports Go_Text
begin

section \<open>Searching, splitting and number formatting\<close>

text \<open>
  The rest of \<open>strings\<close> and \<open>strconv\<close> that the code uses: prefixes and suffixes,
  \<open>Contains\<close>, \<open>ContainsAny\<close>, \<open>Split\<close> on one character, \<open>ToUpper\<close>, and
  \<open>ParseUint\<close>/\<open>FormatUint\<close> in base 10 with 63 bits, with the round trip between them.
\<close>

subsection \<open>Prefixes, suffixes and substrings\<close>

definition has_prefix :: "bytes \<Rightarrow> bytes \<Rightarrow> bool" where
  "has_prefix s p \<longleftrightarrow> prefix p s"

definition has_suffix :: "bytes \<Rightarrow> bytes \<Rightarrow> bool" where
  "has_suffix s p \<longleftrightarrow> suffix p s"

definition trim_suffix :: "bytes \<Rightarrow> bytes \<Rightarrow> bytes" where
  "trim_suffix s p = (if has_suffix s p then take (length s - length p) s else s)"

fun strings_contains :: "bytes \<Rightarrow> bytes \<Rightarrow> bool" where
  "strings_contains [] sub = (sub = [])"
| "strings_contains (c # s) sub = (has_prefix (c # s) sub \<or> strings_contains s sub)"

text \<open>\<open>strings.ContainsAny\<close> with a set of ASCII characters.\<close>

definition contains_any :: "bytes \<Rightarrow> bytes \<Rightarrow> bool" where
  "contains_any s chars \<longleftrightarrow> list_ex (\<lambda>c. c \<in> set chars) s"

lemma has_prefix_append [simp]: "has_prefix (p @ s) p"
  by (simp add: has_prefix_def)

lemma has_suffix_append [simp]: "has_suffix (s @ p) p"
  by (simp add: has_suffix_def suffix_def)

lemma has_suffix_rev [text_simps]: "has_suffix s p = prefix (rev p) (rev s)"
  by (simp add: has_suffix_def suffix_to_prefix)

lemma trim_suffix_append [simp]: "trim_suffix (s @ p) p = s"
  by (simp add: trim_suffix_def)

lemma strings_contains_sublist: "strings_contains s sub \<longleftrightarrow> sublist sub s"
  by (induction s) (auto simp: has_prefix_def sublist_Cons_right)

lemma strings_contains_char [simp]: "strings_contains s [c] \<longleftrightarrow> c \<in> set s"
  by (induction s) (auto simp: has_prefix_def)

lemmas [text_simps] = has_prefix_def trim_suffix_def contains_any_def

subsection \<open>Splitting on a separator character\<close>

fun split_on :: "char \<Rightarrow> bytes \<Rightarrow> bytes list" where
  "split_on sep [] = [[]]"
| "split_on sep (c # s) =
     (if c = sep then [] # split_on sep s
      else (case split_on sep s of [] \<Rightarrow> [[c]] | w # ws \<Rightarrow> (c # w) # ws))"

fun join_with :: "char \<Rightarrow> bytes list \<Rightarrow> bytes" where
  "join_with sep [] = []"
| "join_with sep [w] = w"
| "join_with sep (w # ws) = w @ sep # join_with sep ws"

lemma split_on_nonempty [simp]: "split_on sep s \<noteq> []"
  by (cases s) (auto split: list.split)

lemma split_on_Cons_other:
  "c \<noteq> sep \<Longrightarrow> split_on sep (c # s) = (c # hd (split_on sep s)) # tl (split_on sep s)"
  by (simp split: list.split)

text \<open>\<open>Split\<close> has the inverse \<open>Join\<close>, and no piece holds the separator.\<close>

lemma join_split_on [simp]: "join_with sep (split_on sep s) = s"
proof (induction s)
  case (Cons c s)
  then show ?case
    by (cases "split_on sep s"; cases "tl (split_on sep s)") (auto split: list.split)
qed simp

lemma split_on_no_sep: "w \<in> set (split_on sep s) \<Longrightarrow> sep \<notin> set w"
proof (induction s arbitrary: w)
  case (Cons c s)
  show ?case
  proof (cases "c = sep")
    case False
    then have "w = c # hd (split_on sep s) \<or> w \<in> set (tl (split_on sep s))"
      using Cons.prems by (simp add: split_on_Cons_other del: split_on.simps)
    then show ?thesis
      using Cons.IH False by (metis hd_in_set list.set_sel(2) set_ConsD split_on_nonempty)
  qed (use Cons in auto)
qed simp

lemma split_on_append_sep: "split_on sep (s @ sep # t) = split_on sep s @ split_on sep t"
  by (induction s) (auto split: list.split)

lemma split_on_single: "sep \<notin> set s \<Longrightarrow> split_on sep s = [s]"
  by (induction s) auto

lemma split_on_single_iff: "split_on sep s = [s] \<longleftrightarrow> sep \<notin> set s"
  by (metis list.set_intros(1) split_on_no_sep split_on_single)

lemma split_on_chars: "w \<in> set (split_on sep s) \<Longrightarrow> set w \<subseteq> set s"
proof (induction s arbitrary: w)
  case (Cons c s)
  show ?case
  proof (cases "c = sep")
    case False
    then have "w = c # hd (split_on sep s) \<or> w \<in> set (tl (split_on sep s))"
      using Cons.prems by (simp add: split_on_Cons_other del: split_on.simps)
    then show ?thesis
      using Cons.IH by (metis hd_in_set insert_mono list.set_sel(2) list.simps(15)
          split_on_nonempty subset_insertI2)
  qed (use Cons in fastforce)
qed simp

lemma split_on_covers: "c \<in> set s \<Longrightarrow> c \<noteq> sep \<Longrightarrow> \<exists>w \<in> set (split_on sep s). c \<in> set w"
proof (induction s)
  case (Cons d s)
  show ?case
  proof (cases "d = sep")
    case False
    show ?thesis
    proof (cases "c = d")
      case True
      then show ?thesis
        using False by (simp add: split_on_Cons_other del: split_on.simps)
    next
      case False
      with Cons obtain w where w: "w \<in> set (split_on sep s)" "c \<in> set w" by auto
      then have "w = hd (split_on sep s) \<or> w \<in> set (tl (split_on sep s))"
        by (metis list.sel(1,3) list.set_cases)
      with w \<open>d \<noteq> sep\<close> show ?thesis
        by (auto simp: split_on_Cons_other simp del: split_on.simps)
    qed
  qed (use Cons in auto)
qed simp

subsection \<open>Upper case\<close>

definition ascii_upper :: "char \<Rightarrow> char" where
  "ascii_upper c = (if 97 \<le> byte c \<and> byte c \<le> 122 then char_of (byte c - 32) else c)"

text \<open>
  \<open>strings.ToUpper\<close> maps a string of ASCII bytes by itself; any other string goes through
  the Unicode case tables.
\<close>

definition to_upper :: "unicode_lib \<Rightarrow> bytes \<Rightarrow> bytes" where
  "to_upper U s = (if ascii s then map ascii_upper s else upper_text U s)"

lemma byte_ascii_upper: "byte (ascii_upper c) = (if 97 \<le> byte c \<and> byte c \<le> 122 then byte c - 32 else byte c)"
proof -
  have "byte c - 32 < 256" using byte_less_256 [of c] by linarith
  then show ?thesis by (simp add: ascii_upper_def)
qed

lemma ascii_upper_idem [simp]: "ascii_upper (ascii_upper c) = ascii_upper c"
  unfolding ascii_upper_def [of "ascii_upper c"] by (auto simp: byte_ascii_upper)

lemma to_upper_idem: "ascii s \<Longrightarrow> to_upper U (to_upper U s) = to_upper U s"
  by (auto simp: to_upper_def ascii_def list_all_iff byte_ascii_upper)

lemmas [text_simps] = to_upper_def ascii_def ascii_upper_def

subsection \<open>Lower case and words\<close>

definition ascii_lower :: "char \<Rightarrow> char" where
  "ascii_lower c = (if 65 \<le> byte c \<and> byte c \<le> 90 then char_of (byte c + 32) else c)"

definition to_lower :: "unicode_lib \<Rightarrow> bytes \<Rightarrow> bytes" where
  "to_lower U s = (if ascii s then map ascii_lower s else lower_text U s)"

text \<open>\<open>strings.EqualFold\<close>: two ASCII strings are compared without the case of their letters.\<close>

definition equal_fold :: "unicode_lib \<Rightarrow> bytes \<Rightarrow> bytes \<Rightarrow> bool" where
  "equal_fold U s t =
    (if ascii s \<and> ascii t then map ascii_lower s = map ascii_lower t else fold_text U s t)"

text \<open>\<open>strings.Fields\<close>: the words between runs of white space. \<open>fields_from w s\<close> has read the word \<open>w\<close>.\<close>

function fields_from :: "bytes \<Rightarrow> bytes \<Rightarrow> bytes list" where
  "fields_from w [] = (if w = [] then [] else [w])"
| "fields_from w (b # s) =
    (let (r, n) = decode_rune (b # s)
     in if is_space r then (if w = [] then [] else [w]) @ fields_from [] (drop (n - 1) s)
        else fields_from (w @ b # take (n - 1) s) (drop (n - 1) s))"
  by pat_completeness auto
termination
  by (relation "measure (length \<circ> snd)") auto

definition string_fields :: "bytes \<Rightarrow> bytes list" where
  "string_fields s = fields_from [] s"

subsection \<open>Decimal numbers\<close>

datatype num_error = ErrSyntax | ErrRange

definition is_digit :: "char \<Rightarrow> bool" where
  "is_digit c \<longleftrightarrow> 48 \<le> byte c \<and> byte c \<le> 57"

definition digit_value :: "char \<Rightarrow> nat" where
  "digit_value c = byte c - 48"

definition digit_char :: "nat \<Rightarrow> char" where
  "digit_char d = char_of (48 + d)"

definition max_uint63 :: nat where
  "max_uint63 = 2 ^ 63 - 1"

text \<open>
  \<open>strconv.ParseUint(s, 10, 63)\<close>. It stops at the first character that is no digit
  (\<open>ErrSyntax\<close>, value 0) or at the first digit that takes the value past the limit
  (\<open>ErrRange\<close>, value \<open>2^63 - 1\<close>); both the value and the error are returned.
\<close>

fun parse_digits :: "nat \<Rightarrow> bytes \<Rightarrow> nat \<times> num_error option" where
  "parse_digits n [] = (n, None)"
| "parse_digits n (c # s) =
     (if \<not> is_digit c then (0, Some ErrSyntax)
      else if n * 10 + digit_value c > max_uint63 then (max_uint63, Some ErrRange)
      else parse_digits (n * 10 + digit_value c) s)"

definition parse_uint63 :: "bytes \<Rightarrow> nat \<times> num_error option" where
  "parse_uint63 s = (if s = [] then (0, Some ErrSyntax) else parse_digits 0 s)"

text \<open>\<open>strconv.FormatUint(n, 10)\<close>.\<close>

fun format_uint :: "nat \<Rightarrow> bytes" where
  "format_uint n =
     (if n < 10 then [digit_char n] else format_uint (n div 10) @ [digit_char (n mod 10)])"

declare format_uint.simps [simp del]

lemmas [text_simps] =
  is_digit_def digit_value_def digit_char_def max_uint63_def parse_uint63_def

lemma digit_char_digit [simp]: "d < 10 \<Longrightarrow> is_digit (digit_char d)"
  by (simp add: is_digit_def digit_char_def)

lemma digit_value_char [simp]: "d < 10 \<Longrightarrow> digit_value (digit_char d) = d"
  by (simp add: digit_value_def digit_char_def)

lemma digit_chars [simp]:
  "digit_char 0 = CHR ''0''" "digit_char (Suc 0) = CHR ''1''" "digit_char 2 = CHR ''2''"
  "digit_char 3 = CHR ''3''" "digit_char 4 = CHR ''4''" "digit_char 5 = CHR ''5''"
  "digit_char 6 = CHR ''6''" "digit_char 7 = CHR ''7''" "digit_char 8 = CHR ''8''"
  "digit_char 9 = CHR ''9''"
  unfolding digit_char_def by (rule of_char_eqI [where 'a = nat], simp)+

lemma format_uint_nonempty [simp]: "format_uint n \<noteq> []"
  by (subst format_uint.simps) simp

lemma parse_digits_bound: "n \<le> max_uint63 \<Longrightarrow> fst (parse_digits n s) \<le> max_uint63"
  by (induction n s rule: parse_digits.induct) auto

lemma parse_digits_append:
  "snd (parse_digits n s) = None \<Longrightarrow>
   parse_digits n (s @ t) = parse_digits (fst (parse_digits n s)) t"
  by (induction n s rule: parse_digits.induct) (auto split: if_splits)

text \<open>Formatting and parsing are inverse on the representable numbers.\<close>

lemma parse_format_digits: "n \<le> max_uint63 \<Longrightarrow> parse_digits 0 (format_uint n) = (n, None)"
proof (induction n rule: format_uint.induct)
  case (1 n)
  show ?case
  proof (cases "n < 10")
    case True
    then show ?thesis
      using 1 by (subst format_uint.simps) simp
  next
    case False
    have "n div 10 \<le> max_uint63" using 1 by (meson div_le_dividend le_trans)
    with 1 False have "parse_digits 0 (format_uint (n div 10)) = (n div 10, None)" by simp
    with "1.prems" False show ?thesis
      by (subst format_uint.simps) (simp add: parse_digits_append)
  qed
qed

lemma parse_format_uint: "n \<le> max_uint63 \<Longrightarrow> parse_uint63 (format_uint n) = (n, None)"
  by (simp add: parse_uint63_def parse_format_digits)

lemma parse_uint63_bound: "fst (parse_uint63 s) \<le> max_uint63"
  by (simp add: parse_uint63_def parse_digits_bound)

text \<open>A canonical numeral is determined by its value.\<close>

lemma canonical_numeral_inj:
  "format_uint (fst (parse_uint63 v)) = v \<Longrightarrow> format_uint (fst (parse_uint63 w)) = w \<Longrightarrow>
   fst (parse_uint63 v) = fst (parse_uint63 w) \<Longrightarrow> v = w"
  by metis

subsection \<open>Printable ASCII\<close>

text \<open>The character sets of nonces and request identifiers: letters, digits, \<open>-\<close>, \<open>_\<close>.\<close>

definition url_safe_rune :: "nat \<Rightarrow> bool" where
  "url_safe_rune r \<longleftrightarrow> 97 \<le> r \<and> r \<le> 122 \<or> 65 \<le> r \<and> r \<le> 90 \<or> 48 \<le> r \<and> r \<le> 57 \<or> r = 45 \<or> r = 95"

lemma runes_all_ascii:
  assumes "list_all P (runes s)" and "\<And>r. P r \<Longrightarrow> r < 0x80"
  shows "ascii s"
  using assms
proof (induction s rule: runes.induct)
  case 1
  then show ?case by (simp add: ascii_def)
next
  case (2 b s)
  obtain r n where rn: "decode_rune (b # s) = (r, n)" by fastforce
  then have r: "r < 0x80"
    using "2.prems" by (simp add: runes.simps(2))
  have "byte b < 0x80"
  proof (rule ccontr)
    assume big: "\<not> byte b < 0x80"
    then show False
      using decode_rune_nonascii [of b s] rn r by simp
  qed
  then show ?case
    using "2.IH" [OF rn [symmetric]] "2.prems" rn by (simp add: ascii_def)
qed

text \<open>Distinct, non-empty names without surrounding white space.\<close>

definition trimmed_names :: "bytes list \<Rightarrow> bool" where
  "trimmed_names vs \<longleftrightarrow> distinct vs \<and> list_all (\<lambda>v. v \<noteq> [] \<and> trim_space v = v) vs"

end
