(* ===== verification/Json.thy ===== *)
theory Json
  imports Go_Strings
begin

section \<open>JSON\<close>

text \<open>
  The decoding half of \<open>encoding/json\<close>, as far as the code uses it: a text is decoded into a
  value whose objects keep their members in the order of the text, duplicates included. A
  \<open>json.RawMessage\<close>, which the code only ever decodes again, is the value it decodes to.
  Strings are unquoted as Go does: an escape of a surrogate pair is one rune, a lone surrogate
  and an invalid UTF-8 sequence become \<open>U+FFFD\<close>. The nesting limit is Go's 10000.

  The decoder recurses on a fuel of twice the length of the text plus two: between two steps
  that consume no character there is one that does.
\<close>

datatype json =
    JNull
  | JBool bool
  | JNumber bytes
  | JString bytes
  | JArray "json list"
  | JObject "(bytes \<times> json) list"

subsection \<open>Runes and quoted strings\<close>

abbreviation chr :: "nat \<Rightarrow> char" where
  "chr \<equiv> char_of"

definition encode_rune :: "nat \<Rightarrow> bytes" where
  "encode_rune r =
    (if r < 0x80 then [chr r]
     else if r < 0x800 then [chr (0xC0 + r div 64), chr (0x80 + r mod 64)]
     else if 0x10FFFF < r \<or> 0xD800 \<le> r \<and> r \<le> 0xDFFF then [CHR 0xEF, CHR 0xBF, CHR 0xBD]
     else if r < 0x10000 then
       [chr (0xE0 + r div 4096), chr (0x80 + r div 64 mod 64), chr (0x80 + r mod 64)]
     else [chr (0xF0 + r div 262144), chr (0x80 + r div 4096 mod 64),
           chr (0x80 + r div 64 mod 64), chr (0x80 + r mod 64)])"

definition hex_value :: "char \<Rightarrow> nat option" where
  "hex_value c =
    (if 48 \<le> byte c \<and> byte c \<le> 57 then Some (byte c - 48)
     else if 97 \<le> byte c \<and> byte c \<le> 102 then Some (byte c - 87)
     else if 65 \<le> byte c \<and> byte c \<le> 70 then Some (byte c - 55)
     else None)"

fun hex4 :: "bytes \<Rightarrow> (nat \<times> bytes) option" where
  "hex4 (a # b # c # d # rest) =
    (case (hex_value a, hex_value b, hex_value c, hex_value d) of
       (Some w, Some x, Some y, Some z) \<Rightarrow> Some (w * 4096 + x * 256 + y * 16 + z, rest)
     | _ \<Rightarrow> None)"
| "hex4 _ = None"

text \<open>A second escape that completes a surrogate pair.\<close>

definition low_surrogate :: "nat \<Rightarrow> bytes \<Rightarrow> (nat \<times> bytes) option" where
  "low_surrogate high rest =
    (case rest of
       b # u # digits \<Rightarrow>
         (if b = CHR 0x5C \<and> u = CHR ''u'' then
            (case hex4 digits of
               Some (low, rest') \<Rightarrow>
                 if 0xD800 \<le> high \<and> high \<le> 0xDBFF \<and> 0xDC00 \<le> low \<and> low \<le> 0xDFFF
                 then Some (0x10000 + (high - 0xD800) * 0x400 + (low - 0xDC00), rest')
                 else None
             | None \<Rightarrow> None)
          else None)
     | _ \<Rightarrow> None)"

definition unicode_escape :: "bytes \<Rightarrow> (bytes \<times> bytes) option" where
  "unicode_escape digits =
    (case hex4 digits of
       None \<Rightarrow> None
     | Some (r, rest) \<Rightarrow>
         if 0xD800 \<le> r \<and> r \<le> 0xDFFF then
           (case low_surrogate r rest of
              Some (rune, rest') \<Rightarrow> Some (encode_rune rune, rest')
            | None \<Rightarrow> Some (encode_rune rune_error, rest))
         else Some (encode_rune r, rest))"

definition simple_escape :: "char \<Rightarrow> char option" where
  "simple_escape c =
    (if c = CHR 0x22 \<or> c = CHR 0x5C \<or> c = CHR ''/'' then Some c
     else if c = CHR ''b'' then Some (CHR 0x08)
     else if c = CHR ''f'' then Some (CHR 0x0C)
     else if c = CHR ''n'' then Some (CHR 0x0A)
     else if c = CHR ''r'' then Some (CHR 0x0D)
     else if c = CHR ''t'' then Some (CHR 0x09)
     else None)"

definition prepend :: "bytes \<Rightarrow> (bytes \<times> bytes) option \<Rightarrow> (bytes \<times> bytes) option" where
  "prepend s r = map_option (\<lambda>(t, rest). (s @ t, rest)) r"

lemma hex4_length: "hex4 s = Some (r, t) \<Longrightarrow> length t < length s"
  by (induction s rule: hex4.induct) (auto split: option.splits)

lemma low_surrogate_length: "low_surrogate h s = Some (r, t) \<Longrightarrow> length t < length s"
  by (auto simp: low_surrogate_def split: list.splits if_splits option.splits dest!: hex4_length)

lemma unicode_escape_length: "unicode_escape s = Some (r, t) \<Longrightarrow> length t < length s"
  by (auto simp: unicode_escape_def split: option.splits if_splits
      dest!: hex4_length low_surrogate_length)

text \<open>The rest of a quoted string, after its opening quote: the decoded text and what follows.\<close>

function quoted :: "bytes \<Rightarrow> (bytes \<times> bytes) option" where
  "quoted [] = None"
| "quoted (c # s) =
    (if c = CHR 0x22 then Some ([], s)
     else if c = CHR 0x5C then
       (case s of
          [] \<Rightarrow> None
        | e # s' \<Rightarrow>
            if e = CHR ''u'' then
              (case unicode_escape s' of
                 None \<Rightarrow> None
               | Some (t, rest) \<Rightarrow> prepend t (quoted rest))
            else
              (case simple_escape e of
                 None \<Rightarrow> None
               | Some x \<Rightarrow> prepend [x] (quoted s')))
     else if byte c < 0x20 then None
     else if byte c < 0x80 then prepend [c] (quoted s)
     else (let (r, n) = decode_rune (c # s) in prepend (encode_rune r) (quoted (drop (n - 1) s))))"
  by pat_completeness auto
termination
  by (relation "measure length") (auto dest!: unicode_escape_length)

subsection \<open>Values\<close>

definition json_space :: "char \<Rightarrow> bool" where
  "json_space c \<longleftrightarrow> byte c = 32 \<or> byte c = 9 \<or> byte c = 10 \<or> byte c = 13"

definition skip_space :: "bytes \<Rightarrow> bytes" where
  "skip_space s = dropWhile json_space s"

definition digits_of :: "bytes \<Rightarrow> bytes \<times> bytes" where
  "digits_of s = (takeWhile is_digit s, dropWhile is_digit s)"

definition integer_part :: "bytes \<Rightarrow> (bytes \<times> bytes) option" where
  "integer_part s =
    (case s of
       [] \<Rightarrow> None
     | c # rest \<Rightarrow>
         if c = CHR ''0'' then Some ([c], rest)
         else if is_digit c then Some (digits_of s)
         else None)"

definition fraction_part :: "bytes \<Rightarrow> (bytes \<times> bytes) option" where
  "fraction_part s =
    (case s of
       c # rest \<Rightarrow>
         if c = CHR ''.'' then
           (let (ds, rest') = digits_of rest in if ds = [] then None else Some (c # ds, rest'))
         else Some ([], s)
     | [] \<Rightarrow> Some ([], []))"

definition exponent_part :: "bytes \<Rightarrow> (bytes \<times> bytes) option" where
  "exponent_part s =
    (case s of
       c # rest \<Rightarrow>
         if c = CHR ''e'' \<or> c = CHR ''E'' then
           (let (sign, rest') =
              (case rest of
                 d # r \<Rightarrow> if d = CHR ''+'' \<or> d = CHR ''-'' then ([d], r) else ([], rest)
               | [] \<Rightarrow> ([], []));
              (ds, rest'') = digits_of rest'
            in if ds = [] then None else Some (c # sign @ ds, rest''))
         else Some ([], s)
     | [] \<Rightarrow> Some ([], []))"

definition number :: "bytes \<Rightarrow> (bytes \<times> bytes) option" where
  "number s =
    (let (sign, s1) = (case s of
         c # rest \<Rightarrow> if c = CHR ''-'' then ([c], rest) else ([], s)
       | [] \<Rightarrow> ([], []))
     in case integer_part s1 of
       None \<Rightarrow> None
     | Some (i, s2) \<Rightarrow>
       (case fraction_part s2 of
          None \<Rightarrow> None
        | Some (f, s3) \<Rightarrow>
          (case exponent_part s3 of
             None \<Rightarrow> None
           | Some (e, s4) \<Rightarrow> Some (sign @ i @ f @ e, s4))))"

fun json_value :: "nat \<Rightarrow> nat \<Rightarrow> bytes \<Rightarrow> (json \<times> bytes) option"
  and json_members :: "nat \<Rightarrow> nat \<Rightarrow> bytes \<Rightarrow> ((bytes \<times> json) list \<times> bytes) option"
  and json_elements :: "nat \<Rightarrow> nat \<Rightarrow> bytes \<Rightarrow> (json list \<times> bytes) option" where
  "json_value 0 depth s = None"
| "json_value (Suc fuel) depth s =
    (case skip_space s of
       [] \<Rightarrow> None
     | c # rest \<Rightarrow>
         if c = CHR ''{'' then
           (if depth = 0 then None
            else case skip_space rest of
              [] \<Rightarrow> None
            | d # rest' \<Rightarrow>
                if d = CHR ''}'' then Some (JObject [], rest')
                else map_option (\<lambda>(ms, r). (JObject ms, r)) (json_members fuel (depth - 1) (d # rest')))
         else if c = CHR ''['' then
           (if depth = 0 then None
            else case skip_space rest of
              [] \<Rightarrow> None
            | d # rest' \<Rightarrow>
                if d = CHR '']'' then Some (JArray [], rest')
                else map_option (\<lambda>(vs, r). (JArray vs, r)) (json_elements fuel (depth - 1) (d # rest')))
         else if c = CHR 0x22 then map_option (\<lambda>(t, r). (JString t, r)) (quoted rest)
         else if has_prefix (c # rest) ''true'' then Some (JBool True, drop 3 rest)
         else if has_prefix (c # rest) ''false'' then Some (JBool False, drop 4 rest)
         else if has_prefix (c # rest) ''null'' then Some (JNull, drop 3 rest)
         else map_option (\<lambda>(t, r). (JNumber t, r)) (number (c # rest)))"
| "json_members 0 depth s = None"
| "json_members (Suc fuel) depth s =
    (case skip_space s of
       [] \<Rightarrow> None
     | q # rest \<Rightarrow>
         if q \<noteq> CHR 0x22 then None
         else case quoted rest of
           None \<Rightarrow> None
         | Some (key, rest1) \<Rightarrow>
           (case skip_space rest1 of
              [] \<Rightarrow> None
            | colon # rest2 \<Rightarrow>
                if colon \<noteq> CHR '':'' then None
                else case json_value fuel depth rest2 of
                  None \<Rightarrow> None
                | Some (v, rest3) \<Rightarrow>
                  (case skip_space rest3 of
                     [] \<Rightarrow> None
                   | d # rest4 \<Rightarrow>
                       if d = CHR ''}'' then Some ([(key, v)], rest4)
                       else if d = CHR '','' then
                         map_option (\<lambda>(ms, r). ((key, v) # ms, r)) (json_members fuel depth rest4)
                       else None)))"
| "json_elements 0 depth s = None"
| "json_elements (Suc fuel) depth s =
    (case json_value fuel depth s of
       None \<Rightarrow> None
     | Some (v, rest) \<Rightarrow>
       (case skip_space rest of
          [] \<Rightarrow> None
        | d # rest' \<Rightarrow>
            if d = CHR '']'' then Some ([v], rest')
            else if d = CHR '','' then
              map_option (\<lambda>(vs, r). (v # vs, r)) (json_elements fuel depth rest')
            else None))"

definition max_nesting_depth :: nat where
  "max_nesting_depth = 10000"

definition json_unmarshal :: "bytes \<Rightarrow> json option" where
  "json_unmarshal s =
    (case json_value (2 * length s + 2) max_nesting_depth s of
       None \<Rightarrow> None
     | Some (v, rest) \<Rightarrow> if skip_space rest = [] then Some v else None)"

text \<open>Decoding into a \<open>map[string]json.RawMessage\<close>: the last member of a name wins, and \<open>null\<close>
  leaves the map nil, which reads as an empty map.\<close>

fun json_object :: "json \<Rightarrow> (bytes, json) fmap option" where
  "json_object (JObject ms) = Some (fmap_of_list (rev ms))"
| "json_object JNull = Some fmempty"
| "json_object _ = None"

text \<open>Decoding into a \<open>string\<close>, which \<open>null\<close> leaves empty.\<close>

fun json_string :: "json \<Rightarrow> bytes option" where
  "json_string (JString s) = Some s"
| "json_string JNull = Some []"
| "json_string _ = None"

fun distinct_keys :: "json \<Rightarrow> bool" where
  "distinct_keys (JObject ms) = (distinct (map fst ms) \<and> list_all (\<lambda>m. distinct_keys (snd m)) ms)"
| "distinct_keys (JArray vs) = list_all distinct_keys vs"
| "distinct_keys _ = True"

end
