(* ===== verification/Go_Errors.thy ===== *)
theory Go_Errors
  imports Prelude
begin

section \<open>Errors as values\<close>

text \<open>
  Every sentinel error of the code is a constructor of its package's datatype. A \<open>go_error\<close>
  is a sentinel, an error wrapped with \<open>fmt.Errorf\<close> and \<open>%w\<close> (which keeps the errors it
  wraps visible to \<open>errors.Is\<close>), or an error without a sentinel, known by its message. A
  function that returns a value or an error has type \<open>'a result\<close>, with \<open>Inl\<close> for the
  error.
\<close>

datatype domain_error =
    ErrLeaseNotFound
  | ErrWorkloadNotFound
  | ErrInvalidLease
  | ErrInvalidWorkload
  | ErrInvalidAttenuation
  | ErrUnauthenticated
  | ErrReplayDetected
  | ErrLeaseRevoked
  | ErrConflict
  | ErrAuthorityEscalation
  | ErrMaxUsesExceeded

datatype resource_error =
    ErrInvalidResource
  | ErrDuplicateResource
  | ErrResourceNotCanonical

datatype attenuation_error =
    ErrInvalidDepth
  | ErrMaxDepthExceeded
  | ErrMaxDepthExpanded
  | ErrExpirationExtended
  | ErrActionsExpanded
  | ErrResourcesExpanded
  | ErrNotStrict
  | ErrInvalidContext
  | ErrAudienceExpanded
  | ErrTTLExpanded
  | ErrDelegationForbidden
  | ErrUsesExpanded
  | ErrStatefulDelegation
  | ErrConstraintsWeakened

datatype crypto_error =
    ErrInvalidPrivateKey
  | ErrInvalidPublicKey
  | ErrInvalidToken
  | ErrTokenExpired
  | ErrInvalidAudience
  | ErrInvalidIssuer
  | ErrInvalidSignature
  | ErrTokenNotYetValid

text \<open>The sentinel errors of the packages \<open>pop\<close>, \<open>middleware\<close> and \<open>autherrors\<close> of the SDK.\<close>

datatype sdk_error =
    ErrInvalidProof
  | ErrInvalidConfig
  | ErrInvalidJWKS
  | ErrUsesExhausted
  | ErrLeaseRejected
  | ErrUnavailable

datatype go_error =
    DomainE domain_error
  | ResourceE resource_error
  | AttenuationE attenuation_error
  | CryptoE crypto_error
  | SdkE sdk_error
  | Opaque string
  | Wrapped string "go_error list"

type_synonym 'a result = "go_error + 'a"

text \<open>\<open>errors.Is(err, target)\<close>: the error itself, or one it wraps, is the target.\<close>

fun errors_is :: "go_error \<Rightarrow> go_error \<Rightarrow> bool" where
  "errors_is (Wrapped msg es) t \<longleftrightarrow> Wrapped msg es = t \<or> list_ex (\<lambda>e. errors_is e t) es"
| "errors_is e t \<longleftrightarrow> e = t"

lemma errors_is_refl [simp]: "errors_is e e"
  by (cases e) simp_all

lemma errors_is_wrapped [simp]:
  "e \<in> set es \<Longrightarrow> errors_is e t \<Longrightarrow> errors_is (Wrapped msg es) t"
  by (auto simp: list_ex_iff)

text \<open>Whether a call succeeded.\<close>

definition ok :: "'a result \<Rightarrow> bool" where
  "ok r \<longleftrightarrow> (\<exists>x. r = Inr x)"

lemma ok_simps [simp]: "ok (Inr x)" "\<not> ok (Inl e)"
  by (simp_all add: ok_def)

lemma ok_case: "ok r \<longleftrightarrow> (case r of Inl _ \<Rightarrow> False | Inr _ \<Rightarrow> True)"
  by (cases r) simp_all

text \<open>A guard that returns an error.\<close>

lemma guard_Inr [simp]:
  "(if b then Inl e else r) = Inr x \<longleftrightarrow> \<not> b \<and> r = Inr x"
  "(if b then r else Inl e) = Inr x \<longleftrightarrow> b \<and> r = Inr x"
  by auto

lemma case_error_Inr:
  "(case r of Inl e \<Rightarrow> Inl (f e) | Inr y \<Rightarrow> g y) = Inr x \<longleftrightarrow> (\<exists>y. r = Inr y \<and> g y = Inr x)"
  by (cases r) auto

end
