(* ===== verification/Interfaces.thy ===== *)
theory Interfaces
  imports Prelude
begin

section \<open>Interfaces between the components\<close>

text \<open>
  The contracts that components rely on, each a locale: the operations are its parameters,
  the laws the provider promises its assumptions, and the consequences a client needs are
  proved once inside it. The component that provides an operation interprets the locale on
  its own definitions.
\<close>

subsection \<open>Scopes that can be compared\<close>

text \<open>
  A scope says which values it admits, and a check compares two scopes without looking at
  values. Resource patterns (\<open>Covers\<close> and \<open>Allows\<close>), constraint sets (\<open>AtLeastAsStrong\<close>
  and \<open>Satisfied\<close>) and whole authorities follow this contract.
\<close>

locale scope_check =
  fixes wellformed :: "'s \<Rightarrow> bool"
    and covers :: "'s \<Rightarrow> 's \<Rightarrow> bool"
    and admits :: "'s \<Rightarrow> 'v \<Rightarrow> bool"
  assumes covers_wellformed: "covers s t \<Longrightarrow> wellformed s \<and> wellformed t"
    and covers_refl: "wellformed s \<Longrightarrow> covers s s"
    and covers_trans: "covers s t \<Longrightarrow> covers t u \<Longrightarrow> covers s u"
    and covers_admits: "covers s t \<Longrightarrow> admits t v \<Longrightarrow> admits s v"
begin

text \<open>A list of scopes admits what one of its members admits.\<close>

lemma list_refl:
  "list_all wellformed ss \<Longrightarrow> list_all (\<lambda>t. list_ex (\<lambda>s. covers s t) ss) ss"
  by (auto simp: list_all_iff list_ex_iff intro: covers_refl)

lemma list_trans:
  assumes "list_all (\<lambda>t. list_ex (\<lambda>s. covers s t) ss) ts"
    and "list_all (\<lambda>u. list_ex (\<lambda>t. covers t u) ts) us"
  shows "list_all (\<lambda>u. list_ex (\<lambda>s. covers s u) ss) us"
  using assms covers_trans unfolding list_all_iff list_ex_iff by meson

lemma list_admits:
  assumes "list_all (\<lambda>t. list_ex (\<lambda>s. covers s t) ss) ts"
    and "list_ex (\<lambda>t. admits t v) ts"
  shows "list_ex (\<lambda>s. admits s v) ss"
  using assms covers_admits unfolding list_all_iff list_ex_iff by meson

text \<open>Along a chain of comparisons the last scope is within the first.\<close>

lemma chain_covers:
  assumes "successively covers (s # ss)" and "wellformed s"
  shows "covers s (last (s # ss))"
  using assms
proof (induction ss arbitrary: s)
  case Nil
  then show ?case by (simp add: covers_refl)
next
  case (Cons t ss)
  from Cons.prems have "covers s t" "successively covers (t # ss)" by auto
  then have "covers t (last (t # ss))"
    using Cons.IH covers_wellformed by blast
  from covers_trans [OF \<open>covers s t\<close> this] show ?case
    by simp
qed

end

subsection \<open>Stores that only move forward\<close>

text \<open>
  A store runs operations one at a time. Each admissible operation keeps the invariant of the
  store, and its result extends the state it started from, in a sense that is transitive: what
  extension preserves, every later state has. The database of the repository follows this
  contract.
\<close>

locale guarded_store =
  fixes inv :: "'s \<Rightarrow> bool"
    and extends :: "'s \<Rightarrow> 's \<Rightarrow> bool"
    and admissible :: "'op \<Rightarrow> bool"
    and run :: "'op \<Rightarrow> 's \<Rightarrow> 's"
  assumes run_inv: "inv s \<Longrightarrow> admissible op \<Longrightarrow> inv (run op s)"
    and run_extends: "inv s \<Longrightarrow> admissible op \<Longrightarrow> extends s (run op s)"
    and extends_refl: "extends s s"
    and extends_trans: "extends s t \<Longrightarrow> extends t u \<Longrightarrow> extends s u"
begin

lemma fold_inv: "inv s \<Longrightarrow> list_all admissible ops \<Longrightarrow> inv (fold run ops s)"
  by (induction ops arbitrary: s) (simp_all add: run_inv)

lemma fold_extends: "inv s \<Longrightarrow> list_all admissible ops \<Longrightarrow> extends s (fold run ops s)"
proof (induction ops arbitrary: s)
  case (Cons op ops)
  then have "extends (run op s) (fold run ops (run op s))"
    using run_inv by simp
  then show ?case
    using Cons.prems run_extends extends_trans by fastforce
qed (simp add: extends_refl)

lemma fold_keeps:
  assumes "inv s" "list_all admissible ops" "\<And>t u. P t \<Longrightarrow> inv u \<Longrightarrow> extends t u \<Longrightarrow> P u" "P s"
  shows "P (fold run ops s)"
  using assms fold_inv fold_extends by blast

end

end
