(* ===== verification/Resource.thy ===== *)
theory Resource
  imports Go_Strings Go_Errors Interfaces
begin

section \<open>Resource patterns\<close>

text \<open>
  Package \<open>internal/resource\<close>: canonical resource strings, patterns whose only wildcard is a
  complete final segment, and the two comparisons the authority checks use. \<open>Covers\<close> compares
  a parent pattern with a child pattern, \<open>Allows\<close> a pattern with a concrete resource, and
  \<open>Subset\<close> lists of patterns.
\<close>

subsection \<open>Canonical form\<close>

definition bad_rune :: "nat \<Rightarrow> bool" where
  "bad_rune r \<longleftrightarrow> is_control r \<or> is_space r
     \<or> is_pattern_syntax r \<and> r \<notin> set (map byte ''-_.:@'')"

text \<open>The loop over the segments; \<open>index\<close> counts up to \<open>count\<close>, their number.\<close>

fun check_segments :: "bool \<Rightarrow> nat \<Rightarrow> nat \<Rightarrow> bytes list \<Rightarrow> unit result" where
  "check_segments wildcard_allowed count index [] = Inr ()"
| "check_segments wildcard_allowed count index (segment # rest) =
    (if segment = [] \<or> segment = ''.'' \<or> segment = ''..'' then Inl (ResourceE ErrInvalidResource)
     else if segment = ''*'' then
       (if \<not> wildcard_allowed \<or> index \<noteq> count - 1 \<or> index = 0
        then Inl (ResourceE ErrInvalidResource)
        else check_segments wildcard_allowed count (index + 1) rest)
     else if strings_contains segment ''*'' then Inl (ResourceE ErrInvalidResource)
     else if list_ex bad_rune (runes segment) then Inl (ResourceE ErrInvalidResource)
     else check_segments wildcard_allowed count (index + 1) rest)"

definition reserved_chars :: bytes where
  "reserved_chars = [CHR ''%'', CHR 0x5C, CHR ''?'', CHR ''#'']"

definition canonicalize :: "unicode_lib \<Rightarrow> bytes \<Rightarrow> bool \<Rightarrow> bytes result" where
  "canonicalize U value wildcard_allowed =
    (if value = [] \<or> length value > 256 \<or> \<not> valid_string value \<or> trim_space value \<noteq> value
     then Inl (ResourceE ErrInvalidResource)
     else if contains_any value reserved_chars \<or> has_prefix value ''/'' \<or> has_suffix value ''/''
       \<or> strings_contains value ''//''
     then Inl (ResourceE ErrInvalidResource)
     else
       let canonical = nfc U value in
       if canonical \<noteq> value then Inl (ResourceE ErrResourceNotCanonical)
       else
         let segments = split_on CHR ''/'' canonical in
         case check_segments wildcard_allowed (length segments) 0 segments of
           Inl e \<Rightarrow> Inl e
         | Inr _ \<Rightarrow> Inr canonical)"

definition CanonicalizePattern :: "unicode_lib \<Rightarrow> bytes \<Rightarrow> bytes result" where
  "CanonicalizePattern U value = canonicalize U value True"

definition CanonicalizeValue :: "unicode_lib \<Rightarrow> bytes \<Rightarrow> bytes result" where
  "CanonicalizeValue U value = canonicalize U value False"

fun canonicalize_patterns_loop ::
  "unicode_lib \<Rightarrow> bytes list \<Rightarrow> bytes list \<Rightarrow> bytes list \<Rightarrow> bytes list result" where
  "canonicalize_patterns_loop U seen acc [] = Inr acc"
| "canonicalize_patterns_loop U seen acc (value # rest) =
    (case CanonicalizePattern U value of
       Inl e \<Rightarrow> Inl e
     | Inr canonical \<Rightarrow>
         if canonical \<in> set seen then Inl (ResourceE ErrDuplicateResource)
         else canonicalize_patterns_loop U (canonical # seen) (acc @ [canonical]) rest)"

definition CanonicalizePatterns :: "unicode_lib \<Rightarrow> bytes list \<Rightarrow> bytes list result" where
  "CanonicalizePatterns U values =
    (if values = [] then Inl (ResourceE ErrInvalidResource)
     else canonicalize_patterns_loop U [] [] values)"

subsection \<open>Comparisons\<close>

definition Covers :: "unicode_lib \<Rightarrow> bytes \<Rightarrow> bytes \<Rightarrow> bool" where
  "Covers U parentPattern childPattern =
    (case CanonicalizePattern U parentPattern of
       Inl _ \<Rightarrow> False
     | Inr parent \<Rightarrow>
         (case CanonicalizePattern U childPattern of
            Inl _ \<Rightarrow> False
          | Inr child \<Rightarrow>
              if parent = child then True
              else if \<not> has_suffix parent ''/*'' then False
              else
                let pre = trim_suffix parent ''*''
                in has_prefix child pre \<and> length child > length pre))"

definition Allows :: "unicode_lib \<Rightarrow> bytes \<Rightarrow> bytes \<Rightarrow> bool" where
  "Allows U pattern value =
    (case CanonicalizePattern U pattern of
       Inl _ \<Rightarrow> False
     | Inr canonicalPattern \<Rightarrow>
         (case CanonicalizeValue U value of
            Inl _ \<Rightarrow> False
          | Inr canonicalValue \<Rightarrow>
              if canonicalPattern = canonicalValue then True
              else if \<not> has_suffix canonicalPattern ''/*'' then False
              else
                let pre = trim_suffix canonicalPattern ''*''
                in has_prefix canonicalValue pre \<and> length canonicalValue > length pre))"

definition Subset :: "unicode_lib \<Rightarrow> bytes list \<Rightarrow> bytes list \<Rightarrow> bool" where
  "Subset U candidate parent =
    list_all (\<lambda>child. list_ex (\<lambda>ancestor. Covers U ancestor child) parent) candidate"

subsection \<open>What canonicalization accepts\<close>

text \<open>A concrete segment, and the segment lists of values and patterns.\<close>

definition concrete_segment :: "bytes \<Rightarrow> bool" where
  "concrete_segment s \<longleftrightarrow> s \<noteq> [] \<and> s \<noteq> ''.'' \<and> s \<noteq> ''..'' \<and> CHR ''*'' \<notin> set s
     \<and> list_all (\<lambda>r. \<not> bad_rune r) (runes s)"

definition segments_ok :: "bool \<Rightarrow> bytes list \<Rightarrow> bool" where
  "segments_ok wildcard segs \<longleftrightarrow>
     list_all concrete_segment segs
     \<or> wildcard \<and> length segs > 1 \<and> last segs = ''*'' \<and> list_all concrete_segment (butlast segs)"

lemma check_segments_concrete:
  "list_all concrete_segment segs \<Longrightarrow> check_segments w n i segs = Inr ()"
  by (induction segs arbitrary: i)
    (auto simp: concrete_segment_def list_all_iff list_ex_iff)

lemma check_segments_Inr:
  "check_segments w n i segs = Inr () \<Longrightarrow> n = i + length segs \<Longrightarrow>
   list_all concrete_segment segs
   \<or> w \<and> segs \<noteq> [] \<and> n > 1 \<and> last segs = ''*'' \<and> list_all concrete_segment (butlast segs)"
proof (induction segs arbitrary: i)
  case (Cons seg segs)
  show ?case
  proof (cases "seg = ''*''")
    case True
    with Cons.prems have "segs = []" "w" "i \<noteq> 0"
      by (auto split: if_splits)
    with True Cons.prems(2) show ?thesis by simp
  next
    case False
    with Cons.prems(1) have "concrete_segment seg" "check_segments w n (i + 1) segs = Inr ()"
      by (auto simp: concrete_segment_def list_all_iff list_ex_iff split: if_splits)
    with Cons.IH [of "i + 1"] Cons.prems(2) show ?thesis by auto
  qed
qed simp

lemma check_segments_wildcard:
  "w \<Longrightarrow> list_all concrete_segment segs \<Longrightarrow> n = i + length segs + 1 \<Longrightarrow> n > 1 \<Longrightarrow>
   check_segments w n i (segs @ [''*'']) = Inr ()"
proof (induction segs arbitrary: i)
  case (Cons seg segs)
  then show ?case
    by (auto simp: concrete_segment_def list_all_iff list_ex_iff)
qed auto

lemma check_segments_iff:
  "check_segments w (length segs) 0 segs = Inr () \<longleftrightarrow> segments_ok w segs"
proof
  assume "check_segments w (length segs) 0 segs = Inr ()"
  then show "segments_ok w segs"
    using check_segments_Inr [of w "length segs" 0 segs] by (auto simp: segments_ok_def)
next
  assume "segments_ok w segs"
  then consider "list_all concrete_segment segs"
    | "w" "length segs > 1" "last segs = ''*''" "list_all concrete_segment (butlast segs)"
    by (auto simp: segments_ok_def)
  then show "check_segments w (length segs) 0 segs = Inr ()"
  proof cases
    case 2
    then have "segs = butlast segs @ [''*'']"
      by (metis append_butlast_last_id list.size(3) not_less_zero)
    then show ?thesis
      using 2 check_segments_wildcard [of w "butlast segs" "length segs" 0] by simp
  qed (simp add: check_segments_concrete)
qed


lemma segments_ok_no_empty: "segments_ok w segs \<Longrightarrow> [] \<notin> set segs"
proof
  assume "segments_ok w segs" "[] \<in> set segs"
  then show False
    by (cases segs rule: rev_cases) (auto simp: segments_ok_def concrete_segment_def list_all_iff)
qed

lemma segments_ok_cases:
  assumes "segments_ok w segs" "s \<in> set segs"
  shows "concrete_segment s \<or> w \<and> s = ''*''"
  using assms
  by (cases segs rule: rev_cases) (auto simp: segments_ok_def list_all_iff)

lemma split_empty_segment:
  "has_prefix v ''/'' \<or> has_suffix v ''/'' \<or> strings_contains v ''//'' \<Longrightarrow>
   [] \<in> set (split_on CHR ''/'' v)"
proof (elim disjE)
  assume "has_prefix v ''/''"
  then show "[] \<in> set (split_on CHR ''/'' v)"
    by (auto simp: has_prefix_def prefix_def)
next
  assume "has_suffix v ''/''"
  then show "[] \<in> set (split_on CHR ''/'' v)"
    by (auto simp: has_suffix_def suffix_def split_on_append_sep)
next
  assume "strings_contains v ''//''"
  then obtain a b where "v = a @ CHR ''/'' # [] @ CHR ''/'' # b"
    by (auto simp: strings_contains_sublist sublist_def)
  then have "split_on CHR ''/'' v = split_on CHR ''/'' a @ [] # split_on CHR ''/'' b"
    by (metis append_Nil split_on.simps(2) split_on_append_sep)
  then show "[] \<in> set (split_on CHR ''/'' v)" by simp
qed

lemma reserved_bad: "c \<in> set reserved_chars \<Longrightarrow> bad_rune (byte c) \<and> byte c < 0x80 \<and> c \<noteq> CHR ''/'' \<and> c \<noteq> CHR ''*''"
  by (simp add: reserved_chars_def)
    (elim disjE; simp add: bad_rune_def is_pattern_syntax_def pattern_syntax_ranges_def)

lemma segments_ok_no_reserved:
  assumes "segments_ok w (split_on CHR ''/'' v)"
  shows "\<not> contains_any v reserved_chars"
proof
  assume "contains_any v reserved_chars"
  then obtain c where c: "c \<in> set v" "c \<in> set reserved_chars"
    by (auto simp: contains_any_def list_ex_iff)
  then obtain s where s: "s \<in> set (split_on CHR ''/'' v)" "c \<in> set s"
    using reserved_bad split_on_covers by blast
  with assms c(2) have "concrete_segment s"
    using reserved_bad segments_ok_cases by fastforce
  moreover have "byte c \<in> set (runes s)"
    using ascii_byte_in_runes reserved_bad c(2) s(2) by blast
  ultimately show False
    using reserved_bad [OF c(2)] by (auto simp: concrete_segment_def list_all_iff)
qed

lemma canonicalize_Inr_iff:
  "canonicalize U v w = Inr c \<longleftrightarrow>
   c = v \<and> v \<noteq> [] \<and> length v \<le> 256 \<and> valid_string v \<and> trim_space v = v \<and> nfc U v = v
   \<and> segments_ok w (split_on CHR ''/'' v)"
  (is "?l \<longleftrightarrow> ?r")
proof
  assume ?l
  then have a: "\<not> (v = [] \<or> length v > 256 \<or> \<not> valid_string v \<or> trim_space v \<noteq> v)"
    and n: "nfc U v = v"
    by (auto simp: canonicalize_def Let_def split: if_split_asm)
  with \<open>?l\<close> have "c = v" "check_segments w (length (split_on CHR ''/'' v)) 0 (split_on CHR ''/'' v) = Inr ()"
    by (auto simp: canonicalize_def Let_def split: if_split_asm sum.splits)
  with a n show ?r
    using check_segments_iff [of w "split_on CHR ''/'' v"] by simp
next
  assume r: ?r
  then have s: "segments_ok w (split_on CHR ''/'' v)" by blast
  then have "\<not> contains_any v reserved_chars" "\<not> has_prefix v ''/''" "\<not> has_suffix v ''/''"
    "\<not> strings_contains v ''//''"
    using segments_ok_no_reserved segments_ok_no_empty split_empty_segment by blast+
  with r s show ?l
    using check_segments_iff [of w "split_on CHR ''/'' v"] by (simp add: canonicalize_def)
qed

definition valid_pattern :: "unicode_lib \<Rightarrow> bytes \<Rightarrow> bool" where
  "valid_pattern U p \<longleftrightarrow> canonicalize U p True = Inr p"

definition valid_value :: "unicode_lib \<Rightarrow> bytes \<Rightarrow> bool" where
  "valid_value U v \<longleftrightarrow> canonicalize U v False = Inr v"

lemma CanonicalizePattern_Inr: "CanonicalizePattern U p = Inr c \<longleftrightarrow> c = p \<and> valid_pattern U p"
  by (auto simp: CanonicalizePattern_def valid_pattern_def canonicalize_Inr_iff)

lemma CanonicalizeValue_Inr: "CanonicalizeValue U v = Inr c \<longleftrightarrow> c = v \<and> valid_value U v"
  by (auto simp: CanonicalizeValue_def valid_value_def canonicalize_Inr_iff)

lemma ok_CanonicalizePattern [simp]: "ok (CanonicalizePattern U p) = valid_pattern U p"
  by (auto simp: ok_def CanonicalizePattern_Inr)

lemma valid_value_pattern: "valid_value U v \<Longrightarrow> valid_pattern U v"
  by (simp add: valid_value_def valid_pattern_def canonicalize_Inr_iff segments_ok_def)

lemma valid_value_iff: "valid_value U v \<longleftrightarrow> valid_pattern U v \<and> CHR ''*'' \<notin> set v"
proof -
  let ?segs = "split_on CHR ''/'' v"
  have "segments_ok False ?segs \<longleftrightarrow> segments_ok True ?segs \<and> CHR ''*'' \<notin> set v"
  proof safe
    assume "segments_ok False ?segs"
    then show "segments_ok True ?segs" by (simp add: segments_ok_def)
  next
    assume "segments_ok False ?segs" "CHR ''*'' \<in> set v"
    then show False
      using split_on_covers [of "CHR ''*''" v "CHR ''/''"]
      by (auto simp: segments_ok_def list_all_iff concrete_segment_def)
  next
    assume "segments_ok True ?segs" "CHR ''*'' \<notin> set v"
    moreover have "last ?segs \<noteq> ''*''"
      using split_on_chars [of "last ?segs" "CHR ''/''" v] \<open>CHR ''*'' \<notin> set v\<close> by auto
    ultimately show "segments_ok False ?segs" by (auto simp: segments_ok_def)
  qed
  then show ?thesis
    by (auto simp: valid_value_def valid_pattern_def canonicalize_Inr_iff)
qed

subsection \<open>The comparisons, without the error plumbing\<close>

text \<open>A valid pattern that ends in the wildcard is a directory followed by \<open>/*\<close>.\<close>

definition within :: "bytes \<Rightarrow> bytes \<Rightarrow> bool" where
  "within p v \<longleftrightarrow> p = v \<or> (\<exists>d r. p = d @ ''/*'' \<and> v = d @ CHR ''/'' # r \<and> r \<noteq> [])"

lemma within_iff:
  "within p v \<longleftrightarrow> p = v \<or> has_suffix p ''/*'' \<and> has_prefix v (trim_suffix p ''*'')
     \<and> length (trim_suffix p ''*'') < length v"
proof (cases "has_suffix p ''/*''")
  case True
  then obtain d where d: "p = d @ ''/*''" by (auto simp: has_suffix_def suffix_def)
  have "trim_suffix ((d @ ''/'') @ ''*'') ''*'' = d @ ''/''" by (rule trim_suffix_append)
  then have t: "trim_suffix p ''*'' = d @ ''/''" by (simp add: d)
  have "has_prefix v (d @ ''/'') \<and> length (d @ ''/'') < length v \<longleftrightarrow>
      (\<exists>r. v = d @ CHR ''/'' # r \<and> r \<noteq> [])"
    by (auto simp: has_prefix_def prefix_def)
  then show ?thesis
    using True unfolding within_def t by (auto simp: d)
qed (auto simp: within_def has_suffix_def suffix_def)

lemma Covers_iff: "Covers U p c \<longleftrightarrow> valid_pattern U p \<and> valid_pattern U c \<and> within p c"
  by (auto simp: Covers_def within_iff CanonicalizePattern_Inr Let_def
      split: sum.splits if_splits dest: sym)
    (metis CanonicalizePattern_Inr sum.distinct(1))+

lemma Allows_iff: "Allows U p v \<longleftrightarrow> valid_pattern U p \<and> valid_value U v \<and> within p v"
  by (auto simp: Allows_def within_iff CanonicalizePattern_Inr CanonicalizeValue_Inr Let_def
      split: sum.splits if_splits dest: sym)
    (metis CanonicalizePattern_Inr CanonicalizeValue_Inr sum.distinct(1))+

lemma within_refl [simp]: "within p p"
  by (simp add: within_def)

lemma within_trans:
  assumes "within p q" "within q r"
  shows "within p r"
proof (cases "p = q \<or> q = r")
  case False
  with assms obtain d x e y where p: "p = d @ ''/*''" and q: "q = d @ CHR ''/'' # x" "x \<noteq> []"
    and e: "q = e @ ''/*''" and r: "r = e @ CHR ''/'' # y" "y \<noteq> []"
    by (auto simp: within_def)
  from q(1) e have "prefix (d @ ''/'') (e @ ''/*'')" by (metis append_Cons append_Nil append_assoc prefix_def)
  moreover have "length (d @ ''/'') \<le> length (e @ ''/'')"
    using q e by (metis Suc_le_eq append_Nil2 length_append length_Cons length_greater_0_conv
        list.size(3) nat_add_left_cancel_less not_less_eq_eq add_Suc_right)
  ultimately have "prefix (d @ ''/'') (e @ ''/'')"
    by (metis append.assoc append_Cons append_Nil prefix_length_prefix prefix_prefix prefix_order.refl)
  then obtain z where "e @ ''/'' = d @ ''/'' @ z" by (auto simp: prefix_def)
  then have "r = d @ CHR ''/'' # (z @ y)"
    using r by (metis append.assoc append_Cons append_Nil)
  with p r(2) show ?thesis by (auto simp: within_def)
qed (use assms in auto)


lemma Covers_admits:
  assumes "Covers U p c" "Allows U c v"
  shows "Allows U p v"
  using assms within_trans [of p c v] by (simp add: Covers_iff Allows_iff)

text \<open>The resource patterns are scopes in the sense of the interface.\<close>

interpretation pattern_scope: scope_check "valid_pattern U" "Covers U" "Allows U" for U
proof
  show "Covers U s u" if "Covers U s t" "Covers U t u" for s t u
    using that within_trans [of s t u] by (simp add: Covers_iff)
qed (auto simp: Covers_iff intro: Covers_admits)

lemma Subset_refl: "list_all (valid_pattern U) ps \<Longrightarrow> Subset U ps ps"
  unfolding Subset_def by (rule pattern_scope.list_refl)

lemma Subset_trans: "Subset U cs ps \<Longrightarrow> Subset U ps gs \<Longrightarrow> Subset U cs gs"
  unfolding Subset_def by (rule pattern_scope.list_trans)

lemma Subset_admits:
  "Subset U cs ps \<Longrightarrow> list_ex (\<lambda>c. Allows U c v) cs \<Longrightarrow> list_ex (\<lambda>p. Allows U p v) ps"
  unfolding Subset_def by (rule pattern_scope.list_admits)

lemma Subset_append: "Subset U (cs @ ds) ps \<longleftrightarrow> Subset U cs ps \<and> Subset U ds ps"
  by (simp add: Subset_def)

text \<open>The segments of a pattern and of what it covers.\<close>

lemma within_segments:
  assumes "within p c" "p \<noteq> c"
  obtains dir where "split_on CHR ''/'' p = dir @ [''*'']" "prefix dir (split_on CHR ''/'' c)"
    "length dir < length (split_on CHR ''/'' c)"
proof -
  from assms obtain d r where "p = d @ CHR ''/'' # ''*''" "c = d @ CHR ''/'' # r"
    by (auto simp: within_def)
  then have "split_on CHR ''/'' p = split_on CHR ''/'' d @ [''*'']"
    "split_on CHR ''/'' c = split_on CHR ''/'' d @ split_on CHR ''/'' r"
    by (simp_all only: split_on_append_sep) simp
  then show ?thesis
    using that [of "split_on CHR ''/'' d"] by simp
qed

lemma valid_value_segments:
  assumes "valid_value U v" "s \<in> set (split_on CHR ''/'' v)"
  shows "concrete_segment s"
  using assms segments_ok_cases [of False] by (auto simp: valid_value_def canonicalize_Inr_iff)

lemma valid_value_chars:
  assumes "valid_value U v" "c \<in> set v"
  shows "c \<notin> set reserved_chars" "c \<noteq> CHR ''*''"
proof -
  show "c \<noteq> CHR ''*''" using assms by (auto simp: valid_value_iff)
  have "segments_ok False (split_on CHR ''/'' v)"
    using assms(1) by (simp add: valid_value_def canonicalize_Inr_iff)
  from segments_ok_no_reserved [OF this] assms(2) show "c \<notin> set reserved_chars"
    by (auto simp: contains_any_def list_ex_iff)
qed

subsection \<open>Completeness of the comparison\<close>

text \<open>
  \<open>Covers\<close> accepts every pair of patterns whose meanings are nested. Two resources are
  enough to see it: the child's directory followed by \<open>a\<close> and by \<open>b\<close>. That these are in
  Normalization Form C when the pattern is rests on a property of Unicode: an ASCII letter
  after a slash composes with nothing.
\<close>

definition nfc_letter_after_slash :: "unicode_lib \<Rightarrow> bool" where
  "nfc_letter_after_slash U \<longleftrightarrow>
     (\<forall>d x. nfc U (d @ ''/*'') = d @ ''/*'' \<longrightarrow> x \<in> {CHR ''a'', CHR ''b''} \<longrightarrow>
        nfc U (d @ [CHR ''/'', x]) = d @ [CHR ''/'', x])"

lemma concrete_letter: "x \<in> {CHR ''a'', CHR ''b''} \<Longrightarrow> concrete_segment [x]"
  by (elim insertE emptyE)
    (simp_all add: concrete_segment_def bad_rune_def is_control_def is_space_def
      is_pattern_syntax_def pattern_syntax_ranges_def)

lemma valid_value_letter:
  assumes U: "nfc_letter_after_slash U" and x: "x \<in> {CHR ''a'', CHR ''b''}"
    and p: "valid_pattern U (d @ ''/*'')"
  shows "valid_value U (d @ [CHR ''/'', x])"
proof -
  let ?v = "d @ [CHR ''/'', x]"
  have ascii_x: "byte x < 0x80" "\<not> is_space (byte x)" "x \<noteq> CHR ''/''"
    using x by (auto simp: is_space_def)
  have split: "split_on CHR ''/'' (d @ ''/*'') = split_on CHR ''/'' d @ [''*'']"
    "split_on CHR ''/'' ?v = split_on CHR ''/'' d @ [[x]]"
    using ascii_x(3) split_on_append_sep [of "CHR ''/''" d "''*''"]
      split_on_append_sep [of "CHR ''/''" d "[x]"] by simp_all
  from p have p': "length (d @ ''/*'') \<le> 256" "valid_string (d @ ''/*'')"
    "trim_space (d @ ''/*'') = d @ ''/*''" "nfc U (d @ ''/*'') = d @ ''/*''"
    "segments_ok True (split_on CHR ''/'' (d @ ''/*''))"
    by (simp_all add: valid_pattern_def canonicalize_Inr_iff)
  have "list_all concrete_segment (split_on CHR ''/'' d)"
    using p'(5) split(1) concrete_segment_def by (auto simp: segments_ok_def)
  then have "segments_ok False (split_on CHR ''/'' ?v)"
    using split(2) concrete_letter [OF x] by (simp add: segments_ok_def)
  moreover have "valid_string ?v"
    using p'(2) ascii_x(1) valid_string_append_ascii [of "CHR ''/''" d] by simp
  moreover have "trim_space ?v = ?v"
  proof -
    have "\<not> is_space (fst (decode_rune ?v))"
      using p'(3) decode_rune_before_ascii [of "CHR ''/''"]
      by (cases d) (auto simp: trim_space_id is_space_def)
    then show ?thesis
      using ascii_x by (simp add: trim_space_id decode_last_rune_def)
  qed
  moreover have "nfc U ?v = ?v"
    using U x p'(4) by (auto simp: nfc_letter_after_slash_def)
  ultimately show ?thesis
    using p'(1) by (simp add: valid_value_def canonicalize_Inr_iff)
qed

lemma within_complete:
  assumes U: "nfc_letter_after_slash U" and p: "valid_pattern U p" and c: "valid_pattern U c"
    and meaning: "\<And>v. Allows U c v \<Longrightarrow> Allows U p v"
  shows "within p c"
proof (cases "valid_value U c")
  case True
  then show ?thesis
    using meaning [of c] c by (simp add: Allows_iff)
next
  case False
  then have "segments_ok True (split_on CHR ''/'' c)" "\<not> segments_ok False (split_on CHR ''/'' c)"
    using c by (simp_all add: valid_value_def valid_pattern_def canonicalize_Inr_iff)
  then have seg: "1 < length (split_on CHR ''/'' c)" "last (split_on CHR ''/'' c) = ''*''"
    by (auto simp: segments_ok_def)
  then obtain ws where ws: "split_on CHR ''/'' c = ws @ [''*'']" "ws \<noteq> []"
    by (cases "split_on CHR ''/'' c" rule: rev_cases) auto
  have "c = join_with CHR ''/'' (ws @ [''*''])"
    using ws(1) join_split_on [of "CHR ''/''" c] by simp
  moreover have "join_with CHR ''/'' (ws @ [''*'']) = join_with CHR ''/'' ws @ ''/*''" if "ws \<noteq> []" for ws
    using that by (induction "CHR ''/''" ws rule: join_with.induct) auto
  ultimately obtain d where d: "c = d @ ''/*''" using ws(2) by blast
  let ?a = "d @ ''/a''" and ?b = "d @ ''/b''"
  have "valid_value U ?a" "valid_value U ?b"
    using valid_value_letter [OF U] c d by simp_all
  moreover have "within c ?a" "within c ?b"
    using d by (auto simp: within_def)
  ultimately have "within p ?a" "within p ?b"
    using meaning c by (simp_all add: Allows_iff)
  then obtain e r where "p = e @ ''/*''" "e @ CHR ''/'' # r = ?a" "r \<noteq> []"
    by (auto simp: within_def)
  moreover have "\<exists>q. c = e @ CHR ''/'' # q \<and> q \<noteq> []"
  proof -
    from \<open>e @ CHR ''/'' # r = ?a\<close> \<open>r \<noteq> []\<close> obtain ys where "e @ CHR ''/'' # ys = d @ ''/''"
      by (cases r rule: rev_cases) auto
    then have "c = (e @ CHR ''/'' # ys) @ ''*''" using d by simp
    then show ?thesis by simp
  qed
  ultimately show ?thesis
    by (auto simp: within_def)
qed

subsection \<open>Lists of patterns\<close>

lemma canonicalize_patterns_loop_Inr:
  "canonicalize_patterns_loop U seen acc vs = Inr r \<longleftrightarrow>
   r = acc @ vs \<and> list_all (valid_pattern U) vs \<and> distinct vs \<and> set vs \<inter> set seen = {}"
proof (induction vs arbitrary: seen acc)
  case (Cons v vs)
  show ?case
  proof (cases "CanonicalizePattern U v")
    case (Inl e)
    then have "\<not> valid_pattern U v" using CanonicalizePattern_Inr by (metis sum.distinct(1))
    with Inl show ?thesis by simp
  next
    case (Inr c)
    then have "c = v" "valid_pattern U v" by (simp_all add: CanonicalizePattern_Inr)
    with Inr Cons.IH show ?thesis by auto
  qed
qed auto

lemma CanonicalizePatterns_Inr:
  "CanonicalizePatterns U vs = Inr r \<longleftrightarrow>
   r = vs \<and> vs \<noteq> [] \<and> list_all (valid_pattern U) vs \<and> distinct vs"
  by (auto simp: CanonicalizePatterns_def canonicalize_patterns_loop_Inr)


subsection \<open>Concrete resources\<close>

definition plain_char :: "char \<Rightarrow> bool" where
  "plain_char c \<longleftrightarrow> 97 \<le> byte c \<and> byte c \<le> 122 \<or> 48 \<le> byte c \<and> byte c \<le> 57 \<or> c = CHR ''_'' \<or> c = CHR ''-''"

lemma plain_char_rune:
  assumes "plain_char c"
  shows "byte c < 0x80" "\<not> bad_rune (byte c)" "c \<noteq> CHR ''*''" "\<not> is_space (byte c)"
  using assms
  by (auto simp: plain_char_def bad_rune_def is_control_def is_space_def is_pattern_syntax_def
      pattern_syntax_ranges_def)

lemma plain_segment: "w \<noteq> [] \<Longrightarrow> list_all plain_char w \<Longrightarrow> concrete_segment w"
proof -
  assume w: "w \<noteq> []" "list_all plain_char w"
  then have "ascii w" "list_all (\<lambda>r. \<not> bad_rune r) (map byte w)" "CHR ''*'' \<notin> set w"
    using plain_char_rune by (auto simp: ascii_def list_all_iff)
  moreover have "w \<noteq> ''.''" "w \<noteq> ''..''"
    using w(2) by (auto simp: plain_char_def)
  ultimately show ?thesis
    using w(1) by (simp add: concrete_segment_def ascii_runes)
qed

text \<open>Plain lower-case words joined by slashes are resources, and with a final \<open>/*\<close> patterns.\<close>

lemma plain_valid_value:
  assumes "v \<noteq> []" "length v \<le> 256"
    and "list_all (\<lambda>w. w \<noteq> [] \<and> list_all plain_char w) (split_on CHR ''/'' v)"
  shows "valid_value ascii_lib v"
proof -
  let ?segs = "split_on CHR ''/'' v"
  have segs: "list_all concrete_segment ?segs"
    using assms(3) by (auto simp: list_all_iff intro: plain_segment)
  have chars: "plain_char c \<or> c = CHR ''/''" if "c \<in> set v" for c
    using that assms(3) split_on_covers [of c v "CHR ''/''"] by (auto simp: list_all_iff)
  then have a: "byte c < 0x80 \<and> \<not> is_space (byte c)" if "c \<in> set v" for c
    using that plain_char_rune by (fastforce simp: is_space_def)
  then have "ascii v" by (simp add: ascii_def list_all_iff)
  moreover have "trim_space v = v"
    using a assms(1) by (intro trim_space_ascii_id) auto
  ultimately show ?thesis
    using segs assms
    by (simp add: valid_value_def canonicalize_Inr_iff segments_ok_def ascii_lib_def
        ascii_valid_string)
qed

lemma plain_valid_pattern:
  assumes "d \<noteq> []" "length d \<le> 254"
    and "list_all (\<lambda>w. w \<noteq> [] \<and> list_all plain_char w) (split_on CHR ''/'' d)"
  shows "valid_pattern ascii_lib (d @ ''/*'')"
proof -
  have d: "valid_value ascii_lib d" using assms by (intro plain_valid_value) auto
  then have d': "valid_string d" "trim_space d = d" "segments_ok False (split_on CHR ''/'' d)"
    by (simp_all add: valid_value_def canonicalize_Inr_iff)
  have "split_on CHR ''/'' (d @ ''/*'') = split_on CHR ''/'' d @ [''*'']"
    using split_on_append_sep [of "CHR ''/''" d "''*''"] by simp
  then have "segments_ok True (split_on CHR ''/'' (d @ ''/*''))"
    using d'(3) by (simp add: segments_ok_def)
  moreover have "valid_string (d @ ''/*'')"
    using d'(1) valid_string_append_ascii [of "CHR ''/''" d] by simp
  moreover have "trim_space (d @ ''/*'') = d @ ''/*''"
  proof -
    have "\<not> is_space (fst (decode_rune (d @ ''/*'')))"
      using d'(2) assms(1) decode_rune_before_ascii [of "CHR ''/''"]
      by (cases d) (auto simp: trim_space_id)
    then show ?thesis by (simp add: trim_space_id decode_last_rune_def is_space_def)
  qed
  ultimately show ?thesis
    using assms(2) by (simp add: valid_pattern_def canonicalize_Inr_iff ascii_lib_def)
qed

lemma trimmed_plain:
  "distinct vs \<Longrightarrow> list_all (\<lambda>v. v \<noteq> [] \<and> plain_char (hd v) \<and> plain_char (last v)) vs \<Longrightarrow>
   trimmed_names vs"
  using plain_char_rune trim_space_ascii_id by (auto simp: trimmed_names_def list_all_iff)

lemma trimmed_patterns:
  "distinct ps \<Longrightarrow> list_all (valid_pattern U) ps \<Longrightarrow> trimmed_names ps"
  by (auto simp: trimmed_names_def list_all_iff valid_pattern_def canonicalize_Inr_iff)

lemma example_resources:
  "valid_pattern ascii_lib ''customer/*''" "valid_value ascii_lib ''customer/cus_123''"
  "valid_pattern ascii_lib ''customer/cus_123''" "valid_pattern ascii_lib ''invoice/*''"
proof -
  show "valid_pattern ascii_lib ''customer/*''"
    using plain_valid_pattern [of "''customer''"] by (simp add: plain_char_def)
  show "valid_pattern ascii_lib ''invoice/*''"
    using plain_valid_pattern [of "''invoice''"] by (simp add: plain_char_def)
  show v: "valid_value ascii_lib ''customer/cus_123''"
    by (rule plain_valid_value) (simp_all add: plain_char_def)
  then show "valid_pattern ascii_lib ''customer/cus_123''"
    by (rule valid_value_pattern)
qed

lemma example_within: "within ''customer/*'' ''customer/cus_123''"
  by (auto simp: within_def intro: exI [where x = "''customer''"])

subsection \<open>Properties\<close>

text \<open>Canonicalization accepts exactly the strings of at most 256 bytes of valid, trimmed,
  NFC text whose slash-separated segments are all concrete (or, in a pattern, all but a final
  complete \<open>*\<close> after at least one other segment), and returns them unchanged: what it accepts
  it never rewrites, and the checks on reserved characters and on slashes reject nothing
  else.\<close>

theorem canonicalize_exact:
  "canonicalize U value wildcard_allowed = Inr canonical \<longleftrightarrow>
   canonical = value \<and> value \<noteq> [] \<and> length value \<le> 256 \<and> valid_string value
   \<and> trim_space value = value \<and> nfc U value = value
   \<and> segments_ok wildcard_allowed (split_on CHR ''/'' value)"
  by (rule canonicalize_Inr_iff)

text \<open>C21: \<open>Covers\<close> is exact. For two valid patterns it accepts the pair precisely when every
  concrete resource the child allows is allowed by the parent.\<close>

theorem Covers_exact:
  assumes "nfc_letter_after_slash U"
    and "CanonicalizePattern U parent = Inr parent" "CanonicalizePattern U child = Inr child"
  shows "Covers U parent child \<longleftrightarrow> (\<forall>value. Allows U child value \<longrightarrow> Allows U parent value)"
  using assms within_complete [of U parent child] Covers_admits [of U parent child]
  by (auto simp: CanonicalizePattern_Inr Covers_iff)

theorem Covers_exact_witness:
  "Covers ascii_lib ''customer/*'' ''customer/cus_123'' \<and> Allows ascii_lib ''customer/*'' ''customer/cus_123''"
proof -
  have U: "nfc_letter_after_slash ascii_lib"
    by (simp add: nfc_letter_after_slash_def ascii_lib_def)
  have c: "Covers ascii_lib ''customer/*'' ''customer/cus_123''"
    by (simp add: Covers_iff example_resources example_within)
  moreover have "Allows ascii_lib ''customer/cus_123'' ''customer/cus_123''"
    by (simp add: Allows_iff example_resources)
  ultimately show ?thesis
    using Covers_exact [OF U, of "''customer/*''" "''customer/cus_123''"]
    by (simp add: CanonicalizePattern_Inr example_resources)
qed

text \<open>A wildcard is bounded by whole segments. When a pattern covers a different one, its
  segments are a directory followed by \<open>*\<close>, and the covered pattern has the same directory as
  its first segments and at least one more.\<close>

theorem Covers_segment_bounded:
  assumes "Covers U parent child" and "parent \<noteq> child"
  shows "\<exists>dir. split_on CHR ''/'' parent = dir @ [''*''] \<and> dir \<noteq> []
    \<and> prefix dir (split_on CHR ''/'' child) \<and> length dir < length (split_on CHR ''/'' child)"
proof -
  from assms(1) have "within parent child" by (simp add: Covers_iff)
  then obtain dir where dir: "split_on CHR ''/'' parent = dir @ [''*'']"
    "prefix dir (split_on CHR ''/'' child)" "length dir < length (split_on CHR ''/'' child)"
    using within_segments assms(2) by metis
  have "segments_ok True (split_on CHR ''/'' parent)"
    using assms(1) by (simp add: Covers_iff valid_pattern_def canonicalize_Inr_iff)
  then have "dir \<noteq> []"
    using dir(1) by (auto simp: segments_ok_def concrete_segment_def)
  with dir show ?thesis by blast
qed

theorem Covers_segment_bounded_witness:
  "\<exists>dir. split_on CHR ''/'' ''customer/*'' = dir @ [''*''] \<and> dir \<noteq> []
    \<and> prefix dir (split_on CHR ''/'' ''customer/cus_123'')
    \<and> length dir < length (split_on CHR ''/'' ''customer/cus_123'')"
  by (rule Covers_segment_bounded [of ascii_lib])
    (simp_all add: Covers_iff example_resources example_within)

text \<open>A resource that some pattern allows is free of traversal and ambiguity: every segment
  is non-empty and neither \<open>.\<close> nor \<open>..\<close>, and it holds no wildcard, percent sign, backslash,
  question mark or number sign.\<close>

theorem Allows_no_traversal:
  assumes "Allows U pattern value"
  shows "list_all (\<lambda>s. s \<noteq> [] \<and> s \<noteq> ''.'' \<and> s \<noteq> ''..'') (split_on CHR ''/'' value)
    \<and> set value \<inter> {CHR ''*'', CHR ''%'', CHR 0x5C, CHR ''?'', CHR ''#''} = {}"
proof
  from assms have v: "valid_value U value" by (simp add: Allows_iff)
  from valid_value_segments [OF v]
  show "list_all (\<lambda>s. s \<noteq> [] \<and> s \<noteq> ''.'' \<and> s \<noteq> ''..'') (split_on CHR ''/'' value)"
    by (auto simp: list_all_iff concrete_segment_def)
  from valid_value_chars [OF v]
  show "set value \<inter> {CHR ''*'', CHR ''%'', CHR 0x5C, CHR ''?'', CHR ''#''} = {}"
    by (auto simp: reserved_chars_def)
qed

theorem Allows_no_traversal_witness:
  "list_all (\<lambda>s. s \<noteq> [] \<and> s \<noteq> ''.'' \<and> s \<noteq> ''..'') (split_on CHR ''/'' ''customer/cus_123'')
    \<and> set ''customer/cus_123'' \<inter> {CHR ''*'', CHR ''%'', CHR 0x5C, CHR ''?'', CHR ''#''} = {}"
  by (rule Allows_no_traversal [of ascii_lib "''customer/*''"])
    (simp add: Allows_iff example_resources example_within)

text \<open>\<open>CanonicalizePatterns\<close> returns its argument exactly when the list is non-empty, has no
  duplicate and holds only valid patterns, and fails on every other list.\<close>

theorem CanonicalizePatterns_exact:
  "CanonicalizePatterns U values = Inr result \<longleftrightarrow>
   result = values \<and> values \<noteq> [] \<and> distinct values
   \<and> list_all (\<lambda>v. ok (CanonicalizePattern U v)) values"
  by (auto simp: CanonicalizePatterns_Inr list_all_iff)

text \<open>The list comparison \<open>Subset\<close> bounds authority through any number of delegations. When
  each list of a chain is a \<open>Subset\<close> of the one before it, a resource that the last list
  allows is allowed by the first.\<close>

theorem Subset_chain_admits:
  assumes "successively (\<lambda>parent child. Subset U child parent) (root # rest)"
    and "list_ex (\<lambda>p. Allows U p value) (last (root # rest))"
  shows "list_ex (\<lambda>p. Allows U p value) root"
  using assms
proof (induction rest arbitrary: root)
  case (Cons child rest)
  then have "list_ex (\<lambda>p. Allows U p value) child" by simp
  moreover have "Subset U child root" using Cons.prems(1) by simp
  ultimately show ?case using Subset_admits by blast
qed simp

theorem Subset_chain_admits_witness:
  "list_ex (\<lambda>p. Allows ascii_lib p ''customer/cus_123'') [''customer/*'', ''invoice/*'']"
  by (rule Subset_chain_admits [of ascii_lib _ "[[''customer/*''], [''customer/cus_123'']]"])
    (simp_all add: Subset_def Covers_iff Allows_iff example_resources example_within)

end
