(* ===== verification/Constraints.thy ===== *)
theory Constraints
  imports Go_Strings Go_Errors Interfaces
begin

section \<open>Stateless constraints\<close>

text \<open>
  Package \<open>internal/constraints\<close>: the typed vocabulary of constraints a lease carries
  (\<open>Valid\<close>), their attenuation order (\<open>AtLeastAsStrong\<close>, \<open>Equal\<close>) and their evaluation
  against the values of a request (\<open>Satisfied\<close>). A Go map is a finite map; a loop over its
  entries that returns at the first bad one is \<open>fmpred\<close>, whatever the iteration order.
\<close>

type_synonym constraints = "(bytes, bytes) fmap"

definition MaxConstraints :: nat where
  "MaxConstraints = 16"

abbreviation ceiling_key :: bytes where
  "ceiling_key \<equiv> ''max_transaction_minor_units''"

definition valid_entry :: "unicode_lib \<Rightarrow> bytes \<Rightarrow> bytes \<Rightarrow> bool" where
  "valid_entry U key value =
    (if value = [] \<or> length value > 256 \<or> trim_space value \<noteq> value then False
     else if key = ''environment'' \<or> key = ''repository'' \<or> key = ''branch'' then True
     else if key = ''http_method'' then
       \<not> (value \<noteq> to_upper U value \<or> length value > 16)
     else if key = ceiling_key then
       (let (parsed, err) = parse_uint63 value
        in \<not> (err \<noteq> None \<or> parsed = 0 \<or> format_uint parsed \<noteq> value))
     else False)"

definition Valid :: "unicode_lib \<Rightarrow> constraints \<Rightarrow> bool" where
  "Valid U values = (if fmlen values > MaxConstraints then False else fmpred (valid_entry U) values)"

definition stronger_entry :: "constraints \<Rightarrow> bytes \<Rightarrow> bytes \<Rightarrow> bool" where
  "stronger_entry child key parentValue =
    (case fmlookup child key of
       None \<Rightarrow> False
     | Some childValue \<Rightarrow>
         if key = ceiling_key then
           \<not> fst (parse_uint63 childValue) > fst (parse_uint63 parentValue)
         else childValue = parentValue)"

definition AtLeastAsStrong :: "unicode_lib \<Rightarrow> constraints \<Rightarrow> constraints \<Rightarrow> bool" where
  "AtLeastAsStrong U parent child =
    (if \<not> Valid U parent \<or> \<not> Valid U child then False
     else fmpred (stronger_entry child) parent)"

definition Equal :: "unicode_lib \<Rightarrow> constraints \<Rightarrow> constraints \<Rightarrow> bool" where
  "Equal U left right =
    (fmlen left = fmlen right \<and> AtLeastAsStrong U left right \<and> AtLeastAsStrong U right left)"

definition satisfied_entry :: "constraints \<Rightarrow> bytes \<Rightarrow> bytes \<Rightarrow> bool" where
  "satisfied_entry actual key expected =
    (case fmlookup actual key of
       None \<Rightarrow> False
     | Some value \<Rightarrow>
         if key = ceiling_key then
           (let (limit, limitErr) = parse_uint63 expected; (amount, amountErr) = parse_uint63 value
            in \<not> (limitErr \<noteq> None \<or> amountErr \<noteq> None \<or> amount > limit))
         else value = expected)"

definition Satisfied :: "unicode_lib \<Rightarrow> constraints \<Rightarrow> constraints \<Rightarrow> bool" where
  "Satisfied U required actual =
    (if \<not> Valid U required then False else fmpred (satisfied_entry actual) required)"

subsection \<open>Valid maps\<close>

definition vocabulary :: "bytes list" where
  "vocabulary = [''environment'', ''repository'', ''branch'', ''http_method'', ceiling_key]"

lemma valid_entry_vocabulary: "valid_entry U k v \<Longrightarrow> k \<in> set vocabulary"
  by (auto simp: valid_entry_def vocabulary_def split: if_splits)

lemma valid_entry_text:
  "valid_entry U k v \<Longrightarrow> v \<noteq> [] \<and> length v \<le> 256 \<and> trim_space v = v"
  by (simp add: valid_entry_def split: if_splits)

lemma valid_entry_method: "valid_entry U ''http_method'' v \<Longrightarrow> to_upper U v = v \<and> length v \<le> 16"
  by (simp add: valid_entry_def split: if_splits)

text \<open>The amount of a valid ceiling is written in canonical form.\<close>

lemma valid_entry_ceiling:
  "valid_entry U ceiling_key v \<longleftrightarrow>
   v \<noteq> [] \<and> length v \<le> 256 \<and> trim_space v = v \<and> snd (parse_uint63 v) = None
   \<and> 0 < fst (parse_uint63 v) \<and> format_uint (fst (parse_uint63 v)) = v"
  by (cases "parse_uint63 v") (auto simp: valid_entry_def)

lemma Valid_entry: "Valid U m \<Longrightarrow> fmlookup m k = Some v \<Longrightarrow> valid_entry U k v"
  by (auto simp: Valid_def fmpred_iff split: if_splits)

lemma Valid_dom: "Valid U m \<Longrightarrow> fset (fmdom m) \<subseteq> set vocabulary"
  using Valid_entry valid_entry_vocabulary by (metis fmlookup_dom_iff subsetI)

lemma Valid_empty [simp]: "Valid U fmempty"
  by (simp add: Valid_def)

text \<open>The vocabulary has five keys, so the bound on their number never decides.\<close>

lemma Valid_iff: "Valid U m \<longleftrightarrow> fmpred (valid_entry U) m"
proof
  assume m: "fmpred (valid_entry U) m"
  then have "fset (fmdom m) \<subseteq> set vocabulary"
    using valid_entry_vocabulary by (metis fmlookup_dom_iff fmpredD subsetI)
  then have "card (fset (fmdom m)) \<le> card (set vocabulary)"
    by (intro card_mono) simp_all
  also have "\<dots> \<le> 5"
    using card_length [of vocabulary] by (simp add: vocabulary_def)
  finally have "fmlen m \<le> 5" by (simp add: fmlen_def fcard.rep_eq)
  with m show "Valid U m" by (simp add: Valid_def MaxConstraints_def)
qed (simp add: Valid_def split: if_splits)

lemma Valid_fmlen: "Valid U m \<Longrightarrow> fmlen m \<le> 5"
proof -
  assume "Valid U m"
  then have "card (fset (fmdom m)) \<le> card (set vocabulary)"
    using Valid_dom by (intro card_mono) simp_all
  also have "\<dots> \<le> 5" using card_length [of vocabulary] by (simp add: vocabulary_def)
  finally show ?thesis by (simp add: fmlen_def fcard.rep_eq)
qed

subsection \<open>The order and its meaning\<close>

lemma stronger_entry_trans:
  assumes "valid_entry U k a" "stronger_entry m k a" "fmlookup m k = Some b" "stronger_entry n k b"
  shows "stronger_entry n k a"
  using assms by (auto simp: stronger_entry_def split: option.splits if_splits)

lemma stronger_self: "fmlookup m k = Some v \<Longrightarrow> stronger_entry m k v"
  by (simp add: stronger_entry_def)

lemma AtLeastAsStrong_iff:
  "AtLeastAsStrong U p c \<longleftrightarrow> Valid U p \<and> Valid U c \<and> fmpred (stronger_entry c) p"
  by (auto simp: AtLeastAsStrong_def)

lemma AtLeastAsStrong_refl: "Valid U m \<Longrightarrow> AtLeastAsStrong U m m"
  by (simp add: AtLeastAsStrong_iff fmpred_iff stronger_self)

lemma AtLeastAsStrong_dom: "AtLeastAsStrong U p c \<Longrightarrow> fmdom p |\<subseteq>| fmdom c"
proof
  fix k
  assume "AtLeastAsStrong U p c" "k |\<in>| fmdom p"
  then obtain a where "stronger_entry c k a"
    by (auto simp: AtLeastAsStrong_iff fmpred_iff fmlookup_dom_iff)
  then show "k |\<in>| fmdom c"
    by (auto simp: stronger_entry_def fmlookup_dom_iff split: option.splits)
qed

lemma AtLeastAsStrong_trans:
  assumes "AtLeastAsStrong U p q" "AtLeastAsStrong U q r"
  shows "AtLeastAsStrong U p r"
proof -
  have "stronger_entry r k a" if a: "fmlookup p k = Some a" for k a
  proof -
    have "stronger_entry q k a"
      using assms(1) a by (simp add: AtLeastAsStrong_iff fmpred_iff)
    then obtain b where b: "fmlookup q k = Some b"
      by (auto simp: stronger_entry_def split: option.splits)
    then have "stronger_entry r k b"
      using assms(2) by (simp add: AtLeastAsStrong_iff fmpred_iff)
    with b \<open>stronger_entry q k a\<close> show ?thesis
      by (auto simp: stronger_entry_def split: option.splits if_splits)
  qed
  then show ?thesis
    using assms by (simp add: AtLeastAsStrong_iff fmpred_iff)
qed

lemma Satisfied_entry:
  "Satisfied U c m \<Longrightarrow> fmlookup c k = Some b \<Longrightarrow> satisfied_entry m k b"
  by (auto simp: Satisfied_def fmpred_iff split: if_splits)

lemma satisfied_weaker_entry:
  assumes "valid_entry U k a" "stronger_entry c k a" "fmlookup c k = Some b" "satisfied_entry m k b"
  shows "satisfied_entry m k a"
  using assms
  by (auto simp: stronger_entry_def satisfied_entry_def valid_entry_ceiling Let_def
      split: option.splits if_splits prod.splits)

lemma AtLeastAsStrong_satisfied:
  assumes "AtLeastAsStrong U p c" "Satisfied U c m"
  shows "Satisfied U p m"
proof -
  have "satisfied_entry m k a" if a: "fmlookup p k = Some a" for k a
  proof -
    have s: "stronger_entry c k a" and v: "valid_entry U k a"
      using assms(1) a Valid_entry by (auto simp: AtLeastAsStrong_iff fmpred_iff)
    then obtain b where b: "fmlookup c k = Some b"
      by (auto simp: stronger_entry_def split: option.splits)
    show ?thesis
      by (rule satisfied_weaker_entry [OF v s b Satisfied_entry [OF assms(2) b]])
  qed
  then show ?thesis
    using assms(1) by (simp add: Satisfied_def AtLeastAsStrong_iff fmpred_iff)
qed

text \<open>Constraint sets are scopes: a request's values are what they admit.\<close>

interpretation constraint_scope: scope_check "Valid U" "AtLeastAsStrong U" "Satisfied U" for U
proof
  show "AtLeastAsStrong U s u" if "AtLeastAsStrong U s t" "AtLeastAsStrong U t u" for s t u
    using that by (rule AtLeastAsStrong_trans)
  show "Satisfied U s v" if "AtLeastAsStrong U s t" "Satisfied U t v" for s t v
    using that by (rule AtLeastAsStrong_satisfied)
qed (simp_all add: AtLeastAsStrong_refl, simp add: AtLeastAsStrong_iff)

lemma Satisfied_self: "Valid U m \<Longrightarrow> Satisfied U m m"
  by (auto simp: Satisfied_def fmpred_iff satisfied_entry_def valid_entry_ceiling
      dest: Valid_entry split: prod.splits)

lemma Satisfied_stronger:
  assumes "Valid U c" "Satisfied U p c"
  shows "AtLeastAsStrong U p c"
proof -
  have "stronger_entry c k a" if "fmlookup p k = Some a" for k a
    using Satisfied_entry [OF assms(2) that]
    by (auto simp: satisfied_entry_def stronger_entry_def split: option.splits if_splits prod.splits)
  then show ?thesis
    using assms by (auto simp: AtLeastAsStrong_iff fmpred_iff Satisfied_def split: if_splits)
qed

lemma AtLeastAsStrong_antisym:
  assumes "AtLeastAsStrong U m n" "AtLeastAsStrong U n m"
  shows "m = n"
proof (rule fmap_ext_on_dom)
  show "fmdom m = fmdom n"
    using AtLeastAsStrong_dom [OF assms(1)] AtLeastAsStrong_dom [OF assms(2)] by simp
next
  fix k v w
  assume v: "fmlookup m k = Some v" and w: "fmlookup n k = Some w"
  have s: "stronger_entry n k v" "stronger_entry m k w"
    using assms v w by (simp_all add: AtLeastAsStrong_iff fmpred_iff)
  show "v = w"
  proof (cases "k = ceiling_key")
    case True
    have "valid_entry U ceiling_key v" "valid_entry U ceiling_key w"
      using assms v w Valid_entry True by (auto simp: AtLeastAsStrong_iff)
    moreover have "fst (parse_uint63 v) = fst (parse_uint63 w)"
      using s v w True by (simp add: stronger_entry_def)
    ultimately show ?thesis
      using canonical_numeral_inj [of v w] by (simp add: valid_entry_ceiling)
  next
    case False
    then show ?thesis using s v w by (simp add: stronger_entry_def)
  qed
qed

lemma Equal_iff: "Equal U l r \<longleftrightarrow> Valid U l \<and> l = r"
  using AtLeastAsStrong_antisym AtLeastAsStrong_refl
  by (auto simp: Equal_def AtLeastAsStrong_iff)

subsection \<open>Concrete constraints\<close>

definition prod_limits :: "bytes \<Rightarrow> constraints" where
  "prod_limits amount = fmap_of_list [(''environment'', ''prod''), (ceiling_key, amount)]"

lemma example_valid_constraints:
  "Valid U (prod_limits ''1000'')" "Valid U (prod_limits ''500'')"
proof -
  have env: "trim_space ''prod'' = ''prod''" "trim_space ''1000'' = ''1000''"
    "trim_space ''500'' = ''500''"
    by (rule trim_space_ascii_id; simp add: is_space_def)+
  have "parse_uint63 ''1000'' = (1000, None)" "parse_uint63 ''500'' = (500, None)"
    by (simp_all add: text_simps)
  moreover have "format_uint 1000 = ''1000''" "format_uint 500 = ''500''"
    by (simp_all add: format_uint.simps)
  ultimately show "Valid U (prod_limits ''1000'')" "Valid U (prod_limits ''500'')"
    using env
    by (auto simp: Valid_iff prod_limits_def valid_entry_def intro!: fmpred_upd)
qed


lemma example_stronger: "AtLeastAsStrong U (prod_limits ''1000'') (prod_limits ''500'')"
proof -
  have "parse_uint63 ''1000'' = (1000, None)" "parse_uint63 ''500'' = (500, None)"
    by (simp_all add: text_simps)
  then show ?thesis
    using example_valid_constraints [of U]
    by (auto simp: AtLeastAsStrong_iff prod_limits_def stronger_entry_def intro!: fmpred_upd)
qed

subsection \<open>Properties\<close>

text \<open>C24: the vocabulary is closed and typed. A valid map uses only the five known keys, so at
  most five entries, every value is non-empty, trimmed and at most 256 bytes; an HTTP method is
  its own upper-case form and at most 16 bytes, and a transaction ceiling is the canonical decimal
  numeral of a number between 1 and 2^63 - 1.\<close>

theorem Valid_typed_vocabulary:
  assumes "Valid U m"
  shows "fset (fmdom m)
      \<subseteq> {''environment'', ''repository'', ''branch'', ''http_method'', ''max_transaction_minor_units''}
    \<and> fmlen m \<le> 5
    \<and> fmpred (\<lambda>_ v. v \<noteq> [] \<and> length v \<le> 256 \<and> trim_space v = v) m
    \<and> (\<forall>v. fmlookup m ''http_method'' = Some v \<longrightarrow> to_upper U v = v \<and> length v \<le> 16)
    \<and> (\<forall>v. fmlookup m ''max_transaction_minor_units'' = Some v \<longrightarrow>
        (\<exists>n. 1 \<le> n \<and> n \<le> 2 ^ 63 - 1 \<and> v = format_uint n \<and> parse_uint63 v = (n, None)))"
proof (intro conjI allI impI)
  show "fset (fmdom m)
      \<subseteq> {''environment'', ''repository'', ''branch'', ''http_method'', ''max_transaction_minor_units''}"
    using Valid_dom [OF assms] by (simp add: vocabulary_def)
  show "fmlen m \<le> 5" by (rule Valid_fmlen [OF assms])
  show "fmpred (\<lambda>_ v. v \<noteq> [] \<and> length v \<le> 256 \<and> trim_space v = v) m"
  proof (rule fmpredI)
    fix k v
    assume "fmlookup m k = Some v"
    from valid_entry_text [OF Valid_entry [OF assms this]]
    show "v \<noteq> [] \<and> length v \<le> 256 \<and> trim_space v = v" .
  qed
  show "to_upper U v = v" "length v \<le> 16" if "fmlookup m ''http_method'' = Some v" for v
    using valid_entry_method [OF Valid_entry [OF assms that]] by simp_all
  fix v
  assume "fmlookup m ''max_transaction_minor_units'' = Some v"
  then have e: "valid_entry U ceiling_key v" using Valid_entry [OF assms] by simp
  obtain n where n: "parse_uint63 v = (n, None)"
    using e by (cases "parse_uint63 v") (simp add: valid_entry_ceiling)
  then have "1 \<le> n" "v = format_uint n" using e by (simp_all add: valid_entry_ceiling)
  moreover have "n \<le> 2 ^ 63 - 1"
    using parse_uint63_bound [of v] n by (simp add: max_uint63_def)
  ultimately show "\<exists>n. 1 \<le> n \<and> n \<le> 2 ^ 63 - 1 \<and> v = format_uint n \<and> parse_uint63 v = (n, None)"
    using n by blast
qed

theorem Valid_typed_vocabulary_witness:
  "\<exists>n. 1 \<le> n \<and> n \<le> 2 ^ 63 - 1 \<and> ''1000'' = format_uint n \<and> parse_uint63 ''1000'' = (n, None)"
  using Valid_typed_vocabulary [OF example_valid_constraints(1) [of ascii_lib]]
  by (simp add: prod_limits_def)

text \<open>C22: the attenuation check on constraints is exact. Between two valid maps it accepts the
  child precisely when every request that satisfies the child also satisfies the parent.\<close>

theorem AtLeastAsStrong_exact:
  assumes "Valid U parent" and "Valid U child"
  shows "AtLeastAsStrong U parent child \<longleftrightarrow>
    (\<forall>actual. Satisfied U child actual \<longrightarrow> Satisfied U parent actual)"
proof
  assume "\<forall>actual. Satisfied U child actual \<longrightarrow> Satisfied U parent actual"
  then have "Satisfied U parent child"
    using Satisfied_self [OF assms(2)] by blast
  then show "AtLeastAsStrong U parent child"
    by (rule Satisfied_stronger [OF assms(2)])
qed (use AtLeastAsStrong_satisfied in blast)

theorem AtLeastAsStrong_exact_witness:
  "Satisfied ascii_lib (prod_limits ''1000'') (prod_limits ''500'')"
  using AtLeastAsStrong_exact [OF example_valid_constraints, of ascii_lib] example_stronger [of ascii_lib]
    Satisfied_self [OF example_valid_constraints(2) [of ascii_lib]]
  by blast

text \<open>\<open>Equal\<close>, which compares lengths and both directions of the order, is equality of valid
  maps: because ceilings are canonical numerals, no two different valid maps are equal to it.\<close>

theorem Equal_exact: "Equal U left right \<longleftrightarrow> Valid U left \<and> left = right"
  by (rule Equal_iff)

text \<open>Constraints accumulate. Along a chain of maps, each at least as strong as the one
  before, a request that satisfies the last satisfies the first, and no key is ever lost.\<close>

theorem constraints_accumulate:
  assumes "successively (AtLeastAsStrong U) (root # rest)" and "Valid U root"
    and "Satisfied U (last (root # rest)) actual"
  shows "Satisfied U root actual \<and> fmdom root |\<subseteq>| fmdom (last (root # rest))"
proof -
  have "AtLeastAsStrong U root (last (root # rest))"
    by (rule constraint_scope.chain_covers [OF assms(1,2)])
  then show ?thesis
    using assms(3) AtLeastAsStrong_satisfied AtLeastAsStrong_dom by blast+
qed

theorem constraints_accumulate_witness:
  "Satisfied ascii_lib (prod_limits ''1000'') (prod_limits ''500'')"
  using constraints_accumulate [of ascii_lib "prod_limits ''1000''" "[prod_limits ''500'']" "prod_limits ''500''"]
  by (simp add: example_stronger example_valid_constraints Satisfied_self)

end
