(* ===== verification/Token.thy ===== *)
theory Token
  imports Base64 Json Resource Constraints
begin

section \<open>Keys and lease tokens\<close>

text \<open>
  Package \<open>internal/crypto\<close>: key identifiers and thumbprints, the strict reading of the parts of
  a compact token (\<open>strictTokenParts\<close>), signing, and \<open>VerifyLeaseToken\<close>, the checks a
  token passes before its claims are believed.

  Functions outside the repository are the fields of \<open>auth_lib\<close>: SHA-256 and Ed25519, the JWT
  library \<open>github.com/golang-jwt/jwt\<close> (signing claims under a key, and parsing and validating a
  token under options and a function that chooses the key from the header), the reading of a
  UUID by the database driver, and the character database. What a theorem needs of them is a
  named hypothesis below; \<open>parse_sound\<close> is the documented effect of the parser options.
  \<open>SignClaims\<close>, which signs any map of claims in the same way and which only the tests of the
  repository call, and \<open>GenerateKeyPair\<close> are left out.
\<close>

definition LeaseTokenType :: bytes where
  "LeaseTokenType = ''upsilon-lease+jwt''"

definition LeaseTokenVersion :: go_int where
  "LeaseTokenVersion = 1"

definition MaxLeaseTokenBytes :: nat where
  "MaxLeaseTokenBytes = 16 * 1024"

definition PublicKeySize :: nat where
  "PublicKeySize = 32"

definition PrivateKeySize :: nat where
  "PrivateKeySize = 64"

definition SignatureSize :: nat where
  "SignatureSize = 64"

definition SeedSize :: nat where
  "SeedSize = 32"

subsection \<open>Claims\<close>

text \<open>A nil map of constraints is \<open>None\<close>; an absent optional string is empty.\<close>

record CapabilityClaims =
  ups_Version :: go_int
  ups_LeaseID :: bytes
  ups_RootLeaseID :: bytes
  ups_RootWorkloadID :: bytes
  ups_WorkloadID :: bytes
  ups_DelegatedByWorkloadID :: bytes
  ups_Actions :: "bytes list"
  ups_Resources :: "bytes list"
  ups_Depth :: go_int
  ups_MaxDepth :: go_int
  ups_ParentLeaseID :: bytes
  ups_MaxUses :: go_int
  ups_Constraints :: "constraints option"

record ConfirmationClaim =
  jkt :: bytes

record LeaseClaims =
  c_UPS :: CapabilityClaims
  c_Confirmation :: "ConfirmationClaim option"
  c_Issuer :: bytes
  c_Subject :: bytes
  c_Audience :: "bytes list"
  c_ExpiresAt :: "instant option"
  c_NotBefore :: "instant option"
  c_IssuedAt :: "instant option"
  c_ID :: bytes

subsection \<open>The libraries the code calls\<close>

datatype jwt_error =
    TokenExpired
  | TokenNotValidYet
  | TokenInvalidAudience
  | TokenInvalidIssuer
  | TokenSignatureInvalid
  | OtherJwtError

text \<open>The header fields the key function reads; \<open>None\<close> when absent or not a string.\<close>

record jwt_header =
  h_typ :: "bytes option"
  h_kid :: "bytes option"

record jwt_options =
  o_ValidMethods :: "bytes list"
  o_ExpirationRequired :: bool
  o_VerifyIssuedAt :: bool
  o_NotBeforeRequired :: bool
  o_Issuer :: bytes
  o_Audience :: bytes
  o_Leeway :: duration
  o_StrictDecoding :: bool

record auth_lib =
  unicode :: unicode_lib
  sha256 :: "bytes \<Rightarrow> bytes"
  ed25519_verify :: "bytes \<Rightarrow> bytes \<Rightarrow> bytes \<Rightarrow> bool"
  ed25519_from_seed :: "bytes \<Rightarrow> bytes"
  jwt_sign :: "jwt_header \<Rightarrow> LeaseClaims \<Rightarrow> bytes \<Rightarrow> bytes result"
  jwt_parse :: "jwt_options \<Rightarrow> instant \<Rightarrow> bytes \<Rightarrow> (jwt_header \<Rightarrow> bytes result) \<Rightarrow> jwt_error list + LeaseClaims"
  parse_uuid :: "bytes \<Rightarrow> bytes option"

subsection \<open>Keys\<close>

definition Public :: "bytes \<Rightarrow> bytes" where
  "Public privateKey = drop 32 privateKey"

definition Seed :: "bytes \<Rightarrow> bytes" where
  "Seed privateKey = take 32 privateKey"

definition keyID :: "auth_lib \<Rightarrow> bytes \<Rightarrow> bytes" where
  "keyID L publicKey = raw_url_encode (sha256 L publicKey)"

definition PublicKeyID :: "auth_lib \<Rightarrow> bytes \<Rightarrow> bytes result" where
  "PublicKeyID L publicKey =
    (if length publicKey \<noteq> PublicKeySize then Inl (CryptoE ErrInvalidPublicKey)
     else Inr (keyID L publicKey))"

definition canonical_jwk :: "bytes \<Rightarrow> bytes" where
  "canonical_jwk publicKey =
    ''{'' @ CHR 0x22 # ''crv'' @ [CHR 0x22, CHR '':'', CHR 0x22] @ ''Ed25519'' @ [CHR 0x22, CHR '','', CHR 0x22]
    @ ''kty'' @ [CHR 0x22, CHR '':'', CHR 0x22] @ ''OKP'' @ [CHR 0x22, CHR '','', CHR 0x22]
    @ ''x'' @ [CHR 0x22, CHR '':'', CHR 0x22] @ raw_url_encode publicKey @ [CHR 0x22, CHR ''}'']"

definition JWKThumbprint :: "auth_lib \<Rightarrow> bytes \<Rightarrow> bytes result" where
  "JWKThumbprint L publicKey =
    (if length publicKey \<noteq> PublicKeySize then Inl (CryptoE ErrInvalidPublicKey)
     else Inr (raw_url_encode (sha256 L (canonical_jwk publicKey))))"

definition VerificationKeys :: "auth_lib \<Rightarrow> bytes list \<Rightarrow> (bytes, bytes) fmap" where
  "VerificationKeys L keys =
    fold (\<lambda>key result. if length key = PublicKeySize then fmupd (keyID L key) key result else result)
      keys fmempty"

definition decodeBase64 :: "bytes \<Rightarrow> bytes option" where
  "decodeBase64 value =
    (case raw_url_decode value of
       Some decoded \<Rightarrow> Some decoded
     | None \<Rightarrow> std_decode value)"

definition ParsePrivateKey :: "auth_lib \<Rightarrow> bytes \<Rightarrow> bytes result" where
  "ParsePrivateKey L encoded =
    (case decodeBase64 encoded of
       None \<Rightarrow> Inl (CryptoE ErrInvalidPrivateKey)
     | Some decoded \<Rightarrow>
         if length decoded = SeedSize then Inr (ed25519_from_seed L decoded)
         else if length decoded \<noteq> PrivateKeySize then Inl (CryptoE ErrInvalidPrivateKey)
         else if decoded \<noteq> ed25519_from_seed L (Seed decoded) then Inl (CryptoE ErrInvalidPrivateKey)
         else Inr decoded)"

fun parse_public_keys_loop ::
    "auth_lib \<Rightarrow> bytes fset \<Rightarrow> bytes list \<Rightarrow> bytes list \<Rightarrow> bytes list result" where
  "parse_public_keys_loop L seen keys [] = Inr keys"
| "parse_public_keys_loop L seen keys (part # parts) =
    (case decodeBase64 (trim_space part) of
       None \<Rightarrow> Inl (CryptoE ErrInvalidPublicKey)
     | Some decoded \<Rightarrow>
         if length decoded \<noteq> PublicKeySize then Inl (CryptoE ErrInvalidPublicKey)
         else if keyID L decoded |\<in>| seen then parse_public_keys_loop L seen keys parts
         else parse_public_keys_loop L (finsert (keyID L decoded) seen) (keys @ [decoded]) parts)"

definition ParsePublicKeys :: "auth_lib \<Rightarrow> bytes \<Rightarrow> bytes list result" where
  "ParsePublicKeys L encoded =
    (if trim_space encoded = [] then Inr []
     else parse_public_keys_loop L {||} [] (split_on CHR '','' encoded))"

subsection \<open>The parts of a compact token\<close>

text \<open>
  \<open>rejectDuplicateJSONKeys\<close> walks the tokens of a document. A document that is not valid JSON,
  or is followed by more than white space, is refused here or by the decoding that follows it
  in \<open>strictTokenParts\<close>, its only caller.
\<close>

definition rejectDuplicateJSONKeys :: "bytes \<Rightarrow> unit result" where
  "rejectDuplicateJSONKeys data =
    (case json_unmarshal data of
       None \<Rightarrow> Inl (Opaque ''invalid JSON'')
     | Some value \<Rightarrow>
         if distinct_keys value then Inr () else Inl (Opaque ''duplicate JSON object key''))"

definition allowedClaims :: "bytes list" where
  "allowedClaims = [''iss'', ''sub'', ''aud'', ''exp'', ''nbf'', ''iat'', ''jti'', ''ups'', ''cnf'']"

definition allowedCapability :: "bytes list" where
  "allowedCapability =
    [''version'', ''lease_id'', ''root_lease_id'', ''root_workload_id'', ''workload_id'',
     ''delegated_by_workload_id'', ''actions'', ''resources'', ''depth'', ''max_depth'',
     ''parent_lease_id'', ''max_uses'', ''constraints'']"

definition requiredCapability :: "bytes list" where
  "requiredCapability =
    [''version'', ''lease_id'', ''root_lease_id'', ''root_workload_id'', ''workload_id'', ''actions'',
     ''resources'', ''depth'', ''max_depth'', ''max_uses'', ''constraints'']"

text \<open>\<open>json.Unmarshal\<close> into a map; of an absent member it fails, on an empty text.\<close>

definition member_object :: "(bytes, json) fmap \<Rightarrow> bytes \<Rightarrow> (bytes, json) fmap option" where
  "member_object values name =
    (case fmlookup values name of None \<Rightarrow> None | Some v \<Rightarrow> json_object v)"

definition member_string :: "(bytes, json) fmap \<Rightarrow> bytes \<Rightarrow> bytes option" where
  "member_string values name =
    (case fmlookup values name of None \<Rightarrow> None | Some v \<Rightarrow> json_string v)"

definition unmarshal_object :: "bytes \<Rightarrow> (bytes, json) fmap option" where
  "unmarshal_object data = Option.bind (json_unmarshal data) json_object"

definition check_confirmation :: "(bytes, json) fmap \<Rightarrow> unit result" where
  "check_confirmation payload =
    (case fmlookup payload ''cnf'' of
       None \<Rightarrow> Inr ()
     | Some raw \<Rightarrow>
         (case json_object raw of
            None \<Rightarrow> Inl (Opaque ''invalid confirmation claim'')
          | Some confirmation \<Rightarrow>
              if fmlen confirmation \<noteq> 1 then Inl (Opaque ''invalid confirmation claim'')
              else if fmlookup confirmation ''jkt'' = None then Inl (Opaque ''invalid confirmation claim'')
              else Inr ()))"

definition check_payload :: "(bytes, json) fmap \<Rightarrow> unit result" where
  "check_payload payload =
    (if \<not> fmpred (\<lambda>name _. name \<in> set allowedClaims) payload
     then Inl (Opaque ''unexpected token claim'')
     else case member_object payload ''ups'' of
       None \<Rightarrow> Inl (Opaque ''invalid capability claim'')
     | Some capability \<Rightarrow>
         if \<not> fmpred (\<lambda>name _. name \<in> set allowedCapability) capability
         then Inl (Opaque ''unexpected capability claim'')
         else if list_ex (\<lambda>required. fmlookup capability required = None) requiredCapability
         then Inl (Opaque ''missing capability claim'')
         else check_confirmation payload)"

definition strictTokenParts :: "bytes \<Rightarrow> ((bytes, json) fmap \<times> (bytes, json) fmap) result" where
  "strictTokenParts raw =
    (if length raw = 0 \<or> length raw > MaxLeaseTokenBytes then Inl (Opaque ''invalid token size'')
     else case split_on CHR ''.'' raw of
       [part0, part1, part2] \<Rightarrow>
         (if part0 = [] \<or> part1 = [] \<or> part2 = [] then Inl (Opaque ''invalid compact token'')
          else case (raw_url_decode part0, raw_url_decode part1) of
            (Some headerBytes, Some payloadBytes) \<Rightarrow>
              (case rejectDuplicateJSONKeys headerBytes of
                 Inl err \<Rightarrow> Inl err
               | Inr _ \<Rightarrow>
                 (case rejectDuplicateJSONKeys payloadBytes of
                    Inl err \<Rightarrow> Inl err
                  | Inr _ \<Rightarrow>
                    (case (unmarshal_object headerBytes, unmarshal_object payloadBytes) of
                       (Some header, Some payload) \<Rightarrow>
                         (case check_payload payload of
                            Inl err \<Rightarrow> Inl err
                          | Inr _ \<Rightarrow> Inr (header, payload))
                     | _ \<Rightarrow> Inl (Opaque ''json: cannot unmarshal''))))
          | _ \<Rightarrow> Inl (Opaque ''illegal base64 data''))
     | _ \<Rightarrow> Inl (Opaque ''invalid compact token''))"

definition TokenKeyID :: "bytes \<Rightarrow> bytes result" where
  "TokenKeyID raw =
    (case strictTokenParts raw of
       Inl err \<Rightarrow> Inl err
     | Inr (header, _) \<Rightarrow>
         if fmlen header \<noteq> 3 then Inl (Opaque ''unexpected token header'')
         else if member_string header ''alg'' \<noteq> Some ''EdDSA'' then Inl (Opaque ''invalid token algorithm'')
         else if member_string header ''typ'' \<noteq> Some LeaseTokenType then Inl (Opaque ''invalid token type'')
         else case member_string header ''kid'' of
           None \<Rightarrow> Inl (Opaque ''invalid token key id'')
         | Some kid \<Rightarrow>
         if kid = [] then Inl (Opaque ''invalid token key id'') else Inr kid)"

subsection \<open>Signing and verification\<close>

definition SignLeaseClaims :: "auth_lib \<Rightarrow> LeaseClaims \<Rightarrow> bytes \<Rightarrow> bytes result" where
  "SignLeaseClaims L claims privateKey =
    (if length privateKey \<noteq> PrivateKeySize then Inl (CryptoE ErrInvalidPrivateKey)
     else case jwt_sign L \<lparr>h_typ = Some LeaseTokenType, h_kid = Some (keyID L (Public privateKey))\<rparr>
                 claims privateKey of
       Inl err \<Rightarrow> Inl (Wrapped ''sign JWT'' [err])
     | Inr token \<Rightarrow> Inr token)"

definition validResource :: "unicode_lib \<Rightarrow> bytes \<Rightarrow> bool" where
  "validResource U value = ok (CanonicalizePattern U value)"

fun valid_capability_values_loop :: "unicode_lib \<Rightarrow> bool \<Rightarrow> bytes fset \<Rightarrow> bytes list \<Rightarrow> bool" where
  "valid_capability_values_loop U resources seen [] = True"
| "valid_capability_values_loop U resources seen (value # values) =
    (if value = [] \<or> length value > 256 \<or> trim_space value \<noteq> value then False
     else if resources \<and> \<not> validResource U value then False
     else if value |\<in>| seen then False
     else valid_capability_values_loop U resources (finsert value seen) values)"

definition validCapabilityValues :: "unicode_lib \<Rightarrow> bytes list \<Rightarrow> bool \<Rightarrow> bool" where
  "validCapabilityValues U values resources =
    (if length values > 64 then False else valid_capability_values_loop U resources {||} values)"

text \<open>The function that chooses the key of a token from its header.\<close>

definition key_function :: "(bytes, bytes) fmap \<Rightarrow> jwt_header \<Rightarrow> bytes result" where
  "key_function keys header =
    (if h_typ header \<noteq> Some LeaseTokenType then Inl (Opaque ''invalid token type'')
     else case h_kid header of
       None \<Rightarrow> Inl (Opaque ''missing token key id'')
     | Some kid \<Rightarrow>
         if kid = [] then Inl (Opaque ''missing token key id'')
         else case fmlookup keys kid of
           None \<Rightarrow> Inl (Opaque ''unknown token key id'')
         | Some key \<Rightarrow> Inr key)"

definition parse_options :: "bytes \<Rightarrow> bytes \<Rightarrow> duration \<Rightarrow> jwt_options" where
  "parse_options issuer audience leeway =
    \<lparr>o_ValidMethods = [''EdDSA''], o_ExpirationRequired = True, o_VerifyIssuedAt = True,
     o_NotBeforeRequired = True, o_Issuer = issuer, o_Audience = audience, o_Leeway = leeway,
     o_StrictDecoding = True\<rparr>"

definition parse_failure :: "jwt_error list \<Rightarrow> go_error" where
  "parse_failure errs =
    (if TokenExpired \<in> set errs then CryptoE ErrTokenExpired
     else if TokenNotValidYet \<in> set errs then CryptoE ErrTokenNotYetValid
     else if TokenInvalidAudience \<in> set errs then CryptoE ErrInvalidAudience
     else if TokenInvalidIssuer \<in> set errs then CryptoE ErrInvalidIssuer
     else if TokenSignatureInvalid \<in> set errs then CryptoE ErrInvalidSignature
     else CryptoE ErrInvalidToken)"

definition missing_claims :: "LeaseClaims \<Rightarrow> bool" where
  "missing_claims claims \<longleftrightarrow>
    c_ID claims = [] \<or> c_Subject claims = [] \<or> c_IssuedAt claims = None
    \<or> c_NotBefore claims = None \<or> c_ExpiresAt claims = None \<or> length (c_Audience claims) \<noteq> 1"

definition invalid_capability :: "unicode_lib \<Rightarrow> LeaseClaims \<Rightarrow> bool" where
  "invalid_capability U claims =
    (let ups = c_UPS claims
     in ups_Version ups \<noteq> LeaseTokenVersion \<or> ups_LeaseID ups = [] \<or> ups_RootLeaseID ups = []
      \<or> ups_RootWorkloadID ups = [] \<or> ups_WorkloadID ups \<noteq> c_Subject claims
      \<or> length (ups_Actions ups) = 0 \<or> length (ups_Resources ups) = 0
      \<or> sint (ups_Depth ups) < 0 \<or> sint (ups_MaxDepth ups) < sint (ups_Depth ups)
      \<or> sint (ups_MaxDepth ups) > 16 \<or> sint (ups_MaxUses ups) < 0
      \<or> (case ups_Constraints ups of None \<Rightarrow> True | Some m \<Rightarrow> \<not> Valid U m)
      \<or> \<not> validCapabilityValues U (ups_Actions ups) False
      \<or> \<not> validCapabilityValues U (ups_Resources ups) True)"

definition invalid_root_claims :: "LeaseClaims \<Rightarrow> bool" where
  "invalid_root_claims claims =
    (let ups = c_UPS claims
     in ups_ParentLeaseID ups \<noteq> [] \<or> ups_DelegatedByWorkloadID ups \<noteq> []
      \<or> ups_RootLeaseID ups \<noteq> ups_LeaseID ups \<or> ups_RootWorkloadID ups \<noteq> c_Subject claims)"

definition invalid_delegated_claims :: "LeaseClaims \<Rightarrow> bool" where
  "invalid_delegated_claims claims =
    (ups_ParentLeaseID (c_UPS claims) = [] \<or> ups_DelegatedByWorkloadID (c_UPS claims) = [])"

definition invalid_times :: "LeaseClaims \<Rightarrow> bool" where
  "invalid_times claims =
    (\<not> the (c_ExpiresAt claims) > the (c_IssuedAt claims)
     \<or> the (c_NotBefore claims) < the (c_IssuedAt claims))"

definition check_claims :: "unicode_lib \<Rightarrow> LeaseClaims \<Rightarrow> LeaseClaims result" where
  "check_claims U claims =
    (if missing_claims claims then Inl (Opaque ''missing required token claims'')
     else if invalid_capability U claims then Inl (Opaque ''invalid capability claims'')
     else if (case c_Confirmation claims of None \<Rightarrow> False | Some cnf \<Rightarrow> length (jkt cnf) \<noteq> 43)
     then Inl (Opaque ''invalid confirmation claim'')
     else if ups_Depth (c_UPS claims) = 0 \<and> invalid_root_claims claims
     then Inl (Opaque ''invalid root lease claims'')
     else if ups_Depth (c_UPS claims) \<noteq> 0 \<and> invalid_delegated_claims claims
     then Inl (Opaque ''invalid delegated lease claims'')
     else if invalid_times claims then Inl (Opaque ''invalid lease time claims'')
     else Inr claims)"

definition VerifyLeaseToken ::
    "auth_lib \<Rightarrow> instant \<Rightarrow> bytes \<Rightarrow> (bytes, bytes) fmap \<Rightarrow> bytes \<Rightarrow> bytes \<Rightarrow> duration
      \<Rightarrow> LeaseClaims result" where
  "VerifyLeaseToken L now raw keys issuer audience leeway =
    (if raw = [] \<or> length raw > MaxLeaseTokenBytes \<or> issuer = [] \<or> audience = []
        \<or> fmlen keys = 0 \<or> leeway < 0
     then Inl (Opaque ''invalid token verification configuration'')
     else case TokenKeyID raw of
       Inl _ \<Rightarrow> Inl (Opaque ''invalid lease token'')
     | Inr kid \<Rightarrow>
         if fmlookup keys kid = None then Inl (Opaque ''invalid lease token'')
         else case jwt_parse L (parse_options issuer audience leeway) now raw (key_function keys) of
           Inl errs \<Rightarrow> Inl (parse_failure errs)
         | Inr claims \<Rightarrow> check_claims (unicode L) claims)"

subsection \<open>What the libraries promise\<close>

text \<open>The header the library reads from the first part of a token.\<close>

definition string_field :: "(bytes, json) fmap \<Rightarrow> bytes \<Rightarrow> bytes option" where
  "string_field m name = (case fmlookup m name of Some (JString s) \<Rightarrow> Some s | _ \<Rightarrow> None)"

definition header_of :: "bytes \<Rightarrow> jwt_header" where
  "header_of part0 =
    (case Option.bind (raw_url_decode part0) unmarshal_object of
       None \<Rightarrow> \<lparr>h_typ = None, h_kid = None\<rparr>
     | Some m \<Rightarrow> \<lparr>h_typ = string_field m ''typ'', h_kid = string_field m ''kid''\<rparr>)"

definition token_signed :: "auth_lib \<Rightarrow> bytes \<Rightarrow> jwt_header \<Rightarrow> bytes \<Rightarrow> bool" where
  "token_signed L raw header key \<longleftrightarrow>
    (\<exists>part0 part1 part2 sig. split_on CHR ''.'' raw = [part0, part1, part2]
      \<and> raw_url_decode part2 = Some sig \<and> header = header_of part0
      \<and> ed25519_verify L key (part0 @ ''.'' @ part1) sig)"

definition claims_checked :: "jwt_options \<Rightarrow> instant \<Rightarrow> LeaseClaims \<Rightarrow> bool" where
  "claims_checked opts now claims \<longleftrightarrow>
    (o_ExpirationRequired opts \<longrightarrow> c_ExpiresAt claims \<noteq> None)
    \<and> (o_NotBeforeRequired opts \<longrightarrow> c_NotBefore claims \<noteq> None)
    \<and> (\<forall>t. c_ExpiresAt claims = Some t \<longrightarrow> now < t + o_Leeway opts)
    \<and> (\<forall>t. c_NotBefore claims = Some t \<longrightarrow> t - o_Leeway opts \<le> now)
    \<and> (\<forall>t. o_VerifyIssuedAt opts \<longrightarrow> c_IssuedAt claims = Some t \<longrightarrow> t - o_Leeway opts \<le> now)
    \<and> c_Issuer claims = o_Issuer opts \<and> o_Audience opts \<in> set (c_Audience claims)"

text \<open>
  What \<open>jwt.ParseWithClaims\<close> documents of a token it accepts: the signature verifies under the
  key the key function chose for the token's header, and the registered claims pass the
  validations the options ask for.
\<close>

definition parse_sound :: "auth_lib \<Rightarrow> bool" where
  "parse_sound L \<longleftrightarrow>
    (\<forall>opts now raw kf claims. jwt_parse L opts now raw kf = Inr claims \<longrightarrow>
       (\<exists>header key. kf header = Inr key \<and> token_signed L raw header key)
       \<and> claims_checked opts now claims)"

definition digest_size :: "auth_lib \<Rightarrow> bool" where
  "digest_size L \<longleftrightarrow> (\<forall>s. length (sha256 L s) = 32)"

subsection \<open>Lemmas\<close>

lemma valid_capability_values_loop_iff:
  "valid_capability_values_loop U resources seen vs \<longleftrightarrow>
   trimmed_names vs \<and> list_all (\<lambda>v. length v \<le> 256) vs
   \<and> (resources \<longrightarrow> list_all (valid_pattern U) vs) \<and> list_all (\<lambda>v. v |\<notin>| seen) vs"
proof (induction vs arbitrary: seen)
  case Nil
  show ?case by (simp add: trimmed_names_def)
next
  case (Cons v vs)
  have seen: "list_all (\<lambda>w. w |\<notin>| finsert v seen) vs \<longleftrightarrow>
      v \<notin> set vs \<and> list_all (\<lambda>w. w |\<notin>| seen) vs"
    by (auto simp: list_all_iff)
  have names: "trimmed_names (v # vs) \<longleftrightarrow>
      v \<noteq> [] \<and> trim_space v = v \<and> v \<notin> set vs \<and> trimmed_names vs"
    by (auto simp: trimmed_names_def)
  show ?case
    unfolding valid_capability_values_loop.simps(2) Cons.IH seen names validResource_def
      ok_CanonicalizePattern list.pred_inject not_le [symmetric]
    by argo
qed

lemma validCapabilityValues_iff:
  "validCapabilityValues U vs resources \<longleftrightarrow>
   length vs \<le> 64 \<and> trimmed_names vs \<and> list_all (\<lambda>v. length v \<le> 256) vs
   \<and> (resources \<longrightarrow> list_all (valid_pattern U) vs)"
proof -
  have "list_all (\<lambda>v. v |\<notin>| {||}) vs" by (simp add: list_all_iff)
  then show ?thesis
    by (auto simp: validCapabilityValues_def valid_capability_values_loop_iff)
qed

definition lineage_claims :: "LeaseClaims \<Rightarrow> bool" where
  "lineage_claims claims \<longleftrightarrow>
    (let ups = c_UPS claims
     in if ups_Depth ups = 0
        then ups_ParentLeaseID ups = [] \<and> ups_DelegatedByWorkloadID ups = []
          \<and> ups_RootLeaseID ups = ups_LeaseID ups \<and> ups_RootWorkloadID ups = ups_WorkloadID ups
        else ups_ParentLeaseID ups \<noteq> [] \<and> ups_DelegatedByWorkloadID ups \<noteq> [])"

definition capability_claims :: "unicode_lib \<Rightarrow> CapabilityClaims \<Rightarrow> bool" where
  "capability_claims U ups \<longleftrightarrow>
    ups_Version ups = 1 \<and> ups_LeaseID ups \<noteq> [] \<and> ups_RootLeaseID ups \<noteq> []
    \<and> ups_RootWorkloadID ups \<noteq> []
    \<and> 0 \<le> sint (ups_Depth ups) \<and> sint (ups_Depth ups) \<le> sint (ups_MaxDepth ups)
    \<and> sint (ups_MaxDepth ups) \<le> 16 \<and> 0 \<le> sint (ups_MaxUses ups)
    \<and> (\<exists>m. ups_Constraints ups = Some m \<and> Valid U m)
    \<and> ups_Actions ups \<noteq> [] \<and> length (ups_Actions ups) \<le> 64 \<and> trimmed_names (ups_Actions ups)
    \<and> ups_Resources ups \<noteq> [] \<and> length (ups_Resources ups) \<le> 64
    \<and> trimmed_names (ups_Resources ups) \<and> list_all (valid_pattern U) (ups_Resources ups)"

lemma valid_capability_iff:
  "\<not> invalid_capability U claims \<longleftrightarrow>
    capability_claims U (c_UPS claims) \<and> ups_WorkloadID (c_UPS claims) = c_Subject claims
    \<and> list_all (\<lambda>v. length v \<le> 256) (ups_Actions (c_UPS claims))
    \<and> list_all (\<lambda>v. length v \<le> 256) (ups_Resources (c_UPS claims))"
  unfolding invalid_capability_def Let_def capability_claims_def validCapabilityValues_iff
    LeaseTokenVersion_def
  by (cases "ups_Constraints (c_UPS claims)") (simp_all add: not_less not_le, argo)

lemma check_claims_Inr:
  assumes "check_claims U claims = Inr c"
  shows "c = claims" "capability_claims U (c_UPS claims)" "lineage_claims claims"
    "ups_WorkloadID (c_UPS claims) = c_Subject claims" "c_ID claims \<noteq> []" "c_Subject claims \<noteq> []"
    "\<exists>a. c_Audience claims = [a]"
    "\<exists>iat nbf exp. c_IssuedAt claims = Some iat \<and> c_NotBefore claims = Some nbf
        \<and> c_ExpiresAt claims = Some exp \<and> iat < exp \<and> iat \<le> nbf"
    "\<forall>cnf. c_Confirmation claims = Some cnf \<longrightarrow> length (jkt cnf) = 43"
proof -
  from assms have "\<not> missing_claims claims" and cap: "\<not> invalid_capability U claims"
    and "\<not> invalid_times claims" and c: "c = claims"
    and roots: "ups_Depth (c_UPS claims) = 0 \<Longrightarrow> \<not> invalid_root_claims claims"
      "ups_Depth (c_UPS claims) \<noteq> 0 \<Longrightarrow> \<not> invalid_delegated_claims claims"
    and cnf: "\<not> (case c_Confirmation claims of None \<Rightarrow> False | Some cnf \<Rightarrow> length (jkt cnf) \<noteq> 43)"
    by (auto simp add: check_claims_def simp del: not_None_eq split del: option.split)
  then show "c_ID claims \<noteq> []" "c_Subject claims \<noteq> []" "\<exists>a. c_Audience claims = [a]"
    "\<exists>iat nbf exp. c_IssuedAt claims = Some iat \<and> c_NotBefore claims = Some nbf
        \<and> c_ExpiresAt claims = Some exp \<and> iat < exp \<and> iat \<le> nbf"
    by (auto simp: missing_claims_def invalid_times_def length_Suc_conv)
  show "c = claims" by (rule c)
  show "capability_claims U (c_UPS claims)" and sub: "ups_WorkloadID (c_UPS claims) = c_Subject claims"
    using cap by (simp_all add: valid_capability_iff)
  show "lineage_claims claims"
    using roots sub
    by (auto simp: lineage_claims_def Let_def invalid_root_claims_def invalid_delegated_claims_def)
  show "\<forall>cnf. c_Confirmation claims = Some cnf \<longrightarrow> length (jkt cnf) = 43"
    using cnf by (cases "c_Confirmation claims") auto
qed

lemma strictTokenParts_Inr:
  assumes "strictTokenParts raw = Inr (header, payload)"
  obtains part0 part1 part2 hv pv hb pb where
    "split_on CHR ''.'' raw = [part0, part1, part2]" "raw_url_decode part0 = Some hb"
    "raw_url_decode part1 = Some pb" "json_unmarshal hb = Some hv" "json_unmarshal pb = Some pv"
    "distinct_keys hv" "distinct_keys pv" "json_object hv = Some header" "json_object pv = Some payload"
    "check_payload payload = Inr ()" "raw \<noteq> []" "length raw \<le> MaxLeaseTokenBytes"
  using assms
  by (auto simp: strictTokenParts_def rejectDuplicateJSONKeys_def unmarshal_object_def
      split: if_splits list.splits option.splits sum.splits)

lemma member_string_field:
  "member_string m name = Some s \<Longrightarrow> s \<noteq> [] \<Longrightarrow> string_field m name = Some s"
  by (auto simp: member_string_def string_field_def split: option.splits elim: json_string.elims)

lemma TokenKeyID_Inr:
  assumes "TokenKeyID raw = Inr kid"
  shows "\<exists>part0 part1 part2. split_on CHR ''.'' raw = [part0, part1, part2]
    \<and> header_of part0 = \<lparr>h_typ = Some LeaseTokenType, h_kid = Some kid\<rparr>"
proof -
  from assms obtain header payload where parts: "strictTokenParts raw = Inr (header, payload)"
    and f: "member_string header ''typ'' = Some LeaseTokenType" "member_string header ''kid'' = Some kid"
      "kid \<noteq> []"
    by (auto simp: TokenKeyID_def split: sum.splits prod.splits if_splits option.splits)
  have "string_field header ''typ'' = Some LeaseTokenType" "string_field header ''kid'' = Some kid"
    using f member_string_field by (simp_all add: LeaseTokenType_def)
  then show ?thesis
    using strictTokenParts_Inr [OF parts]
    by (metis (no_types, lifting) bind.bind_lunit header_of_def option.simps(5) unmarshal_object_def)
qed

lemma JWKThumbprint_Inr:
  "JWKThumbprint L k = Inr t \<longleftrightarrow> length k = 32 \<and> t = raw_url_encode (sha256 L (canonical_jwk k))"
  by (auto simp: JWKThumbprint_def PublicKeySize_def)

lemma canonical_jwk_inj: "canonical_jwk k = canonical_jwk k' \<longleftrightarrow> k = k'"
  by (simp add: canonical_jwk_def raw_url_encode_inj)

lemma VerificationKeys_fold:
  "fmlookup (fold (\<lambda>key result. if length key = PublicKeySize
      then fmupd (keyID L key) key result else result) keys m) kid = Some k \<Longrightarrow>
   fmlookup m kid = Some k \<or> k \<in> set keys \<and> length k = 32 \<and> keyID L k = kid"
proof (induction keys arbitrary: m)
  case (Cons key keys)
  from Cons.IH [OF Cons.prems [simplified]] show ?case
    by (auto simp: PublicKeySize_def split: if_splits)
qed simp

lemma VerificationKeys_dom:
  "fset (fmdom (VerificationKeys L keys)) = keyID L ` {k \<in> set keys. length k = 32}"
proof -
  have "fset (fmdom (fold (\<lambda>key result. if length key = PublicKeySize
      then fmupd (keyID L key) key result else result) keys m))
    = fset (fmdom m) \<union> keyID L ` {k \<in> set keys. length k = 32}" for m
    by (induction keys arbitrary: m) (auto simp: PublicKeySize_def)
  then show ?thesis by (simp add: VerificationKeys_def)
qed

lemma VerifyLeaseToken_Inr:
  assumes "VerifyLeaseToken L now raw keys issuer audience leeway = Inr claims"
  obtains kid where "TokenKeyID raw = Inr kid" "issuer \<noteq> []" "audience \<noteq> []" "0 \<le> leeway"
    "jwt_parse L (parse_options issuer audience leeway) now raw (key_function keys) = Inr claims"
    "check_claims (unicode L) claims = Inr claims"
proof -
  from assms obtain kid c where "TokenKeyID raw = Inr kid" "issuer \<noteq> []" "audience \<noteq> []" "0 \<le> leeway"
    and c: "jwt_parse L (parse_options issuer audience leeway) now raw (key_function keys) = Inr c"
    "check_claims (unicode L) c = Inr claims"
    by (auto simp: VerifyLeaseToken_def not_less split: sum.splits if_splits)
  moreover have "c = claims" using check_claims_Inr(1) [OF c(2)] by simp
  ultimately show ?thesis using that by blast
qed

lemma verified_authentic:
  assumes "parse_sound L" and "VerifyLeaseToken L now raw keys issuer audience leeway = Inr claims"
  obtains kid key header iat nbf exp where "TokenKeyID raw = Inr kid" "fmlookup keys kid = Some key"
    "h_kid header = Some kid" "token_signed L raw header key"
    "c_Issuer claims = issuer" "c_Audience claims = [audience]" "c_IssuedAt claims = Some iat"
    "c_NotBefore claims = Some nbf" "c_ExpiresAt claims = Some exp" "iat \<le> nbf" "iat < exp"
    "nbf \<le> now + leeway" "now < exp + leeway"
proof -
  obtain kid where kid: "TokenKeyID raw = Inr kid"
    and parse: "jwt_parse L (parse_options issuer audience leeway) now raw (key_function keys) = Inr claims"
    and check: "check_claims (unicode L) claims = Inr claims"
    using assms(2) by (rule VerifyLeaseToken_Inr)
  have "\<exists>header key. key_function keys header = Inr key \<and> token_signed L raw header key"
    and cc: "claims_checked (parse_options issuer audience leeway) now claims"
    using assms(1) parse by (auto simp: parse_sound_def)
  then obtain header key where key: "key_function keys header = Inr key"
    and sig: "token_signed L raw header key" by blast
  have "h_kid header = Some kid"
    using sig TokenKeyID_Inr [OF kid] by (auto simp: token_signed_def)
  moreover from key this have "fmlookup keys kid = Some key"
    by (auto simp: key_function_def split: option.splits)
  moreover obtain a where "c_Audience claims = [a]" using check_claims_Inr(7) [OF check] by blast
  then have "c_Audience claims = [audience]"
    using cc by (simp add: claims_checked_def parse_options_def)
  moreover have "\<exists>iat nbf exp. c_IssuedAt claims = Some iat \<and> c_NotBefore claims = Some nbf
      \<and> c_ExpiresAt claims = Some exp \<and> iat \<le> nbf \<and> iat < exp
      \<and> nbf \<le> now + leeway \<and> now < exp + leeway"
    using check_claims_Inr(8) [OF check] cc by (auto simp: claims_checked_def parse_options_def)
  moreover have "c_Issuer claims = issuer" using cc by (simp add: claims_checked_def parse_options_def)
  ultimately show thesis using that kid sig by blast
qed

subsection \<open>A concrete token\<close>

text \<open>The text with a double quote for every exclamation mark.\<close>

definition quotes :: "bytes \<Rightarrow> bytes" where
  "quotes s = map (\<lambda>c. if c = CHR ''!'' then CHR 0x22 else c) s"

definition example_header :: bytes where
  "example_header = quotes ''{!alg!:!EdDSA!,!kid!:!k!,!typ!:!upsilon-lease+jwt!}''"

definition example_payload :: bytes where
  "example_payload = quotes (''{!ups!:{!version!:1,!lease_id!:!l!,!root_lease_id!:!l!,''
    @ ''!root_workload_id!:!w!,!workload_id!:!w!,!actions!:[!a!],!resources!:[!r!],''
    @ ''!depth!:0,!max_depth!:2,!max_uses!:0,!constraints!:{}}}'')"

definition example_capability :: "(bytes \<times> json) list" where
  "example_capability =
    [(''version'', JNumber ''1''), (''lease_id'', JString ''l''), (''root_lease_id'', JString ''l''),
     (''root_workload_id'', JString ''w''), (''workload_id'', JString ''w''),
     (''actions'', JArray [JString ''a'']), (''resources'', JArray [JString ''r'']),
     (''depth'', JNumber ''0''), (''max_depth'', JNumber ''2''), (''max_uses'', JNumber ''0''),
     (''constraints'', JObject [])]"

definition example_raw :: bytes where
  "example_raw = raw_url_encode example_header @ CHR ''.'' # raw_url_encode example_payload
    @ CHR ''.'' # raw_url_encode ''sig''"

lemma example_header_json:
  "json_unmarshal example_header = Some (JObject
    [(''alg'', JString ''EdDSA''), (''kid'', JString ''k''), (''typ'', JString ''upsilon-lease+jwt'')])"
  by code_simp

lemma example_payload_json:
  "json_unmarshal example_payload = Some (JObject [(''ups'', JObject example_capability)])"
  by code_simp

lemma dot_not_encoded: "CHR ''.'' \<notin> set (raw_url_encode s)"
proof -
  have "CHR ''.'' \<notin> set url_alphabet" by (simp add: url_alphabet_def)
  then show ?thesis
    using set_b64_encode [OF url_alphabet_facts(2), of s] by (auto simp: raw_url_encode_def)
qed

lemma example_split:
  "split_on CHR ''.'' example_raw =
   [raw_url_encode example_header, raw_url_encode example_payload, raw_url_encode ''sig'']"
  unfolding example_raw_def append.simps split_on_append_sep
  using dot_not_encoded by (simp add: split_on_single split_on_append_sep)

lemma example_encodings:
  "raw_url_encode example_header \<noteq> []" "raw_url_encode example_payload \<noteq> []"
  "length example_raw \<noteq> 0" "length example_raw \<le> MaxLeaseTokenBytes"
  by (simp_all add: example_raw_def example_header_def example_payload_def quotes_def
      raw_url_encode_def length_b64_encode MaxLeaseTokenBytes_def flip: length_greater_0_conv)

lemma example_check_payload:
  "check_payload (fmap_of_list [(''ups'', JObject example_capability)]) = Inr ()"
  by code_simp

lemma example_distinct_keys:
  "distinct_keys (JObject [(''ups'', JObject example_capability)])"
  by code_simp

lemma example_strict_parts:
  "strictTokenParts example_raw =
    Inr (fmap_of_list [(''typ'', JString ''upsilon-lease+jwt''), (''kid'', JString ''k''), (''alg'', JString ''EdDSA'')],
         fmap_of_list [(''ups'', JObject example_capability)])"
  using example_check_payload example_distinct_keys example_encodings
  by (simp add: strictTokenParts_def example_split rejectDuplicateJSONKeys_def
      unmarshal_object_def example_header_json example_payload_json not_less)

lemma example_key_id: "TokenKeyID example_raw = Inr ''k''"
  unfolding TokenKeyID_def example_strict_parts
  by (simp add: member_string_def LeaseTokenType_def)

definition example_claims :: LeaseClaims where
  "example_claims =
    \<lparr>c_UPS = \<lparr>ups_Version = 1, ups_LeaseID = ''l'', ups_RootLeaseID = ''l'', ups_RootWorkloadID = ''w'',
       ups_WorkloadID = ''w'', ups_DelegatedByWorkloadID = [], ups_Actions = [''read''],
       ups_Resources = [''customer/*''], ups_Depth = 0, ups_MaxDepth = 2, ups_ParentLeaseID = [],
       ups_MaxUses = 0, ups_Constraints = Some fmempty\<rparr>,
     c_Confirmation = None, c_Issuer = ''i'', c_Subject = ''w'', c_Audience = [''billing''],
     c_ExpiresAt = Some hour, c_NotBefore = Some 0, c_IssuedAt = Some 0, c_ID = ''t''\<rparr>"

text \<open>A parser that accepts one token, whose claims are those above, under any key.\<close>

definition example_parse ::
    "bytes \<Rightarrow> LeaseClaims \<Rightarrow> jwt_options \<Rightarrow> instant \<Rightarrow> bytes \<Rightarrow> (jwt_header \<Rightarrow> bytes result)
      \<Rightarrow> jwt_error list + LeaseClaims" where
  "example_parse token claims opts now raw kf =
    (case kf (header_of (hd (split_on CHR ''.'' token))) of
       Inl _ \<Rightarrow> Inl [TokenSignatureInvalid]
     | Inr _ \<Rightarrow>
         if raw = token
            \<and> (\<forall>t \<in> set_option (c_ExpiresAt claims). now < t + o_Leeway opts)
            \<and> (\<forall>t \<in> set_option (c_NotBefore claims). t - o_Leeway opts \<le> now)
            \<and> (o_VerifyIssuedAt opts \<longrightarrow> (\<forall>t \<in> set_option (c_IssuedAt claims). t - o_Leeway opts \<le> now))
            \<and> c_Issuer claims = o_Issuer opts \<and> o_Audience opts \<in> set (c_Audience claims)
         then Inr claims else Inl [OtherJwtError])"

definition example_lib :: auth_lib where
  "example_lib =
    \<lparr>unicode = ascii_lib, sha256 = (\<lambda>s. take 32 (s @ replicate 32 (CHR 0x00))),
     ed25519_verify = (\<lambda>_ _ _. True), ed25519_from_seed = (\<lambda>s. s @ s),
     jwt_sign = (\<lambda>_ _ _. Inr example_raw), jwt_parse = example_parse example_raw example_claims,
     parse_uuid = Some\<rparr>"

lemma example_parse_sound: "parse_sound example_lib"
proof -
  have sig: "token_signed example_lib example_raw (header_of (hd (split_on CHR ''.'' example_raw))) key" for key
    by (simp add: token_signed_def example_split example_lib_def)
  have "c_ExpiresAt example_claims \<noteq> None" "c_NotBefore example_claims \<noteq> None"
    by (simp_all add: example_claims_def)
  with sig show ?thesis
    by (auto simp: parse_sound_def claims_checked_def example_lib_def example_parse_def
        split: sum.splits if_splits)
qed

lemma example_capability_claims: "capability_claims (unicode example_lib) (c_UPS example_claims)"
proof -
  have "trimmed_names [''read'']" by (rule trimmed_plain) (simp_all add: plain_char_def)
  moreover have "trimmed_names [''customer/*'']"
    by (rule trimmed_patterns [of _ ascii_lib]) (simp_all add: example_resources)
  ultimately show ?thesis
    by (simp add: capability_claims_def example_claims_def example_lib_def example_resources)
qed

lemma example_check_claims: "check_claims (unicode example_lib) example_claims = Inr example_claims"
proof -
  have "\<not> invalid_capability (unicode example_lib) example_claims"
    unfolding valid_capability_iff using example_capability_claims by (simp add: example_claims_def)
  moreover have "\<not> missing_claims example_claims" "\<not> invalid_root_claims example_claims"
    "\<not> invalid_times example_claims" "c_Confirmation example_claims = None"
    "ups_Depth (c_UPS example_claims) = 0"
    by (simp_all add: example_claims_def missing_claims_def invalid_root_claims_def
        invalid_times_def duration_defs)
  ultimately show ?thesis by (simp add: check_claims_def)
qed

lemma example_verified:
  "VerifyLeaseToken example_lib 1 example_raw (fmap_of_list [(''k'', ''key'')]) ''i'' ''billing'' 0
   = Inr example_claims"
proof -
  have "header_of (raw_url_encode example_header) = \<lparr>h_typ = Some LeaseTokenType, h_kid = Some ''k''\<rparr>"
    using TokenKeyID_Inr [OF example_key_id] by (simp add: example_split)
  then have "jwt_parse example_lib (parse_options ''i'' ''billing'' 0) 1 example_raw
      (key_function (fmap_of_list [(''k'', ''key'')])) = Inr example_claims"
    by (simp add: example_lib_def example_parse_def example_split key_function_def parse_options_def
        example_claims_def duration_defs)
  moreover note example_check_claims
  ultimately show ?thesis
    using example_encodings example_key_id by (simp add: VerifyLeaseToken_def not_less)
qed

subsection \<open>Properties\<close>

text \<open>C15: a verified token was signed under a trusted key. If the JWT library is sound, a token
  \<open>VerifyLeaseToken\<close> accepts has a signature over its first two parts that verifies under
  the key its own header names among the verification keys, was issued by the issuer for
  exactly the audience, and is used after it becomes valid and before it expires, up to the
  leeway; its validity interval is not empty.\<close>

theorem VerifyLeaseToken_authentic:
  assumes "parse_sound L" and "VerifyLeaseToken L now raw keys issuer audience leeway = Inr claims"
  shows "(\<exists>kid key header. TokenKeyID raw = Inr kid \<and> fmlookup keys kid = Some key
        \<and> h_kid header = Some kid \<and> token_signed L raw header key)
    \<and> c_Issuer claims = issuer \<and> c_Audience claims = [audience]
    \<and> (\<exists>iat nbf exp. c_IssuedAt claims = Some iat \<and> c_NotBefore claims = Some nbf
        \<and> c_ExpiresAt claims = Some exp \<and> iat \<le> nbf \<and> iat < exp
        \<and> nbf \<le> now + leeway \<and> now < exp + leeway)"
  using verified_authentic [OF assms] by metis

theorem VerifyLeaseToken_authentic_witness:
  "\<exists>header key. h_kid header = Some ''k'' \<and> token_signed example_lib example_raw header key"
  using VerifyLeaseToken_authentic [OF example_parse_sound example_verified] example_key_id by auto

text \<open>A verified token carries a well-formed capability: version 1, depths with
  \<open>0 \<le> depth \<le> max_depth \<le> 16\<close>, valid constraints, one to 64 distinct trimmed actions and
  as many canonical resource patterns, the workload as subject, a confirmation of 43
  characters if any, and the shape of a root at depth 0 and of a delegated lease below.\<close>

theorem VerifyLeaseToken_capability:
  assumes "VerifyLeaseToken L now raw keys issuer audience leeway = Inr claims"
  shows "capability_claims (unicode L) (c_UPS claims) \<and> lineage_claims claims
    \<and> ups_WorkloadID (c_UPS claims) = c_Subject claims \<and> c_Subject claims \<noteq> [] \<and> c_ID claims \<noteq> []
    \<and> (\<forall>cnf. c_Confirmation claims = Some cnf \<longrightarrow> length (jkt cnf) = 43)"
  using assms by (elim VerifyLeaseToken_Inr) (simp add: check_claims_Inr)

theorem VerifyLeaseToken_capability_witness:
  "lineage_claims example_claims \<and> capability_claims ascii_lib (c_UPS example_claims)"
  using VerifyLeaseToken_capability [OF example_verified] by (simp add: example_lib_def)

text \<open>The strict reading of a token leaves no room for two readers to disagree. The token has
  three non-empty parts, the header and the payload are JSON objects in which no object at
  any depth repeats a key, the payload has only known claims, and its capability has only
  known fields and all the required ones.\<close>

theorem strictTokenParts_unambiguous:
  assumes "strictTokenParts raw = Inr (header, payload)"
  shows "\<exists>part0 part1 part2 headerBytes payloadBytes headerValue payloadValue capability.
    split_on CHR ''.'' raw = [part0, part1, part2]
    \<and> raw_url_decode part0 = Some headerBytes \<and> json_unmarshal headerBytes = Some headerValue
    \<and> raw_url_decode part1 = Some payloadBytes \<and> json_unmarshal payloadBytes = Some payloadValue
    \<and> distinct_keys headerValue \<and> distinct_keys payloadValue
    \<and> json_object headerValue = Some header \<and> json_object payloadValue = Some payload
    \<and> fset (fmdom payload) \<subseteq> set allowedClaims
    \<and> member_object payload ''ups'' = Some capability
    \<and> set requiredCapability \<subseteq> fset (fmdom capability)
    \<and> fset (fmdom capability) \<subseteq> set allowedCapability"
proof -
  obtain part0 part1 part2 hv pv hb pb where p:
    "split_on CHR ''.'' raw = [part0, part1, part2]" "raw_url_decode part0 = Some hb"
    "raw_url_decode part1 = Some pb" "json_unmarshal hb = Some hv" "json_unmarshal pb = Some pv"
    "distinct_keys hv" "distinct_keys pv" "json_object hv = Some header" "json_object pv = Some payload"
    and c: "check_payload payload = Inr ()"
    using assms by (rule strictTokenParts_Inr)
  have "fmpred (\<lambda>name _. name \<in> set allowedClaims) payload"
    using c by (simp add: check_payload_def)
  then have a: "fset (fmdom payload) \<subseteq> set allowedClaims"
    by (auto dest: fmpredD)
  obtain capability where cap: "member_object payload ''ups'' = Some capability"
    using c by (auto simp: check_payload_def split: option.splits)
  then have "fmpred (\<lambda>name _. name \<in> set allowedCapability) capability"
    and "\<not> list_ex (\<lambda>required. fmlookup capability required = None) requiredCapability"
    using c by (simp_all add: check_payload_def)
  then have "set requiredCapability \<subseteq> fset (fmdom capability)"
    "fset (fmdom capability) \<subseteq> set allowedCapability"
    by (auto simp: list_ex_iff fmlookup_dom_iff dest: fmpredD)
  with p a cap show ?thesis by blast
qed

theorem strictTokenParts_unambiguous_witness:
  "\<exists>capability. member_object (fmap_of_list [(''ups'', JObject example_capability)]) ''ups'' = Some capability
    \<and> set requiredCapability \<subseteq> fset (fmdom capability)"
  using strictTokenParts_unambiguous [OF example_strict_parts] by blast

text \<open>A thumbprint binds a key. Thumbprints exist for keys of 32 bytes only and have 43
  characters; two keys have the same thumbprint only if their canonical JWKs, which differ,
  collide under SHA-256.\<close>

theorem JWKThumbprint_binds:
  assumes "digest_size L" and "JWKThumbprint L key = Inr thumbprint"
    and "JWKThumbprint L key' = Inr thumbprint"
  shows "length key = 32 \<and> length thumbprint = 43
    \<and> (key = key' \<or> canonical_jwk key \<noteq> canonical_jwk key'
         \<and> sha256 L (canonical_jwk key) = sha256 L (canonical_jwk key'))"
  using assms
  by (auto simp: JWKThumbprint_Inr digest_size_def length_raw_url_encode_32 raw_url_encode_inj
      canonical_jwk_inj)

theorem JWKThumbprint_binds_witness:
  "length (raw_url_encode (sha256 example_lib (canonical_jwk (replicate 32 (CHR ''k''))))) = 43"
proof -
  have "digest_size example_lib" by (auto simp: digest_size_def example_lib_def)
  moreover have "JWKThumbprint example_lib (replicate 32 (CHR ''k''))
      = Inr (raw_url_encode (sha256 example_lib (canonical_jwk (replicate 32 (CHR ''k'')))))"
    by (simp add: JWKThumbprint_Inr)
  ultimately show ?thesis
    using JWKThumbprint_binds by blast
qed

text \<open>The verification keys are indexed by their own identifiers: a key found under an
  identifier has that identifier and is one of the given keys, of 32 bytes, and every given key
  of 32 bytes has its identifier in the map.\<close>

theorem VerificationKeys_exact:
  "fset (fmdom (VerificationKeys L keys)) = keyID L ` {key \<in> set keys. length key = PublicKeySize}
   \<and> fmpred (\<lambda>kid key. key \<in> set keys \<and> length key = PublicKeySize \<and> keyID L key = kid)
       (VerificationKeys L keys)"
proof -
  have "fmlookup (VerificationKeys L keys) kid = Some key \<Longrightarrow>
      key \<in> set keys \<and> length key = PublicKeySize \<and> keyID L key = kid" for kid key
    using VerificationKeys_fold [of L keys fmempty kid key]
    by (simp add: VerificationKeys_def PublicKeySize_def)
  then show ?thesis
    unfolding VerificationKeys_dom by (auto simp: fmpred_iff PublicKeySize_def)
qed

end
