(* ===== verification/Domain.thy ===== *)
theory Domain
  imports Token
begin

section \<open>The domain\<close>

text \<open>
  Package \<open>internal/domain\<close>: the records the layers exchange. A pointer that may be nil is an
  option, as is the byte slice of the previous key, which is nil when a workload has none.
  Integers are 64-bit words read as signed, instants and durations unbounded. The interface
  \<open>LeaseRepository\<close> is implemented by the theory \<open>Repository\<close>, and \<open>LeaseUsecase\<close> by \<open>Usecase\<close>.
\<close>

record AuthorityGrant =
  g_Audiences :: "bytes list"
  g_Actions :: "bytes list"
  g_Resources :: "bytes list"
  g_MaxTTL :: duration
  g_MaxDelegationDepth :: go_int
  g_CanDelegate :: bool
  g_RequireProofOfPossession :: bool
  g_MaxUses :: go_int
  g_Constraints :: constraints
  g_Version :: go_int

record Workload =
  w_ID :: bytes
  w_Name :: bytes
  w_PublicKey :: bytes
  w_PreviousPublicKey :: "bytes option"
  w_PreviousKeyExpiresAt :: "instant option"
  w_CreatedAt :: instant
  w_UpdatedAt :: instant
  w_DisabledAt :: "instant option"
  w_Grant :: AuthorityGrant
  w_AuthenticatedKeyThumbprint :: bytes

record Lease =
  l_ID :: bytes
  l_TokenID :: bytes
  l_WorkloadID :: bytes
  l_RootWorkloadID :: bytes
  l_Audience :: bytes
  l_ParentLeaseID :: "bytes option"
  l_RootLeaseID :: bytes
  l_DelegatedByWorkloadID :: "bytes option"
  l_Actions :: "bytes list"
  l_Resources :: "bytes list"
  l_Expiration :: instant
  l_Depth :: go_int
  l_MaxDepth :: go_int
  l_TokenHash :: bytes
  l_IssuedAt :: instant
  l_RevokedAt :: "instant option"
  l_GrantVersion :: go_int
  l_ConfirmationThumbprint :: bytes
  l_MaxUses :: go_int
  l_UsesConsumed :: go_int
  l_Constraints :: constraints
  l_AuthenticatedKeyThumbprint :: bytes

text \<open>The values of \<open>Details map[string]any\<close> that the code stores.\<close>

datatype detail =
    DString bytes
  | DStrings "bytes list"
  | DInt int
  | DBool bool
  | DTime instant
  | DMap constraints

record AuditEvent =
  e_ID :: int
  e_WorkloadID :: "bytes option"
  e_LeaseID :: "bytes option"
  e_EventType :: bytes
  e_Actor :: bytes
  e_Details :: "(bytes \<times> detail) list"
  e_OccurredAt :: instant
  e_RequestID :: bytes

record RegisterWorkloadRequest =
  rw_Name :: bytes
  rw_PublicKey :: bytes
  rw_Actor :: bytes
  rw_Grant :: AuthorityGrant

record AuthenticateWorkloadRequest =
  aw_WorkloadID :: bytes
  aw_Timestamp :: instant
  aw_Nonce :: bytes
  aw_Message :: bytes
  aw_Signature :: bytes

record MintRootLeaseRequest =
  mr_WorkloadID :: bytes
  mr_Audience :: bytes
  mr_Actions :: "bytes list"
  mr_Resources :: "bytes list"
  mr_Expiration :: instant
  mr_TTL :: duration
  mr_MaxDepth :: go_int
  mr_ProofOfPossession :: bool
  mr_MaxUses :: go_int
  mr_Constraints :: constraints
  mr_AuthenticatedKeyThumbprint :: bytes

record DelegateLeaseRequest =
  dl_ParentLeaseID :: bytes
  dl_ParentToken :: bytes
  dl_DelegatingWorkloadID :: bytes
  dl_DelegateToWorkloadID :: bytes
  dl_Actions :: "bytes list"
  dl_Resources :: "bytes list"
  dl_Expiration :: instant
  dl_TTL :: duration
  dl_ProofOfPossession :: bool
  dl_MaxUses :: go_int
  dl_Constraints :: constraints
  dl_AuthenticatedKeyThumbprint :: bytes

record RotateWorkloadKeyRequest =
  rk_WorkloadID :: bytes
  rk_PublicKey :: bytes
  rk_Overlap :: duration
  rk_RevokeOutstanding :: bool
  rk_Actor :: bytes

record RevokeLeaseRequest =
  rl_LeaseID :: bytes
  rl_Actor :: bytes

record ConsumeLeaseRequest =
  cl_LeaseID :: bytes
  cl_Token :: bytes
  cl_IdempotencyKey :: bytes

record LeaseConsumption =
  lc_LeaseID :: bytes
  lc_IdempotencyKey :: bytes
  lc_UseNumber :: go_int
  lc_MaxUses :: go_int
  lc_Replayed :: bool

record IssuedLease =
  il_Lease :: Lease
  il_Token :: bytes

end
