(* ===== verification/Repository.thy ===== *)
theory Repository
  imports Domain "HOL-Library.List_Lexorder"
begin

section \<open>The repository\<close>

text \<open>
  Package \<open>internal/repository\<close> over the tables its migrations create. A table is a list of rows
  in the order of insertion; a row is the Go record its columns hold. Each operation is one
  transaction: a function from the database to an error, which rolls back, or a value and the
  new database. Statements are written over the lists (\<open>SELECT\<close> as \<open>find\<close> and \<open>filter\<close>, \<open>UPDATE\<close>
  as \<open>map\<close>, \<open>RowsAffected\<close> as the number of rows that match), with the constraints of the
  migrations checked in the order PostgreSQL checks them: column checks, unique indexes,
  foreign keys. Transactions are atomic here: the locks the code takes are what makes them so,
  and are not state of the model.

  An identifier given as text is read as a UUID by the driver (\<open>parse_uuid\<close>); a text that is not
  one is an error of the statement. Timestamps are stored in microseconds, lifetimes of grants in
  seconds. A text or JSON column refuses a string that is not UTF-8 or holds a NUL. (For a JSON
  column the encoder would replace invalid bytes first, but the strings of a request have
  already been through a JSON decoder, which leaves none.)
\<close>

record nonce_row =
  n_workload_id :: bytes
  n_nonce_hash :: bytes
  n_expires_at :: instant

record consumption_row =
  u_lease_id :: bytes
  u_idempotency_key :: bytes
  u_use_number :: go_int
  u_consumed_at :: instant

record db =
  db_workloads :: "Workload list"
  db_leases :: "Lease list"
  db_audit_events :: "AuditEvent list"
  db_workload_nonces :: "nonce_row list"
  db_lease_consumptions :: "consumption_row list"
  db_audit_seq :: int

type_synonym 'a tx = "db \<Rightarrow> go_error + ('a \<times> db)"

text \<open>\<open>pgx.BeginFunc\<close>: commit when the function returns nil, roll back when it returns an error.\<close>

definition BeginFunc :: "'a tx \<Rightarrow> db \<Rightarrow> 'a result \<times> db" where
  "BeginFunc f s = (case f s of Inl err \<Rightarrow> (Inl err, s) | Inr (x, s') \<Rightarrow> (Inr x, s'))"

subsection \<open>Columns and constraints\<close>

definition pg_time :: "instant \<Rightarrow> instant" where
  "pg_time t = t - t mod 1000"

definition pg_text :: "bytes \<Rightarrow> bool" where
  "pg_text s \<longleftrightarrow> valid_string s \<and> CHR 0x00 \<notin> set s"

definition pg_text_map :: "constraints \<Rightarrow> bool" where
  "pg_text_map m \<longleftrightarrow> fmpred (\<lambda>k v. pg_text k \<and> pg_text v) m"

definition char_length :: "bytes \<Rightarrow> nat" where
  "char_length s = length (runes s)"

definition stored_grant :: "AuthorityGrant \<Rightarrow> AuthorityGrant" where
  "stored_grant g = g\<lparr>g_MaxTTL := go_div (g_MaxTTL g) second * second\<rparr>"

definition workload_row :: "auth_lib \<Rightarrow> Workload \<Rightarrow> Workload option" where
  "workload_row L w =
    map_option (\<lambda>i. w\<lparr>w_ID := i, w_PreviousKeyExpiresAt := map_option pg_time (w_PreviousKeyExpiresAt w),
        w_CreatedAt := pg_time (w_CreatedAt w), w_UpdatedAt := pg_time (w_UpdatedAt w),
        w_DisabledAt := map_option pg_time (w_DisabledAt w), w_Grant := stored_grant (w_Grant w),
        w_AuthenticatedKeyThumbprint := []\<rparr>)
      (parse_uuid L (w_ID w))"

definition workload_key_checks :: "Workload \<Rightarrow> bool" where
  "workload_key_checks w \<longleftrightarrow>
    length (w_PublicKey w) = 32
    \<and> (case w_PreviousPublicKey w of
         None \<Rightarrow> True
       | Some k \<Rightarrow> length k = 32 \<and> w_PreviousKeyExpiresAt w \<noteq> None)"

definition workload_checks :: "Workload \<Rightarrow> bool" where
  "workload_checks w \<longleftrightarrow>
    (let g = w_Grant w
     in workload_key_checks w
      \<and> pg_text (w_Name w) \<and> 3 \<le> char_length (w_Name w) \<and> char_length (w_Name w) \<le> 128
      \<and> list_all pg_text (g_Audiences g) \<and> list_all pg_text (g_Actions g)
      \<and> list_all pg_text (g_Resources g) \<and> pg_text_map (g_Constraints g)
      \<and> 1 \<le> length (g_Audiences g) \<and> length (g_Audiences g) \<le> 16
      \<and> 1 \<le> length (g_Actions g) \<and> length (g_Actions g) \<le> 64
      \<and> 1 \<le> length (g_Resources g) \<and> length (g_Resources g) \<le> 64
      \<and> second \<le> g_MaxTTL g \<and> g_MaxTTL g \<le> 86400 * second
      \<and> 0 \<le> sint (g_MaxDelegationDepth g) \<and> sint (g_MaxDelegationDepth g) \<le> 16
      \<and> (g_CanDelegate g \<or> g_MaxDelegationDepth g = 0)
      \<and> 0 < sint (g_Version g) \<and> 0 \<le> sint (g_MaxUses g) \<and> sint (g_MaxUses g) \<le> 1000000)"

definition lease_row :: "auth_lib \<Rightarrow> Lease \<Rightarrow> Lease option" where
  "lease_row L l =
    (case (parse_uuid L (l_ID l), parse_uuid L (l_TokenID l), parse_uuid L (l_WorkloadID l),
           parse_uuid L (l_RootWorkloadID l), parse_uuid L (l_RootLeaseID l)) of
       (Some i, Some t, Some w, Some rw, Some rl) \<Rightarrow>
         (case (map_option (parse_uuid L) (l_ParentLeaseID l),
                map_option (parse_uuid L) (l_DelegatedByWorkloadID l)) of
            (Some None, _) \<Rightarrow> None
          | (_, Some None) \<Rightarrow> None
          | (parent, delegator) \<Rightarrow>
              Some (l\<lparr>l_ID := i, l_TokenID := t, l_WorkloadID := w, l_RootWorkloadID := rw,
                l_RootLeaseID := rl, l_ParentLeaseID := Option.bind parent id,
                l_DelegatedByWorkloadID := Option.bind delegator id,
                l_Expiration := pg_time (l_Expiration l), l_IssuedAt := pg_time (l_IssuedAt l),
                l_RevokedAt := map_option pg_time (l_RevokedAt l),
                l_AuthenticatedKeyThumbprint := []\<rparr>))
     | _ \<Rightarrow> None)"

definition lease_checks :: "Lease \<Rightarrow> bool" where
  "lease_checks l \<longleftrightarrow>
    list_all pg_text (l_Actions l) \<and> list_all pg_text (l_Resources l)
    \<and> pg_text_map (l_Constraints l) \<and> pg_text (l_Audience l) \<and> pg_text (l_ConfirmationThumbprint l)
    \<and> 0 \<le> sint (l_Depth l) \<and> length (l_TokenHash l) = 32
    \<and> l_Expiration l > l_IssuedAt l
    \<and> sint (l_MaxDepth l) \<ge> sint (l_Depth l) \<and> sint (l_MaxDepth l) \<le> 16
    \<and> 1 \<le> length (l_Actions l) \<and> length (l_Actions l) \<le> 64
    \<and> 1 \<le> length (l_Resources l) \<and> length (l_Resources l) \<le> 64
    \<and> 1 \<le> char_length (l_Audience l) \<and> char_length (l_Audience l) \<le> 256
    \<and> 0 < sint (l_GrantVersion l)
    \<and> (l_ConfirmationThumbprint l = [] \<or> char_length (l_ConfirmationThumbprint l) = 43)
    \<and> (case l_ParentLeaseID l of
         None \<Rightarrow> l_Depth l = 0 \<and> l_RootLeaseID l = l_ID l \<and> l_RootWorkloadID l = l_WorkloadID l
                  \<and> l_DelegatedByWorkloadID l = None
       | Some _ \<Rightarrow> 0 < sint (l_Depth l) \<and> l_DelegatedByWorkloadID l \<noteq> None)
    \<and> 0 \<le> sint (l_MaxUses l) \<and> sint (l_MaxUses l) \<le> 1000000
    \<and> 0 \<le> sint (l_UsesConsumed l)
    \<and> (l_MaxUses l = 0 \<and> l_UsesConsumed l = 0
       \<or> 0 < sint (l_MaxUses l) \<and> sint (l_UsesConsumed l) \<le> sint (l_MaxUses l))
    \<and> (l_MaxUses l = 0 \<or> l_MaxDepth l = l_Depth l)"

definition url_safe_char :: "char \<Rightarrow> bool" where
  "url_safe_char c \<longleftrightarrow> url_safe_rune (byte c)"

definition audit_checks :: "AuditEvent \<Rightarrow> bool" where
  "audit_checks e \<longleftrightarrow>
    e_EventType e \<noteq> [] \<and> e_Actor e \<noteq> [] \<and> pg_text (e_EventType e) \<and> pg_text (e_Actor e)
    \<and> (e_RequestID e = []
       \<or> 16 \<le> length (e_RequestID e) \<and> length (e_RequestID e) \<le> 64
         \<and> list_all url_safe_char (e_RequestID e))"

subsection \<open>Queries\<close>

definition find_workload :: "db \<Rightarrow> bytes \<Rightarrow> Workload option" where
  "find_workload s i = find (\<lambda>w. w_ID w = i) (db_workloads s)"

definition find_lease :: "db \<Rightarrow> bytes \<Rightarrow> Lease option" where
  "find_lease s i = find (\<lambda>l. l_ID l = i) (db_leases s)"

definition select_workload :: "auth_lib \<Rightarrow> bytes \<Rightarrow> bytes \<Rightarrow> db \<Rightarrow> Workload result" where
  "select_workload L context given s =
    (case parse_uuid L given of
       None \<Rightarrow> Inl (Opaque context)
     | Some i \<Rightarrow>
         (case find_workload s i of
            None \<Rightarrow> Inl (DomainE ErrWorkloadNotFound)
          | Some w \<Rightarrow> Inr w))"

definition select_lease :: "auth_lib \<Rightarrow> bytes \<Rightarrow> bytes \<Rightarrow> db \<Rightarrow> Lease result" where
  "select_lease L context given s =
    (case parse_uuid L given of
       None \<Rightarrow> Inl (Opaque context)
     | Some i \<Rightarrow>
         (case find_lease s i of
            None \<Rightarrow> Inl (DomainE ErrLeaseNotFound)
          | Some l \<Rightarrow> Inr l))"

definition GetWorkloadByID :: "auth_lib \<Rightarrow> bytes \<Rightarrow> db \<Rightarrow> Workload result" where
  "GetWorkloadByID L given s = select_workload L ''query workload'' given s"

definition GetLeaseByID :: "auth_lib \<Rightarrow> bytes \<Rightarrow> db \<Rightarrow> Lease result" where
  "GetLeaseByID L given s = select_lease L ''query lease'' given s"

text \<open>
  The recursive queries. \<open>ancestor_rows\<close> follows the parents of a lease; \<open>lineage_ids\<close> collects
  the given identifiers and, level by level, those of their descendants. Both stop at a fuel;
  with as much fuel as there are leases they are complete, since a parent is always shallower.
\<close>

fun ancestor_rows :: "nat \<Rightarrow> Lease list \<Rightarrow> bytes \<Rightarrow> Lease list" where
  "ancestor_rows 0 rows i = []"
| "ancestor_rows (Suc n) rows i =
    (case find (\<lambda>l. l_ID l = i) rows of
       None \<Rightarrow> []
     | Some l \<Rightarrow>
         l # (case l_ParentLeaseID l of None \<Rightarrow> [] | Some p \<Rightarrow> ancestor_rows n rows p))"

definition children_ids :: "Lease list \<Rightarrow> bytes list \<Rightarrow> bytes list" where
  "children_ids rows level =
    map l_ID (filter (\<lambda>l. case l_ParentLeaseID l of None \<Rightarrow> False | Some p \<Rightarrow> p \<in> set level) rows)"

fun lineage_ids :: "nat \<Rightarrow> Lease list \<Rightarrow> bytes list \<Rightarrow> bytes list" where
  "lineage_ids 0 rows level = level"
| "lineage_ids (Suc n) rows level =
    (if level = [] then [] else level @ lineage_ids n rows (children_ids rows level))"

definition ancestors :: "db \<Rightarrow> bytes \<Rightarrow> Lease list" where
  "ancestors s i = ancestor_rows (length (db_leases s)) (db_leases s) i"

definition lineage :: "db \<Rightarrow> bytes list \<Rightarrow> bytes list" where
  "lineage s ids = lineage_ids (length (db_leases s)) (db_leases s) ids"

subsection \<open>Statements\<close>

definition accepts_optional_uuid :: "auth_lib \<Rightarrow> bytes option \<Rightarrow> bytes option option" where
  "accepts_optional_uuid L given =
    (case given of None \<Rightarrow> Some None | Some t \<Rightarrow> map_option Some (parse_uuid L t))"

definition insertAuditEvent :: "auth_lib \<Rightarrow> bytes \<Rightarrow> AuditEvent \<Rightarrow> unit tx" where
  "insertAuditEvent L ctx event s =
    (let request = (if e_RequestID event = [] then ctx else e_RequestID event)
     in case (accepts_optional_uuid L (e_WorkloadID event), accepts_optional_uuid L (e_LeaseID event)) of
       (Some w, Some l) \<Rightarrow>
         (let row = event\<lparr>e_ID := db_audit_seq s + 1, e_WorkloadID := w, e_LeaseID := l,
                      e_OccurredAt := pg_time (e_OccurredAt event), e_RequestID := request\<rparr>
          in if \<not> audit_checks row
                \<or> (case w of None \<Rightarrow> False | Some i \<Rightarrow> find_workload s i = None)
                \<or> (case l of None \<Rightarrow> False | Some i \<Rightarrow> find_lease s i = None)
             then Inl (Opaque ''insert audit event'')
             else Inr ((), s\<lparr>db_audit_events := db_audit_events s @ [row],
                             db_audit_seq := db_audit_seq s + 1\<rparr>))
     | _ \<Rightarrow> Inl (Opaque ''insert audit event''))"

definition public_key_in_use :: "bytes \<Rightarrow> instant \<Rightarrow> Workload \<Rightarrow> bool" where
  "public_key_in_use key at w \<longleftrightarrow>
    w_PublicKey w = key
    \<or> w_PreviousPublicKey w = Some key
      \<and> (case w_PreviousKeyExpiresAt w of None \<Rightarrow> False | Some t \<Rightarrow> t > pg_time at)"

text \<open>The unique indexes of the table: \<open>id\<close>, \<open>name\<close>, \<open>public_key\<close> and, where not null,
  \<open>previous_public_key\<close>.\<close>

definition workload_conflict :: "Workload \<Rightarrow> Workload \<Rightarrow> bool" where
  "workload_conflict v w \<longleftrightarrow>
    w_ID v = w_ID w \<or> w_Name v = w_Name w \<or> w_PublicKey v = w_PublicKey w
    \<or> w_PreviousPublicKey v \<noteq> None \<and> w_PreviousPublicKey v = w_PreviousPublicKey w"

definition insert_workload :: "auth_lib \<Rightarrow> Workload \<Rightarrow> unit tx" where
  "insert_workload L w s =
    (case workload_row L w of
       None \<Rightarrow> Inl (Opaque ''insert workload'')
     | Some row \<Rightarrow>
         if \<not> workload_checks row then Inl (Opaque ''insert workload'')
         else if list_ex (workload_conflict row) (db_workloads s) then Inl (DomainE ErrConflict)
         else Inr ((), s\<lparr>db_workloads := db_workloads s @ [row]\<rparr>))"

definition lease_conflict :: "Lease \<Rightarrow> Lease \<Rightarrow> bool" where
  "lease_conflict k l \<longleftrightarrow>
    l_ID k = l_ID l \<or> l_TokenID k = l_TokenID l \<or> l_TokenHash k = l_TokenHash l"

definition lease_references :: "db \<Rightarrow> Lease \<Rightarrow> bool" where
  "lease_references s l \<longleftrightarrow>
    find_workload s (l_WorkloadID l) \<noteq> None \<and> find_workload s (l_RootWorkloadID l) \<noteq> None
    \<and> (case l_DelegatedByWorkloadID l of None \<Rightarrow> True | Some i \<Rightarrow> find_workload s i \<noteq> None)
    \<and> (case l_ParentLeaseID l of None \<Rightarrow> True | Some i \<Rightarrow> i = l_ID l \<or> find_lease s i \<noteq> None)
    \<and> (l_RootLeaseID l = l_ID l \<or> find_lease s (l_RootLeaseID l) \<noteq> None)"

definition insert_lease :: "auth_lib \<Rightarrow> Lease \<Rightarrow> unit tx" where
  "insert_lease L l s =
    (case lease_row L l of
       None \<Rightarrow> Inl (Opaque ''insert lease'')
     | Some row \<Rightarrow>
         if \<not> lease_checks row \<or> list_ex (lease_conflict row) (db_leases s)
         then Inl (Opaque ''insert lease'')
         else if \<not> lease_references s row then Inl (DomainE ErrInvalidLease)
         else Inr ((), s\<lparr>db_leases := db_leases s @ [row]\<rparr>))"

text \<open>\<open>UPDATE leases SET revoked_at = t WHERE id IN ids AND revoked_at IS NULL\<close>.\<close>

definition revocable :: "bytes list \<Rightarrow> Lease \<Rightarrow> bool" where
  "revocable ids l \<longleftrightarrow> l_ID l \<in> set ids \<and> l_RevokedAt l = None"

definition revoke_rows :: "bytes list \<Rightarrow> instant \<Rightarrow> db \<Rightarrow> int \<times> db" where
  "revoke_rows ids t s =
    (int (length (filter (revocable ids) (db_leases s))),
     s\<lparr>db_leases := map (\<lambda>l. if revocable ids l then l\<lparr>l_RevokedAt := Some (pg_time t)\<rparr> else l)
        (db_leases s)\<rparr>)"

text \<open>The leases of a workload, where the recursive query of a disabling or a rotation starts.\<close>

definition workload_lease_ids :: "db \<Rightarrow> bytes \<Rightarrow> bytes list" where
  "workload_lease_ids s i = map l_ID (filter (\<lambda>l. l_WorkloadID l = i) (db_leases s))"

definition update_workloads :: "bytes \<Rightarrow> (Workload \<Rightarrow> Workload) \<Rightarrow> db \<Rightarrow> db" where
  "update_workloads i f s =
    s\<lparr>db_workloads := map (\<lambda>w. if w_ID w = i then f w else w) (db_workloads s)\<rparr>"

text \<open>The lineage lock is taken on the root of the lease, which must exist.\<close>

definition lockLineage :: "auth_lib \<Rightarrow> bytes \<Rightarrow> db \<Rightarrow> unit result" where
  "lockLineage L given s =
    (case parse_uuid L given of
       None \<Rightarrow> Inl (Opaque ''lock lease lineage'')
     | Some i \<Rightarrow>
         (case filter (\<lambda>l. l_ParentLeaseID l = None) (ancestors s i) of
            [] \<Rightarrow> Inl (DomainE ErrLeaseNotFound)
          | _ \<Rightarrow> Inr ()))"

definition acceptedWorkloadKey ::
    "auth_lib \<Rightarrow> bytes \<Rightarrow> bytes option \<Rightarrow> instant option \<Rightarrow> bytes \<Rightarrow> instant \<Rightarrow> bool" where
  "acceptedWorkloadKey L current previous previousExpiresAt expected at =
    (if length expected \<noteq> 43 then False
     else if JWKThumbprint L current = Inr expected then True
     else case previousExpiresAt of
       None \<Rightarrow> False
     | Some expires \<Rightarrow>
         if \<not> at < expires then False
         else JWKThumbprint L (case previous of None \<Rightarrow> [] | Some k \<Rightarrow> k) = Inr expected)"

subsection \<open>Workloads\<close>

definition create_workload_tx :: "auth_lib \<Rightarrow> bytes \<Rightarrow> Workload \<Rightarrow> AuditEvent \<Rightarrow> unit tx" where
  "create_workload_tx L ctx workload event s =
    (if list_ex (public_key_in_use (w_PublicKey workload) (w_CreatedAt workload)) (db_workloads s)
     then Inl (DomainE ErrConflict)
     else case insert_workload L workload s of
       Inl err \<Rightarrow> Inl err
     | Inr (_, s') \<Rightarrow> insertAuditEvent L ctx event s')"

definition CreateWorkload ::
    "auth_lib \<Rightarrow> bytes \<Rightarrow> Workload \<Rightarrow> AuditEvent \<Rightarrow> db \<Rightarrow> unit result \<times> db" where
  "CreateWorkload L ctx workload event s = BeginFunc (create_workload_tx L ctx workload event) s"

definition rotated_workload :: "RotateWorkloadKeyRequest \<Rightarrow> instant \<Rightarrow> Workload \<Rightarrow> Workload" where
  "rotated_workload request rotatedAt w =
    w\<lparr>w_PublicKey := rk_PublicKey request,
      w_PreviousPublicKey := (if rk_Overlap request > 0 then Some (w_PublicKey w) else None),
      w_PreviousKeyExpiresAt :=
        (if rk_Overlap request > 0 then Some (rotatedAt + rk_Overlap request) else None),
      w_UpdatedAt := rotatedAt\<rparr>"

definition stored_times :: "Workload \<Rightarrow> Workload" where
  "stored_times w =
    w\<lparr>w_PreviousKeyExpiresAt := map_option pg_time (w_PreviousKeyExpiresAt w),
      w_UpdatedAt := pg_time (w_UpdatedAt w)\<rparr>"

definition rotate_workload_key_tx ::
    "auth_lib \<Rightarrow> bytes \<Rightarrow> RotateWorkloadKeyRequest \<Rightarrow> instant \<Rightarrow> (Workload \<times> int) tx" where
  "rotate_workload_key_tx L ctx request rotatedAt s =
    (case select_workload L ''lock workload'' (rk_WorkloadID request) s of
       Inl err \<Rightarrow> Inl err
     | Inr workload \<Rightarrow>
       if w_DisabledAt workload \<noteq> None then Inl (DomainE ErrInvalidWorkload)
       else if list_ex (\<lambda>w. w_ID w \<noteq> w_ID workload
              \<and> public_key_in_use (rk_PublicKey request) rotatedAt w) (db_workloads s)
       then Inl (DomainE ErrConflict)
       else
         let rotated = rotated_workload request rotatedAt workload;
             row = stored_times rotated
         in if \<not> workload_key_checks row then Inl (Opaque ''rotate workload key'')
         else if list_ex (\<lambda>w. w_ID w \<noteq> w_ID workload \<and> workload_conflict row w) (db_workloads s)
         then Inl (DomainE ErrConflict)
         else
           let s1 = update_workloads (w_ID workload) (\<lambda>_. row) s;
               (revoked, s2) =
                 (if rk_RevokeOutstanding request
                  then revoke_rows (lineage s1 (workload_lease_ids s1 (w_ID workload))) rotatedAt s1
                  else (0, s1));
               event = \<lparr>e_ID = 0, e_WorkloadID = Some (w_ID workload), e_LeaseID = None,
                 e_EventType = ''workload.key_rotated'', e_Actor = rk_Actor request,
                 e_Details = [(''overlap_seconds'', DInt (go_div (rk_Overlap request) second)),
                              (''revoked_count'', DInt revoked)],
                 e_OccurredAt = rotatedAt, e_RequestID = []\<rparr>
           in case insertAuditEvent L ctx event s2 of
             Inl err \<Rightarrow> Inl err
           | Inr (_, s3) \<Rightarrow> Inr ((rotated, revoked), s3))"

definition RotateWorkloadKey ::
    "auth_lib \<Rightarrow> bytes \<Rightarrow> RotateWorkloadKeyRequest \<Rightarrow> instant \<Rightarrow> db \<Rightarrow> (Workload \<times> int) result \<times> db" where
  "RotateWorkloadKey L ctx request rotatedAt s =
    BeginFunc (rotate_workload_key_tx L ctx request rotatedAt) s"

definition nonce_matches :: "bytes \<Rightarrow> bytes \<Rightarrow> nonce_row \<Rightarrow> bool" where
  "nonce_matches w h n \<longleftrightarrow> n_workload_id n = w \<and> n_nonce_hash n = h"

text \<open>
  \<open>INSERT \<dots> ON CONFLICT \<dots> DO UPDATE \<dots> WHERE expires_at <= NOW()\<close>; \<open>NOW()\<close> is the clock of
  the database. A row that is neither inserted nor updated is a replay.
\<close>

definition consume_workload_nonce_tx ::
    "auth_lib \<Rightarrow> instant \<Rightarrow> bytes \<Rightarrow> bytes \<Rightarrow> instant \<Rightarrow> unit tx" where
  "consume_workload_nonce_tx L db_now given nonceHash expiresAt s =
    (case parse_uuid L given of
       None \<Rightarrow> Inl (Opaque ''insert workload nonce'')
     | Some i \<Rightarrow>
       if length nonceHash \<noteq> 32 then Inl (Opaque ''insert workload nonce'')
       else case find (nonce_matches i nonceHash) (db_workload_nonces s) of
         None \<Rightarrow>
           if find_workload s i = None then Inl (Opaque ''insert workload nonce'')
           else Inr ((), s\<lparr>db_workload_nonces := db_workload_nonces s
             @ [\<lparr>n_workload_id = i, n_nonce_hash = nonceHash, n_expires_at = pg_time expiresAt\<rparr>]\<rparr>)
       | Some n \<Rightarrow>
           if n_expires_at n \<le> db_now
           then Inr ((), s\<lparr>db_workload_nonces := map (\<lambda>m. if nonce_matches i nonceHash m
                   then m\<lparr>n_expires_at := pg_time expiresAt\<rparr> else m) (db_workload_nonces s)\<rparr>)
           else Inl (DomainE ErrReplayDetected))"

definition ConsumeWorkloadNonce ::
    "auth_lib \<Rightarrow> instant \<Rightarrow> bytes \<Rightarrow> bytes \<Rightarrow> instant \<Rightarrow> db \<Rightarrow> unit result \<times> db" where
  "ConsumeWorkloadNonce L db_now given nonceHash expiresAt s =
    BeginFunc (consume_workload_nonce_tx L db_now given nonceHash expiresAt) s"

definition disable_workload_tx ::
    "auth_lib \<Rightarrow> bytes \<Rightarrow> bytes \<Rightarrow> bytes \<Rightarrow> instant \<Rightarrow> int tx" where
  "disable_workload_tx L ctx workloadID actor disabledAt s =
    (case parse_uuid L workloadID of
       None \<Rightarrow> Inl (Opaque ''disable workload'')
     | Some i \<Rightarrow>
       if find_workload s i = None then Inl (DomainE ErrWorkloadNotFound)
       else
         let s1 = update_workloads i (\<lambda>w. w\<lparr>w_DisabledAt :=
                     (case w_DisabledAt w of None \<Rightarrow> Some (pg_time disabledAt) | Some t \<Rightarrow> Some t),
                     w_UpdatedAt := pg_time disabledAt\<rparr>) s;
             (revoked, s2) = revoke_rows (lineage s1 (workload_lease_ids s1 i)) disabledAt s1;
             event = \<lparr>e_ID = 0, e_WorkloadID = Some workloadID, e_LeaseID = None,
               e_EventType = ''workload.disabled'', e_Actor = actor,
               e_Details = [(''revoked_count'', DInt revoked)],
               e_OccurredAt = disabledAt, e_RequestID = []\<rparr>
         in case insertAuditEvent L ctx event s2 of
           Inl err \<Rightarrow> Inl err
         | Inr (_, s3) \<Rightarrow> Inr (revoked, s3))"

definition DisableWorkload ::
    "auth_lib \<Rightarrow> bytes \<Rightarrow> bytes \<Rightarrow> bytes \<Rightarrow> instant \<Rightarrow> db \<Rightarrow> int result \<times> db" where
  "DisableWorkload L ctx workloadID actor disabledAt s =
    BeginFunc (disable_workload_tx L ctx workloadID actor disabledAt) s"

subsection \<open>Leases\<close>

text \<open>The checks of \<open>CreateLease\<close> on a delegated lease, against its delegator and its parent.\<close>

definition check_delegator :: "auth_lib \<Rightarrow> Lease \<Rightarrow> bytes \<Rightarrow> db \<Rightarrow> unit result" where
  "check_delegator L lease delegatedBy s =
    (case select_workload L ''lock delegating workload'' delegatedBy s of
       Inl err \<Rightarrow> Inl err
     | Inr d \<Rightarrow>
         if w_DisabledAt d \<noteq> None then Inl (DomainE ErrUnauthenticated)
         else if \<not> acceptedWorkloadKey L (w_PublicKey d) (w_PreviousPublicKey d)
                   (w_PreviousKeyExpiresAt d) (l_AuthenticatedKeyThumbprint lease) (l_IssuedAt lease)
         then Inl (DomainE ErrUnauthenticated)
         else Inr ())"

definition check_parent :: "auth_lib \<Rightarrow> Lease \<Rightarrow> bytes \<Rightarrow> bytes \<Rightarrow> db \<Rightarrow> unit result" where
  "check_parent L lease parentID delegatedBy s =
    (case lockLineage L parentID s of
       Inl err \<Rightarrow> Inl err
     | Inr _ \<Rightarrow>
       (case select_lease L ''lock parent lease'' parentID s of
          Inl err \<Rightarrow> Inl err
        | Inr parent \<Rightarrow>
            if l_RevokedAt parent \<noteq> None then Inl (DomainE ErrLeaseRevoked)
            else if \<not> l_Expiration parent > l_IssuedAt lease then Inl (DomainE ErrInvalidLease)
            else if sint (l_MaxUses parent) > 0 then Inl (DomainE ErrAuthorityEscalation)
            else if l_WorkloadID parent \<noteq> delegatedBy \<or> l_RootLeaseID parent \<noteq> l_RootLeaseID lease
                \<or> l_RootWorkloadID parent \<noteq> l_RootWorkloadID lease
                \<or> l_Depth lease \<noteq> l_Depth parent + 1
                \<or> sint (l_MaxDepth lease) > sint (l_MaxDepth parent)
            then Inl (DomainE ErrInvalidLease)
            else Inr ()))"

definition check_lineage :: "auth_lib \<Rightarrow> Lease \<Rightarrow> db \<Rightarrow> unit result" where
  "check_lineage L lease s =
    (case l_ParentLeaseID lease of
       Some parentID \<Rightarrow>
         (case l_DelegatedByWorkloadID lease of
            None \<Rightarrow> Inl (DomainE ErrInvalidLease)
          | Some delegatedBy \<Rightarrow>
              (case check_delegator L lease delegatedBy s of
                 Inl err \<Rightarrow> Inl err
               | Inr _ \<Rightarrow> check_parent L lease parentID delegatedBy s))
     | None \<Rightarrow>
         if l_RootLeaseID lease \<noteq> l_ID lease \<or> l_RootWorkloadID lease \<noteq> l_WorkloadID lease
            \<or> l_DelegatedByWorkloadID lease \<noteq> None \<or> l_Depth lease \<noteq> 0
         then Inl (DomainE ErrInvalidLease)
         else Inr ())"

definition create_lease_tx :: "auth_lib \<Rightarrow> bytes \<Rightarrow> Lease \<Rightarrow> AuditEvent \<Rightarrow> unit tx" where
  "create_lease_tx L ctx lease event s =
    (case select_workload L ''lock workload'' (l_WorkloadID lease) s of
       Inl err \<Rightarrow> Inl err
     | Inr w \<Rightarrow>
       if w_DisabledAt w \<noteq> None then Inl (DomainE ErrUnauthenticated)
       else if l_ParentLeaseID lease = None
          \<and> \<not> acceptedWorkloadKey L (w_PublicKey w) (w_PreviousPublicKey w) (w_PreviousKeyExpiresAt w)
                (l_AuthenticatedKeyThumbprint lease) (l_IssuedAt lease)
       then Inl (DomainE ErrUnauthenticated)
       else if l_ParentLeaseID lease = None \<and> g_Version (w_Grant w) \<noteq> l_GrantVersion lease
       then Inl (DomainE ErrAuthorityEscalation)
       else case check_lineage L lease s of
         Inl err \<Rightarrow> Inl err
       | Inr _ \<Rightarrow>
         (case insert_lease L lease s of
            Inl err \<Rightarrow> Inl err
          | Inr (_, s') \<Rightarrow> insertAuditEvent L ctx event s'))"

definition CreateLease :: "auth_lib \<Rightarrow> bytes \<Rightarrow> Lease \<Rightarrow> AuditEvent \<Rightarrow> db \<Rightarrow> unit result \<times> db" where
  "CreateLease L ctx lease event s = BeginFunc (create_lease_tx L ctx lease event) s"

definition TraceLease :: "auth_lib \<Rightarrow> bytes \<Rightarrow> db \<Rightarrow> Lease list result" where
  "TraceLease L given s =
    (case parse_uuid L given of
       None \<Rightarrow> Inl (Opaque ''trace lease'')
     | Some i \<Rightarrow>
         (let rows = sort_key (\<lambda>l. sint (l_Depth l)) (ancestors s i)
          in if rows = [] then Inl (DomainE ErrLeaseNotFound) else Inr rows))"

definition ListAuditEvents :: "bytes \<Rightarrow> bytes \<Rightarrow> go_int \<Rightarrow> db \<Rightarrow> AuditEvent list result" where
  "ListAuditEvents workloadID leaseID limit s =
    (if \<not> pg_text workloadID \<or> \<not> pg_text leaseID \<or> sint limit < 0
     then Inl (Opaque ''query audit events'')
     else Inr (take (nat (sint limit)) (rev (sort_key e_ID
      (filter (\<lambda>e. (workloadID = [] \<or> e_WorkloadID e = Some workloadID)
                 \<and> (leaseID = [] \<or> e_LeaseID e = Some leaseID)) (db_audit_events s))))))"

definition consumption_matches :: "bytes \<Rightarrow> bytes \<Rightarrow> consumption_row \<Rightarrow> bool" where
  "consumption_matches i key u \<longleftrightarrow> u_lease_id u = i \<and> u_idempotency_key u = key"

definition insert_consumption :: "bytes \<Rightarrow> bytes \<Rightarrow> go_int \<Rightarrow> instant \<Rightarrow> unit tx" where
  "insert_consumption i key n consumedAt s =
    (if char_length key < 16 \<or> char_length key > 128 \<or> \<not> pg_text key \<or> sint n \<le> 0
        \<or> list_ex (\<lambda>u. consumption_matches i key u \<or> u_lease_id u = i \<and> u_use_number u = n)
            (db_lease_consumptions s)
     then Inl (Opaque ''insert lease consumption'')
     else Inr ((), s\<lparr>db_lease_consumptions := db_lease_consumptions s
       @ [\<lparr>u_lease_id = i, u_idempotency_key = key, u_use_number = n,
            u_consumed_at = pg_time consumedAt\<rparr>]\<rparr>))"

definition update_uses :: "bytes \<Rightarrow> go_int \<Rightarrow> db \<Rightarrow> db" where
  "update_uses i n s =
    s\<lparr>db_leases := map (\<lambda>l. if l_ID l = i then l\<lparr>l_UsesConsumed := n\<rparr> else l) (db_leases s)\<rparr>"

definition consume_lease_use_tx ::
    "auth_lib \<Rightarrow> bytes \<Rightarrow> bytes \<Rightarrow> bytes \<Rightarrow> instant \<Rightarrow> LeaseConsumption tx" where
  "consume_lease_use_tx L leaseID tokenHash idempotencyKey consumedAt s =
    (case parse_uuid L leaseID of
       None \<Rightarrow> Inl (Opaque ''lock lease consumption'')
     | Some i \<Rightarrow>
     (case find_lease s i of
       None \<Rightarrow> Inl (DomainE ErrLeaseNotFound)
     | Some lease \<Rightarrow>
     (case find_workload s (l_WorkloadID lease) of
       None \<Rightarrow> Inl (DomainE ErrLeaseNotFound)
     | Some workload \<Rightarrow>
       let maxUses = l_MaxUses lease; usesConsumed = l_UsesConsumed lease in
       if length tokenHash \<noteq> 32 \<or> length (l_TokenHash lease) \<noteq> 32 \<or> tokenHash \<noteq> l_TokenHash lease
       then Inl (DomainE ErrUnauthenticated)
       else if l_RevokedAt lease \<noteq> None \<or> w_DisabledAt workload \<noteq> None
       then Inl (DomainE ErrLeaseRevoked)
       else if \<not> l_Expiration lease > consumedAt \<or> sint maxUses \<le> 0
       then Inl (DomainE ErrInvalidLease)
       else if \<not> pg_text idempotencyKey then Inl (Opaque ''query lease consumption'')
       else case find (consumption_matches i idempotencyKey) (db_lease_consumptions s) of
         Some u \<Rightarrow>
           Inr (\<lparr>lc_LeaseID = leaseID, lc_IdempotencyKey = idempotencyKey,
                 lc_UseNumber = u_use_number u, lc_MaxUses = maxUses, lc_Replayed = True\<rparr>, s)
       | None \<Rightarrow>
           if sint usesConsumed \<ge> sint maxUses then Inl (DomainE ErrMaxUsesExceeded)
           else
             let useNumber = usesConsumed + 1 in
             case insert_consumption i idempotencyKey useNumber consumedAt s of
               Inl err \<Rightarrow> Inl err
             | Inr (_, s1) \<Rightarrow>
                 Inr (\<lparr>lc_LeaseID = leaseID, lc_IdempotencyKey = idempotencyKey,
                       lc_UseNumber = useNumber, lc_MaxUses = maxUses, lc_Replayed = False\<rparr>,
                      update_uses i useNumber s1))))"

definition ConsumeLeaseUse ::
    "auth_lib \<Rightarrow> bytes \<Rightarrow> bytes \<Rightarrow> bytes \<Rightarrow> instant \<Rightarrow> db \<Rightarrow> LeaseConsumption result \<times> db" where
  "ConsumeLeaseUse L leaseID tokenHash idempotencyKey consumedAt s =
    BeginFunc (consume_lease_use_tx L leaseID tokenHash idempotencyKey consumedAt) s"

definition revoke_lease_lineage_tx :: "auth_lib \<Rightarrow> bytes \<Rightarrow> bytes \<Rightarrow> bytes \<Rightarrow> instant \<Rightarrow> int tx" where
  "revoke_lease_lineage_tx L ctx leaseID actor revokedAt s =
    (case lockLineage L leaseID s of
       Inl err \<Rightarrow> Inl err
     | Inr _ \<Rightarrow>
     (case parse_uuid L leaseID of
       None \<Rightarrow> Inl (Opaque ''revoke lease lineage'')
     | Some i \<Rightarrow>
       let start = map l_ID (filter (\<lambda>l. l_ID l = i) (db_leases s));
           (affected, s1) = revoke_rows (lineage s start) revokedAt s
       in if affected = 0 \<and> find_lease s1 i = None then Inl (DomainE ErrLeaseNotFound)
       else
         let event = \<lparr>e_ID = 0, e_WorkloadID = None, e_LeaseID = Some leaseID,
               e_EventType = ''lease.lineage_revoked'', e_Actor = actor,
               e_Details = [(''revoked_count'', DInt affected)],
               e_OccurredAt = revokedAt, e_RequestID = []\<rparr>
         in case insertAuditEvent L ctx event s1 of
           Inl err \<Rightarrow> Inl err
         | Inr (_, s2) \<Rightarrow> Inr (affected, s2)))"

definition RevokeLeaseLineage ::
    "auth_lib \<Rightarrow> bytes \<Rightarrow> bytes \<Rightarrow> bytes \<Rightarrow> instant \<Rightarrow> db \<Rightarrow> int result \<times> db" where
  "RevokeLeaseLineage L ctx leaseID actor revokedAt s =
    BeginFunc (revoke_lease_lineage_tx L ctx leaseID actor revokedAt) s"

definition ListActiveRevocations :: "instant \<Rightarrow> db \<Rightarrow> bytes list result" where
  "ListActiveRevocations now s =
    Inr (sort (map l_ID (filter (\<lambda>l. l_RevokedAt l \<noteq> None \<and> l_Expiration l > now) (db_leases s))))"

end
