(* ===== verification/Lineage.thy ===== *)
theory Lineage
  imports Repository
begin

section \<open>Lineages\<close>

text \<open>
  The recursive queries of the repository compute what they are meant to. In a table whose
  leases have distinct identifiers and parents exactly one level above (\<open>forest\<close>), the fuel of
  \<open>ancestors\<close> and \<open>lineage\<close> is enough: \<open>lineage\<close> is the set of descendants, the reflexive and
  transitive closure of the parent relation, and \<open>ancestors\<close> is the path from a lease to its
  root, one lease per depth.
\<close>

definition forest :: "Lease list \<Rightarrow> bool" where
  "forest rows \<longleftrightarrow> distinct (map l_ID rows) \<and>
    (\<forall>c \<in> set rows. 0 \<le> sint (l_Depth c) \<and>
      (case l_ParentLeaseID c of
         None \<Rightarrow> sint (l_Depth c) = 0
       | Some i \<Rightarrow> \<exists>p \<in> set rows. l_ID p = i \<and> sint (l_Depth c) = sint (l_Depth p) + 1))"

inductive descends :: "Lease list \<Rightarrow> nat \<Rightarrow> bytes \<Rightarrow> bytes \<Rightarrow> bool" for rows where
  self: "descends rows 0 a a"
| child: "descends rows n a p \<Longrightarrow> c \<in> set rows \<Longrightarrow> l_ParentLeaseID c = Some p \<Longrightarrow>
    descends rows (Suc n) a (l_ID c)"

inductive_cases descends_Suc: "descends rows (Suc n) a d"
inductive_cases descends_0: "descends rows 0 a d"

definition descendant :: "Lease list \<Rightarrow> bytes \<Rightarrow> bytes \<Rightarrow> bool" where
  "descendant rows a d \<longleftrightarrow> (\<exists>n. descends rows n a d)"

lemma descendant_self [simp, intro]: "descendant rows a a"
  by (auto simp: descendant_def intro: descends.self)

lemma descendant_child:
  "descendant rows a p \<Longrightarrow> c \<in> set rows \<Longrightarrow> l_ParentLeaseID c = Some p \<Longrightarrow> descendant rows a (l_ID c)"
  by (auto simp: descendant_def intro: descends.child)

lemma descends_trans: "descends rows m b d \<Longrightarrow> descends rows n a b \<Longrightarrow> descends rows (n + m) a d"
  by (induction m b d rule: descends.induct) (auto intro: descends.child)

lemma descendant_trans: "descendant rows a b \<Longrightarrow> descendant rows b d \<Longrightarrow> descendant rows a d"
  by (auto simp: descendant_def intro: descends_trans)

lemma descends_front:
  "descends rows (Suc n) a d \<Longrightarrow>
   \<exists>c \<in> set rows. l_ParentLeaseID c = Some a \<and> descends rows n (l_ID c) d"
proof (induction n arbitrary: d)
  case 0
  then show ?case
    by (auto elim!: descends_Suc descends_0 intro: descends.self)
next
  case (Suc n)
  from Suc.prems obtain p c where "descends rows (Suc n) a p" "c \<in> set rows"
    "l_ParentLeaseID c = Some p" "d = l_ID c"
    by (auto elim: descends_Suc)
  with Suc.IH [of p] show ?case by (auto intro: descends.child)
qed

subsection \<open>Depths\<close>

lemma forest_depth: "forest rows \<Longrightarrow> c \<in> set rows \<Longrightarrow> 0 \<le> sint (l_Depth c)"
  by (auto simp: forest_def)

lemma forest_parent:
  "forest rows \<Longrightarrow> c \<in> set rows \<Longrightarrow> l_ParentLeaseID c = Some i \<Longrightarrow>
   \<exists>p \<in> set rows. l_ID p = i \<and> sint (l_Depth c) = sint (l_Depth p) + 1"
  by (fastforce simp: forest_def)

lemma forest_root:
  "forest rows \<Longrightarrow> c \<in> set rows \<Longrightarrow> l_ParentLeaseID c = None \<Longrightarrow> sint (l_Depth c) = 0"
  by (fastforce simp: forest_def)

lemma forest_ID: "forest rows \<Longrightarrow> c \<in> set rows \<Longrightarrow> d \<in> set rows \<Longrightarrow> l_ID c = l_ID d \<Longrightarrow> c = d"
  by (auto simp: forest_def intro: distinct_key_inj)

lemma forest_find: "forest rows \<Longrightarrow> c \<in> set rows \<Longrightarrow> find (\<lambda>l. l_ID l = l_ID c) rows = Some c"
  by (auto simp: forest_def intro: find_key_eq)

text \<open>Every depth up to that of a lease occurs in the table, so depths stay below its size.\<close>

lemma depths_below:
  "forest rows \<Longrightarrow> c \<in> set rows \<Longrightarrow> sint (l_Depth c) = int n \<Longrightarrow>
   {0..int n} \<subseteq> (\<lambda>l. sint (l_Depth l)) ` set rows"
proof (induction n arbitrary: c)
  case 0
  then have "0 \<in> (\<lambda>l. sint (l_Depth l)) ` set rows"
    by (intro image_eqI [of _ _ c]) simp_all
  then show ?case by auto
next
  case (Suc n)
  then have "l_ParentLeaseID c \<noteq> None"
    using forest_root by fastforce
  then obtain p where p: "p \<in> set rows" "sint (l_Depth c) = sint (l_Depth p) + 1"
    using forest_parent Suc.prems by blast
  then have "{0..int n} \<subseteq> (\<lambda>l. sint (l_Depth l)) ` set rows"
    using Suc by auto
  moreover have "int (Suc n) \<in> (\<lambda>l. sint (l_Depth l)) ` set rows"
    using Suc.prems by (intro image_eqI [of _ _ c]) simp_all
  moreover have "{0..int (Suc n)} = insert (int (Suc n)) {0..int n}" by auto
  ultimately show ?case by auto
qed

lemma depth_less_length:
  assumes "forest rows" "c \<in> set rows"
  shows "sint (l_Depth c) < int (length rows)"
proof -
  obtain n where n: "sint (l_Depth c) = int n"
    using forest_depth [OF assms] nonneg_int_cases by blast
  have "card {0..int n} \<le> card ((\<lambda>l. sint (l_Depth l)) ` set rows)"
    by (rule card_mono [OF _ depths_below [OF assms n]]) simp
  also have "\<dots> \<le> length rows"
    using card_image_le card_length le_trans by blast
  finally show ?thesis using n by simp
qed

lemma descends_depth:
  assumes "forest rows"
  shows "descends rows (Suc n) a d \<Longrightarrow>
    \<exists>c \<in> set rows. l_ID c = d \<and> int n \<le> sint (l_Depth c)"
proof (induction n arbitrary: d)
  case 0
  then show ?case using forest_depth [OF assms] by (auto elim: descends_Suc)
next
  case (Suc n)
  from Suc.prems obtain p c where c: "descends rows (Suc n) a p" "c \<in> set rows"
    "l_ParentLeaseID c = Some p" "d = l_ID c"
    by (auto elim: descends_Suc)
  from Suc.IH [OF c(1)] obtain q where "q \<in> set rows" "l_ID q = p" "int n \<le> sint (l_Depth q)"
    by blast
  moreover obtain r where "r \<in> set rows" "l_ID r = p" "sint (l_Depth c) = sint (l_Depth r) + 1"
    using forest_parent [OF assms c(2,3)] by blast
  moreover have "q = r"
    using calculation forest_ID [OF assms, of q r] by simp
  ultimately have "int (Suc n) \<le> sint (l_Depth c)" by simp
  with c(2,4) show ?case by blast
qed

lemma descends_length:
  assumes "forest rows" "descends rows n a d"
  shows "n \<le> length rows"
proof (cases n)
  case (Suc m)
  then show ?thesis
    using descends_depth [OF assms(1)] depth_less_length [OF assms(1)] assms(2) by fastforce
qed simp

subsection \<open>Descendants\<close>

lemma children_ids_iff:
  "d \<in> set (children_ids rows level) \<longleftrightarrow>
   (\<exists>c \<in> set rows. d = l_ID c \<and> (\<exists>p \<in> set level. l_ParentLeaseID c = Some p))"
  by (auto simp: children_ids_def split: option.splits)

lemma lineage_ids_sound:
  "d \<in> set (lineage_ids n rows level) \<Longrightarrow> \<exists>a \<in> set level. descendant rows a d"
proof (induction n arbitrary: level)
  case (Suc n)
  then consider "d \<in> set level" | "d \<in> set (lineage_ids n rows (children_ids rows level))"
    by (auto split: if_splits)
  then show ?case
  proof cases
    case 2
    then obtain c p where "c \<in> set rows" "p \<in> set level" "l_ParentLeaseID c = Some p"
      "descendant rows (l_ID c) d"
      using Suc.IH children_ids_iff by metis
    then show ?thesis
      using descendant_child [OF descendant_self] descendant_trans by blast
  qed auto
qed auto

lemma lineage_ids_complete:
  "descends rows k a d \<Longrightarrow> k \<le> n \<Longrightarrow> a \<in> set level \<Longrightarrow> d \<in> set (lineage_ids n rows level)"
proof (induction n arbitrary: k a level)
  case 0
  then show ?case by (auto elim: descends_0)
next
  case (Suc n)
  have ne: "level \<noteq> []" using Suc.prems(3) by auto
  show ?case
  proof (cases k)
    case 0
    then show ?thesis using Suc.prems by (auto elim: descends_0)
  next
    case (Suc m)
    with Suc.prems(1) obtain c where c: "c \<in> set rows" "l_ParentLeaseID c = Some a"
      "descends rows m (l_ID c) d"
      using descends_front by blast
    then have "l_ID c \<in> set (children_ids rows level)"
      using Suc.prems(3) by (auto simp: children_ids_iff)
    then show ?thesis
      using Suc.IH [OF c(3)] Suc.prems(2) Suc ne by simp
  qed
qed

text \<open>With the fuel the repository gives it, the recursive query finds exactly the descendants.\<close>

lemma lineage_iff:
  assumes "forest (db_leases s)"
  shows "d \<in> set (lineage s ids) \<longleftrightarrow> (\<exists>a \<in> set ids. descendant (db_leases s) a d)"
proof
  show "d \<in> set (lineage s ids) \<Longrightarrow> \<exists>a \<in> set ids. descendant (db_leases s) a d"
    unfolding lineage_def by (rule lineage_ids_sound)
next
  assume "\<exists>a \<in> set ids. descendant (db_leases s) a d"
  then obtain a k where "a \<in> set ids" "descends (db_leases s) k a d"
    by (auto simp: descendant_def)
  then show "d \<in> set (lineage s ids)"
    unfolding lineage_def
    using lineage_ids_complete descends_length [OF assms] by blast
qed

text \<open>The levels of the query: after one round per lease none is left, so further fuel adds nothing.\<close>

lemma level_descends:
  "d \<in> set ((children_ids rows ^^ k) ids) \<Longrightarrow> \<exists>a \<in> set ids. descends rows k a d"
proof (induction k arbitrary: d)
  case 0
  then show ?case by (auto intro: descends.self)
next
  case (Suc k)
  then obtain c p where "c \<in> set rows" "d = l_ID c" "p \<in> set ((children_ids rows ^^ k) ids)" "l_ParentLeaseID c = Some p"
    by (auto simp: children_ids_iff)
  with Suc.IH show ?case by (meson descends.child)
qed

lemma levels_end:
  assumes "forest rows"
  shows "(children_ids rows ^^ Suc (length rows)) ids = []"
proof (rule ccontr)
  assume "(children_ids rows ^^ Suc (length rows)) ids \<noteq> []"
  then obtain d where "d \<in> set ((children_ids rows ^^ Suc (length rows)) ids)" by (meson last_in_set)
  then obtain a where "descends rows (Suc (length rows)) a d" using level_descends by blast
  then show False using descends_length [OF assms] by fastforce
qed

lemma lineage_ids_Nil [simp]: "lineage_ids n rows [] = []"
  by (cases n) simp_all

lemma lineage_ids_more:
  "(children_ids rows ^^ Suc n) level = [] \<Longrightarrow> n \<le> m \<Longrightarrow> lineage_ids m rows level = lineage_ids n rows level"
proof (induction n arbitrary: m level)
  case 0
  then show ?case by (cases m) simp_all
next
  case (Suc n)
  then obtain m' where m': "m = Suc m'" "n \<le> m'" by (cases m) simp_all
  have "(children_ids rows ^^ Suc n) (children_ids rows level) = []"
    using Suc.prems(1) by (metis comp_apply funpow_Suc_right)
  then show ?case using Suc.IH [OF _ m'(2)] m'(1) by simp
qed

lemma lineage_more:
  assumes "forest (db_leases s)" "length (db_leases s) \<le> n"
  shows "lineage_ids n (db_leases s) ids = lineage s ids"
  unfolding lineage_def by (rule lineage_ids_more [OF levels_end [OF assms(1)] assms(2)])

subsection \<open>Ancestors\<close>

definition parent_link :: "Lease \<Rightarrow> Lease \<Rightarrow> bool" where
  "parent_link c p \<longleftrightarrow> l_ParentLeaseID c = Some (l_ID p)"

definition path_to_root :: "Lease list \<Rightarrow> Lease \<Rightarrow> Lease list \<Rightarrow> bool" where
  "path_to_root rows l xs \<longleftrightarrow>
    xs \<noteq> [] \<and> hd xs = l \<and> set xs \<subseteq> set rows \<and> successively parent_link xs
    \<and> l_ParentLeaseID (last xs) = None
    \<and> map (\<lambda>x. sint (l_Depth x)) xs = rev [0..sint (l_Depth l)]"

lemma ancestor_rows_path:
  assumes "forest rows"
  shows "l \<in> set rows \<Longrightarrow> sint (l_Depth l) < int n \<Longrightarrow> path_to_root rows l (ancestor_rows n rows (l_ID l))"
proof (induction n arbitrary: l)
  case 0
  then show ?case using forest_depth [OF assms] by fastforce
next
  case (Suc n)
  have rows: "ancestor_rows (Suc n) rows (l_ID l) =
      l # (case l_ParentLeaseID l of None \<Rightarrow> [] | Some p \<Rightarrow> ancestor_rows n rows p)"
    using forest_find [OF assms Suc.prems(1)] by simp
  show ?case
  proof (cases "l_ParentLeaseID l")
    case None
    then show ?thesis
      using Suc.prems(1) forest_root [OF assms Suc.prems(1) None]
      unfolding rows by (simp add: path_to_root_def upto_single)
  next
    case (Some i)
    obtain p where p: "p \<in> set rows" "l_ID p = i" "sint (l_Depth l) = sint (l_Depth p) + 1"
      using forest_parent [OF assms Suc.prems(1) Some] by blast
    then have path: "path_to_root rows p (ancestor_rows n rows i)"
      using Suc.IH [of p] Suc.prems(2) by auto
    have "[0..sint (l_Depth l)] = [0..sint (l_Depth p)] @ [sint (l_Depth l)]"
      using p(3) forest_depth [OF assms p(1)] upto_rec2 [of 0 "sint (l_Depth l)"] by simp
    then show ?thesis
      using path Some p Suc.prems(1) unfolding rows
      by (cases "ancestor_rows n rows i")
        (auto simp: path_to_root_def parent_link_def)
  qed
qed

lemma ancestors_path:
  assumes "forest (db_leases s)" "l \<in> set (db_leases s)"
  shows "path_to_root (db_leases s) l (ancestors s (l_ID l))"
  unfolding ancestors_def
  by (rule ancestor_rows_path [OF assms depth_less_length [OF assms]])

lemma ancestor_rows_more:
  assumes "forest rows"
  shows "l \<in> set rows \<Longrightarrow> sint (l_Depth l) < int n \<Longrightarrow> n \<le> m \<Longrightarrow>
    ancestor_rows m rows (l_ID l) = ancestor_rows n rows (l_ID l)"
proof (induction n arbitrary: l m)
  case 0
  then show ?case using forest_depth [OF assms] by fastforce
next
  case (Suc n)
  then obtain m' where m': "m = Suc m'" "n \<le> m'" by (cases m) simp_all
  show ?case
  proof (cases "l_ParentLeaseID l")
    case None
    then show ?thesis using forest_find [OF assms Suc.prems(1)] m'(1) by simp
  next
    case (Some i)
    obtain p where p: "p \<in> set rows" "l_ID p = i" "sint (l_Depth l) = sint (l_Depth p) + 1"
      using forest_parent [OF assms Suc.prems(1) Some] by blast
    then have "ancestor_rows m' rows i = ancestor_rows n rows i"
      using Suc.IH [OF p(1) _ m'(2)] Suc.prems(2) by simp
    then show ?thesis using forest_find [OF assms Suc.prems(1)] m'(1) Some by simp
  qed
qed

lemma ancestors_more:
  assumes "forest (db_leases s)" "length (db_leases s) \<le> n"
  shows "ancestor_rows n (db_leases s) i = ancestors s i"
proof (cases "find (\<lambda>l. l_ID l = i) (db_leases s)")
  case None
  then have "ancestor_rows m (db_leases s) i = []" for m by (cases m) simp_all
  then show ?thesis by (simp add: ancestors_def)
next
  case (Some l)
  then have l: "l \<in> set (db_leases s)" "l_ID l = i" by (auto simp: find_Some_iff)
  then show ?thesis
    unfolding ancestors_def
    using ancestor_rows_more [OF assms(1) l(1) depth_less_length [OF assms(1) l(1)] assms(2)] by simp
qed

lemma ancestors_none: "find_lease s i = None \<Longrightarrow> ancestors s i = []"
  by (cases "length (db_leases s)") (simp_all add: ancestors_def find_lease_def)

lemma insort_key_last:
  "\<forall>y \<in> set ys. f y < f x \<Longrightarrow> insort_key f x ys = ys @ [x]" for f :: "'a \<Rightarrow> 'b::linorder"
  by (induction ys) auto

lemma sort_key_descending:
  "sorted_wrt (\<lambda>x y. f y < f x) xs \<Longrightarrow> sort_key f xs = rev xs" for f :: "'a \<Rightarrow> 'b::linorder"
  by (induction xs) (simp_all add: insort_key_last)

lemma path_sorted:
  assumes "path_to_root rows l xs"
  shows "sort_key (\<lambda>x. sint (l_Depth x)) xs = rev xs"
proof (rule sort_key_descending)
  have "sorted_wrt (\<lambda>x y. y < x) (map (\<lambda>x. sint (l_Depth x)) xs)"
    using assms by (simp add: path_to_root_def sorted_wrt_rev)
  then show "sorted_wrt (\<lambda>x y. sint (l_Depth y) < sint (l_Depth x)) xs"
    by (simp add: sorted_wrt_map)
qed

end
