(* ===== verification/Integrity.thy ===== *)
theory Integrity
  imports Lineage
begin

section \<open>Integrity of the database\<close>

text \<open>
  The invariant of the tables (\<open>db_ok\<close>) and the relation between a database and a later one
  (\<open>db_extends\<close>): no row disappears, a lease keeps every field but its revocation, which is
  set once, and its count of uses, which only grows, a workload keeps its identity and its
  grant and stays disabled, and the audit log and the consumptions only grow at their end.
  Every transaction of the repository preserves the one and stays within the other.
\<close>

definition uuid_canonical :: "auth_lib \<Rightarrow> bool" where
  "uuid_canonical L \<longleftrightarrow> (\<forall>t u. parse_uuid L t = Some u \<longrightarrow> parse_uuid L u = Some u)"

subsection \<open>The invariant\<close>

definition is_uuid :: "auth_lib \<Rightarrow> bytes \<Rightarrow> bool" where
  "is_uuid L i \<longleftrightarrow> parse_uuid L i = Some i"

definition lease_row_ok :: "auth_lib \<Rightarrow> Lease \<Rightarrow> bool" where
  "lease_row_ok L l \<longleftrightarrow>
    lease_checks l \<and> is_uuid L (l_ID l) \<and> is_uuid L (l_TokenID l) \<and> is_uuid L (l_WorkloadID l)
    \<and> is_uuid L (l_RootWorkloadID l) \<and> is_uuid L (l_RootLeaseID l)
    \<and> l_AuthenticatedKeyThumbprint l = []"

definition lease_link :: "Lease \<Rightarrow> Lease \<Rightarrow> bool" where
  "lease_link p c \<longleftrightarrow>
    l_ParentLeaseID c = Some (l_ID p) \<and> sint (l_Depth c) = sint (l_Depth p) + 1
    \<and> sint (l_MaxDepth c) \<le> sint (l_MaxDepth p) \<and> l_MaxUses p = 0
    \<and> l_RootLeaseID c = l_RootLeaseID p \<and> l_RootWorkloadID c = l_RootWorkloadID p
    \<and> l_DelegatedByWorkloadID c = Some (l_WorkloadID p) \<and> l_IssuedAt c < l_Expiration p"

definition revoked_closed :: "Lease list \<Rightarrow> bool" where
  "revoked_closed rows \<longleftrightarrow>
    (\<forall>p \<in> set rows. \<forall>c \<in> set rows. l_ParentLeaseID c = Some (l_ID p) \<longrightarrow>
       l_RevokedAt p \<noteq> None \<longrightarrow> l_RevokedAt c \<noteq> None)"

definition linked :: "Lease list \<Rightarrow> bool" where
  "linked rows \<longleftrightarrow>
    (\<forall>c \<in> set rows. \<forall>i. l_ParentLeaseID c = Some i \<longrightarrow> (\<exists>p \<in> set rows. l_ID p = i \<and> lease_link p c))"

definition lease_table_ok :: "auth_lib \<Rightarrow> Lease list \<Rightarrow> bool" where
  "lease_table_ok L rows \<longleftrightarrow>
    distinct (map l_ID rows) \<and> list_all (lease_row_ok L) rows \<and> linked rows \<and> revoked_closed rows"

definition owners_ok :: "Workload list \<Rightarrow> Lease list \<Rightarrow> bool" where
  "owners_ok ws rows \<longleftrightarrow>
    (\<forall>l \<in> set rows. \<exists>w \<in> set ws. w_ID w = l_WorkloadID l
       \<and> (w_DisabledAt w \<noteq> None \<longrightarrow> l_RevokedAt l \<noteq> None))"

definition workloads_ok :: "auth_lib \<Rightarrow> Workload list \<Rightarrow> bool" where
  "workloads_ok L ws \<longleftrightarrow>
    distinct (map w_ID ws) \<and> list_all (\<lambda>w. workload_checks w \<and> is_uuid L (w_ID w)) ws"

definition lease_uses :: "consumption_row list \<Rightarrow> bytes \<Rightarrow> consumption_row list" where
  "lease_uses us i = filter (\<lambda>u. u_lease_id u = i) us"

text \<open>The uses of a lease are numbered 1, 2, \<dots> in order, and each has a key of its own.\<close>

definition consumptions_ok :: "Lease list \<Rightarrow> consumption_row list \<Rightarrow> bool" where
  "consumptions_ok rows us \<longleftrightarrow>
    (\<forall>u \<in> set us. u_lease_id u \<in> l_ID ` set rows)
    \<and> (\<forall>l \<in> set rows.
        map (\<lambda>u. sint (u_use_number u)) (lease_uses us (l_ID l)) = [1..sint (l_UsesConsumed l)]
        \<and> distinct (map u_idempotency_key (lease_uses us (l_ID l))))"

definition audit_ok :: "AuditEvent list \<Rightarrow> int \<Rightarrow> bool" where
  "audit_ok es n \<longleftrightarrow> sorted_wrt (<) (map e_ID es) \<and> list_all (\<lambda>e. audit_checks e \<and> e_ID e \<le> n) es"

definition db_ok :: "auth_lib \<Rightarrow> db \<Rightarrow> bool" where
  "db_ok L s \<longleftrightarrow>
    workloads_ok L (db_workloads s) \<and> lease_table_ok L (db_leases s)
    \<and> owners_ok (db_workloads s) (db_leases s)
    \<and> consumptions_ok (db_leases s) (db_lease_consumptions s)
    \<and> audit_ok (db_audit_events s) (db_audit_seq s)"

subsection \<open>Later databases\<close>

definition same_identity :: "Lease \<Rightarrow> Lease \<Rightarrow> bool" where
  "same_identity l k \<longleftrightarrow>
    l_ID k = l_ID l \<and> l_TokenID k = l_TokenID l \<and> l_WorkloadID k = l_WorkloadID l
    \<and> l_RootWorkloadID k = l_RootWorkloadID l \<and> l_Audience k = l_Audience l
    \<and> l_ParentLeaseID k = l_ParentLeaseID l \<and> l_RootLeaseID k = l_RootLeaseID l
    \<and> l_DelegatedByWorkloadID k = l_DelegatedByWorkloadID l \<and> l_Actions k = l_Actions l
    \<and> l_Resources k = l_Resources l \<and> l_Expiration k = l_Expiration l \<and> l_Depth k = l_Depth l
    \<and> l_MaxDepth k = l_MaxDepth l \<and> l_TokenHash k = l_TokenHash l \<and> l_IssuedAt k = l_IssuedAt l
    \<and> l_GrantVersion k = l_GrantVersion l \<and> l_ConfirmationThumbprint k = l_ConfirmationThumbprint l
    \<and> l_MaxUses k = l_MaxUses l \<and> l_Constraints k = l_Constraints l
    \<and> l_AuthenticatedKeyThumbprint k = l_AuthenticatedKeyThumbprint l"

definition lease_evolves :: "Lease \<Rightarrow> Lease \<Rightarrow> bool" where
  "lease_evolves l k \<longleftrightarrow>
    same_identity l k \<and> (l_RevokedAt l \<noteq> None \<longrightarrow> l_RevokedAt k = l_RevokedAt l)
    \<and> sint (l_UsesConsumed l) \<le> sint (l_UsesConsumed k)"

definition workload_evolves :: "Workload \<Rightarrow> Workload \<Rightarrow> bool" where
  "workload_evolves w v \<longleftrightarrow>
    w_ID v = w_ID w \<and> w_Name v = w_Name w \<and> w_CreatedAt v = w_CreatedAt w \<and> w_Grant v = w_Grant w
    \<and> (w_DisabledAt w \<noteq> None \<longrightarrow> w_DisabledAt v = w_DisabledAt w)"

definition grows :: "('a \<Rightarrow> 'a \<Rightarrow> bool) \<Rightarrow> 'a list \<Rightarrow> 'a list \<Rightarrow> bool" where
  "grows R xs ys \<longleftrightarrow> (\<exists>zs new. ys = zs @ new \<and> list_all2 R xs zs)"

definition db_extends :: "db \<Rightarrow> db \<Rightarrow> bool" where
  "db_extends s t \<longleftrightarrow>
    grows lease_evolves (db_leases s) (db_leases t)
    \<and> grows workload_evolves (db_workloads s) (db_workloads t)
    \<and> prefix (db_audit_events s) (db_audit_events t)
    \<and> prefix (db_lease_consumptions s) (db_lease_consumptions t)"

lemma same_identity_refl [simp]: "same_identity l l"
  by (simp add: same_identity_def)

lemma same_identity_fields:
  assumes "same_identity l k"
  shows "l_ID k = l_ID l" "l_TokenID k = l_TokenID l" "l_WorkloadID k = l_WorkloadID l"
    "l_RootWorkloadID k = l_RootWorkloadID l" "l_Audience k = l_Audience l"
    "l_ParentLeaseID k = l_ParentLeaseID l" "l_RootLeaseID k = l_RootLeaseID l"
    "l_DelegatedByWorkloadID k = l_DelegatedByWorkloadID l" "l_Actions k = l_Actions l"
    "l_Resources k = l_Resources l" "l_Expiration k = l_Expiration l" "l_Depth k = l_Depth l"
    "l_MaxDepth k = l_MaxDepth l" "l_TokenHash k = l_TokenHash l" "l_IssuedAt k = l_IssuedAt l"
    "l_GrantVersion k = l_GrantVersion l" "l_ConfirmationThumbprint k = l_ConfirmationThumbprint l"
    "l_MaxUses k = l_MaxUses l" "l_Constraints k = l_Constraints l"
    "l_AuthenticatedKeyThumbprint k = l_AuthenticatedKeyThumbprint l"
  using assms by (simp_all add: same_identity_def)

lemma same_identity_trans: "same_identity a b \<Longrightarrow> same_identity b c \<Longrightarrow> same_identity a c"
  by (simp add: same_identity_def)

lemma lease_evolves_refl [simp]: "lease_evolves l l"
  by (simp add: lease_evolves_def)

lemma lease_evolves_trans: "lease_evolves a b \<Longrightarrow> lease_evolves b c \<Longrightarrow> lease_evolves a c"
  by (auto simp: lease_evolves_def intro: same_identity_trans)

lemma workload_evolves_refl [simp]: "workload_evolves w w"
  by (simp add: workload_evolves_def)

lemma workload_evolves_trans:
  "workload_evolves a b \<Longrightarrow> workload_evolves b c \<Longrightarrow> workload_evolves a c"
  by (auto simp: workload_evolves_def)

lemma grows_refl: "(\<And>x. R x x) \<Longrightarrow> grows R xs xs"
  by (auto simp: grows_def list_all2_refl intro: exI [of _ xs])

lemma grows_append: "(\<And>x. R x x) \<Longrightarrow> grows R xs (xs @ new)"
  by (auto simp: grows_def list_all2_refl)

lemma grows_map: "(\<And>x. x \<in> set xs \<Longrightarrow> R x (f x)) \<Longrightarrow> grows R xs (map f xs)"
  unfolding grows_def
  by (intro exI [of _ "map f xs"] exI [of _ "[]"]) (auto simp: list_all2_conv_all_nth)

lemma grows_trans:
  assumes "\<And>x y z. R x y \<Longrightarrow> R y z \<Longrightarrow> R x z" "grows R xs ys" "grows R ys zs"
  shows "grows R xs zs"
proof -
  obtain ys' new where ys: "ys = ys' @ new" "list_all2 R xs ys'"
    using assms(2) by (auto simp: grows_def)
  obtain zs' new' where zs: "zs = zs' @ new'" "list_all2 R ys zs'"
    using assms(3) by (auto simp: grows_def)
  from zs(2) obtain a b where "zs' = a @ b" "list_all2 R ys' a"
    unfolding ys(1) list_all2_append1 by blast
  moreover have "list_all2 R xs a"
    by (rule list_all2_trans [OF assms(1) ys(2) calculation(2)])
  ultimately show ?thesis
    unfolding grows_def zs(1) by (metis append.assoc)
qed

lemma grows_in:
  assumes "grows R xs ys" "x \<in> set xs"
  obtains y where "y \<in> set ys" "R x y"
proof -
  obtain zs new where "ys = zs @ new" "list_all2 R xs zs"
    using assms(1) by (auto simp: grows_def)
  moreover obtain i where "i < length xs" "x = xs ! i"
    using assms(2) by (auto simp: in_set_conv_nth)
  ultimately show thesis
    using that [of "zs ! i"] by (auto simp: list_all2_conv_all_nth)
qed

lemma db_extends_refl [simp]: "db_extends s s"
  by (simp add: db_extends_def grows_refl)

lemma db_extends_trans:
  assumes "db_extends s t" "db_extends t u"
  shows "db_extends s u"
proof -
  have "grows lease_evolves (db_leases s) (db_leases u)"
    using assms unfolding db_extends_def
    by (elim conjE) (rule grows_trans [of lease_evolves, OF lease_evolves_trans])
  moreover have "grows workload_evolves (db_workloads s) (db_workloads u)"
    using assms unfolding db_extends_def
    by (elim conjE) (rule grows_trans [of workload_evolves, OF workload_evolves_trans])
  ultimately show ?thesis
    using assms by (auto simp: db_extends_def intro: prefix_order.trans)
qed

lemma db_extends_lease:
  assumes "db_extends s t" "l \<in> set (db_leases s)"
  obtains k where "k \<in> set (db_leases t)" "lease_evolves l k"
  using assms by (auto simp: db_extends_def elim: grows_in)

lemma db_extends_workload:
  assumes "db_extends s t" "w \<in> set (db_workloads s)"
  obtains v where "v \<in> set (db_workloads t)" "workload_evolves w v"
  using assms by (auto simp: db_extends_def elim: grows_in)

subsection \<open>Facts of the invariant\<close>

lemma lease_row_depth: "lease_row_ok L l \<Longrightarrow> 0 \<le> sint (l_Depth l)"
  by (simp add: lease_row_ok_def lease_checks_def)

lemma lease_table_forest:
  assumes "lease_table_ok L rows"
  shows "forest rows"
  unfolding forest_def
proof (intro conjI ballI)
  show "distinct (map l_ID rows)" using assms by (simp add: lease_table_ok_def)
  fix c
  assume c: "c \<in> set rows"
  then have ok: "lease_row_ok L c" using assms by (auto simp: lease_table_ok_def list_all_iff)
  then show "0 \<le> sint (l_Depth c)" by (rule lease_row_depth)
  show "case l_ParentLeaseID c of None \<Rightarrow> sint (l_Depth c) = 0
      | Some i \<Rightarrow> \<exists>p\<in>set rows. l_ID p = i \<and> sint (l_Depth c) = sint (l_Depth p) + 1"
  proof (cases "l_ParentLeaseID c")
    case None
    then show ?thesis using ok by (simp add: lease_row_ok_def lease_checks_def)
  next
    case (Some i)
    then have "\<exists>p\<in>set rows. l_ID p = i \<and> lease_link p c"
      using assms c by (simp add: lease_table_ok_def linked_def)
    then show ?thesis using Some by (auto simp: lease_link_def)
  qed
qed

lemma db_ok_forest: "db_ok L s \<Longrightarrow> forest (db_leases s)"
  by (auto simp: db_ok_def intro: lease_table_forest)

lemma db_ok_row: "db_ok L s \<Longrightarrow> l \<in> set (db_leases s) \<Longrightarrow> lease_row_ok L l"
  by (simp add: db_ok_def lease_table_ok_def list_all_iff)

lemma db_ok_link:
  "db_ok L s \<Longrightarrow> c \<in> set (db_leases s) \<Longrightarrow> l_ParentLeaseID c = Some i \<Longrightarrow>
   \<exists>p \<in> set (db_leases s). l_ID p = i \<and> lease_link p c"
  by (simp add: db_ok_def lease_table_ok_def linked_def)

lemma find_lease_iff:
  "db_ok L s \<Longrightarrow> find_lease s i = Some l \<longleftrightarrow> l \<in> set (db_leases s) \<and> l_ID l = i"
  using db_ok_forest [of L s] forest_find [of "db_leases s" l]
  by (auto simp: find_lease_def dest: find_Some_iff_key)

lemma find_lease_none: "find_lease s i = None \<longleftrightarrow> i \<notin> l_ID ` set (db_leases s)"
  by (auto simp: find_lease_def find_None_iff_none)

lemma find_workload_iff:
  "db_ok L s \<Longrightarrow> find_workload s i = Some w \<longleftrightarrow> w \<in> set (db_workloads s) \<and> w_ID w = i"
  using find_key_eq [of w_ID "db_workloads s" w]
  by (auto simp: find_workload_def db_ok_def workloads_ok_def dest: find_Some_iff_key)

lemma find_workload_none: "find_workload s i = None \<longleftrightarrow> i \<notin> w_ID ` set (db_workloads s)"
  by (auto simp: find_workload_def find_None_iff_none)

text \<open>Revocation reaches every descendant.\<close>

lemma revoked_descends:
  assumes "lease_table_ok L rows"
  shows "descends rows n a d \<Longrightarrow> (\<And>l. l \<in> set rows \<Longrightarrow> l_ID l = a \<Longrightarrow> l_RevokedAt l \<noteq> None) \<Longrightarrow>
    l \<in> set rows \<Longrightarrow> l_ID l = d \<Longrightarrow> l_RevokedAt l \<noteq> None"
proof (induction n a d arbitrary: l rule: descends.induct)
  case (child n a p c)
  have "l = c"
    using forest_ID [OF lease_table_forest [OF assms]] child by blast
  moreover obtain q where "q \<in> set rows" "l_ID q = p" "lease_link q c"
    using assms child.hyps by (auto simp: lease_table_ok_def linked_def)
  moreover have "revoked_closed rows" using assms by (simp add: lease_table_ok_def)
  ultimately show ?case
    using child unfolding revoked_closed_def by blast
qed blast

end
