(* ===== verification/Transactions.thy ===== *)
theory Transactions
  imports Integrity
begin

section \<open>Transactions preserve the integrity of the database\<close>

text \<open>
  For each statement the repository issues, what it does to each table, and for each
  transaction that it keeps the invariant \<open>db_ok\<close> and that its result \<open>db_extends\<close> the database it
  started from.
\<close>

subsection \<open>Changing rows in place\<close>

lemma lease_row_ok_same:
  "same_identity l k \<Longrightarrow> lease_checks k \<Longrightarrow> lease_row_ok L l \<Longrightarrow> lease_row_ok L k"
  by (simp add: lease_row_ok_def same_identity_def)

lemma linked_map:
  assumes "linked rows" "\<And>l. l \<in> set rows \<Longrightarrow> same_identity l (f l)"
  shows "linked (map f rows)"
  unfolding linked_def
proof (intro ballI allI impI)
  fix c i
  assume "c \<in> set (map f rows)" "l_ParentLeaseID c = Some i"
  then obtain c0 where c0: "c0 \<in> set rows" "c = f c0" by auto
  have same: "same_identity c0 c" using assms(2) c0 by simp
  have c: "l_ParentLeaseID c0 = Some i"
    using same_identity_fields(6) [OF same] \<open>l_ParentLeaseID c = Some i\<close> by simp
  then obtain p where p: "p \<in> set rows" "l_ID p = i" "lease_link p c0"
    using assms(1) c0 by (auto simp: linked_def)
  have "same_identity p (f p)" using assms(2) p by simp
  then have "l_ID (f p) = i" "lease_link (f p) c"
    using p same by (simp_all add: lease_link_def same_identity_def)
  then show "\<exists>q \<in> set (map f rows). l_ID q = i \<and> lease_link q c"
    using p(1) by auto
qed

lemma lease_table_map:
  assumes "lease_table_ok L rows" "\<And>l. l \<in> set rows \<Longrightarrow> same_identity l (f l)"
    and "\<And>l. l \<in> set rows \<Longrightarrow> lease_checks (f l)" "revoked_closed (map f rows)"
  shows "lease_table_ok L (map f rows)"
proof -
  have "map l_ID (map f rows) = map l_ID rows"
    using same_identity_fields(1) [OF assms(2)] by simp
  moreover have "list_all (lease_row_ok L) (map f rows)"
    using assms(1-3) by (auto simp: lease_table_ok_def list_all_iff intro: lease_row_ok_same)
  ultimately show ?thesis
    using assms(1,4) linked_map [of rows f, OF _ assms(2)] unfolding lease_table_ok_def by metis
qed

lemma consumptions_map:
  assumes "consumptions_ok rows us" "\<And>l. l \<in> set rows \<Longrightarrow> l_ID (f l) = l_ID l"
    and "\<And>l. l \<in> set rows \<Longrightarrow> l_UsesConsumed (f l) = l_UsesConsumed l"
  shows "consumptions_ok (map f rows) us"
  using assms by (force simp: consumptions_ok_def image_image)

lemma owners_map:
  assumes "owners_ok ws rows" "\<And>l. l \<in> set rows \<Longrightarrow> l_WorkloadID (f l) = l_WorkloadID l"
    and "\<And>l. l \<in> set rows \<Longrightarrow> l_RevokedAt l \<noteq> None \<Longrightarrow> l_RevokedAt (f l) \<noteq> None"
  shows "owners_ok ws (map f rows)"
  using assms by (fastforce simp: owners_ok_def)

subsection \<open>The audit log\<close>

definition log_event :: "AuditEvent \<Rightarrow> db \<Rightarrow> db" where
  "log_event row s = s\<lparr>db_audit_events := db_audit_events s @ [row], db_audit_seq := db_audit_seq s + 1\<rparr>"

lemma log_event_tables [row_simps, simp]:
  "db_leases (log_event row s) = db_leases s"
  "db_workloads (log_event row s) = db_workloads s"
  "db_workload_nonces (log_event row s) = db_workload_nonces s"
  "db_lease_consumptions (log_event row s) = db_lease_consumptions s"
  "db_audit_events (log_event row s) = db_audit_events s @ [row]"
  "db_audit_seq (log_event row s) = db_audit_seq s + 1"
  by (simp_all add: log_event_def)

definition logs :: "AuditEvent \<Rightarrow> AuditEvent \<Rightarrow> bool" where
  "logs event row \<longleftrightarrow>
    audit_checks row \<and> e_EventType row = e_EventType event \<and> e_Actor row = e_Actor event
    \<and> e_Details row = e_Details event \<and> e_OccurredAt row = pg_time (e_OccurredAt event)"

lemma insertAuditEvent_Inr:
  assumes "insertAuditEvent L ctx event s = Inr (u, t)"
  obtains row where "t = log_event row s" "e_ID row = db_audit_seq s + 1" "logs event row"
  using assms
  by (auto simp: insertAuditEvent_def Let_def log_event_def logs_def split: option.splits if_splits)

lemma audit_ok_append:
  "audit_ok es n \<Longrightarrow> e_ID row = n + 1 \<Longrightarrow> audit_checks row \<Longrightarrow> audit_ok (es @ [row]) (n + 1)"
  by (auto simp: audit_ok_def sorted_wrt_append list_all_iff)

subsection \<open>Revocation\<close>

definition revoke_row :: "bytes list \<Rightarrow> instant \<Rightarrow> Lease \<Rightarrow> Lease" where
  "revoke_row ids t l = (if revocable ids l then l\<lparr>l_RevokedAt := Some (pg_time t)\<rparr> else l)"

lemma revoke_rows_eq:
  "revoke_rows ids t s = (n, s') \<longleftrightarrow>
   n = int (length (filter (revocable ids) (db_leases s)))
   \<and> s' = s\<lparr>db_leases := map (revoke_row ids t) (db_leases s)\<rparr>"
  by (auto simp: revoke_rows_def revoke_row_def)

lemma revoke_row_same [simp]: "same_identity l (revoke_row ids t l)"
  by (simp add: revoke_row_def same_identity_def)

lemma revoke_row_evolves [simp]: "lease_evolves l (revoke_row ids t l)"
  by (simp add: lease_evolves_def) (simp add: revoke_row_def revocable_def)

lemma revoke_row_fields [simp]:
  "l_ID (revoke_row ids t l) = l_ID l" "l_ParentLeaseID (revoke_row ids t l) = l_ParentLeaseID l"
  "l_UsesConsumed (revoke_row ids t l) = l_UsesConsumed l"
  "l_WorkloadID (revoke_row ids t l) = l_WorkloadID l"
  by (simp_all add: revoke_row_def)

lemma revoke_row_revoked:
  "l_RevokedAt (revoke_row ids t l) \<noteq> None \<longleftrightarrow> l_RevokedAt l \<noteq> None \<or> l_ID l \<in> set ids"
  by (auto simp: revoke_row_def revocable_def)

lemma lease_checks_RevokedAt [simp]: "lease_checks (l\<lparr>l_RevokedAt := r\<rparr>) = lease_checks l"
  by (cases "l_ParentLeaseID l") (simp_all add: lease_checks_def)

lemma lease_checks_revoke [simp]: "lease_checks (revoke_row ids t l) = lease_checks l"
  by (simp add: revoke_row_def)

lemma revoke_table_ok:
  assumes ok: "lease_table_ok L rows"
    and closed: "\<And>c i. c \<in> set rows \<Longrightarrow> l_ParentLeaseID c = Some i \<Longrightarrow> i \<in> set ids \<Longrightarrow> l_ID c \<in> set ids"
  shows "lease_table_ok L (map (revoke_row ids t) rows)"
proof (rule lease_table_map [OF ok])
  show "revoked_closed (map (revoke_row ids t) rows)"
    unfolding revoked_closed_def
  proof (intro ballI impI)
    fix p c
    assume "p \<in> set (map (revoke_row ids t) rows)" "c \<in> set (map (revoke_row ids t) rows)"
      and link: "l_ParentLeaseID c = Some (l_ID p)" and p: "l_RevokedAt p \<noteq> None"
    then obtain p0 c0 where 0: "p0 \<in> set rows" "c0 \<in> set rows" "p = revoke_row ids t p0"
      "c = revoke_row ids t c0" by auto
    then have link0: "l_ParentLeaseID c0 = Some (l_ID p0)" using link by simp
    have "l_RevokedAt p0 \<noteq> None \<or> l_ID p0 \<in> set ids"
      using p unfolding 0(3) revoke_row_revoked .
    then have "l_RevokedAt c0 \<noteq> None \<or> l_ID c0 \<in> set ids"
      using ok closed [OF 0(2) link0] link0 0(1,2) unfolding lease_table_ok_def revoked_closed_def
      by blast
    then show "l_RevokedAt c \<noteq> None" unfolding 0(4) revoke_row_revoked .
  qed
  show "lease_checks (revoke_row ids t l)" if "l \<in> set rows" for l
    using ok that by (simp add: lease_table_ok_def list_all_iff lease_row_ok_def)
qed simp

lemma lineage_closed:
  "forest (db_leases s) \<Longrightarrow> c \<in> set (db_leases s) \<Longrightarrow> l_ParentLeaseID c = Some i \<Longrightarrow>
   i \<in> set (lineage s ids) \<Longrightarrow> l_ID c \<in> set (lineage s ids)"
  by (auto simp: lineage_iff intro: descendant_child)

lemma lineage_start: "forest (db_leases s) \<Longrightarrow> i \<in> set ids \<Longrightarrow> i \<in> set (lineage s ids)"
  by (auto simp: lineage_iff)

lemma lineage_workloads [simp]: "lineage (s\<lparr>db_workloads := ws\<rparr>) ids = lineage s ids"
  by (simp add: lineage_def)

lemma update_workloads_tables [row_simps, simp]:
  "db_leases (update_workloads i f s) = db_leases s"
  "db_lease_consumptions (update_workloads i f s) = db_lease_consumptions s"
  "db_audit_events (update_workloads i f s) = db_audit_events s"
  "db_audit_seq (update_workloads i f s) = db_audit_seq s"
  "db_workload_nonces (update_workloads i f s) = db_workload_nonces s"
  "db_workloads (update_workloads i f s) = map (\<lambda>w. if w_ID w = i then f w else w) (db_workloads s)"
  by (simp_all add: update_workloads_def)

subsection \<open>The transactions one by one\<close>

lemma db_extends_log: "db_extends s t \<Longrightarrow> db_extends s (log_event row t)"
  by (simp add: db_extends_def prefix_prefix)

lemma db_ok_log:
  "db_ok L s \<Longrightarrow> e_ID row = db_audit_seq s + 1 \<Longrightarrow> audit_checks row \<Longrightarrow> db_ok L (log_event row s)"
  by (simp add: db_ok_def audit_ok_append)

text \<open>A state and its successor, related as every committed transaction relates them.\<close>

definition safe_step :: "auth_lib \<Rightarrow> db \<Rightarrow> db \<Rightarrow> bool" where
  "safe_step L s t \<longleftrightarrow> db_ok L t \<and> db_extends s t"

lemma safe_step_refl: "db_ok L s \<Longrightarrow> safe_step L s s"
  by (simp add: safe_step_def)

lemma safe_step_log:
  assumes "safe_step L s t" "insertAuditEvent L ctx event t = Inr (u, t')"
  shows "safe_step L s t'"
  using assms(2)
proof (rule insertAuditEvent_Inr)
  fix row
  assume "t' = log_event row t" "e_ID row = db_audit_seq t + 1" "logs event row"
  then show ?thesis
    using assms(1) by (simp add: safe_step_def db_ok_log db_extends_log logs_def)
qed

lemma BeginFunc_safe:
  assumes "db_ok L s" "\<And>x t. f s = Inr (x, t) \<Longrightarrow> safe_step L s t"
  shows "safe_step L s (snd (BeginFunc f s))"
  using assms by (auto simp: BeginFunc_def safe_step_refl split: sum.splits)

lemma BeginFunc_Inr: "BeginFunc f s = (Inr x, t) \<longleftrightarrow> f s = Inr (x, t)"
  by (auto simp: BeginFunc_def split: sum.splits)

lemma BeginFunc_Inl: "BeginFunc f s = (Inl e, t) \<longleftrightarrow> f s = Inl e \<and> t = s"
  by (auto simp: BeginFunc_def split: sum.splits)

paragraph \<open>Workloads.\<close>

lemma insert_workload_Inr:
  assumes "insert_workload L w s = Inr (u, t)"
  obtains row where "workload_row L w = Some row" "workload_checks row"
    "\<not> list_ex (workload_conflict row) (db_workloads s)"
    "t = s\<lparr>db_workloads := db_workloads s @ [row]\<rparr>"
  using assms by (auto simp: insert_workload_def split: option.splits if_splits)

lemma workload_row_uuid:
  "uuid_canonical L \<Longrightarrow> workload_row L w = Some row \<Longrightarrow> is_uuid L (w_ID row)"
  by (auto simp: workload_row_def is_uuid_def uuid_canonical_def)

lemma owners_append: "owners_ok ws rows \<Longrightarrow> owners_ok (ws @ new) rows"
  by (fastforce simp: owners_ok_def)

lemma insert_workload_safe:
  assumes "uuid_canonical L" "db_ok L s" "insert_workload L w s = Inr (u, t)"
  shows "safe_step L s t"
  using assms(3)
proof (rule insert_workload_Inr)
  fix row
  assume row: "workload_row L w = Some row" "workload_checks row"
    "\<not> list_ex (workload_conflict row) (db_workloads s)"
    "t = s\<lparr>db_workloads := db_workloads s @ [row]\<rparr>"
  have "w_ID row \<notin> w_ID ` set (db_workloads s)"
    using row(3) by (auto simp: list_ex_iff workload_conflict_def)
  then have "workloads_ok L (db_workloads s @ [row])"
    using assms(2) row(2) workload_row_uuid [OF assms(1) row(1)]
    by (auto simp: db_ok_def workloads_ok_def)
  then show ?thesis
    using assms(2) row(4)
    by (simp add: safe_step_def db_ok_def owners_append db_extends_def grows_refl grows_append)
qed

lemma create_workload_safe:
  assumes "uuid_canonical L" "db_ok L s" "create_workload_tx L ctx w event s = Inr (u, t)"
  shows "safe_step L s t"
proof -
  obtain s1 where s1: "insert_workload L w s = Inr ((), s1)" "insertAuditEvent L ctx event s1 = Inr (u, t)"
    using assms(3) by (auto simp: create_workload_tx_def split: sum.splits if_splits)
  from insert_workload_safe [OF assms(1,2) s1(1)] s1(2) show ?thesis
    by (rule safe_step_log)
qed

text \<open>Updates of a workload row that keep its identity and its constraints.\<close>

definition workload_update_ok :: "(Workload \<Rightarrow> Workload) \<Rightarrow> bool" where
  "workload_update_ok f \<longleftrightarrow>
    (\<forall>w. workload_evolves w (f w) \<and> (workload_checks w \<longrightarrow> workload_checks (f w)))"

lemma update_workloads_ok:
  assumes "workloads_ok L ws"
    and "\<And>w. w \<in> set ws \<Longrightarrow> w_ID w = i \<Longrightarrow> workload_evolves w (f w) \<and> workload_checks (f w)"
  shows "workloads_ok L (map (\<lambda>w. if w_ID w = i then f w else w) ws)"
proof -
  have "w_ID (if w_ID w = i then f w else w) = w_ID w" if "w \<in> set ws" for w
    using assms(2) that by (simp add: workload_evolves_def)
  then have "map w_ID (map (\<lambda>w. if w_ID w = i then f w else w) ws) = map w_ID ws"
    by simp
  then have "distinct (map w_ID (map (\<lambda>w. if w_ID w = i then f w else w) ws))"
    using assms(1) by (simp add: workloads_ok_def del: map_map)
  then show ?thesis
    using assms unfolding workloads_ok_def by (auto simp: list_all_iff workload_evolves_def)
qed

lemma update_workloads_grows:
  "(\<And>w. w \<in> set ws \<Longrightarrow> w_ID w = i \<Longrightarrow> workload_evolves w (f w)) \<Longrightarrow>
   grows workload_evolves ws (map (\<lambda>w. if w_ID w = i then f w else w) ws)"
  by (rule grows_map) auto

text \<open>Revoking the lineage of some leases, after a change of workloads that leaves at most
  their owner newly disabled.\<close>

lemma revoke_lineage_safe:
  assumes ok: "db_ok L s" and ws: "workloads_ok L ws" and gw: "grows workload_evolves (db_workloads s) ws"
    and own: "owners_ok ws (map (revoke_row (lineage s ids) t) (db_leases s))"
  shows "safe_step L s (s\<lparr>db_workloads := ws,
      db_leases := map (revoke_row (lineage s ids) t) (db_leases s)\<rparr>)"
proof -
  have forest: "forest (db_leases s)" by (rule db_ok_forest [OF ok])
  have "lease_table_ok L (map (revoke_row (lineage s ids) t) (db_leases s))"
    using ok lineage_closed [OF forest] by (intro revoke_table_ok) (auto simp: db_ok_def)
  moreover have "consumptions_ok (map (revoke_row (lineage s ids) t) (db_leases s)) (db_lease_consumptions s)"
    using ok by (intro consumptions_map) (auto simp: db_ok_def)
  moreover have "grows lease_evolves (db_leases s) (map (revoke_row (lineage s ids) t) (db_leases s))"
    by (rule grows_map) simp
  ultimately show ?thesis
    using ok ws gw own by (simp add: safe_step_def db_ok_def db_extends_def)
qed

lemma owners_update:
  assumes "owners_ok ws rows" "\<And>w. w \<in> set ws \<Longrightarrow> w_ID w = i \<Longrightarrow> w_ID (f w) = i"
    and "(\<forall>w \<in> set ws. w_ID w = i \<longrightarrow> w_DisabledAt (f w) \<noteq> None \<longrightarrow> w_DisabledAt w \<noteq> None)
      \<or> (\<forall>l \<in> set rows. l_WorkloadID l = i \<longrightarrow> l_ID l \<in> set ids)"
  shows "owners_ok (map (\<lambda>w. if w_ID w = i then f w else w) ws) (map (revoke_row ids t) rows)"
  unfolding owners_ok_def
proof
  fix l
  assume "l \<in> set (map (revoke_row ids t) rows)"
  then obtain l0 where l: "l0 \<in> set rows" "l = revoke_row ids t l0" by auto
  then obtain w where w: "w \<in> set ws" "w_ID w = l_WorkloadID l0"
    "w_DisabledAt w \<noteq> None \<longrightarrow> l_RevokedAt l0 \<noteq> None"
    using assms(1) by (auto simp: owners_ok_def)
  let ?v = "if w_ID w = i then f w else w"
  have "w_DisabledAt ?v \<noteq> None \<longrightarrow> l_RevokedAt l \<noteq> None"
    unfolding l(2) revoke_row_revoked using w assms(3) l(1) by (cases "w_ID w = i") auto
  moreover have "w_ID ?v = l_WorkloadID l" using w assms(2) l by simp
  ultimately show "\<exists>v\<in>set (map (\<lambda>w. if w_ID w = i then f w else w) ws). w_ID v = l_WorkloadID l
      \<and> (w_DisabledAt v \<noteq> None \<longrightarrow> l_RevokedAt l \<noteq> None)"
    using w(1) by (intro bexI [of _ ?v]) auto
qed

lemma workload_lease_ids_update [simp]:
  "workload_lease_ids (s\<lparr>db_workloads := ws\<rparr>) j = workload_lease_ids s j"
  by (simp add: workload_lease_ids_def)

lemma workload_lease_ids_iff:
  "l \<in> set (db_leases s) \<Longrightarrow> l_WorkloadID l = i \<Longrightarrow> l_ID l \<in> set (workload_lease_ids s i)"
  by (auto simp: workload_lease_ids_def)

definition disabled_row :: "instant \<Rightarrow> Workload \<Rightarrow> Workload" where
  "disabled_row t w =
    w\<lparr>w_DisabledAt := (case w_DisabledAt w of None \<Rightarrow> Some (pg_time t) | Some u \<Rightarrow> Some u),
      w_UpdatedAt := pg_time t\<rparr>"

lemma disabled_row_ok:
  "workload_evolves w (disabled_row t w)" "workload_checks (disabled_row t w) = workload_checks w"
  "w_DisabledAt (disabled_row t w) \<noteq> None" "w_ID (disabled_row t w) = w_ID w"
  by (auto simp: disabled_row_def workload_evolves_def workload_checks_def workload_key_checks_def
      split: option.splits)

lemma disable_workload_Inr:
  assumes "disable_workload_tx L ctx given actor t s = Inr (n, s')"
  obtains i u where "parse_uuid L given = Some i" "find_workload s i \<noteq> None"
    "n = int (length (filter (revocable (lineage s (workload_lease_ids s i))) (db_leases s)))"
    "insertAuditEvent L ctx \<lparr>e_ID = 0, e_WorkloadID = Some given, e_LeaseID = None,
        e_EventType = ''workload.disabled'', e_Actor = actor,
        e_Details = [(''revoked_count'', DInt n)], e_OccurredAt = t, e_RequestID = []\<rparr>
      (s\<lparr>db_workloads := map (\<lambda>w. if w_ID w = i then disabled_row t w else w) (db_workloads s),
         db_leases := map (revoke_row (lineage s (workload_lease_ids s i)) t) (db_leases s)\<rparr>)
     = Inr (u, s')"
proof -
  from assms obtain i where i: "parse_uuid L given = Some i" "find_workload s i \<noteq> None"
    by (auto simp: disable_workload_tx_def split: option.splits if_splits)
  show thesis
    by (rule that [OF i])
      (use assms i in \<open>auto simp: disable_workload_tx_def Let_def disabled_row_def [symmetric]
        revoke_rows_def revoke_row_def [abs_def] update_workloads_def split: sum.splits\<close>)
qed

lemma disable_workload_safe:
  assumes ok: "db_ok L s" and tx: "disable_workload_tx L ctx given actor t s = Inr (n, s')"
  shows "safe_step L s s'"
  using tx
proof (rule disable_workload_Inr)
  fix i u
  let ?ids = "workload_lease_ids s i"
  let ?ws = "map (\<lambda>w. if w_ID w = i then disabled_row t w else w) (db_workloads s)"
  let ?s = "s\<lparr>db_workloads := ?ws, db_leases := map (revoke_row (lineage s ?ids) t) (db_leases s)\<rparr>"
  have "safe_step L s ?s"
  proof (rule revoke_lineage_safe [OF ok])
    show "workloads_ok L ?ws"
      using ok disabled_row_ok
      by (intro update_workloads_ok) (auto simp: db_ok_def workloads_ok_def list_all_iff)
    show "grows workload_evolves (db_workloads s) ?ws"
      by (rule update_workloads_grows) (rule disabled_row_ok)
    show "owners_ok ?ws (map (revoke_row (lineage s ?ids) t) (db_leases s))"
      using ok lineage_start [OF db_ok_forest [OF ok]] workload_lease_ids_iff [of _ s i]
      by (intro owners_update) (auto simp: db_ok_def disabled_row_ok)
  qed
  moreover assume "insertAuditEvent L ctx \<lparr>e_ID = 0, e_WorkloadID = Some given, e_LeaseID = None,
        e_EventType = ''workload.disabled'', e_Actor = actor,
        e_Details = [(''revoked_count'', DInt n)], e_OccurredAt = t, e_RequestID = []\<rparr> ?s
     = Inr (u, s')"
  ultimately show ?thesis by (rule safe_step_log)
qed

definition rotated_row :: "RotateWorkloadKeyRequest \<Rightarrow> instant \<Rightarrow> Workload \<Rightarrow> Workload" where
  "rotated_row request t w = stored_times (rotated_workload request t w)"

lemma rotated_row_fields [simp]:
  "w_ID (rotated_row request t w) = w_ID w" "w_DisabledAt (rotated_row request t w) = w_DisabledAt w"
  "w_Name (rotated_row request t w) = w_Name w" "w_Grant (rotated_row request t w) = w_Grant w"
  "w_CreatedAt (rotated_row request t w) = w_CreatedAt w"
  by (simp_all add: rotated_row_def stored_times_def rotated_workload_def)

lemma rotated_row_checks:
  "workload_checks w \<Longrightarrow> workload_key_checks (rotated_row request t w) \<Longrightarrow>
   workload_checks (rotated_row request t w)"
  by (simp add: workload_checks_def Let_def)

lemma revoke_row_Nil [simp]: "revoke_row [] t = (\<lambda>l. l)"
  by (auto simp: revoke_row_def revocable_def fun_eq_iff)

lemma lineage_Nil [simp]: "lineage s [] = []"
  by (cases "length (db_leases s)") (simp_all add: lineage_def)

definition rotation_ids :: "RotateWorkloadKeyRequest \<Rightarrow> db \<Rightarrow> bytes \<Rightarrow> bytes list" where
  "rotation_ids request s i = (if rk_RevokeOutstanding request then workload_lease_ids s i else [])"

lemma rotate_workload_key_Inr:
  assumes "rotate_workload_key_tx L ctx request t s = Inr ((v, n), s')"
  obtains w u where "select_workload L ''lock workload'' (rk_WorkloadID request) s = Inr w"
    "w_DisabledAt w = None" "v = rotated_workload request t w"
    "\<not> list_ex (\<lambda>x. w_ID x \<noteq> w_ID w \<and> public_key_in_use (rk_PublicKey request) t x) (db_workloads s)"
    "workload_key_checks (rotated_row request t w)"
    "\<not> list_ex (\<lambda>x. w_ID x \<noteq> w_ID w \<and> workload_conflict (rotated_row request t w) x) (db_workloads s)"
    "n = int (length (filter (revocable (lineage s (rotation_ids request s (w_ID w)))) (db_leases s)))"
    "insertAuditEvent L ctx \<lparr>e_ID = 0, e_WorkloadID = Some (w_ID w), e_LeaseID = None,
        e_EventType = ''workload.key_rotated'', e_Actor = rk_Actor request,
        e_Details = [(''overlap_seconds'', DInt (go_div (rk_Overlap request) second)),
                     (''revoked_count'', DInt n)],
        e_OccurredAt = t, e_RequestID = []\<rparr>
      (s\<lparr>db_workloads := map (\<lambda>x. if w_ID x = w_ID w then rotated_row request t w else x) (db_workloads s),
         db_leases := map (revoke_row (lineage s (rotation_ids request s (w_ID w))) t) (db_leases s)\<rparr>)
     = Inr (u, s')"
proof -
  have none: "revocable [] l = False" for l by (simp add: revocable_def)
  have same: "s\<lparr>db_workloads := ws, db_leases := db_leases s\<rparr> = s\<lparr>db_workloads := ws\<rparr>" for ws
    by (cases s) simp
  from assms obtain w where w: "select_workload L ''lock workload'' (rk_WorkloadID request) s = Inr w"
    "w_DisabledAt w = None"
    "\<not> list_ex (\<lambda>x. w_ID x \<noteq> w_ID w \<and> public_key_in_use (rk_PublicKey request) t x) (db_workloads s)"
    "workload_key_checks (rotated_row request t w)"
    "\<not> list_ex (\<lambda>x. w_ID x \<noteq> w_ID w \<and> workload_conflict (rotated_row request t w) x) (db_workloads s)"
    by (auto simp: rotate_workload_key_tx_def Let_def rotated_row_def split: sum.splits if_splits)
  show thesis
    by (rule that [OF w(1,2) _ w(3-5)])
      (use assms w in \<open>auto simp: rotate_workload_key_tx_def Let_def rotated_row_def [symmetric]
        revoke_rows_def revoke_row_def [abs_def] update_workloads_def rotation_ids_def none same
        split: sum.splits if_splits\<close>)
qed

lemma select_workload_Inr:
  "select_workload L msg given s = Inr w \<longleftrightarrow>
   (\<exists>i. parse_uuid L given = Some i \<and> find_workload s i = Some w)"
  by (auto simp: select_workload_def split: option.splits)

lemma select_lease_Inr:
  "select_lease L msg given s = Inr l \<longleftrightarrow>
   (\<exists>i. parse_uuid L given = Some i \<and> find_lease s i = Some l)"
  by (auto simp: select_lease_def split: option.splits)

lemma rotate_workload_key_safe:
  assumes ok: "db_ok L s" and tx: "rotate_workload_key_tx L ctx request t s = Inr ((v, n), s')"
  shows "safe_step L s s'"
  using tx
proof (rule rotate_workload_key_Inr)
  fix w u
  assume sel: "select_workload L ''lock workload'' (rk_WorkloadID request) s = Inr w"
    and dis: "w_DisabledAt w = None" and keys: "workload_key_checks (rotated_row request t w)"
  let ?ids = "rotation_ids request s (w_ID w)"
  let ?ws = "map (\<lambda>x. if w_ID x = w_ID w then rotated_row request t w else x) (db_workloads s)"
  let ?s = "s\<lparr>db_workloads := ?ws, db_leases := map (revoke_row (lineage s ?ids) t) (db_leases s)\<rparr>"
  have w: "w \<in> set (db_workloads s)" "workload_checks w"
    using sel ok find_workload_iff [OF ok]
    by (auto simp: select_workload_Inr db_ok_def workloads_ok_def list_all_iff)
  have eq: "x = w" if "x \<in> set (db_workloads s)" "w_ID x = w_ID w" for x
    using ok w(1) that distinct_key_inj [of w_ID] by (auto simp: db_ok_def workloads_ok_def)
  have ev: "workload_evolves x (rotated_row request t w) \<and> workload_checks (rotated_row request t w)"
    if "x \<in> set (db_workloads s)" "w_ID x = w_ID w" for x
    using eq [OF that] rotated_row_checks [OF w(2) keys] by (simp add: workload_evolves_def)
  have "safe_step L s ?s"
  proof (rule revoke_lineage_safe [OF ok])
    show "workloads_ok L ?ws"
      using ok ev by (intro update_workloads_ok) (auto simp: db_ok_def)
    show "grows workload_evolves (db_workloads s) ?ws"
      by (rule update_workloads_grows) (use ev in blast)
    show "owners_ok ?ws (map (revoke_row (lineage s ?ids) t) (db_leases s))"
      using ok dis by (intro owners_update) (auto simp: db_ok_def)
  qed
  moreover assume "insertAuditEvent L ctx \<lparr>e_ID = 0, e_WorkloadID = Some (w_ID w), e_LeaseID = None,
        e_EventType = ''workload.key_rotated'', e_Actor = rk_Actor request,
        e_Details = [(''overlap_seconds'', DInt (go_div (rk_Overlap request) second)),
                     (''revoked_count'', DInt n)],
        e_OccurredAt = t, e_RequestID = []\<rparr> ?s = Inr (u, s')"
  ultimately show ?thesis by (rule safe_step_log)
qed

lemma consume_nonce_Inr:
  assumes "consume_workload_nonce_tx L db_now given h e s = Inr (u, s')"
  obtains i ns where "parse_uuid L given = Some i" "length h = 32"
    "s' = s\<lparr>db_workload_nonces := ns\<rparr>"
    "find (nonce_matches i h) ns = Some \<lparr>n_workload_id = i, n_nonce_hash = h, n_expires_at = pg_time e\<rparr>"
    "\<forall>n. find (nonce_matches i h) (db_workload_nonces s) = Some n \<longrightarrow> n_expires_at n \<le> db_now"
proof -
  from assms obtain i where i: "parse_uuid L given = Some i" "length h = 32"
    by (auto simp: consume_workload_nonce_tx_def split: option.splits if_splits)
  let ?row = "\<lparr>n_workload_id = i, n_nonce_hash = h, n_expires_at = pg_time e\<rparr>"
  have match: "nonce_matches i h ?row" by (simp add: nonce_matches_def)
  show thesis
  proof (cases "find (nonce_matches i h) (db_workload_nonces s)")
    case None
    have "find P (xs @ [x]) = Some x" if "find P xs = None" "P x" for P :: "nonce_row \<Rightarrow> bool" and xs x
      using that by (induction xs) (auto split: if_splits)
    then have "find (nonce_matches i h) (db_workload_nonces s @ [?row]) = Some ?row"
      using None match by blast
    with None show thesis
      using assms i that [OF i, of "db_workload_nonces s @ [?row]"]
      by (auto simp: consume_workload_nonce_tx_def split: if_splits)
  next
    case (Some n)
    let ?f = "\<lambda>m. if nonce_matches i h m then m\<lparr>n_expires_at := pg_time e\<rparr> else m"
    have "find (nonce_matches i h) (map ?f xs) = map_option ?f (find (nonce_matches i h) xs)" for xs
      by (induction xs) (auto simp: nonce_matches_def)
    then have "find (nonce_matches i h) (map ?f (db_workload_nonces s)) = Some ?row"
      using Some find_Some_iff_key [OF Some] by (auto simp: nonce_matches_def)
    with Some show thesis
      using assms i that [OF i, of "map ?f (db_workload_nonces s)"]
      by (auto simp: consume_workload_nonce_tx_def split: if_splits)
  qed
qed

lemma consume_nonce_safe:
  assumes "db_ok L s" "consume_workload_nonce_tx L db_now given h e s = Inr (u, s')"
  shows "safe_step L s s'"
  using assms(2)
proof (rule consume_nonce_Inr)
  fix i ns
  assume "s' = s\<lparr>db_workload_nonces := ns\<rparr>"
  then show ?thesis
    using assms(1) by (simp add: safe_step_def db_ok_def db_extends_def grows_refl)
qed

paragraph \<open>Leases.\<close>

lemma pg_time_le: "pg_time t \<le> t"
  by (simp add: pg_time_def)

lemma lease_row_Some:
  assumes "lease_row L l = Some row"
  shows "parse_uuid L (l_ID l) = Some (l_ID row)"
    "parse_uuid L (l_TokenID l) = Some (l_TokenID row)"
    "parse_uuid L (l_WorkloadID l) = Some (l_WorkloadID row)"
    "parse_uuid L (l_RootWorkloadID l) = Some (l_RootWorkloadID row)"
    "parse_uuid L (l_RootLeaseID l) = Some (l_RootLeaseID row)"
    "\<And>p. l_ParentLeaseID l = Some p \<Longrightarrow> \<exists>i. l_ParentLeaseID row = Some i \<and> parse_uuid L p = Some i"
    "l_ParentLeaseID l = None \<Longrightarrow> l_ParentLeaseID row = None"
    "\<And>d. l_DelegatedByWorkloadID l = Some d \<Longrightarrow>
       \<exists>i. l_DelegatedByWorkloadID row = Some i \<and> parse_uuid L d = Some i"
    "l_Audience row = l_Audience l" "l_Actions row = l_Actions l" "l_Resources row = l_Resources l"
    "l_Expiration row = pg_time (l_Expiration l)" "l_IssuedAt row = pg_time (l_IssuedAt l)"
    "l_Depth row = l_Depth l" "l_MaxDepth row = l_MaxDepth l" "l_TokenHash row = l_TokenHash l"
    "l_GrantVersion row = l_GrantVersion l"
    "l_ConfirmationThumbprint row = l_ConfirmationThumbprint l" "l_MaxUses row = l_MaxUses l"
    "l_UsesConsumed row = l_UsesConsumed l" "l_Constraints row = l_Constraints l"
    "l_AuthenticatedKeyThumbprint row = []" "l_RevokedAt row = map_option pg_time (l_RevokedAt l)"
  using assms by (auto simp: lease_row_def split: option.splits)

lemma insert_lease_Inr:
  assumes "insert_lease L l s = Inr (u, t)"
  obtains row where "lease_row L l = Some row" "lease_checks row"
    "\<not> list_ex (lease_conflict row) (db_leases s)" "lease_references s row"
    "t = s\<lparr>db_leases := db_leases s @ [row]\<rparr>"
  using assms by (auto simp: insert_lease_def split: option.splits if_splits)

lemma create_lease_Inr:
  assumes "create_lease_tx L ctx lease event s = Inr (u, t)"
  obtains w row where "select_workload L ''lock workload'' (l_WorkloadID lease) s = Inr w"
    "w_DisabledAt w = None"
    "l_ParentLeaseID lease = None \<Longrightarrow>
       acceptedWorkloadKey L (w_PublicKey w) (w_PreviousPublicKey w) (w_PreviousKeyExpiresAt w)
         (l_AuthenticatedKeyThumbprint lease) (l_IssuedAt lease)
       \<and> g_Version (w_Grant w) = l_GrantVersion lease"
    "check_lineage L lease s = Inr ()"
    "lease_row L lease = Some row" "lease_checks row"
    "\<not> list_ex (lease_conflict row) (db_leases s)"
    "insertAuditEvent L ctx event (s\<lparr>db_leases := db_leases s @ [row]\<rparr>) = Inr (u, t)"
  using assms
  by (auto simp: create_lease_tx_def split: sum.splits if_splits elim: insert_lease_Inr)

lemma check_lineage_parent:
  assumes "check_lineage L lease s = Inr u" "l_ParentLeaseID lease = Some p"
  obtains d deleg parent where "l_DelegatedByWorkloadID lease = Some d"
    "select_workload L ''lock delegating workload'' d s = Inr deleg" "w_DisabledAt deleg = None"
    "acceptedWorkloadKey L (w_PublicKey deleg) (w_PreviousPublicKey deleg)
       (w_PreviousKeyExpiresAt deleg) (l_AuthenticatedKeyThumbprint lease) (l_IssuedAt lease)"
    "select_lease L ''lock parent lease'' p s = Inr parent" "l_RevokedAt parent = None"
    "l_IssuedAt lease < l_Expiration parent" "sint (l_MaxUses parent) \<le> 0"
    "l_WorkloadID parent = d" "l_RootLeaseID parent = l_RootLeaseID lease"
    "l_RootWorkloadID parent = l_RootWorkloadID lease" "l_Depth lease = l_Depth parent + 1"
    "sint (l_MaxDepth lease) \<le> sint (l_MaxDepth parent)"
  using assms
  by (auto simp: check_lineage_def check_delegator_def check_parent_def not_less
      split: option.splits sum.splits if_splits)

lemma depth_succ:
  assumes "lease_row_ok L p"
  shows "sint (l_Depth p + 1) = sint (l_Depth p) + 1"
proof -
  have "sint (l_Depth p) \<le> 16"
    using assms by (auto simp: lease_row_ok_def lease_checks_def)
  then have "l_Depth p \<noteq> max_int" using sint_max_int by auto
  then show ?thesis by (rule sint_add_one)
qed

lemma lease_row_link:
  assumes u: "uuid_canonical L" and ok: "db_ok L s" and chk: "check_lineage L lease s = Inr ()"
    and p: "l_ParentLeaseID lease = Some p" and row: "lease_row L lease = Some row"
  obtains parent where "parent \<in> set (db_leases s)" "lease_link parent row" "l_RevokedAt parent = None"
    "select_lease L ''lock parent lease'' p s = Inr parent"
  using chk p
proof (rule check_lineage_parent)
  fix d deleg parent
  assume d: "l_DelegatedByWorkloadID lease = Some d" "l_WorkloadID parent = d"
    and sel: "select_lease L ''lock parent lease'' p s = Inr parent"
    and rev: "l_RevokedAt parent = None" and exp: "l_IssuedAt lease < l_Expiration parent"
    and uses: "sint (l_MaxUses parent) \<le> 0"
    and roots: "l_RootLeaseID parent = l_RootLeaseID lease" "l_RootWorkloadID parent = l_RootWorkloadID lease"
    and depth: "l_Depth lease = l_Depth parent + 1" "sint (l_MaxDepth lease) \<le> sint (l_MaxDepth parent)"
  have parent: "parent \<in> set (db_leases s)" "parse_uuid L p = Some (l_ID parent)"
    using sel find_lease_iff [OF ok] by (auto simp: select_lease_Inr)
  then have pok: "lease_row_ok L parent" using db_ok_row [OF ok] by blast
  then have canon: "is_uuid L (l_WorkloadID parent)" "is_uuid L (l_RootLeaseID parent)"
    "is_uuid L (l_RootWorkloadID parent)" and "0 \<le> sint (l_MaxUses parent)"
    by (simp_all add: lease_row_ok_def lease_checks_def)
  then have "l_MaxUses parent = 0"
    using uses sint_eq_iff [of "l_MaxUses parent" 0] by simp
  moreover have "l_IssuedAt row < l_Expiration parent"
    using exp pg_time_le [of "l_IssuedAt lease"] lease_row_Some(13) [OF row] by simp
  moreover have "l_DelegatedByWorkloadID row = Some (l_WorkloadID parent)"
    using lease_row_Some(8) [OF row d(1)] canon d(2) by (auto simp: is_uuid_def)
  moreover have "l_RootLeaseID row = l_RootLeaseID parent" "l_RootWorkloadID row = l_RootWorkloadID parent"
    using lease_row_Some(4,5) [OF row] roots canon by (auto simp: is_uuid_def)
  moreover have "l_ParentLeaseID row = Some (l_ID parent)"
    using lease_row_Some(6) [OF row p] parent(2) by auto
  moreover have "sint (l_Depth row) = sint (l_Depth parent) + 1"
    using lease_row_Some(14) [OF row] depth(1) depth_succ [OF pok] by simp
  ultimately have "lease_link parent row"
    using depth(2) lease_row_Some(15) [OF row] by (simp add: lease_link_def)
  then show thesis using that parent(1) rev sel by blast
qed

lemma lease_row_uuids:
  assumes "uuid_canonical L" "lease_row L l = Some row" "lease_checks row"
  shows "lease_row_ok L row"
  using assms lease_row_Some [OF assms(2)]
  by (auto simp: lease_row_ok_def is_uuid_def uuid_canonical_def)

lemma linked_append:
  assumes "linked rows" "\<And>i. l_ParentLeaseID row = Some i \<Longrightarrow> \<exists>p \<in> set rows. l_ID p = i \<and> lease_link p row"
  shows "linked (rows @ [row])"
  using assms unfolding linked_def by fastforce

lemma revoked_closed_append:
  assumes "revoked_closed rows" "linked rows" "l_ID row \<notin> l_ID ` set rows"
    and "\<And>i. l_ParentLeaseID row = Some i \<Longrightarrow> \<exists>p \<in> set rows. l_ID p = i"
    and "\<And>p. p \<in> set rows \<Longrightarrow> l_ParentLeaseID row = Some (l_ID p) \<Longrightarrow> l_RevokedAt p = None"
  shows "revoked_closed (rows @ [row])"
  unfolding revoked_closed_def
proof (intro ballI impI)
  fix p c
  assume pc: "p \<in> set (rows @ [row])" "c \<in> set (rows @ [row])"
    and link: "l_ParentLeaseID c = Some (l_ID p)" and rev: "l_RevokedAt p \<noteq> None"
  show "l_RevokedAt c \<noteq> None"
  proof (cases "c \<in> set rows")
    case True
    then obtain q where "q \<in> set rows" "l_ID q = l_ID p"
      using assms(2) link unfolding linked_def by blast
    then have "p \<noteq> row" using assms(3) imageI [of q "set rows" l_ID] by auto
    then have "p \<in> set rows" using pc(1) by simp
    then show ?thesis using assms(1) True link rev unfolding revoked_closed_def by blast
  next
    case False
    then have c: "c = row" using pc(2) by simp
    with link obtain q where "q \<in> set rows" "l_ID q = l_ID p"
      using assms(4) by blast
    then have "p \<noteq> row" using assms(3) imageI [of q "set rows" l_ID] by auto
    then have "p \<in> set rows" using pc(1) by simp
    then show ?thesis using assms(5) link rev c by auto
  qed
qed

lemma create_lease_table_ok:
  assumes u: "uuid_canonical L" and ok: "db_ok L s" and chk: "check_lineage L lease s = Inr ()"
    and row: "lease_row L lease = Some row" "lease_checks row"
    and fresh: "\<not> list_ex (lease_conflict row) (db_leases s)"
  shows "lease_table_ok L (db_leases s @ [row])"
proof -
  let ?rows = "db_leases s"
  have tab: "lease_table_ok L ?rows" using ok by (simp add: db_ok_def)
  have new: "l_ID row \<notin> l_ID ` set ?rows"
    using fresh by (auto simp: list_ex_iff lease_conflict_def)
  have link: "\<exists>p \<in> set ?rows. l_ID p = i \<and> lease_link p row \<and> l_RevokedAt p = None"
    if i: "l_ParentLeaseID row = Some i" for i
  proof -
    have "l_ParentLeaseID lease \<noteq> None" using i lease_row_Some(7) [OF row(1)] by auto
    then obtain p where "l_ParentLeaseID lease = Some p" by blast
    from lease_row_link [OF u ok chk this row(1)] obtain parent where
      "parent \<in> set ?rows" "lease_link parent row" "l_RevokedAt parent = None" by blast
    then show ?thesis using i by (auto simp: lease_link_def)
  qed
  have "distinct (map l_ID (?rows @ [row]))"
    using tab new by (simp add: lease_table_ok_def)
  moreover have "list_all (lease_row_ok L) (?rows @ [row])"
    using tab lease_row_uuids [OF u row] by (simp add: lease_table_ok_def)
  moreover have "linked (?rows @ [row])"
    using tab link by (intro linked_append) (auto simp: lease_table_ok_def)
  moreover have "revoked_closed (?rows @ [row])"
  proof (rule revoked_closed_append [OF _ _ new])
    show "revoked_closed ?rows" "linked ?rows" using tab by (simp_all add: lease_table_ok_def)
    show "\<exists>p\<in>set ?rows. l_ID p = i" if "l_ParentLeaseID row = Some i" for i
      using link [OF that] by blast
    fix p
    assume p: "p \<in> set ?rows" "l_ParentLeaseID row = Some (l_ID p)"
    from link [OF p(2)] obtain q where "q \<in> set ?rows" "l_ID q = l_ID p" "l_RevokedAt q = None"
      by blast
    then show "l_RevokedAt p = None"
      using forest_ID [OF lease_table_forest [OF tab], of p q] p(1) by simp
  qed
  ultimately show ?thesis by (simp add: lease_table_ok_def)
qed

lemma create_lease_safe:
  assumes u: "uuid_canonical L" and ok: "db_ok L s" and uses: "l_UsesConsumed lease = 0"
    and tx: "create_lease_tx L ctx lease event s = Inr (x, t)"
  shows "safe_step L s t"
  using tx
proof (rule create_lease_Inr)
  fix w row
  assume w: "select_workload L ''lock workload'' (l_WorkloadID lease) s = Inr w" "w_DisabledAt w = None"
    and chk: "check_lineage L lease s = Inr ()"
    and row: "lease_row L lease = Some row" "lease_checks row"
    and fresh: "\<not> list_ex (lease_conflict row) (db_leases s)"
    and log: "insertAuditEvent L ctx event (s\<lparr>db_leases := db_leases s @ [row]\<rparr>) = Inr (x, t)"
  have owner: "w \<in> set (db_workloads s)" "w_ID w = l_WorkloadID row"
    using w(1) find_workload_iff [OF ok] lease_row_Some(3) [OF row(1)]
    by (auto simp: select_workload_Inr)
  have "owners_ok (db_workloads s) (db_leases s @ [row])"
    using ok owner w(2) by (fastforce simp: db_ok_def owners_ok_def)
  moreover have "consumptions_ok (db_leases s @ [row]) (db_lease_consumptions s)"
  proof -
    have cons: "consumptions_ok (db_leases s) (db_lease_consumptions s)"
      using ok by (simp add: db_ok_def)
    have "l_ID row \<notin> l_ID ` set (db_leases s)"
      using fresh by (auto simp: list_ex_iff lease_conflict_def)
    moreover have "\<forall>u \<in> set (db_lease_consumptions s). u_lease_id u \<in> l_ID ` set (db_leases s)"
      using cons by (simp add: consumptions_ok_def)
    ultimately have "\<forall>u \<in> set (db_lease_consumptions s). u_lease_id u \<noteq> l_ID row"
      by metis
    then have "lease_uses (db_lease_consumptions s) (l_ID row) = []"
      by (simp add: lease_uses_def filter_empty_conv)
    then show ?thesis
      using cons uses lease_row_Some(20) [OF row(1)] by (auto simp: consumptions_ok_def)
  qed
  ultimately have "safe_step L s (s\<lparr>db_leases := db_leases s @ [row]\<rparr>)"
    using ok create_lease_table_ok [OF u ok chk row fresh]
    by (simp add: safe_step_def db_ok_def db_extends_def grows_refl grows_append)
  then show ?thesis using log by (rule safe_step_log)
qed

lemma lockLineage_Inr:
  assumes "db_ok L s" "lockLineage L given s = Inr u"
  obtains l where "parse_uuid L given = Some (l_ID l)" "l \<in> set (db_leases s)"
proof -
  obtain i where i: "parse_uuid L given = Some i"
    using assms(2) by (cases "parse_uuid L given") (simp_all add: lockLineage_def)
  have "ancestors s i \<noteq> []"
  proof
    assume "ancestors s i = []"
    then show False using assms(2) i by (simp add: lockLineage_def)
  qed
  then obtain l where "find_lease s i = Some l"
    using ancestors_none by (cases "find_lease s i") auto
  then have "l \<in> set (db_leases s)" "l_ID l = i"
    using find_lease_iff [OF assms(1), of i l] by simp_all
  then show thesis using that [of l] i by simp
qed

lemma revoke_lease_lineage_Inr:
  assumes ok: "db_ok L s" and tx: "revoke_lease_lineage_tx L ctx given actor t s = Inr (n, s')"
  obtains l u where "parse_uuid L given = Some (l_ID l)" "l \<in> set (db_leases s)"
    "n = int (length (filter (revocable (lineage s [l_ID l])) (db_leases s)))"
    "insertAuditEvent L ctx \<lparr>e_ID = 0, e_WorkloadID = None, e_LeaseID = Some given,
        e_EventType = ''lease.lineage_revoked'', e_Actor = actor,
        e_Details = [(''revoked_count'', DInt n)], e_OccurredAt = t, e_RequestID = []\<rparr>
      (s\<lparr>db_leases := map (revoke_row (lineage s [l_ID l]) t) (db_leases s)\<rparr>) = Inr (u, s')"
proof -
  obtain l where l: "parse_uuid L given = Some (l_ID l)" "l \<in> set (db_leases s)"
    using tx lockLineage_Inr [OF ok, of given]
    by (auto simp: revoke_lease_lineage_tx_def split: sum.splits)
  have start: "map l_ID (filter (\<lambda>k. l_ID k = l_ID l) (db_leases s)) = [l_ID l]"
    using db_ok_forest [OF ok] l(2) by (simp add: forest_def filter_key_eq)
  show thesis
    by (rule that [OF l])
      (use tx l start in \<open>auto simp: revoke_lease_lineage_tx_def Let_def revoke_rows_def
        revoke_row_def [abs_def] split: sum.splits if_splits\<close>)
qed

lemma revoke_lease_lineage_safe:
  assumes ok: "db_ok L s" and tx: "revoke_lease_lineage_tx L ctx given actor t s = Inr (n, s')"
  shows "safe_step L s s'"
  using ok tx
proof (rule revoke_lease_lineage_Inr)
  fix l u
  let ?rows = "map (revoke_row (lineage s [l_ID l]) t) (db_leases s)"
  have "owners_ok (db_workloads s) ?rows"
    using ok by (intro owners_map) (auto simp: db_ok_def revoke_row_revoked simp del: not_None_eq)
  then have "safe_step L s (s\<lparr>db_workloads := db_workloads s, db_leases := ?rows\<rparr>)"
    using ok by (intro revoke_lineage_safe) (auto simp: db_ok_def grows_refl)
  moreover have "s\<lparr>db_workloads := db_workloads s, db_leases := ?rows\<rparr> = s\<lparr>db_leases := ?rows\<rparr>"
    by (cases s) simp
  moreover assume "insertAuditEvent L ctx \<lparr>e_ID = 0, e_WorkloadID = None, e_LeaseID = Some given,
        e_EventType = ''lease.lineage_revoked'', e_Actor = actor,
        e_Details = [(''revoked_count'', DInt n)], e_OccurredAt = t, e_RequestID = []\<rparr>
      (s\<lparr>db_leases := ?rows\<rparr>) = Inr (u, s')"
  ultimately show ?thesis by (auto intro: safe_step_log)
qed

text \<open>A use of a lease.\<close>

lemma insert_consumption_Inr:
  "insert_consumption i key n at s = Inr (u, t) \<longleftrightarrow>
   16 \<le> char_length key \<and> char_length key \<le> 128 \<and> pg_text key \<and> 0 < sint n
   \<and> \<not> list_ex (\<lambda>u. consumption_matches i key u \<or> u_lease_id u = i \<and> u_use_number u = n)
        (db_lease_consumptions s)
   \<and> t = s\<lparr>db_lease_consumptions := db_lease_consumptions s
       @ [\<lparr>u_lease_id = i, u_idempotency_key = key, u_use_number = n, u_consumed_at = pg_time at\<rparr>]\<rparr>"
  by (auto simp: insert_consumption_def)

lemma consume_lease_use_Inr:
  assumes "consume_lease_use_tx L given hash key at s = Inr (c, t)"
  obtains (replay) i lease w u where "parse_uuid L given = Some i" "find_lease s i = Some lease"
      "find_workload s (l_WorkloadID lease) = Some w" "hash = l_TokenHash lease" "length hash = 32"
      "l_RevokedAt lease = None" "w_DisabledAt w = None" "at < l_Expiration lease"
      "0 < sint (l_MaxUses lease)" "find (consumption_matches i key) (db_lease_consumptions s) = Some u"
      "t = s" "c = \<lparr>lc_LeaseID = given, lc_IdempotencyKey = key, lc_UseNumber = u_use_number u,
        lc_MaxUses = l_MaxUses lease, lc_Replayed = True\<rparr>"
    | (fresh) i lease w s1 where "parse_uuid L given = Some i" "find_lease s i = Some lease"
      "find_workload s (l_WorkloadID lease) = Some w" "hash = l_TokenHash lease" "length hash = 32"
      "l_RevokedAt lease = None" "w_DisabledAt w = None" "at < l_Expiration lease"
      "find (consumption_matches i key) (db_lease_consumptions s) = None"
      "sint (l_UsesConsumed lease) < sint (l_MaxUses lease)"
      "insert_consumption i key (l_UsesConsumed lease + 1) at s = Inr ((), s1)"
      "t = update_uses i (l_UsesConsumed lease + 1) s1"
      "c = \<lparr>lc_LeaseID = given, lc_IdempotencyKey = key, lc_UseNumber = l_UsesConsumed lease + 1,
        lc_MaxUses = l_MaxUses lease, lc_Replayed = False\<rparr>"
proof -
  obtain i where i: "parse_uuid L given = Some i"
    using assms by (cases "parse_uuid L given") (simp_all add: consume_lease_use_tx_def)
  obtain lease where lease: "find_lease s i = Some lease"
    using assms i by (cases "find_lease s i") (simp_all add: consume_lease_use_tx_def)
  obtain w where w: "find_workload s (l_WorkloadID lease) = Some w"
    using assms i lease
    by (cases "find_workload s (l_WorkloadID lease)") (simp_all add: consume_lease_use_tx_def)
  have guards: "hash = l_TokenHash lease" "length hash = 32" "l_RevokedAt lease = None"
      "w_DisabledAt w = None" "at < l_Expiration lease" "0 < sint (l_MaxUses lease)" and txt_key: "pg_text key"
    using assms by (simp_all add: consume_lease_use_tx_def i lease w Let_def not_le)
  show thesis
  proof (cases "find (consumption_matches i key) (db_lease_consumptions s)")
    case (Some u)
    then show thesis
      using assms guards txt_key
      by (intro replay [OF i lease w guards Some])
        (simp_all add: consume_lease_use_tx_def i lease w Let_def)
  next
    case None
    then obtain s1 where "insert_consumption i key (l_UsesConsumed lease + 1) at s = Inr ((), s1)"
      using assms guards txt_key
      by (cases "insert_consumption i key (l_UsesConsumed lease + 1) at s")
        (simp_all add: consume_lease_use_tx_def i lease w Let_def, auto)
    then show thesis
      using assms guards txt_key None
      by (intro fresh [OF i lease w guards(1-5) None, of s1])
        (simp_all add: consume_lease_use_tx_def i lease w Let_def)
  qed
qed

lemma lease_checks_uses:
  "lease_checks l \<Longrightarrow> 0 \<le> sint n \<Longrightarrow> sint n \<le> sint (l_MaxUses l) \<Longrightarrow> 0 < sint (l_MaxUses l) \<Longrightarrow>
   lease_checks (l\<lparr>l_UsesConsumed := n\<rparr>)"
  by (cases "l_ParentLeaseID l") (auto simp: lease_checks_def)

lemma uses_succ:
  assumes "lease_row_ok L l" "sint (l_UsesConsumed l) < sint (l_MaxUses l)"
  shows "sint (l_UsesConsumed l + 1) = sint (l_UsesConsumed l) + 1"
proof -
  have "sint (l_UsesConsumed l) < 1000000"
    using assms by (auto simp: lease_row_ok_def lease_checks_def)
  then have "l_UsesConsumed l \<noteq> max_int" using sint_max_int by auto
  then show ?thesis by (rule sint_add_one)
qed

lemma upto_snoc: "0 \<le> n \<Longrightarrow> [1..n + 1] = [1..n] @ [n + 1]" for n :: int
  using upto_rec2 [of 1 "n + 1"] by simp

definition use_row :: "bytes \<Rightarrow> go_int \<Rightarrow> Lease \<Rightarrow> Lease" where
  "use_row i n l = (if l_ID l = i then l\<lparr>l_UsesConsumed := n\<rparr> else l)"

lemma use_row_fields [simp]:
  "l_ID (use_row i n l) = l_ID l" "l_RevokedAt (use_row i n l) = l_RevokedAt l"
  "l_ParentLeaseID (use_row i n l) = l_ParentLeaseID l" "l_WorkloadID (use_row i n l) = l_WorkloadID l"
  "same_identity l (use_row i n l)"
  by (simp_all add: use_row_def same_identity_def)

lemma consumption_numbers:
  assumes ok: "consumptions_ok rows us" and rows: "distinct (map l_ID rows)" and l: "l \<in> set rows"
    and n: "sint m = sint (l_UsesConsumed l) + 1" "0 \<le> sint (l_UsesConsumed l)"
    and key: "\<not> list_ex (\<lambda>u. u_lease_id u = l_ID l \<and> u_idempotency_key u = key) us"
  shows "consumptions_ok (map (use_row (l_ID l) m) rows)
    (us @ [\<lparr>u_lease_id = l_ID l, u_idempotency_key = key, u_use_number = m, u_consumed_at = at\<rparr>])"
  unfolding consumptions_ok_def
proof (intro conjI ballI)
  let ?new = "\<lparr>u_lease_id = l_ID l, u_idempotency_key = key, u_use_number = m, u_consumed_at = at\<rparr>"
  show "u_lease_id u \<in> l_ID ` set (map (use_row (l_ID l) m) rows)" if "u \<in> set (us @ [?new])" for u
    using ok l that by (auto simp: consumptions_ok_def image_image)
  fix k
  assume "k \<in> set (map (use_row (l_ID l) m) rows)"
  then obtain k0 where k: "k0 \<in> set rows" "k = use_row (l_ID l) m k0" by auto
  have base: "map (\<lambda>u. sint (u_use_number u)) (lease_uses us (l_ID k0)) = [1..sint (l_UsesConsumed k0)]"
    "distinct (map u_idempotency_key (lease_uses us (l_ID k0)))"
    using ok k(1) by (simp_all add: consumptions_ok_def)
  have "map (\<lambda>u. sint (u_use_number u)) (lease_uses (us @ [?new]) (l_ID k)) = [1..sint (l_UsesConsumed k)]
    \<and> distinct (map u_idempotency_key (lease_uses (us @ [?new]) (l_ID k)))"
  proof (cases "l_ID k0 = l_ID l")
    case True
    then have "k0 = l" using distinct_key_inj [OF rows k(1) l] by simp
    moreover have "key \<notin> u_idempotency_key ` set (lease_uses us (l_ID l))"
      using key by (auto simp: lease_uses_def list_ex_iff)
    ultimately show ?thesis
      using base k(2) n upto_snoc [OF n(2)] by (simp add: lease_uses_def use_row_def)
  next
    case False
    then show ?thesis using base k(2) by (simp add: lease_uses_def use_row_def)
  qed
  then show "map (\<lambda>u. sint (u_use_number u)) (lease_uses (us @ [?new]) (l_ID k)) = [1..sint (l_UsesConsumed k)]"
    "distinct (map u_idempotency_key (lease_uses (us @ [?new]) (l_ID k)))" by simp_all
qed

lemma find_None_list_ex: "find P xs = None \<longleftrightarrow> \<not> list_ex P xs"
  by (auto simp: find_None_iff_none list_ex_iff)

lemma consume_lease_use_safe:
  assumes ok: "db_ok L s" and tx: "consume_lease_use_tx L given hash key at s = Inr (c, t)"
  shows "safe_step L s t"
  using tx
proof (cases rule: consume_lease_use_Inr)
  case replay
  then show ?thesis using ok by (simp add: safe_step_refl)
next
  case (fresh i lease w s1)
  let ?n = "l_UsesConsumed lease + 1"
  let ?rows = "map (use_row (l_ID lease) ?n) (db_leases s)"
  let ?new = "\<lparr>u_lease_id = l_ID lease, u_idempotency_key = key, u_use_number = ?n, u_consumed_at = pg_time at\<rparr>"
  have l: "lease \<in> set (db_leases s)" "i = l_ID lease"
    using fresh(2) find_lease_iff [OF ok] by simp_all
  have row: "lease_row_ok L lease" by (rule db_ok_row [OF ok l(1)])
  then have uses: "0 \<le> sint (l_UsesConsumed lease)"
    by (simp add: lease_row_ok_def lease_checks_def)
  have n: "sint ?n = sint (l_UsesConsumed lease) + 1" by (rule uses_succ [OF row fresh(10)])
  have tab: "lease_table_ok L (db_leases s)" using ok by (simp add: db_ok_def)
  then have dist: "distinct (map l_ID (db_leases s))" by (simp add: lease_table_ok_def)
  have t: "t = s\<lparr>db_leases := ?rows, db_lease_consumptions := db_lease_consumptions s @ [?new]\<rparr>"
    using fresh(11,12) l(2)
    by (auto simp: insert_consumption_Inr update_uses_def use_row_def [abs_def])
  have same: "k = lease" if "k \<in> set (db_leases s)" "l_ID k = l_ID lease" for k
    using distinct_key_inj [OF dist that(1) l(1) that(2)] .
  have "lease_table_ok L ?rows"
  proof (rule lease_table_map [OF tab])
    show "revoked_closed ?rows"
      using tab by (auto simp: lease_table_ok_def revoked_closed_def)
    show "lease_checks (use_row (l_ID lease) ?n k)" if "k \<in> set (db_leases s)" for k
    proof (cases "l_ID k = l_ID lease")
      case True
      then show ?thesis
        using same [OF that True] row n uses fresh(10)
        by (auto simp: use_row_def lease_row_ok_def intro!: lease_checks_uses)
    next
      case False
      then show ?thesis using db_ok_row [OF ok that] by (simp add: use_row_def lease_row_ok_def)
    qed
  qed simp
  moreover have "consumptions_ok ?rows (db_lease_consumptions s @ [?new])"
    using ok fresh(9) l(2)
    by (intro consumption_numbers [OF _ dist l(1) n uses])
      (auto simp: db_ok_def find_None_list_ex consumption_matches_def [abs_def])
  moreover have "owners_ok (db_workloads s) ?rows"
    using ok by (intro owners_map) (auto simp: db_ok_def)
  moreover have "grows lease_evolves (db_leases s) ?rows"
  proof (rule grows_map)
    fix k
    assume k: "k \<in> set (db_leases s)"
    show "lease_evolves k (use_row (l_ID lease) ?n k)"
      using same [OF k] n by (auto simp: lease_evolves_def use_row_def same_identity_def)
  qed
  ultimately show ?thesis
    using ok unfolding t by (simp add: safe_step_def db_ok_def db_extends_def grows_refl)
qed

end
