(* ===== verification/Store.thy ===== *)
theory Store
  imports Transactions
begin

section \<open>The repository as one store\<close>

text \<open>
  The operations of the repository as the operations of one store (\<open>repo_op\<close>, \<open>run_op\<close>), which
  follows the contract \<open>guarded_store\<close>: whatever sequence of operations runs, the database keeps
  its integrity and extends the one it was. Then what later states keep of earlier ones: revoked
  leases, disabled workloads, rows of nonces and of uses.
\<close>

datatype repo_op =
    OpCreateWorkload bytes Workload AuditEvent
  | OpRotateWorkloadKey bytes RotateWorkloadKeyRequest instant
  | OpConsumeWorkloadNonce instant bytes bytes instant
  | OpDisableWorkload bytes bytes bytes instant
  | OpCreateLease bytes Lease AuditEvent
  | OpConsumeLeaseUse bytes bytes bytes instant
  | OpRevokeLeaseLineage bytes bytes bytes instant

fun run_op :: "auth_lib \<Rightarrow> repo_op \<Rightarrow> db \<Rightarrow> db" where
  "run_op L (OpCreateWorkload ctx w e) s = snd (CreateWorkload L ctx w e s)"
| "run_op L (OpRotateWorkloadKey ctx r t) s = snd (RotateWorkloadKey L ctx r t s)"
| "run_op L (OpConsumeWorkloadNonce now i h e) s = snd (ConsumeWorkloadNonce L now i h e s)"
| "run_op L (OpDisableWorkload ctx i actor t) s = snd (DisableWorkload L ctx i actor t s)"
| "run_op L (OpCreateLease ctx l e) s = snd (CreateLease L ctx l e s)"
| "run_op L (OpConsumeLeaseUse i h key t) s = snd (ConsumeLeaseUse L i h key t s)"
| "run_op L (OpRevokeLeaseLineage ctx i actor t) s = snd (RevokeLeaseLineage L ctx i actor t s)"

text \<open>A lease is created without uses, as \<open>issue\<close> does.\<close>

definition op_ok :: "repo_op \<Rightarrow> bool" where
  "op_ok op \<longleftrightarrow> (case op of OpCreateLease _ l _ \<Rightarrow> l_UsesConsumed l = 0 | _ \<Rightarrow> True)"

definition store_ok :: "auth_lib \<Rightarrow> db \<Rightarrow> bool" where
  "store_ok L s \<longleftrightarrow> uuid_canonical L \<and> db_ok L s"

lemma run_op_safe: "store_ok L s \<Longrightarrow> op_ok op \<Longrightarrow> safe_step L s (run_op L op s)"
  unfolding store_ok_def
  by (cases op)
    (auto simp: op_ok_def CreateWorkload_def RotateWorkloadKey_def ConsumeWorkloadNonce_def
      DisableWorkload_def CreateLease_def ConsumeLeaseUse_def RevokeLeaseLineage_def
      intro!: BeginFunc_safe
      intro: create_workload_safe rotate_workload_key_safe consume_nonce_safe disable_workload_safe
        create_lease_safe consume_lease_use_safe revoke_lease_lineage_safe)

interpretation pg: guarded_store "store_ok L" db_extends op_ok "run_op L" for L
proof
  show "store_ok L (run_op L op s)" "db_extends s (run_op L op s)" if "store_ok L s" "op_ok op" for s op
    using run_op_safe [OF that] that(1) by (simp_all add: safe_step_def store_ok_def)
qed (auto intro: db_extends_trans)

subsection \<open>A concrete database\<close>

text \<open>Two workloads, a root lease of the first and a lease with five uses it delegated to the
  second.\<close>

definition example_authority :: AuthorityGrant where
  "example_authority = \<lparr>g_Audiences = [''billing''], g_Actions = [''refund'', ''read''],
     g_Resources = [''customer/*'', ''invoice/*''], g_MaxTTL = hour, g_MaxDelegationDepth = 3,
     g_CanDelegate = True, g_RequireProofOfPossession = False, g_MaxUses = 0,
     g_Constraints = prod_limits ''1000'', g_Version = 1\<rparr>"

definition example_workload :: "bytes \<Rightarrow> bytes \<Rightarrow> char \<Rightarrow> Workload" where
  "example_workload ident name key = \<lparr>w_ID = ident, w_Name = name, w_PublicKey = replicate 32 key,
     w_PreviousPublicKey = None, w_PreviousKeyExpiresAt = None, w_CreatedAt = 0, w_UpdatedAt = 0,
     w_DisabledAt = None, w_Grant = example_authority, w_AuthenticatedKeyThumbprint = []\<rparr>"

definition example_root_row :: Lease where
  "example_root_row = \<lparr>l_ID = ''r'', l_TokenID = ''tr'', l_WorkloadID = ''w1'', l_RootWorkloadID = ''w1'',
     l_Audience = ''billing'', l_ParentLeaseID = None, l_RootLeaseID = ''r'',
     l_DelegatedByWorkloadID = None, l_Actions = [''refund'', ''read''], l_Resources = [''customer/*''],
     l_Expiration = hour, l_Depth = 0, l_MaxDepth = 2, l_TokenHash = replicate 32 (CHR ''a''),
     l_IssuedAt = 0, l_RevokedAt = None, l_GrantVersion = 1, l_ConfirmationThumbprint = [],
     l_MaxUses = 0, l_UsesConsumed = 0, l_Constraints = prod_limits ''1000'',
     l_AuthenticatedKeyThumbprint = []\<rparr>"

definition example_child_row :: Lease where
  "example_child_row = \<lparr>l_ID = ''c'', l_TokenID = ''tc'', l_WorkloadID = ''w2'', l_RootWorkloadID = ''w1'',
     l_Audience = ''billing'', l_ParentLeaseID = Some ''r'', l_RootLeaseID = ''r'',
     l_DelegatedByWorkloadID = Some ''w1'', l_Actions = [''refund''], l_Resources = [''customer/cus_123''],
     l_Expiration = minute, l_Depth = 1, l_MaxDepth = 1, l_TokenHash = replicate 32 (CHR ''b''),
     l_IssuedAt = 0, l_RevokedAt = None, l_GrantVersion = 1, l_ConfirmationThumbprint = [],
     l_MaxUses = 5, l_UsesConsumed = 0, l_Constraints = prod_limits ''500'',
     l_AuthenticatedKeyThumbprint = []\<rparr>"

definition example_db :: db where
  "example_db = \<lparr>db_workloads = [example_workload ''w1'' ''worker-one'' (CHR ''k''),
       example_workload ''w2'' ''worker-two'' (CHR ''j'')],
     db_leases = [example_root_row, example_child_row], db_audit_events = [],
     db_workload_nonces = [], db_lease_consumptions = [], db_audit_seq = 0\<rparr>"

lemma example_texts:
  "pg_text_map (prod_limits ''1000'')" "pg_text_map (prod_limits ''500'')"
  "list_all pg_text [''refund'', ''read'']" "list_all pg_text [''customer/*'']"
  "list_all pg_text [''customer/cus_123'']" "list_all pg_text [''customer/*'', ''invoice/*'']"
  "list_all pg_text [''billing'']" "list_all pg_text [''worker-one'', ''worker-two'', [], ''revoker'']"
  by (auto simp: pg_text_map_def prod_limits_def pg_text_def intro!: fmpred_upd)

lemma example_lengths:
  "char_length ''billing'' = 7" "char_length ''worker-one'' = 10" "char_length ''worker-two'' = 10"
  by (simp_all add: char_length_def)

lemma example_checks:
  "lease_checks example_root_row" "lease_checks example_child_row"
  "workload_checks (example_workload ''w1'' ''worker-one'' (CHR ''k''))"
  "workload_checks (example_workload ''w2'' ''worker-two'' (CHR ''j''))"
  using example_texts example_lengths
  by (simp_all add: lease_checks_def example_root_row_def example_child_row_def workload_checks_def
      workload_key_checks_def example_workload_def example_authority_def duration_defs Let_def)

lemma example_lib_uuid [simp]: "parse_uuid example_lib = Some" "is_uuid example_lib i"
  by (simp_all add: example_lib_def is_uuid_def)

lemma example_rows [simp]:
  "l_ID example_root_row = ''r''" "l_ID example_child_row = ''c''"
  "l_ParentLeaseID example_root_row = None" "l_ParentLeaseID example_child_row = Some ''r''"
  "l_WorkloadID example_root_row = ''w1''" "l_WorkloadID example_child_row = ''w2''"
  "l_RevokedAt example_root_row = None" "l_RevokedAt example_child_row = None"
  "l_UsesConsumed example_root_row = 0" "l_UsesConsumed example_child_row = 0"
  "l_MaxUses example_child_row = 5" "l_TokenHash example_child_row = replicate 32 (CHR ''b'')"
  "l_Expiration example_child_row = minute"
  "lease_link example_root_row example_child_row"
  by (simp_all add: example_root_row_def example_child_row_def lease_link_def duration_defs)

lemma example_workload_fields [simp]:
  "w_ID (example_workload i n k) = i" "w_DisabledAt (example_workload i n k) = None"
  "w_PublicKey (example_workload i n k) = replicate 32 k"
  by (simp_all add: example_workload_def)

lemma example_tables [simp]:
  "db_leases example_db = [example_root_row, example_child_row]"
  "db_workloads example_db = [example_workload ''w1'' ''worker-one'' (CHR ''k''),
     example_workload ''w2'' ''worker-two'' (CHR ''j'')]"
  "db_lease_consumptions example_db = []" "db_workload_nonces example_db = []"
  "db_audit_events example_db = []" "db_audit_seq example_db = 0"
  by (simp_all add: example_db_def)

lemma example_store_ok: "store_ok example_lib example_db"
proof -
  have "lease_row_ok example_lib example_root_row" "lease_row_ok example_lib example_child_row"
    using example_checks by (simp_all add: lease_row_ok_def example_root_row_def example_child_row_def)
  then show ?thesis
    using example_checks
    by (simp add: store_ok_def uuid_canonical_def db_ok_def lease_table_ok_def linked_def
        revoked_closed_def owners_ok_def workloads_ok_def consumptions_ok_def lease_uses_def audit_ok_def)
qed

text \<open>A lease the first workload delegates under its key, and the event of its issue.\<close>

definition example_thumbprint :: "char \<Rightarrow> bytes" where
  "example_thumbprint c = raw_url_encode (sha256 example_lib (canonical_jwk (replicate 32 c)))"

definition example_lease_named :: "bytes \<Rightarrow> bytes \<Rightarrow> Lease" where
  "example_lease_named i t = example_child_row\<lparr>l_ID := i, l_TokenID := t,
     l_TokenHash := replicate 32 (CHR ''c''), l_AuthenticatedKeyThumbprint := example_thumbprint (CHR ''k'')\<rparr>"

abbreviation example_new_lease :: Lease where
  "example_new_lease \<equiv> example_lease_named ''n'' ''tn''"

definition example_issued :: AuditEvent where
  "example_issued = \<lparr>e_ID = 0, e_WorkloadID = Some ''w2'', e_LeaseID = Some ''n'',
     e_EventType = ''lease.delegated'', e_Actor = ''w1'', e_Details = [], e_OccurredAt = 0, e_RequestID = []\<rparr>"

lemma example_thumbprint [simp]:
  "JWKThumbprint example_lib (replicate 32 c) = Inr (example_thumbprint c)" "length (example_thumbprint c) = 43"
  by (simp_all add: JWKThumbprint_Inr example_thumbprint_def length_raw_url_encode_32 example_lib_def)

definition example_row_named :: "bytes \<Rightarrow> bytes \<Rightarrow> Lease" where
  "example_row_named i t = example_child_row\<lparr>l_ID := i, l_TokenID := t, l_TokenHash := replicate 32 (CHR ''c'')\<rparr>"

abbreviation example_new_row :: Lease where
  "example_new_row \<equiv> example_row_named ''n'' ''tn''"

lemma example_new_row:
  "lease_row example_lib (example_lease_named i t) = Some (example_row_named i t)"
  "lease_checks (example_row_named i t)"
proof -
  show "lease_row example_lib (example_lease_named i t) = Some (example_row_named i t)"
    by (simp add: lease_row_def example_lease_named_def example_row_named_def example_child_row_def
        pg_time_def duration_defs)
  show "lease_checks (example_row_named i t)"
    using example_checks(2) by (simp add: lease_checks_def example_row_named_def example_child_row_def)
qed

lemma example_find [simp]:
  "find_lease example_db ''r'' = Some example_root_row"
  "find_lease example_db ''c'' = Some example_child_row"
  "find_workload example_db ''w1'' = Some (example_workload ''w1'' ''worker-one'' (CHR ''k''))"
  "find_workload example_db ''w2'' = Some (example_workload ''w2'' ''worker-two'' (CHR ''j''))"
  by (simp_all add: find_lease_def find_workload_def)

subsection \<open>Lemmas\<close>

lemma store_ok_later: "store_ok L s \<Longrightarrow> list_all op_ok ops \<Longrightarrow> db_ok L (fold (run_op L) ops s)"
  using pg.fold_inv [of L s ops] by (simp add: store_ok_def)

text \<open>A lease revoked in one state is revoked, with all its descendants, in every later one.\<close>

lemma revoked_later:
  assumes ok: "db_ok L t" and ext: "db_extends s t"
    and l: "l \<in> set (db_leases s)" "l_RevokedAt l \<noteq> None"
    and k: "k \<in> set (db_leases t)" "descendant (db_leases t) (l_ID l) (l_ID k)"
  shows "l_RevokedAt k \<noteq> None"
proof -
  obtain l' where l': "l' \<in> set (db_leases t)" "lease_evolves l l'"
    using db_extends_lease [OF ext l(1)] .
  then have id: "l_ID l' = l_ID l" and rev: "l_RevokedAt l' \<noteq> None"
    using l(2) by (auto simp: lease_evolves_def same_identity_def)
  have tab: "lease_table_ok L (db_leases t)" using ok by (simp add: db_ok_def)
  obtain n where n: "descends (db_leases t) n (l_ID l) (l_ID k)"
    using k(2) by (auto simp: descendant_def)
  show ?thesis
  proof (rule revoked_descends [OF tab n _ k(1) refl])
    show "l_RevokedAt m \<noteq> None" if "m \<in> set (db_leases t)" "l_ID m = l_ID l" for m
      using forest_ID [OF lease_table_forest [OF tab], of m l'] that l'(1) id rev by auto
  qed
qed

lemma RevokeLeaseLineage_Inr:
  assumes ok: "db_ok L s" and op: "RevokeLeaseLineage L ctx given actor t s = (Inr n, s1)"
  obtains l e where "parse_uuid L given = Some (l_ID l)" "l \<in> set (db_leases s)"
    "n = int (length (filter (revocable (lineage s [l_ID l])) (db_leases s)))"
    "s1 = log_event e (s\<lparr>db_leases := map (revoke_row (lineage s [l_ID l]) t) (db_leases s)\<rparr>)"
    "e_EventType e = ''lease.lineage_revoked''" "e_Actor e = actor"
    "e_Details e = [(''revoked_count'', DInt n)]"
proof -
  from op have tx: "revoke_lease_lineage_tx L ctx given actor t s = Inr (n, s1)"
    by (simp add: RevokeLeaseLineage_def BeginFunc_Inr)
  from ok tx show thesis
  proof (rule revoke_lease_lineage_Inr)
    fix l u
    assume l: "parse_uuid L given = Some (l_ID l)" "l \<in> set (db_leases s)"
      "n = int (length (filter (revocable (lineage s [l_ID l])) (db_leases s)))"
      and "insertAuditEvent L ctx \<lparr>e_ID = 0, e_WorkloadID = None, e_LeaseID = Some given,
        e_EventType = ''lease.lineage_revoked'', e_Actor = actor,
        e_Details = [(''revoked_count'', DInt n)], e_OccurredAt = t, e_RequestID = []\<rparr>
      (s\<lparr>db_leases := map (revoke_row (lineage s [l_ID l]) t) (db_leases s)\<rparr>) = Inr (u, s1)"
    then show thesis
      by (elim insertAuditEvent_Inr) (auto simp: logs_def intro: that [OF l])
  qed
qed

lemma DisableWorkload_Inr:
  assumes op: "DisableWorkload L ctx given actor t s = (Inr n, s1)"
  obtains i e where "parse_uuid L given = Some i" "find_workload s i \<noteq> None"
    "n = int (length (filter (revocable (lineage s (workload_lease_ids s i))) (db_leases s)))"
    "s1 = log_event e
      (s\<lparr>db_workloads := map (\<lambda>w. if w_ID w = i then disabled_row t w else w) (db_workloads s),
         db_leases := map (revoke_row (lineage s (workload_lease_ids s i)) t) (db_leases s)\<rparr>)"
    "e_EventType e = ''workload.disabled''" "e_Actor e = actor"
proof -
  from op have tx: "disable_workload_tx L ctx given actor t s = Inr (n, s1)"
    by (simp add: DisableWorkload_def BeginFunc_Inr)
  then show thesis
  proof (rule disable_workload_Inr)
    fix i u
    assume i: "parse_uuid L given = Some i" "find_workload s i \<noteq> None"
      "n = int (length (filter (revocable (lineage s (workload_lease_ids s i))) (db_leases s)))"
      and "insertAuditEvent L ctx \<lparr>e_ID = 0, e_WorkloadID = Some given, e_LeaseID = None,
        e_EventType = ''workload.disabled'', e_Actor = actor,
        e_Details = [(''revoked_count'', DInt n)], e_OccurredAt = t, e_RequestID = []\<rparr>
      (s\<lparr>db_workloads := map (\<lambda>w. if w_ID w = i then disabled_row t w else w) (db_workloads s),
         db_leases := map (revoke_row (lineage s (workload_lease_ids s i)) t) (db_leases s)\<rparr>)
     = Inr (u, s1)"
    then show thesis
      by (elim insertAuditEvent_Inr) (auto simp: logs_def intro!: that [OF i])
  qed
qed

lemma RevokeLeaseLineage_safe:
  "store_ok L s \<Longrightarrow> RevokeLeaseLineage L ctx given actor t s = (r, s1) \<Longrightarrow> safe_step L s s1"
  using run_op_safe [of L s "OpRevokeLeaseLineage ctx given actor t"] by (simp add: op_ok_def)

lemma DisableWorkload_safe:
  "store_ok L s \<Longrightarrow> DisableWorkload L ctx given actor t s = (r, s1) \<Longrightarrow> safe_step L s s1"
  using run_op_safe [of L s "OpDisableWorkload ctx given actor t"] by (simp add: op_ok_def)

lemma store_ok_step: "store_ok L s \<Longrightarrow> safe_step L s t \<Longrightarrow> store_ok L t"
  by (simp add: store_ok_def safe_step_def)

text \<open>Once disabled, a workload stays so.\<close>

lemma disabled_later:
  assumes "db_extends s t" "w \<in> set (db_workloads s)" "w_DisabledAt w \<noteq> None"
  obtains v where "v \<in> set (db_workloads t)" "w_ID v = w_ID w" "w_DisabledAt v \<noteq> None"
proof -
  obtain v where "v \<in> set (db_workloads t)" "workload_evolves w v"
    using db_extends_workload [OF assms(1,2)] .
  then show thesis using that assms(3) by (auto simp: workload_evolves_def)
qed

lemma find_prefix: "find P xs = Some x \<Longrightarrow> prefix xs ys \<Longrightarrow> find P ys = Some x"
proof -
  have "find P xs = Some x \<Longrightarrow> find P (xs @ zs) = Some x" for zs
    by (induction xs) (auto split: if_splits)
  then show "find P xs = Some x \<Longrightarrow> prefix xs ys \<Longrightarrow> find P ys = Some x"
    by (auto simp: prefix_def)
qed

text \<open>The row of a nonce stays as it is until it expires.\<close>

definition nonce_op_before :: "instant \<Rightarrow> repo_op \<Rightarrow> bool" where
  "nonce_op_before e op \<longleftrightarrow> (case op of OpConsumeWorkloadNonce now _ _ _ \<Rightarrow> now < e | _ \<Rightarrow> True)"

lemma other_ops_nonces:
  assumes "\<And>now i h e. op \<noteq> OpConsumeWorkloadNonce now i h e"
  shows "db_workload_nonces (run_op L op s) = db_workload_nonces s"
proof -
  have ev: "insertAuditEvent L ctx e s1 = Inr (u, t) \<Longrightarrow> db_workload_nonces t = db_workload_nonces s1"
    for ctx e s1 u t by (elim insertAuditEvent_Inr) simp
  show ?thesis
  proof (cases op)
    case (OpCreateWorkload ctx w e)
    then show ?thesis
      by (auto simp: CreateWorkload_def BeginFunc_def create_workload_tx_def split: sum.splits
          elim!: insert_workload_Inr dest!: ev)
  next
    case (OpRotateWorkloadKey ctx r t)
    then show ?thesis
      by (auto simp: RotateWorkloadKey_def BeginFunc_def split: sum.splits
          elim!: rotate_workload_key_Inr dest!: ev)
  next
    case (OpDisableWorkload ctx i actor t)
    then show ?thesis
      by (auto simp: DisableWorkload_def BeginFunc_def split: sum.splits
          elim!: disable_workload_Inr dest!: ev)
  next
    case (OpCreateLease ctx l e)
    then show ?thesis
      by (auto simp: CreateLease_def BeginFunc_def split: sum.splits elim!: create_lease_Inr dest!: ev)
  next
    case (OpConsumeLeaseUse i h key t)
    then show ?thesis
      by (auto simp: ConsumeLeaseUse_def BeginFunc_def insert_consumption_Inr update_uses_def
          split: sum.splits elim!: consume_lease_use_Inr)
  next
    case (OpRevokeLeaseLineage ctx i actor t)
    then show ?thesis
      by (auto simp: RevokeLeaseLineage_def BeginFunc_def revoke_lease_lineage_tx_def Let_def
          revoke_rows_def split: sum.splits option.splits if_splits dest!: ev)
  qed (use assms in blast)
qed

lemma nonce_row_stays:
  assumes n: "find (nonce_matches i h) (db_workload_nonces s) = Some n"
    and before: "nonce_op_before (n_expires_at n) op"
  shows "find (nonce_matches i h) (db_workload_nonces (run_op L op s)) = Some n"
proof (cases "\<exists>now g h' e. op = OpConsumeWorkloadNonce now g h' e")
  case False
  then have "db_workload_nonces (run_op L op s) = db_workload_nonces s"
    by (intro other_ops_nonces) blast
  then show ?thesis using n by simp
next
  case True
  then obtain now g h' e where op: "op = OpConsumeWorkloadNonce now g h' e" by blast
  then have now: "now < n_expires_at n" using before by (simp add: nonce_op_before_def)
  show ?thesis
  proof (cases "consume_workload_nonce_tx L now g h' e s")
    case (Inl err)
    then show ?thesis using n op by (simp add: ConsumeWorkloadNonce_def BeginFunc_def)
  next
    case (Inr r)
    then obtain j where j: "parse_uuid L g = Some j" "length h' = 32"
      by (auto simp: consume_workload_nonce_tx_def split: option.splits if_splits)
    show ?thesis
    proof (cases "find (nonce_matches j h') (db_workload_nonces s)")
      case None
      then show ?thesis
        using n op j Inr
        by (auto simp: ConsumeWorkloadNonce_def BeginFunc_def consume_workload_nonce_tx_def
            intro: find_prefix split: if_splits)
    next
      case (Some m)
      have m: "n_expires_at m \<le> now"
        using Inr j Some by (auto simp: consume_workload_nonce_tx_def split: if_splits)
      have other: "\<not> (i = j \<and> h = h')" using Some n m now by auto
      let ?f = "\<lambda>m. if nonce_matches j h' m then m\<lparr>n_expires_at := pg_time e\<rparr> else m"
      have "find (nonce_matches i h) (map ?f xs) = map_option ?f (find (nonce_matches i h) xs)" for xs
        by (induction xs) (auto simp: nonce_matches_def)
      moreover have "?f n = n"
        using find_Some_iff_key [OF n] other by (auto simp: nonce_matches_def)
      ultimately have "find (nonce_matches i h) (map ?f (db_workload_nonces s)) = Some n"
        using n by simp
      then show ?thesis
        using op j Some m by (simp add: ConsumeWorkloadNonce_def BeginFunc_def consume_workload_nonce_tx_def)
    qed
  qed
qed

lemma nonce_row_stays_fold:
  "find (nonce_matches i h) (db_workload_nonces s) = Some n \<Longrightarrow>
   list_all (nonce_op_before (n_expires_at n)) ops \<Longrightarrow>
   find (nonce_matches i h) (db_workload_nonces (fold (run_op L) ops s)) = Some n"
  by (induction ops arbitrary: s) (simp_all add: nonce_row_stays)

lemma active_uses:
  assumes "db_ok L s" "l \<in> set (db_leases s)"
  shows "map (\<lambda>u. sint (u_use_number u)) (lease_uses (db_lease_consumptions s) (l_ID l))
      = [1..sint (l_UsesConsumed l)]"
    "distinct (map u_idempotency_key (lease_uses (db_lease_consumptions s) (l_ID l)))"
    "0 \<le> sint (l_UsesConsumed l)" "sint (l_UsesConsumed l) \<le> sint (l_MaxUses l)"
proof -
  show "map (\<lambda>u. sint (u_use_number u)) (lease_uses (db_lease_consumptions s) (l_ID l))
      = [1..sint (l_UsesConsumed l)]"
    "distinct (map u_idempotency_key (lease_uses (db_lease_consumptions s) (l_ID l)))"
    using assms by (simp_all add: db_ok_def consumptions_ok_def)
  have "lease_checks l" using db_ok_row [OF assms] by (simp add: lease_row_ok_def)
  then show "0 \<le> sint (l_UsesConsumed l)" "sint (l_UsesConsumed l) \<le> sint (l_MaxUses l)"
    by (auto simp: lease_checks_def)
qed

lemma TraceLease_Inr:
  assumes ok: "db_ok L s" and tr: "TraceLease L given s = Inr rows"
  obtains l where "parse_uuid L given = Some (l_ID l)" "l \<in> set (db_leases s)"
    "rows = rev (ancestors s (l_ID l))" "path_to_root (db_leases s) l (ancestors s (l_ID l))"
proof -
  obtain i where i: "parse_uuid L given = Some i"
    using tr by (cases "parse_uuid L given") (simp_all add: TraceLease_def)
  then have rows: "rows = sort_key (\<lambda>l. sint (l_Depth l)) (ancestors s i)" "rows \<noteq> []"
    using tr by (auto simp: TraceLease_def Let_def split: if_splits)
  then obtain l where "find_lease s i = Some l"
    using ancestors_none [of s i] by (cases "find_lease s i") auto
  then have l: "l \<in> set (db_leases s)" "l_ID l = i" using find_lease_iff [OF ok] by simp_all
  have path: "path_to_root (db_leases s) l (ancestors s (l_ID l))"
    by (rule ancestors_path [OF db_ok_forest [OF ok] l(1)])
  show thesis
    using that [OF _ l(1) _ path] i l(2) rows(1) path_sorted [OF path] by simp
qed

lemma path_roots:
  assumes ok: "db_ok L s"
  shows "successively parent_link xs \<Longrightarrow> set xs \<subseteq> set (db_leases s) \<Longrightarrow>
    successively (\<lambda>c p. lease_link p c) xs
    \<and> (\<forall>x \<in> set xs. l_RootLeaseID x = l_RootLeaseID (last xs) \<and> l_RootWorkloadID x = l_RootWorkloadID (last xs))"
proof (induction xs rule: induct_list012)
  case (3 c p xs)
  then have IH: "successively (\<lambda>c p. lease_link p c) (p # xs)"
    "\<forall>x \<in> set (p # xs). l_RootLeaseID x = l_RootLeaseID (last (p # xs))
      \<and> l_RootWorkloadID x = l_RootWorkloadID (last (p # xs))" by auto
  obtain q where q: "q \<in> set (db_leases s)" "l_ID q = l_ID p" "lease_link q c"
    using db_ok_link [OF ok, of c "l_ID p"] 3(3,4) by (auto simp: parent_link_def)
  then have "q = p" using forest_ID [OF db_ok_forest [OF ok], of q p] 3(4) by simp
  with q(3) have link: "lease_link p c" by simp
  have p: "l_RootLeaseID p = l_RootLeaseID (last (p # xs))"
    "l_RootWorkloadID p = l_RootWorkloadID (last (p # xs))"
    using IH(2) by (meson list.set_intros(1))+
  have "l_RootLeaseID c = l_RootLeaseID (last (p # xs))"
    "l_RootWorkloadID c = l_RootWorkloadID (last (p # xs))"
    using link unfolding lease_link_def p [symmetric] by simp_all
  moreover have "last (c # p # xs) = last (p # xs)" by simp
  ultimately have "\<forall>x \<in> set (c # p # xs). l_RootLeaseID x = l_RootLeaseID (last (c # p # xs))
      \<and> l_RootWorkloadID x = l_RootWorkloadID (last (c # p # xs))"
    using IH(2) by (metis set_ConsD)
  moreover have "successively (\<lambda>c p. lease_link p c) (c # p # xs)" using IH(1) link by simp
  ultimately show ?case by blast
qed simp_all

lemma CreateLease_Inr:
  assumes "CreateLease L ctx lease event s = (Inr u, t)"
  obtains w row e where "select_workload L ''lock workload'' (l_WorkloadID lease) s = Inr w"
    "w_DisabledAt w = None"
    "l_ParentLeaseID lease = None \<Longrightarrow>
       acceptedWorkloadKey L (w_PublicKey w) (w_PreviousPublicKey w) (w_PreviousKeyExpiresAt w)
         (l_AuthenticatedKeyThumbprint lease) (l_IssuedAt lease)
       \<and> g_Version (w_Grant w) = l_GrantVersion lease"
    "check_lineage L lease s = Inr ()" "lease_row L lease = Some row" "lease_checks row"
    "\<not> list_ex (lease_conflict row) (db_leases s)"
    "t = log_event e (s\<lparr>db_leases := db_leases s @ [row]\<rparr>)" "logs event e"
proof -
  from assms have "create_lease_tx L ctx lease event s = Inr (u, t)"
    by (simp add: CreateLease_def BeginFunc_Inr)
  then show thesis
    by (elim create_lease_Inr insertAuditEvent_Inr) (rule that)
qed

lemma ancestors_live:
  assumes ok: "db_ok L s" and p: "p \<in> set (db_leases s)" "l_RevokedAt p = None"
    and a: "a \<in> set (db_leases s)" "descendant (db_leases s) (l_ID a) (l_ID p)"
  shows "l_RevokedAt a = None"
  using revoked_later [OF ok db_extends_refl a(1) _ p(1) a(2)] p(2) by blast

subsection \<open>Storing the example lease\<close>

lemma example_created:
  assumes L: "parse_uuid L = Some" "\<And>k. JWKThumbprint L k = JWKThumbprint example_lib k"
    and ids: "i \<notin> {''r'', ''c''}" "t \<notin> {''tr'', ''tc''}"
    and event: "e_WorkloadID event = Some ''w2''" "e_LeaseID event = Some i" "e_EventType event \<noteq> []"
      "pg_text (e_EventType event)" "e_Actor event = ''w1''" "e_RequestID event = []"
  shows "CreateLease L [] (example_lease_named i t) event example_db
   = (Inr (), log_event (event\<lparr>e_ID := 1, e_OccurredAt := pg_time (e_OccurredAt event)\<rparr>)
       (example_db\<lparr>db_leases := [example_root_row, example_child_row, example_row_named i t]\<rparr>))"
proof -
  have "check_lineage L (example_lease_named i t) example_db = Inr ()"
    by (simp add: example_lease_named_def check_lineage_def check_delegator_def check_parent_def
        acceptedWorkloadKey_def select_workload_def select_lease_def example_workload_def L
        lockLineage_def ancestors_def
        example_child_row_def example_root_row_def example_db_def duration_defs find_lease_def find_workload_def)
  moreover have row: "lease_row L (example_lease_named i t) = Some (example_row_named i t)"
    using example_new_row(1) by (simp add: lease_row_def L)
  then have "insert_lease L (example_lease_named i t) example_db
      = Inr ((), example_db\<lparr>db_leases := [example_root_row, example_child_row, example_row_named i t]\<rparr>)"
    using ids
    by (simp add: insert_lease_def example_new_row lease_conflict_def lease_references_def
        find_workload_def find_lease_def)
      (simp add: example_row_named_def example_child_row_def example_root_row_def)
  moreover have "insertAuditEvent L [] event
      (example_db\<lparr>db_leases := [example_root_row, example_child_row, example_row_named i t]\<rparr>)
    = Inr ((), log_event (event\<lparr>e_ID := 1, e_OccurredAt := pg_time (e_OccurredAt event)\<rparr>)
       (example_db\<lparr>db_leases := [example_root_row, example_child_row, example_row_named i t]\<rparr>))"
    using event ids(1)
    by (cases event) (simp add: insertAuditEvent_def accepts_optional_uuid_def audit_checks_def L
        find_workload_def find_lease_def pg_text_def log_event_def Let_def example_row_named_def)
  ultimately show ?thesis
    by (simp add: CreateLease_def create_lease_tx_def BeginFunc_def select_workload_def find_workload_def L)
      (simp add: example_lease_named_def example_child_row_def)
qed

end
