(* ===== verification/Promises.thy ===== *)
theory Promises
  imports Store
begin

section \<open>What the repository promises\<close>

text \<open>
  The properties of the repository over any sequence of its operations: integrity is an
  invariant, a revocation reaches exactly the descendants and is final, a disabled workload stays
  disabled, uses are counted once per key and never exceed the limit, nonces are refused until they
  expire, a trace is the path from the root, a lease is only created below live ancestors, and a
  rotation decides which keys are accepted.
\<close>

subsection \<open>Operations on the concrete database\<close>

lemmas example_run =
  BeginFunc_def lockLineage_def ancestors_def revoke_rows_def lineage_def children_ids_def
  revocable_def Let_def insertAuditEvent_def accepts_optional_uuid_def audit_checks_def
  find_lease_def find_workload_def pg_text_def workload_lease_ids_def update_workloads_def

lemma example_revocation:
  "RevokeLeaseLineage example_lib [] ''r'' ''revoker'' second example_db
   = (Inr 2, snd (RevokeLeaseLineage example_lib [] ''r'' ''revoker'' second example_db))"
  by (simp add: RevokeLeaseLineage_def revoke_lease_lineage_tx_def example_run)

lemma example_revocation_rows:
  "db_leases (snd (RevokeLeaseLineage example_lib [] ''r'' ''revoker'' second example_db))
   = [revoke_row (lineage example_db [''r'']) second example_root_row,
      revoke_row (lineage example_db [''r'']) second example_child_row]"
  by (simp add: RevokeLeaseLineage_def revoke_lease_lineage_tx_def example_run revoke_row_def)


subsection \<open>Properties\<close>

text \<open>C16: the integrity of the database is an invariant. Starting from a database that has it,
  any sequence of repository operations leaves one that has it, whatever the operations
  answer, and extends the first: rows are only added, leases change only by being revoked
  once and used, workloads keep their grants, and audit log and consumptions only grow.\<close>

theorem repository_integrity:
  assumes "uuid_canonical L" and "db_ok L s" and "list_all op_ok ops"
  shows "db_ok L (fold (run_op L) ops s) \<and> db_extends s (fold (run_op L) ops s)"
  using assms pg.fold_inv [of L s ops] pg.fold_extends [of L s ops] by (simp add: store_ok_def)

theorem repository_integrity_witness:
  "db_ok example_lib (fold (run_op example_lib)
     [OpRevokeLeaseLineage [] ''r'' ''revoker'' second, OpConsumeLeaseUse ''c'' [] ''k'' 0] example_db)"
  using repository_integrity [of example_lib example_db
      "[OpRevokeLeaseLineage [] ''r'' ''revoker'' second, OpConsumeLeaseUse ''c'' [] ''k'' 0]"]
    example_store_ok by (simp add: store_ok_def op_ok_def)

text \<open>C29: revocation reaches exactly the lineage below a lease. When it succeeds, every lease
  that descends from the named one and was not revoked carries the time of the revocation, no
  other lease changes, the answer is their number, and one event records it.\<close>

theorem RevokeLeaseLineage_exact:
  assumes "db_ok L s" and "RevokeLeaseLineage L ctx given actor t s = (Inr n, s')"
  shows "\<exists>root event. parse_uuid L given = Some root \<and> root \<in> l_ID ` set (db_leases s)
    \<and> db_leases s' =
        map (\<lambda>l. if descendant (db_leases s) root (l_ID l) \<and> l_RevokedAt l = None
                 then l\<lparr>l_RevokedAt := Some (pg_time t)\<rparr> else l) (db_leases s)
    \<and> n = int (length (filter (\<lambda>l. descendant (db_leases s) root (l_ID l) \<and> l_RevokedAt l = None)
                 (db_leases s)))
    \<and> db_audit_events s' = db_audit_events s @ [event] \<and> e_Actor event = actor
    \<and> e_Details event = [(''revoked_count'', DInt n)]"
  using assms
proof (rule RevokeLeaseLineage_Inr)
  fix l e
  assume l: "parse_uuid L given = Some (l_ID l)" "l \<in> set (db_leases s)"
    and n: "n = int (length (filter (revocable (lineage s [l_ID l])) (db_leases s)))"
    and s': "s' = log_event e (s\<lparr>db_leases := map (revoke_row (lineage s [l_ID l]) t) (db_leases s)\<rparr>)"
    and e: "e_Actor e = actor" "e_Details e = [(''revoked_count'', DInt n)]"
  have "revocable (lineage s [l_ID l]) =
      (\<lambda>k. descendant (db_leases s) (l_ID l) (l_ID k) \<and> l_RevokedAt k = None)"
    using lineage_iff [OF db_ok_forest [OF assms(1)], of _ "[l_ID l]"]
    by (auto simp: revocable_def fun_eq_iff)
  then show ?thesis
    using l n s' e
    by (intro exI [of _ "l_ID l"] exI [of _ e]) (simp add: revoke_row_def [abs_def])
qed

theorem RevokeLeaseLineage_exact_witness:
  "\<exists>event. db_audit_events (snd (RevokeLeaseLineage example_lib [] ''r'' ''revoker'' second example_db))
     = [event] \<and> e_Actor event = ''revoker''"
  using RevokeLeaseLineage_exact [OF _ example_revocation] example_store_ok
  by (auto simp: store_ok_def)

lemma revocation_stays:
  assumes "store_ok L s" and "RevokeLeaseLineage L ctx given actor t s = (Inr n, s')" and "parse_uuid L given = Some root"
    and "db_ok L later" "db_extends s' later"
    and "l \<in> set (db_leases later)" and "descendant (db_leases later) root (l_ID l)"
  shows "l_RevokedAt l \<noteq> None"
proof -
  have ok: "db_ok L s" using assms(1) by (simp add: store_ok_def)
  obtain k e where k: "parse_uuid L given = Some (l_ID k)" "k \<in> set (db_leases s)"
    "s' = log_event e (s\<lparr>db_leases := map (revoke_row (lineage s [l_ID k]) t) (db_leases s)\<rparr>)"
    using ok assms(2) by (rule RevokeLeaseLineage_Inr)
  let ?k = "revoke_row (lineage s [l_ID k]) t k"
  have "?k \<in> set (db_leases s')" "l_ID ?k = root" using k assms(3) by simp_all
  moreover have "l_RevokedAt ?k \<noteq> None"
    unfolding revoke_row_revoked using lineage_start [OF db_ok_forest [OF ok]] by simp
  ultimately show ?thesis
    using revoked_later [OF assms(4,5)] assms(6,7) by simp
qed

text \<open>C17: revocation is final. Whatever operations follow a successful revocation, every lease
  that descends from the revoked one, delegated before or after, is revoked.\<close>

theorem revocation_is_final:
  assumes "uuid_canonical L" and "db_ok L s"
    and "RevokeLeaseLineage L ctx given actor t s = (Inr n, s')" and "parse_uuid L given = Some root"
    and "list_all op_ok ops" and "later = fold (run_op L) ops s'"
    and "l \<in> set (db_leases later)" and "descendant (db_leases later) root (l_ID l)"
  shows "l_RevokedAt l \<noteq> None"
proof -
  have ok: "store_ok L s" using assms(1,2) by (simp add: store_ok_def)
  have ok': "store_ok L s'" by (rule store_ok_step [OF ok RevokeLeaseLineage_safe [OF ok assms(3)]])
  have "db_ok L later" "db_extends s' later"
    using store_ok_later [OF ok' assms(5)] pg.fold_extends [OF ok' assms(5)] assms(6) by simp_all
  then show ?thesis
    by (rule revocation_stays [OF ok assms(3,4) _ _ assms(7,8)])
qed

theorem revocation_is_final_witness:
  "\<exists>l \<in> set (db_leases (snd (RevokeLeaseLineage example_lib [] ''r'' ''revoker'' second example_db))).
     l_ID l = ''c'' \<and> l_RevokedAt l \<noteq> None"
proof -
  let ?s = "snd (RevokeLeaseLineage example_lib [] ''r'' ''revoker'' second example_db)"
  have rows: "db_leases ?s = [revoke_row (lineage example_db [''r'']) second example_root_row,
      revoke_row (lineage example_db [''r'']) second example_child_row]"
    using example_revocation_rows .
  define l where "l = revoke_row (lineage example_db [''r'']) second example_child_row"
  have l: "l \<in> set (db_leases ?s)" "l_ID l = ''c''" "l_ParentLeaseID l = Some ''r''"
    unfolding l_def rows by simp_all
  have "descendant (db_leases ?s) ''r'' (l_ID l)"
    using l by (intro descendant_child [OF descendant_self]) simp_all
  then have "l_RevokedAt l \<noteq> None"
    using revocation_is_final [OF _ _ example_revocation, of "''r''" "[]" ?s l] example_store_ok l(1)
    by (simp add: store_ok_def)
  with l show ?thesis by blast
qed

lemma disabled_stays:
  assumes "store_ok L s" and "DisableWorkload L ctx given actor t s = (Inr n, s')" and "parse_uuid L given = Some i"
    and "list_all op_ok ops" and "later = fold (run_op L) ops s'"
  shows "db_ok L later" "\<exists>v. find_workload later i = Some v \<and> w_DisabledAt v \<noteq> None"
proof -
  have ok': "store_ok L s'" by (rule store_ok_step [OF assms(1) DisableWorkload_safe [OF assms(1,2)]])
  have later: "db_ok L later" "db_extends s' later"
    using store_ok_later [OF ok' assms(4)] pg.fold_extends [OF ok' assms(4)] assms(5) by simp_all
  then show "db_ok L later" by simp
  obtain e where w: "find_workload s i \<noteq> None"
    "s' = log_event e
      (s\<lparr>db_workloads := map (\<lambda>w. if w_ID w = i then disabled_row t w else w) (db_workloads s),
         db_leases := map (revoke_row (lineage s (workload_lease_ids s i)) t) (db_leases s)\<rparr>)"
    by (rule DisableWorkload_Inr [OF assms(2)]) (use assms(3) in simp)
  have "db_ok L s" using assms(1) by (simp add: store_ok_def)
  then obtain w0 where w0: "w0 \<in> set (db_workloads s)" "w_ID w0 = i"
    using w(1) find_workload_iff by blast
  then have "disabled_row t w0 \<in> set (db_workloads s')" using w(2) by (auto simp: image_iff)
  then obtain v where "v \<in> set (db_workloads later)" "w_ID v = i" "w_DisabledAt v \<noteq> None"
    using disabled_later [OF later(2), of "disabled_row t w0"] disabled_row_ok(3,4) w0(2) by metis
  then show "\<exists>v. find_workload later i = Some v \<and> w_DisabledAt v \<noteq> None"
    using find_workload_iff [OF later(1)] by blast
qed

text \<open>C27: uses are counted exactly once and never exceed the limit. After any operations on a
  database of integrity, the recorded uses of a lease are numbered 1, 2, \<dots> without a gap up to its
  counter, each under a key of its own, and there are at most as many as its \<open>MaxUses\<close>.\<close>

theorem uses_within_limit:
  assumes "uuid_canonical L" and "db_ok L s" and "list_all op_ok ops"
    and "l \<in> set (db_leases (fold (run_op L) ops s))"
  shows "let uses = lease_uses (db_lease_consumptions (fold (run_op L) ops s)) (l_ID l)
    in map (\<lambda>u. sint (u_use_number u)) uses = [1..sint (l_UsesConsumed l)]
     \<and> distinct (map u_idempotency_key uses)
     \<and> int (length uses) \<le> sint (l_MaxUses l)"
proof -
  have ok: "db_ok L (fold (run_op L) ops s)"
    using pg.fold_inv [of L s ops] assms(1-3) by (simp add: store_ok_def)
  have numbers: "map (\<lambda>u. sint (u_use_number u))
      (lease_uses (db_lease_consumptions (fold (run_op L) ops s)) (l_ID l)) = [1..sint (l_UsesConsumed l)]"
    by (rule active_uses(1) [OF ok assms(4)])
  from arg_cong [OF this, of length]
  have "int (length (lease_uses (db_lease_consumptions (fold (run_op L) ops s)) (l_ID l)))
      = sint (l_UsesConsumed l)"
    using active_uses(3) [OF ok assms(4)] by simp
  with numbers show ?thesis
    using active_uses(2,4) [OF ok assms(4)] by (simp add: Let_def)
qed

lemma example_use:
  "ConsumeLeaseUse example_lib ''c'' (replicate 32 (CHR ''b'')) ''sixteen-byte-key'' 0 example_db
   = (Inr \<lparr>lc_LeaseID = ''c'', lc_IdempotencyKey = ''sixteen-byte-key'', lc_UseNumber = 1,
        lc_MaxUses = 5, lc_Replayed = False\<rparr>,
      example_db\<lparr>db_leases := [example_root_row, example_child_row\<lparr>l_UsesConsumed := 1\<rparr>],
        db_lease_consumptions := [\<lparr>u_lease_id = ''c'', u_idempotency_key = ''sixteen-byte-key'',
          u_use_number = 1, u_consumed_at = 0\<rparr>]\<rparr>)"
  by (simp add: ConsumeLeaseUse_def consume_lease_use_tx_def BeginFunc_def find_lease_def find_workload_def
      insert_consumption_def update_uses_def Let_def char_length_def pg_text_def pg_time_def duration_defs)

theorem uses_within_limit_witness:
  "map (\<lambda>u. sint (u_use_number u)) (lease_uses (db_lease_consumptions (fold (run_op example_lib)
     [OpConsumeLeaseUse ''c'' (replicate 32 (CHR ''b'')) ''sixteen-byte-key'' 0] example_db)) ''c'') = [1]"
  using uses_within_limit [of example_lib example_db
      "[OpConsumeLeaseUse ''c'' (replicate 32 (CHR ''b'')) ''sixteen-byte-key'' 0]"
      "example_child_row\<lparr>l_UsesConsumed := 1\<rparr>"] example_store_ok
  by (simp add: store_ok_def op_ok_def example_use Let_def)

text \<open>Consuming a use is idempotent. Once a use was granted under a key, then after any
  operations a consumption of the lease under the same key that succeeds answers the same use
  number and limit, is marked as replayed, and leaves the database as it is.\<close>

theorem ConsumeLeaseUse_idempotent:
  assumes "uuid_canonical L" and "db_ok L s"
    and "ConsumeLeaseUse L given hash key t s = (Inr c, s')"
    and "list_all op_ok ops" and "later = fold (run_op L) ops s'"
    and "ConsumeLeaseUse L given hash' key t' later = (Inr c', s'')"
  shows "c' = c\<lparr>lc_Replayed := True\<rparr> \<and> s'' = later"
proof -
  have ok: "store_ok L s" using assms(1,2) by (simp add: store_ok_def)
  have step: "safe_step L s s'"
    using run_op_safe [OF ok, of "OpConsumeLeaseUse given hash key t"] assms(3) by (simp add: op_ok_def)
  have later: "db_ok L later" "db_extends s later"
    using store_ok_later [OF store_ok_step [OF ok step] assms(4)]
      pg.fold_extends [OF store_ok_step [OF ok step] assms(4)] assms(5) step db_extends_trans
    by (auto simp: safe_step_def)
  have ext': "db_extends s' later"
    using pg.fold_extends [OF store_ok_step [OF ok step] assms(4)] assms(5) by simp
  from assms(3) have "consume_lease_use_tx L given hash key t s = Inr (c, s')"
    by (simp add: ConsumeLeaseUse_def BeginFunc_Inr)
  then obtain i l u where i: "parse_uuid L given = Some i" "find_lease s i = Some l"
    and u: "find (consumption_matches i key) (db_lease_consumptions s') = Some u"
    and c: "c\<lparr>lc_Replayed := True\<rparr> = \<lparr>lc_LeaseID = given, lc_IdempotencyKey = key,
        lc_UseNumber = u_use_number u, lc_MaxUses = l_MaxUses l, lc_Replayed = True\<rparr>"
  proof (cases rule: consume_lease_use_Inr)
    case (replay i lease w u)
    then show thesis using that by simp
  next
    case (fresh i lease w s1)
    have "find P (xs @ [x]) = Some x" if "find P xs = None" "P x" for P :: "consumption_row \<Rightarrow> bool" and xs x
      using that by (induction xs) (auto split: if_splits)
    from this [OF fresh(9)] fresh show thesis
      by (intro that) (auto simp: insert_consumption_Inr update_uses_def consumption_matches_def)
  qed
  have l: "l \<in> set (db_leases s)" "l_ID l = i" using find_lease_iff [OF assms(2)] i(2) by simp_all
  obtain k where k: "k \<in> set (db_leases later)" "lease_evolves l k"
    using db_extends_lease [OF later(2) l(1)] .
  then have same: "find_lease later i = Some k" "l_MaxUses k = l_MaxUses l"
    using find_lease_iff [OF later(1)] l(2) by (auto simp: lease_evolves_def same_identity_def)
  have row: "find (consumption_matches i key) (db_lease_consumptions later) = Some u"
    by (rule find_prefix [OF u]) (use ext' in \<open>simp add: db_extends_def\<close>)
  from assms(6) have "consume_lease_use_tx L given hash' key t' later = Inr (c', s'')"
    by (simp add: ConsumeLeaseUse_def BeginFunc_Inr)
  then show ?thesis
    by (cases rule: consume_lease_use_Inr) (use i(1) same row c in auto)
qed

theorem ConsumeLeaseUse_idempotent_witness:
  "\<exists>c s1. ConsumeLeaseUse example_lib ''c'' (replicate 32 (CHR ''b'')) ''sixteen-byte-key'' second
       (snd (ConsumeLeaseUse example_lib ''c'' (replicate 32 (CHR ''b'')) ''sixteen-byte-key'' 0 example_db))
     = (Inr c, s1) \<and> lc_UseNumber c = 1 \<and> lc_Replayed c
     \<and> s1 = snd (ConsumeLeaseUse example_lib ''c'' (replicate 32 (CHR ''b'')) ''sixteen-byte-key'' 0 example_db)"
proof -
  let ?s = "snd (ConsumeLeaseUse example_lib ''c'' (replicate 32 (CHR ''b'')) ''sixteen-byte-key'' 0 example_db)"
  obtain c s1 where again: "ConsumeLeaseUse example_lib ''c'' (replicate 32 (CHR ''b''))
      ''sixteen-byte-key'' second ?s = (Inr c, s1)"
    by (simp add: example_use, simp add: ConsumeLeaseUse_def consume_lease_use_tx_def BeginFunc_def
        find_lease_def find_workload_def Let_def consumption_matches_def duration_defs pg_text_def)
  then show ?thesis
    using ConsumeLeaseUse_idempotent [OF _ _ example_use, of "[]" _ "replicate 32 (CHR ''b'')" second c s1]
      example_store_ok by (simp add: store_ok_def example_use)
qed

text \<open>C28: a nonce is accepted once until it expires. After a nonce was consumed, whatever
  operations run while the clock of the database is before its expiry, the same nonce of the
  same workload is refused as a replay and nothing changes.\<close>

theorem nonce_replay_refused:
  assumes "ConsumeWorkloadNonce L now given h e s = (Inr u, s')"
    and "list_all (nonce_op_before (pg_time e)) ops" and "later = fold (run_op L) ops s'"
    and "now' < pg_time e"
  shows "ConsumeWorkloadNonce L now' given h e' later = (Inl (DomainE ErrReplayDetected), later)"
proof -
  from assms(1) have "consume_workload_nonce_tx L now given h e s = Inr (u, s')"
    by (simp add: ConsumeWorkloadNonce_def BeginFunc_Inr)
  then obtain i ns where i: "parse_uuid L given = Some i" "length h = 32"
    and ns: "s' = s\<lparr>db_workload_nonces := ns\<rparr>"
      "find (nonce_matches i h) ns = Some \<lparr>n_workload_id = i, n_nonce_hash = h, n_expires_at = pg_time e\<rparr>"
    by (rule consume_nonce_Inr)
  then have "find (nonce_matches i h) (db_workload_nonces later)
      = Some \<lparr>n_workload_id = i, n_nonce_hash = h, n_expires_at = pg_time e\<rparr>"
    unfolding assms(3) by (intro nonce_row_stays_fold) (use assms(2) in simp_all)
  then show ?thesis
    using i assms(4) by (simp add: ConsumeWorkloadNonce_def BeginFunc_def consume_workload_nonce_tx_def)
qed

theorem nonce_replay_refused_witness:
  "\<exists>s1. ConsumeWorkloadNonce example_lib 0 ''w1'' (replicate 32 (CHR ''n'')) minute example_db = (Inr (), s1)
     \<and> ConsumeWorkloadNonce example_lib second ''w1'' (replicate 32 (CHR ''n'')) hour s1
       = (Inl (DomainE ErrReplayDetected), s1)"
proof -
  obtain s1 where first: "ConsumeWorkloadNonce example_lib 0 ''w1'' (replicate 32 (CHR ''n'')) minute
      example_db = (Inr (), s1)"
    by (simp add: ConsumeWorkloadNonce_def BeginFunc_def consume_workload_nonce_tx_def find_workload_def)
  then show ?thesis
    using nonce_replay_refused [OF first, of "[]" s1 second hour]
    by (simp add: pg_time_def duration_defs)
qed

text \<open>A trace is the path from the root to the lease. It starts at a root lease, ends at the
  lease asked for, each lease is the parent of the next under the links of a delegation, the
  depths count from 0, and all belong to one root lease and root workload.\<close>

theorem TraceLease_path:
  assumes "db_ok L s" and "TraceLease L given s = Inr rows"
  shows "rows \<noteq> [] \<and> parse_uuid L given = Some (l_ID (last rows))
    \<and> l_ParentLeaseID (hd rows) = None \<and> set rows \<subseteq> set (db_leases s)
    \<and> successively lease_link rows
    \<and> map (\<lambda>l. sint (l_Depth l)) rows = [0..sint (l_Depth (last rows))]
    \<and> (\<forall>l \<in> set rows. l_RootLeaseID l = l_ID (hd rows)
        \<and> l_RootWorkloadID l = l_WorkloadID (hd rows))"
  using assms
proof (rule TraceLease_Inr)
  fix l
  assume l: "parse_uuid L given = Some (l_ID l)" "l \<in> set (db_leases s)"
    and rows: "rows = rev (ancestors s (l_ID l))"
    and path: "path_to_root (db_leases s) l (ancestors s (l_ID l))"
  let ?xs = "ancestors s (l_ID l)"
  have xs: "?xs \<noteq> []" "hd ?xs = l" "set ?xs \<subseteq> set (db_leases s)" "successively parent_link ?xs"
    "l_ParentLeaseID (last ?xs) = None" "map (\<lambda>x. sint (l_Depth x)) ?xs = rev [0..sint (l_Depth l)]"
    using path unfolding path_to_root_def by simp_all
  note chain = path_roots [OF assms(1) xs(4,3)]
  have "last ?xs \<in> set (db_leases s)" using xs(1,3) by auto
  then have "lease_checks (last ?xs)"
    using db_ok_row [OF assms(1)] by (simp add: lease_row_ok_def)
  then have root: "l_RootLeaseID (last ?xs) = l_ID (last ?xs)"
    "l_RootWorkloadID (last ?xs) = l_WorkloadID (last ?xs)"
    using xs(5) by (simp_all add: lease_checks_def)
  have "map (\<lambda>l. sint (l_Depth l)) rows = [0..sint (l_Depth l)]"
    unfolding rows rev_map [symmetric] xs(6) by simp
  moreover have "successively lease_link rows"
    unfolding rows using chain by simp
  ultimately show ?thesis
    using rows l xs(1-3,5) chain root by (auto simp: last_rev hd_rev)
qed

theorem TraceLease_path_witness:
  "TraceLease example_lib ''c'' example_db = Inr [example_root_row, example_child_row]
   \<and> successively lease_link [example_root_row, example_child_row]"
proof -
  have depths: "sint (l_Depth example_root_row) = 0" "sint (l_Depth example_child_row) = 1"
    by (simp_all add: example_root_row_def example_child_row_def)
  have "TraceLease example_lib ''c'' example_db = Inr [example_root_row, example_child_row]"
    by (simp add: TraceLease_def ancestors_def depths numeral_2_eq_2)
  moreover from this have "successively lease_link [example_root_row, example_child_row]"
    using TraceLease_path [of example_lib example_db] example_store_ok unfolding store_ok_def by blast
  ultimately show ?thesis by blast
qed



text \<open>A rotation decides exactly which keys are accepted. Right after it a thumbprint is accepted
  for the workload if it is that of the new key, or, when an overlap was asked for, that of
  the key replaced, until the overlap has passed. No key before that one is accepted.\<close>

theorem RotateWorkloadKey_accepts:
  assumes "db_ok L s" and "RotateWorkloadKey L ctx request t s = (Inr (rotated, n), s')"
    and "length key = 43"
  shows "\<exists>old new. old \<in> set (db_workloads s) \<and> new \<in> set (db_workloads s') \<and> w_ID new = w_ID old
    \<and> parse_uuid L (rk_WorkloadID request) = Some (w_ID old) \<and> w_DisabledAt old = None
    \<and> w_Grant new = w_Grant old
    \<and> (acceptedWorkloadKey L (w_PublicKey new) (w_PreviousPublicKey new) (w_PreviousKeyExpiresAt new) key at
       \<longleftrightarrow> JWKThumbprint L (rk_PublicKey request) = Inr key
         \<or> rk_Overlap request > 0 \<and> at < pg_time (t + rk_Overlap request)
           \<and> JWKThumbprint L (w_PublicKey old) = Inr key)"
proof -
  from assms(2) have "rotate_workload_key_tx L ctx request t s = Inr ((rotated, n), s')"
    by (simp add: RotateWorkloadKey_def BeginFunc_Inr)
  then show ?thesis
  proof (rule rotate_workload_key_Inr, elim insertAuditEvent_Inr)
    fix w e
    let ?row = "rotated_row request t w"
    assume w: "select_workload L ''lock workload'' (rk_WorkloadID request) s = Inr w" "w_DisabledAt w = None"
      and s': "s' = log_event e (s\<lparr>db_workloads :=
             map (\<lambda>x. if w_ID x = w_ID w then ?row else x) (db_workloads s),
         db_leases := map (revoke_row (lineage s (rotation_ids request s (w_ID w))) t) (db_leases s)\<rparr>)"
    have old: "w \<in> set (db_workloads s)" "parse_uuid L (rk_WorkloadID request) = Some (w_ID w)"
      using w(1) find_workload_iff [OF assms(1)] by (auto simp: select_workload_Inr)
    have "?row \<in> set (db_workloads s')" using old(1) s' by (auto intro: rev_image_eqI)
    then show ?thesis
      using old w(2) assms(3)
      by (intro exI [of _ w] exI [of _ ?row])
        (auto simp: acceptedWorkloadKey_def rotated_row_def stored_times_def rotated_workload_def)
  qed
qed

definition example_rotation_request :: RotateWorkloadKeyRequest where
  "example_rotation_request = \<lparr>rk_WorkloadID = ''w1'', rk_PublicKey = replicate 32 (CHR ''n''),
     rk_Overlap = minute, rk_RevokeOutstanding = True, rk_Actor = ''rotator''\<rparr>"

lemma example_rotation:
  "RotateWorkloadKey example_lib [] example_rotation_request second example_db
   = (Inr (rotated_workload example_rotation_request second (example_workload ''w1'' ''worker-one'' (CHR ''k'')), 2),
      snd (RotateWorkloadKey example_lib [] example_rotation_request second example_db))"
  by (simp add: RotateWorkloadKey_def rotate_workload_key_tx_def example_run select_workload_def
      public_key_in_use_def example_rotation_request_def example_workload_def workload_conflict_def
      rotated_workload_def stored_times_def workload_key_checks_def)

theorem RotateWorkloadKey_accepts_witness:
  "\<exists>new. new \<in> set (db_workloads (snd (RotateWorkloadKey example_lib [] example_rotation_request second example_db)))
     \<and> acceptedWorkloadKey example_lib (w_PublicKey new) (w_PreviousPublicKey new)
         (w_PreviousKeyExpiresAt new) (example_thumbprint (CHR ''n'')) hour"
  using RotateWorkloadKey_accepts [OF _ example_rotation, of "example_thumbprint (CHR ''n'')" hour]
    example_store_ok by (auto simp: store_ok_def example_rotation_request_def)

text \<open>C40: the recursive queries end. In every database the service can reach, the queries that walk a
  lineage have nothing left to visit after as many rounds as there are leases: however many more
  rounds they may run, they answer what \<open>lineage\<close> and \<open>ancestors\<close> answer. What the query of the
  descendants has then found are the leases given and everything below them.\<close>
theorem recursive_queries_end:
  assumes "db_ok L s" and "length (db_leases s) \<le> n"
  shows "lineage_ids n (db_leases s) ids = lineage s ids \<and> ancestor_rows n (db_leases s) i = ancestors s i
    \<and> set (lineage s ids) = {d. \<exists>a \<in> set ids. descendant (db_leases s) a d}"
  using lineage_more [OF db_ok_forest assms(2)] ancestors_more [OF db_ok_forest assms(2)]
    lineage_iff [OF db_ok_forest] assms(1) by auto

theorem recursive_queries_end_witness:
  "lineage_ids 9 (db_leases example_db) [''r''] = lineage example_db [''r'']
   \<and> ancestor_rows 9 (db_leases example_db) ''r'' = ancestors example_db ''r''"
proof -
  have "db_ok example_lib example_db" using example_store_ok by (simp add: store_ok_def)
  moreover have "length (db_leases example_db) \<le> 9" by (simp add: example_db_def)
  ultimately show ?thesis using recursive_queries_end by blast
qed

end
