(* ===== verification/Race.thy ===== *)
theory Race
  imports Promises
begin

section \<open>Disabling a workload among concurrent transactions\<close>

text \<open>
  \<open>DisableWorkload\<close> locks the row of its workload, not the lineages of its leases. PostgreSQL runs
  its second statement on the snapshot that the statement takes when it starts, so transactions that
  commit after that snapshot add leases the statement does not see. \<open>DisableWorkload_during\<close> is the
  transaction with the others that commit in the meantime, one after the other, written out as a list;
  with none it is the \<open>DisableWorkload\<close> of the repository. The row lock keeps out the transactions that
  lock the same row: \<open>CreateLease\<close> takes it \<open>FOR SHARE\<close> for the recipient and for the delegator of a
  lease, a rotation \<open>FOR UPDATE\<close>, another disabling by its own update.

  What does not depend on the order: the workload stays disabled, and so do the leases it holds and
  the leases it delegated stay revoked, for good. What does: leases further below, of which a
  concurrent delegation leaves one live.
\<close>

subsection \<open>The transaction and those around it\<close>

text \<open>\<open>s\<close> is the database at the snapshot of the second statement; the first has locked the row.\<close>

definition disable_workload_during_tx ::
    "auth_lib \<Rightarrow> bytes \<Rightarrow> bytes \<Rightarrow> bytes \<Rightarrow> instant \<Rightarrow> repo_op list \<Rightarrow> int tx" where
  "disable_workload_during_tx L ctx workloadID actor disabledAt between s =
    (case parse_uuid L workloadID of
       None \<Rightarrow> Inl (Opaque ''disable workload'')
     | Some i \<Rightarrow>
       if find_workload s i = None then Inl (DomainE ErrWorkloadNotFound)
       else
         let affected = lineage s (workload_lease_ids s i);
             s1 = update_workloads i (\<lambda>w. w\<lparr>w_DisabledAt :=
                     (case w_DisabledAt w of None \<Rightarrow> Some (pg_time disabledAt) | Some t \<Rightarrow> Some t),
                     w_UpdatedAt := pg_time disabledAt\<rparr>) (fold (run_op L) between s);
             (revoked, s2) = revoke_rows affected disabledAt s1;
             event = \<lparr>e_ID = 0, e_WorkloadID = Some workloadID, e_LeaseID = None,
               e_EventType = ''workload.disabled'', e_Actor = actor,
               e_Details = [(''revoked_count'', DInt revoked)],
               e_OccurredAt = disabledAt, e_RequestID = []\<rparr>
         in case insertAuditEvent L ctx event s2 of
           Inl err \<Rightarrow> Inl err
         | Inr (_, s3) \<Rightarrow> Inr (revoked, s3))"

definition DisableWorkload_during ::
    "auth_lib \<Rightarrow> bytes \<Rightarrow> bytes \<Rightarrow> bytes \<Rightarrow> instant \<Rightarrow> repo_op list \<Rightarrow> db \<Rightarrow> int result \<times> db" where
  "DisableWorkload_during L ctx workloadID actor disabledAt between s =
    (case disable_workload_during_tx L ctx workloadID actor disabledAt between s of
       Inl err \<Rightarrow> (Inl err, fold (run_op L) between s)
     | Inr (revoked, s') \<Rightarrow> (Inr revoked, s'))"

text \<open>The transactions that do not wait for the lock on the row of the workload \<open>i\<close>.\<close>

definition spares :: "auth_lib \<Rightarrow> bytes \<Rightarrow> repo_op \<Rightarrow> bool" where
  "spares L i op \<longleftrightarrow> op_ok op \<and>
    (case op of
       OpCreateLease _ l _ \<Rightarrow> parse_uuid L (l_WorkloadID l) \<noteq> Some i
         \<and> (l_ParentLeaseID l \<noteq> None \<longrightarrow>
              (\<forall>d. l_DelegatedByWorkloadID l = Some d \<longrightarrow> parse_uuid L d \<noteq> Some i))
     | OpRotateWorkloadKey _ r _ \<Rightarrow> parse_uuid L (rk_WorkloadID r) \<noteq> Some i
     | OpDisableWorkload _ j _ _ \<Rightarrow> parse_uuid L j \<noteq> Some i
     | _ \<Rightarrow> True)"

lemma DisableWorkload_during_nothing:
  "DisableWorkload_during L ctx given actor t [] s = DisableWorkload L ctx given actor t s"
proof -
  have "disable_workload_during_tx L ctx given actor t [] s = disable_workload_tx L ctx given actor t s"
    unfolding disable_workload_during_tx_def disable_workload_tx_def update_workloads_def Let_def
      lineage_workloads workload_lease_ids_update List.fold.simps(1) id_apply by simp
  then show ?thesis
    unfolding DisableWorkload_during_def DisableWorkload_def BeginFunc_def List.fold.simps(1) id_apply by simp
qed

lemma DisableWorkload_during_Inr:
  assumes "DisableWorkload_during L ctx given actor t between s = (Inr n, s')"
  obtains i e where "parse_uuid L given = Some i" "find_workload s i \<noteq> None"
    "s' = log_event e
      ((fold (run_op L) between s)\<lparr>
         db_workloads := map (\<lambda>w. if w_ID w = i then disabled_row t w else w) (db_workloads (fold (run_op L) between s)),
         db_leases := map (revoke_row (lineage s (workload_lease_ids s i)) t) (db_leases (fold (run_op L) between s))\<rparr>)"
proof -
  have tx: "disable_workload_during_tx L ctx given actor t between s = Inr (n, s')"
    using assms by (auto simp: DisableWorkload_during_def split: sum.splits)
  then obtain i where i: "parse_uuid L given = Some i" "find_workload s i \<noteq> None"
    by (auto simp: disable_workload_during_tx_def split: option.splits if_splits)
  with tx obtain event u where "insertAuditEvent L ctx event
      ((fold (run_op L) between s)\<lparr>
         db_workloads := map (\<lambda>w. if w_ID w = i then disabled_row t w else w) (db_workloads (fold (run_op L) between s)),
         db_leases := map (revoke_row (lineage s (workload_lease_ids s i)) t) (db_leases (fold (run_op L) between s))\<rparr>)
      = Inr (u, s')"
    by (auto simp: disable_workload_during_tx_def Let_def disabled_row_def [symmetric] revoke_rows_def
        revoke_row_def [abs_def] update_workloads_def split: sum.splits)
  then show thesis by (elim insertAuditEvent_Inr) (rule that [OF i])
qed

subsection \<open>What one operation does to the leases\<close>

text \<open>An update of a row that keeps who holds it and where it hangs, and that revokes at most.\<close>

definition keeps_row :: "Lease \<Rightarrow> Lease \<Rightarrow> bool" where
  "keeps_row l k \<longleftrightarrow> l_ID k = l_ID l \<and> l_ParentLeaseID k = l_ParentLeaseID l \<and> l_WorkloadID k = l_WorkloadID l
    \<and> (l_RevokedAt l \<noteq> None \<longrightarrow> l_RevokedAt k \<noteq> None)"

lemma keeps_row_simps [simp]:
  "keeps_row l l" "keeps_row l (revoke_row ids t l)" "keeps_row l (l\<lparr>l_UsesConsumed := n\<rparr>)"
  "keeps_row l (l\<lparr>l_RevokedAt := Some u\<rparr>)"
  by (simp_all add: keeps_row_def) (simp add: revoke_row_def)

lemma run_op_rows:
  obtains (updated) f where "db_leases (run_op L op s) = map f (db_leases s)" "\<And>l. keeps_row l (f l)"
    | (created) ctx lease e w row where "op = OpCreateLease ctx lease e"
      "db_leases (run_op L op s) = db_leases s @ [row]"
      "select_workload L ''lock workload'' (l_WorkloadID lease) s = Inr w" "w_DisabledAt w = None"
      "check_lineage L lease s = Inr ()" "lease_row L lease = Some row" "l_ID row \<notin> l_ID ` set (db_leases s)"
proof -
  have ev: "insertAuditEvent L ctx e s1 = Inr (u, t) \<Longrightarrow> db_leases t = db_leases s1"
    for ctx e s1 u t by (elim insertAuditEvent_Inr) simp
  have same: "thesis" if "db_leases (run_op L op s) = db_leases s"
    by (rule updated [of "\<lambda>l. l"]) (simp_all add: that)
  show thesis
  proof (cases op)
    case (OpCreateWorkload ctx w e)
    then show ?thesis
      by (intro same) (auto simp: CreateWorkload_def BeginFunc_def create_workload_tx_def split: sum.splits
          elim!: insert_workload_Inr dest!: ev)
  next
    case (OpRotateWorkloadKey ctx r t)
    show ?thesis
    proof (cases "rotate_workload_key_tx L ctx r t s")
      case (Inl err)
      then show ?thesis using OpRotateWorkloadKey by (intro same) (simp add: RotateWorkloadKey_def BeginFunc_def)
    next
      case (Inr x)
      obtain v n t' where x: "x = ((v, n), t')" by (metis prod.exhaust)
      from Inr [unfolded x] have "\<exists>ids. db_leases t' = map (revoke_row ids t) (db_leases s)"
        by (rule rotate_workload_key_Inr) (auto dest!: ev)
      then obtain ids where "db_leases t' = map (revoke_row ids t) (db_leases s)" by blast
      then show ?thesis
        using OpRotateWorkloadKey Inr x by (intro updated [of "revoke_row ids t"]) (simp_all add: RotateWorkloadKey_def BeginFunc_def)
    qed
  next
    case (OpConsumeWorkloadNonce d i h e)
    then show ?thesis
      by (intro same) (auto simp: ConsumeWorkloadNonce_def BeginFunc_def split: sum.splits elim!: consume_nonce_Inr)
  next
    case (OpDisableWorkload ctx i actor t)
    show ?thesis
    proof (cases "disable_workload_tx L ctx i actor t s")
      case (Inl err)
      then show ?thesis using OpDisableWorkload by (intro same) (simp add: DisableWorkload_def BeginFunc_def)
    next
      case (Inr x)
      obtain n t' where x: "x = (n, t')" by (cases x)
      from Inr [unfolded x] have "\<exists>ids. db_leases t' = map (revoke_row ids t) (db_leases s)"
        by (rule disable_workload_Inr) (auto dest!: ev)
      then obtain ids where "db_leases t' = map (revoke_row ids t) (db_leases s)" by blast
      then show ?thesis
        using OpDisableWorkload Inr x by (intro updated [of "revoke_row ids t"]) (simp_all add: DisableWorkload_def BeginFunc_def)
    qed
  next
    case (OpCreateLease ctx lease e)
    show ?thesis
    proof (cases "create_lease_tx L ctx lease e s")
      case (Inl err)
      then show ?thesis using OpCreateLease by (intro same) (simp add: CreateLease_def BeginFunc_def)
    next
      case (Inr x)
      obtain u t' where x: "x = (u, t')" by (cases x)
      from Inr [unfolded x] show ?thesis
      proof (rule create_lease_Inr)
        fix w row
        assume row: "select_workload L ''lock workload'' (l_WorkloadID lease) s = Inr w" "w_DisabledAt w = None"
          "check_lineage L lease s = Inr ()" "lease_row L lease = Some row"
          and conflict: "\<not> list_ex (lease_conflict row) (db_leases s)"
          and log: "insertAuditEvent L ctx e (s\<lparr>db_leases := db_leases s @ [row]\<rparr>) = Inr (u, t')"
        have "l_ID row \<notin> l_ID ` set (db_leases s)"
          using conflict by (auto simp: list_ex_iff lease_conflict_def)
        moreover have "db_leases (run_op L op s) = db_leases s @ [row]"
          using ev [OF log] OpCreateLease Inr x by (simp add: CreateLease_def BeginFunc_def)
        ultimately show ?thesis using created [OF OpCreateLease _ row] by simp
      qed
    qed
  next
    case (OpConsumeLeaseUse i h key t)
    show ?thesis
    proof (cases "consume_lease_use_tx L i h key t s")
      case (Inl err)
      then show ?thesis using OpConsumeLeaseUse by (intro same) (simp add: ConsumeLeaseUse_def BeginFunc_def)
    next
      case (Inr x)
      obtain c t' where x: "x = (c, t')" by (cases x)
      then have run: "run_op L op s = t'"
        using OpConsumeLeaseUse Inr by (simp add: ConsumeLeaseUse_def BeginFunc_def)
      from Inr [unfolded x] show ?thesis
      proof (cases rule: consume_lease_use_Inr)
        case replay
        then show ?thesis by (intro same) (simp add: run)
      next
        case (fresh j lease w s1)
        then show ?thesis
          by (intro updated [of "\<lambda>l. if l_ID l = j then l\<lparr>l_UsesConsumed := l_UsesConsumed lease + 1\<rparr> else l"])
            (auto simp: run insert_consumption_Inr update_uses_def)
      qed
    qed
  next
    case (OpRevokeLeaseLineage ctx i actor t)
    have "\<exists>ids. db_leases (run_op L op s) = map (revoke_row ids t) (db_leases s)"
    proof (cases "revoke_lease_lineage_tx L ctx i actor t s")
      case (Inl err)
      then have "db_leases (run_op L op s) = map (revoke_row [] t) (db_leases s)"
        using OpRevokeLeaseLineage by (simp add: RevokeLeaseLineage_def BeginFunc_def)
      then show ?thesis by blast
    next
      case (Inr x)
      obtain j where j: "parse_uuid L i = Some j"
        using Inr by (auto simp: revoke_lease_lineage_tx_def split: sum.splits option.splits)
      have "db_leases (run_op L op s)
          = map (revoke_row (lineage s (map l_ID (filter (\<lambda>l. l_ID l = j) (db_leases s)))) t) (db_leases s)"
        using OpRevokeLeaseLineage Inr
        by (auto simp: RevokeLeaseLineage_def BeginFunc_def revoke_lease_lineage_tx_def Let_def revoke_rows_def
            revoke_row_def j split: sum.splits if_splits dest!: ev)
      then show ?thesis by blast
    qed
    then show ?thesis using updated keeps_row_simps(2) by metis
  qed
qed

text \<open>A workload that is there stays, and stays disabled.\<close>

lemma find_key_map: "(\<And>x. w_ID (g x) = w_ID x) \<Longrightarrow>
   find (\<lambda>w. w_ID w = i) (map g ws) = map_option g (find (\<lambda>w. w_ID w = i) ws)"
  by (induction ws) simp_all

lemma run_op_workload:
  assumes "find_workload s i = Some w"
  obtains v where "find_workload (run_op L op s) i = Some v" "w_DisabledAt w \<noteq> None \<Longrightarrow> w_DisabledAt v \<noteq> None"
proof -
  have ev: "insertAuditEvent L ctx e s1 = Inr (u, t) \<Longrightarrow> db_workloads t = db_workloads s1"
    for ctx e s1 u t by (elim insertAuditEvent_Inr) simp
  note found = that
  have same: "thesis" if "db_workloads (run_op L op s) = db_workloads s"
    by (rule found [of w]) (use assms that in \<open>simp_all add: find_workload_def\<close>)
  have mapped: "thesis" if "db_workloads (run_op L op s) = map g (db_workloads s)" "\<And>x. w_ID (g x) = w_ID x"
      "w_DisabledAt w \<noteq> None \<Longrightarrow> w_DisabledAt (g w) \<noteq> None" for g
    using assms that(1,3) find_key_map [of g, OF that(2)] by (intro found [of "g w"]) (simp_all add: find_workload_def)
  show thesis
  proof (cases op)
    case (OpCreateWorkload ctx v e)
    have "prefix (db_workloads s) (db_workloads (run_op L op s))"
      using OpCreateWorkload by (auto simp: CreateWorkload_def BeginFunc_def create_workload_tx_def split: sum.splits
          elim!: insert_workload_Inr dest!: ev)
    then show ?thesis
      using found [of w] find_prefix [OF assms [unfolded find_workload_def]] by (simp add: find_workload_def)
  next
    case (OpRotateWorkloadKey ctx r t)
    show ?thesis
    proof (cases "rotate_workload_key_tx L ctx r t s")
      case (Inl err)
      then show ?thesis using OpRotateWorkloadKey by (intro same) (simp add: RotateWorkloadKey_def BeginFunc_def)
    next
      case (Inr x)
      obtain v n t' where x: "x = ((v, n), t')" by (metis prod.exhaust)
      from Inr [unfolded x] show ?thesis
      proof (rule rotate_workload_key_Inr)
        fix v' u event
        let ?g = "\<lambda>x. if w_ID x = w_ID v' then rotated_row r t v' else x"
        assume v': "select_workload L ''lock workload'' (rk_WorkloadID r) s = Inr v'" "w_DisabledAt v' = None"
        then have stored: "find_workload s (w_ID v') = Some v'"
          by (auto simp: select_workload_Inr find_workload_def dest: find_Some_iff_key)
        have here: "w_ID w = i" using assms by (auto simp: find_workload_def dest: find_Some_iff_key)
        have "w_ID w \<noteq> w_ID v'" if "w_DisabledAt w \<noteq> None"
        proof
          assume "w_ID w = w_ID v'"
          then have "Some v' = Some w" unfolding stored [symmetric] assms [symmetric] here [symmetric] by (rule arg_cong [OF sym])
          then show False using v'(2) that by simp
        qed
        moreover assume "insertAuditEvent L ctx \<lparr>e_ID = 0, e_WorkloadID = Some (w_ID v'), e_LeaseID = None,
            e_EventType = ''workload.key_rotated'', e_Actor = rk_Actor r,
            e_Details = [(''overlap_seconds'', DInt (go_div (rk_Overlap r) second)), (''revoked_count'', DInt n)],
            e_OccurredAt = t, e_RequestID = []\<rparr>
          (s\<lparr>db_workloads := map ?g (db_workloads s),
             db_leases := map (revoke_row (lineage s (rotation_ids r s (w_ID v'))) t) (db_leases s)\<rparr>) = Inr (u, t')"
        then have "db_workloads (run_op L op s) = map ?g (db_workloads s)"
          using OpRotateWorkloadKey Inr x by (auto simp: RotateWorkloadKey_def BeginFunc_def dest!: ev)
        ultimately show ?thesis by (intro mapped [of ?g]) auto
      qed
    qed
  next
    case (OpDisableWorkload ctx j actor t)
    show ?thesis
    proof (cases "disable_workload_tx L ctx j actor t s")
      case (Inl err)
      then show ?thesis using OpDisableWorkload by (intro same) (simp add: DisableWorkload_def BeginFunc_def)
    next
      case (Inr x)
      obtain n t' where x: "x = (n, t')" by (cases x)
      from Inr [unfolded x]
      have "\<exists>j'. db_workloads t' = map (\<lambda>w. if w_ID w = j' then disabled_row t w else w) (db_workloads s)"
        by (rule disable_workload_Inr) (auto dest!: ev)
      then obtain j' where "db_workloads t' = map (\<lambda>w. if w_ID w = j' then disabled_row t w else w) (db_workloads s)"
        by blast
      then show ?thesis
        using OpDisableWorkload Inr x disabled_row_ok(3,4)
        by (intro mapped [of "\<lambda>w. if w_ID w = j' then disabled_row t w else w"])
          (simp_all add: DisableWorkload_def BeginFunc_def del: not_None_eq)
    qed
  next
    case (OpConsumeWorkloadNonce d j h e)
    then show ?thesis
      by (intro same) (auto simp: ConsumeWorkloadNonce_def BeginFunc_def split: sum.splits elim!: consume_nonce_Inr)
  next
    case (OpCreateLease ctx l e)
    then show ?thesis
      by (intro same) (auto simp: CreateLease_def BeginFunc_def split: sum.splits elim!: create_lease_Inr dest!: ev)
  next
    case (OpConsumeLeaseUse j h key t)
    then show ?thesis
      by (intro same) (auto simp: ConsumeLeaseUse_def BeginFunc_def insert_consumption_Inr update_uses_def
          split: sum.splits elim!: consume_lease_use_Inr)
  next
    case (OpRevokeLeaseLineage ctx j actor t)
    then show ?thesis
      by (intro same) (auto simp: RevokeLeaseLineage_def BeginFunc_def revoke_lease_lineage_tx_def Let_def
          revoke_rows_def split: sum.splits option.splits if_splits dest!: ev)
  qed
qed

subsection \<open>The leases of a locked or disabled workload\<close>

text \<open>The leases a workload holds and those it delegated.\<close>

definition bound_to :: "bytes \<Rightarrow> Lease list \<Rightarrow> Lease \<Rightarrow> bool" where
  "bound_to i rows k \<longleftrightarrow>
    l_WorkloadID k = i \<or> (\<exists>l \<in> set rows. l_WorkloadID l = i \<and> l_ParentLeaseID k = Some (l_ID l))"

text \<open>All of them are among the leases \<open>ids\<close>.\<close>

definition watched :: "bytes \<Rightarrow> bytes set \<Rightarrow> db \<Rightarrow> bool" where
  "watched i ids s \<longleftrightarrow>
    find_workload s i \<noteq> None \<and> distinct (map l_ID (db_leases s)) \<and> ids \<subseteq> l_ID ` set (db_leases s)
    \<and> (\<forall>k \<in> set (db_leases s). bound_to i (db_leases s) k \<longrightarrow> l_ID k \<in> ids)"

definition is_disabled :: "bytes \<Rightarrow> db \<Rightarrow> bool" where
  "is_disabled i s \<longleftrightarrow> (\<exists>w. find_workload s i = Some w \<and> w_DisabledAt w \<noteq> None)"

text \<open>The workload is disabled and these leases are revoked.\<close>

definition shut :: "bytes \<Rightarrow> bytes set \<Rightarrow> db \<Rightarrow> bool" where
  "shut i ids s \<longleftrightarrow> watched i ids s \<and> is_disabled i s
    \<and> (\<forall>k \<in> set (db_leases s). l_ID k \<in> ids \<longrightarrow> l_RevokedAt k \<noteq> None)"

lemma bound_to_map: "(\<And>l. keeps_row l (f l)) \<Longrightarrow> bound_to i (map f rows) (f k) \<longleftrightarrow> bound_to i rows k"
  by (simp add: bound_to_def keeps_row_def)

lemma is_disabled_step: "is_disabled i s \<Longrightarrow> is_disabled i (run_op L op s)"
  unfolding is_disabled_def using run_op_workload by metis

lemma find_workload_step: "find_workload s i \<noteq> None \<Longrightarrow> find_workload (run_op L op s) i \<noteq> None"
  using run_op_workload by (metis not_None_eq)

text \<open>No lease is created for the workload or below one of its leases while its row is locked, nor
  once it is disabled.\<close>

lemma created_elsewhere:
  assumes "is_uuid L i" "distinct (map l_ID (db_leases s))"
    and "spares L i (OpCreateLease ctx lease e) \<or> is_disabled i s"
    and "select_workload L ''lock workload'' (l_WorkloadID lease) s = Inr w" "w_DisabledAt w = None"
    and "check_lineage L lease s = Inr ()" "lease_row L lease = Some row"
  shows "l_WorkloadID row \<noteq> i" "\<not> bound_to i (db_leases s @ [row]) row"
proof -
  have no: "select_workload L msg given s = Inr v \<Longrightarrow> w_DisabledAt v = None \<Longrightarrow> is_disabled i s
      \<Longrightarrow> parse_uuid L given \<noteq> Some i" for msg given v
    by (auto simp: select_workload_Inr is_disabled_def)
  have "parse_uuid L (l_WorkloadID lease) \<noteq> Some i"
    using assms(3) no [OF assms(4,5)] by (auto simp: spares_def)
  then show holder: "l_WorkloadID row \<noteq> i" using lease_row_Some(3) [OF assms(7)] by auto
  show "\<not> bound_to i (db_leases s @ [row]) row"
  proof
    assume "bound_to i (db_leases s @ [row]) row"
    then obtain l where l: "l \<in> set (db_leases s)" "l_WorkloadID l = i" "l_ParentLeaseID row = Some (l_ID l)"
      using holder by (auto simp: bound_to_def)
    then obtain p where p: "l_ParentLeaseID lease = Some p" "parse_uuid L p = Some (l_ID l)"
      using lease_row_Some(6,7) [OF assms(7)] by (cases "l_ParentLeaseID lease") auto
    from assms(6) p(1) show False
    proof (rule check_lineage_parent)
      fix d deleg parent
      assume d: "l_DelegatedByWorkloadID lease = Some d" "l_WorkloadID parent = d"
        and deleg: "select_workload L ''lock delegating workload'' d s = Inr deleg" "w_DisabledAt deleg = None"
        and "select_lease L ''lock parent lease'' p s = Inr parent"
      then have "find_lease s (l_ID l) = Some parent" using p(2) by (auto simp: select_lease_Inr)
      then have "parent \<in> set (db_leases s)" "l_ID parent = l_ID l"
        by (auto simp: find_lease_def dest: find_Some_iff_key)
      then have "parent = l" using distinct_key_inj [OF assms(2)] l(1) by blast
      then have "parse_uuid L d = Some i" using d(2) l(2) assms(1) by (simp add: is_uuid_def)
      then show False using assms(3) no [OF deleg] d(1) p(1) by (auto simp: spares_def)
    qed
  qed
qed

lemma watched_step:
  assumes "is_uuid L i" "watched i ids s" "spares L i op \<or> is_disabled i s"
  shows "watched i ids (run_op L op s)"
    and "k \<in> set (db_leases (run_op L op s)) \<Longrightarrow> l_ID k \<in> ids \<Longrightarrow> \<exists>l \<in> set (db_leases s). keeps_row l k"
proof -
  note w = assms(2) [unfolded watched_def]
  have found: "find_workload (run_op L op s) i \<noteq> None" using w by (intro find_workload_step) simp
  have "watched i ids (run_op L op s)
    \<and> (\<forall>k \<in> set (db_leases (run_op L op s)). l_ID k \<in> ids \<longrightarrow> (\<exists>l \<in> set (db_leases s). keeps_row l k))"
  proof (cases rule: run_op_rows [of L op s])
    case (updated f)
    have key: "l_ID (f l) = l_ID l" for l using updated(2) by (simp add: keeps_row_def)
    have ids: "map l_ID (map f (db_leases s)) = map l_ID (db_leases s)" by (simp add: key)
    have "distinct (map l_ID (map f (db_leases s)))" "ids \<subseteq> l_ID ` set (map f (db_leases s))"
      unfolding set_map [symmetric] ids using w by simp_all
    moreover have "\<forall>k \<in> set (map f (db_leases s)). bound_to i (map f (db_leases s)) k \<longrightarrow> l_ID k \<in> ids"
      using w bound_to_map [of f, OF updated(2)] by (simp add: key)
    moreover have "\<exists>l \<in> set (db_leases s). keeps_row l k" if "k \<in> set (map f (db_leases s))" for k
      using that updated(2) by auto
    ultimately show ?thesis
      using found unfolding watched_def updated(1) by blast
  next
    case (created ctx lease e w' row)
    note new = created_elsewhere [OF assms(1) _ assms(3) [unfolded created(1)] created(3-6)]
    have dist: "distinct (map l_ID (db_leases s))" using w by simp
    have old: "bound_to i (db_leases s @ [row]) k \<longleftrightarrow> bound_to i (db_leases s) k" for k
      using new(1) [OF dist] by (auto simp: bound_to_def)
    have "l_ID row \<notin> ids" using created(7) w by blast
    moreover have "\<exists>l \<in> set (db_leases s). keeps_row l k" if "k \<in> set (db_leases s)" for k
      using that by (intro bexI [of _ k]) simp_all
    ultimately show ?thesis
      using w found new(2) [OF dist] created(7) unfolding watched_def created(2) by (auto simp: old)
  qed
  then show "watched i ids (run_op L op s)"
    "k \<in> set (db_leases (run_op L op s)) \<Longrightarrow> l_ID k \<in> ids \<Longrightarrow> \<exists>l \<in> set (db_leases s). keeps_row l k" by blast+
qed

lemma shut_step:
  assumes "is_uuid L i" "shut i ids s"
  shows "shut i ids (run_op L op s)"
proof -
  have w: "watched i ids s" "spares L i op \<or> is_disabled i s" using assms(2) by (simp_all add: shut_def)
  have "l_RevokedAt k \<noteq> None" if "k \<in> set (db_leases (run_op L op s))" "l_ID k \<in> ids" for k
  proof -
    note k = that
    obtain l where "l \<in> set (db_leases s)" "keeps_row l k" using watched_step(2) [OF assms(1) w k] by blast
    then show ?thesis using assms(2) k(2) by (auto simp: shut_def keeps_row_def)
  qed
  then show ?thesis
    using watched_step(1) [OF assms(1) w] assms(2) is_disabled_step by (simp add: shut_def)
qed

text \<open>Both are stores in the sense of the interface: the one of the operations that spare a workload,
  the other, after it is disabled, of all.\<close>

definition leases_stay :: "db \<Rightarrow> db \<Rightarrow> bool" where
  "leases_stay s t \<longleftrightarrow> l_ID ` set (db_leases s) \<subseteq> l_ID ` set (db_leases t)"

lemma leases_stay_step: "leases_stay s (run_op L op s)"
  by (rule run_op_rows [of L op s]) (auto simp: leases_stay_def keeps_row_def image_image)

lemma leases_stay_trans: "leases_stay s t \<Longrightarrow> leases_stay t u \<Longrightarrow> leases_stay s u"
  by (auto simp: leases_stay_def)

interpretation locked: guarded_store "\<lambda>s. is_uuid L i \<and> watched i ids s" leases_stay "spares L i" "run_op L" for L i ids
proof
  show "leases_stay s s" for s by (simp add: leases_stay_def)
qed (auto intro: watched_step(1) leases_stay_step leases_stay_trans)

interpretation closed: guarded_store "\<lambda>s. is_uuid L i \<and> shut i ids s" leases_stay "\<lambda>_. True" "run_op L" for L i ids
proof
  show "leases_stay s s" for s by (simp add: leases_stay_def)
qed (auto intro: shut_step leases_stay_step leases_stay_trans)

text \<open>The snapshot holds the leases of the workload and those it delegated; the update revokes them.\<close>

lemma snapshot_watched:
  assumes "db_ok L s" "find_workload s i \<noteq> None"
  shows "watched i (set (lineage s (workload_lease_ids s i))) s"
proof -
  let ?ids = "set (lineage s (workload_lease_ids s i))"
  have forest: "forest (db_leases s)" by (rule db_ok_forest [OF assms(1)])
  have held: "l_ID l \<in> ?ids" if "l \<in> set (db_leases s)" "l_WorkloadID l = i" for l
    using lineage_start [OF forest] workload_lease_ids_iff that by blast
  have "d \<in> l_ID ` set (db_leases s)" if "d \<in> ?ids" for d
  proof -
    obtain a n where a: "a \<in> set (workload_lease_ids s i)" "descends (db_leases s) n a d"
      using \<open>d \<in> ?ids\<close> lineage_iff [OF forest] by (auto simp: descendant_def)
    from a(2,1) show ?thesis by cases (auto simp: workload_lease_ids_def)
  qed
  moreover have "l_ID k \<in> ?ids" if "k \<in> set (db_leases s)" "bound_to i (db_leases s) k" for k
    using that held lineage_closed [OF forest that(1)] by (auto simp: bound_to_def)
  moreover have "distinct (map l_ID (db_leases s))"
    using assms(1) by (simp add: db_ok_def lease_table_ok_def)
  ultimately show ?thesis using assms(2) by (auto simp: watched_def)
qed

lemma disabled_shut:
  assumes "is_uuid L i" "watched i (set ids) s0"
    and "s' = log_event e (s0\<lparr>db_workloads := map (\<lambda>w. if w_ID w = i then disabled_row t w else w) (db_workloads s0),
         db_leases := map (revoke_row ids t) (db_leases s0)\<rparr>)"
  shows "shut i (set ids) s'"
proof -
  note w = assms(2) [unfolded watched_def]
  obtain v where v: "find_workload s0 i = Some v" using w by blast
  have "find_workload s' i = Some (if w_ID v = i then disabled_row t v else v)"
    using v find_key_map [of "\<lambda>w. if w_ID w = i then disabled_row t w else w"]
    by (simp add: assms(3) find_workload_def disabled_row_ok(4))
  moreover have "w_ID v = i" using v by (auto simp: find_workload_def dest: find_Some_iff_key)
  ultimately have "is_disabled i s'" using disabled_row_ok(3) [of t v] by (simp add: is_disabled_def)
  moreover have "watched i (set ids) s'"
  proof -
    have "find_workload s' i \<noteq> None" using \<open>is_disabled i s'\<close> by (auto simp: is_disabled_def)
    moreover have "map l_ID (db_leases s') = map l_ID (db_leases s0)" by (simp add: assms(3))
    then have "distinct (map l_ID (db_leases s'))" "set ids \<subseteq> l_ID ` set (db_leases s')"
      unfolding set_map [symmetric] using w by simp_all
    moreover have "\<forall>k \<in> set (db_leases s'). bound_to i (db_leases s') k \<longrightarrow> l_ID k \<in> set ids"
      using w bound_to_map [of "revoke_row ids t"] by (simp add: assms(3))
    ultimately show ?thesis unfolding watched_def by blast
  qed
  moreover have "l_RevokedAt k \<noteq> None" if "k \<in> set (db_leases s')" "l_ID k \<in> set ids" for k
  proof -
    obtain l where "k = revoke_row ids t l" using \<open>k \<in> set (db_leases s')\<close> by (auto simp: assms(3))
    then show ?thesis using that(2) revoke_row_revoked [of ids t l] by simp
  qed
  ultimately show ?thesis by (simp add: shut_def)
qed

lemma disabled_for_good:
  assumes "uuid_canonical L" "db_ok L s" "DisableWorkload_during L ctx given actor t between s = (Inr n, s')"
    and "parse_uuid L given = Some i" "list_all (spares L i) between"
  shows "shut i (set (lineage s (workload_lease_ids s i))) (fold (run_op L) ops s')"
proof -
  let ?ids = "lineage s (workload_lease_ids s i)"
  have uuid: "is_uuid L i" using assms(1,4) by (auto simp: is_uuid_def uuid_canonical_def)
  obtain e where step: "find_workload s i \<noteq> None"
    "s' = log_event e
      ((fold (run_op L) between s)\<lparr>
         db_workloads := map (\<lambda>w. if w_ID w = i then disabled_row t w else w) (db_workloads (fold (run_op L) between s)),
         db_leases := map (revoke_row ?ids t) (db_leases (fold (run_op L) between s))\<rparr>)"
    using assms(3,4) by (auto elim: DisableWorkload_during_Inr)
  have "watched i (set ?ids) (fold (run_op L) between s)"
    using locked.fold_inv [OF conjI [OF uuid snapshot_watched [OF assms(2) step(1)]] assms(5)] by simp
  then have "shut i (set ?ids) s'" by (rule disabled_shut [OF uuid _ step(2)])
  then show ?thesis using closed.fold_inv [of L i "set ?ids" s' ops] uuid by (simp add: list_all_iff)
qed

text \<open>Without other transactions in between, the whole lineage is revoked.\<close>

lemma disabled_lineage:
  assumes "store_ok L s" "DisableWorkload L ctx given actor t s = (Inr n, s')" "parse_uuid L given = Some i"
    and "list_all op_ok ops" "later = fold (run_op L) ops s'"
    and "l \<in> set (db_leases later)" "k \<in> set (db_leases later)" "l_WorkloadID l = i"
    and "descendant (db_leases later) (l_ID l) (l_ID k)"
  shows "l_RevokedAt k \<noteq> None"
proof -
  note stays = disabled_stays [OF assms(1-5)]
  obtain v where v: "find_workload later i = Some v" "w_DisabledAt v \<noteq> None" using stays(2) by blast
  obtain w1 where "w1 \<in> set (db_workloads later)" "w_ID w1 = l_WorkloadID l"
    "w_DisabledAt w1 \<noteq> None \<longrightarrow> l_RevokedAt l \<noteq> None"
    using stays(1) assms(6) unfolding db_ok_def owners_ok_def by meson
  then have "l_RevokedAt l \<noteq> None"
    using v find_workload_iff [OF stays(1), of i w1] assms(8) by auto
  then show ?thesis
    by (rule revoked_later [OF stays(1) db_extends_refl assms(6) _ assms(7,9)])
qed

lemma disabled_refuses:
  assumes "is_disabled i s"
  shows "parse_uuid L (l_WorkloadID lease) = Some i \<Longrightarrow>
      CreateLease L ctx lease event s = (Inl (DomainE ErrUnauthenticated), s)"
    and "l_ParentLeaseID lease = Some p \<Longrightarrow> l_DelegatedByWorkloadID lease = Some d \<Longrightarrow> parse_uuid L d = Some i \<Longrightarrow>
      \<not> ok (fst (CreateLease L ctx lease event s))"
proof -
  obtain v where v: "find_workload s i = Some v" "w_DisabledAt v \<noteq> None" using assms by (auto simp: is_disabled_def)
  show "CreateLease L ctx lease event s = (Inl (DomainE ErrUnauthenticated), s)"
    if "parse_uuid L (l_WorkloadID lease) = Some i"
    using that v by (simp add: CreateLease_def BeginFunc_def create_lease_tx_def select_workload_def)
  show "\<not> ok (fst (CreateLease L ctx lease event s))"
    if "l_ParentLeaseID lease = Some p" "l_DelegatedByWorkloadID lease = Some d" "parse_uuid L d = Some i"
  proof
    assume "ok (fst (CreateLease L ctx lease event s))"
    then obtain u t' where "CreateLease L ctx lease event s = (Inr u, t')"
      by (cases "CreateLease L ctx lease event s") (auto simp: ok_def)
    then have "check_lineage L lease s = Inr ()" by (rule CreateLease_Inr)
    then show False
      using that v by (auto simp: check_lineage_def check_delegator_def select_workload_def)
  qed
qed

subsection \<open>A delegation in between\<close>

text \<open>The second workload holds a lease that it may delegate; while the first is being disabled, it does.\<close>

definition race_child :: Lease where
  "race_child = example_child_row\<lparr>l_MaxDepth := 2, l_MaxUses := 0\<rparr>"

definition race_db :: db where
  "race_db = example_db\<lparr>db_leases := [example_root_row, race_child]\<rparr>"

definition race_lease :: Lease where
  "race_lease = race_child\<lparr>l_ID := ''n'', l_TokenID := ''tn'', l_ParentLeaseID := Some ''c'',
     l_DelegatedByWorkloadID := Some ''w2'', l_Depth := 2, l_TokenHash := replicate 32 (CHR ''c''),
     l_AuthenticatedKeyThumbprint := example_thumbprint (CHR ''j'')\<rparr>"

abbreviation race_row :: Lease where
  "race_row \<equiv> race_lease\<lparr>l_AuthenticatedKeyThumbprint := []\<rparr>"

abbreviation race_delegation :: repo_op where
  "race_delegation \<equiv> OpCreateLease [] race_lease (example_issued\<lparr>e_Actor := ''w2''\<rparr>)"

lemma race_rows [simp]:
  "l_ID race_child = ''c''" "l_WorkloadID race_child = ''w2''" "l_ParentLeaseID race_child = Some ''r''"
  "l_RevokedAt race_child = None" "l_ID race_lease = ''n''" "l_WorkloadID race_lease = ''w2''"
  "l_ParentLeaseID race_lease = Some ''c''" "l_RevokedAt race_lease = None"
  "l_DelegatedByWorkloadID race_lease = Some ''w2''" "l_UsesConsumed race_lease = 0"
  "l_UsesConsumed race_child = 0"
  by (simp_all add: race_child_def race_lease_def)

lemma race_checks: "lease_checks race_child" "lease_checks race_row"
  using example_checks(2)
  by (simp_all add: lease_checks_def race_child_def race_lease_def example_child_row_def)

lemma race_db_ok: "db_ok example_lib race_db"
proof -
  have "lease_row_ok example_lib race_child"
    using race_checks(1) by (simp add: lease_row_ok_def) (simp add: race_child_def example_child_row_def)
  moreover have "lease_link example_root_row race_child"
    by (simp add: lease_link_def) (simp add: race_child_def example_child_row_def example_root_row_def duration_defs)
  ultimately show ?thesis
    using example_store_ok
    by (simp add: race_db_def store_ok_def db_ok_def lease_table_ok_def linked_def revoked_closed_def owners_ok_def
        consumptions_ok_def lease_uses_def)
qed

lemma race_delegated:
  "\<exists>e. run_op example_lib race_delegation race_db
    = log_event e (race_db\<lparr>db_leases := [example_root_row, race_child, race_row]\<rparr>)"
proof -
  have found: "find_lease race_db ''c'' = Some race_child" "find_lease race_db ''r'' = Some example_root_row"
    "find_workload race_db ''w2'' = Some (example_workload ''w2'' ''worker-two'' (CHR ''j''))"
    "find_workload race_db ''w1'' = Some (example_workload ''w1'' ''worker-one'' (CHR ''k''))"
    by (simp_all add: race_db_def find_lease_def find_workload_def)
  have "lockLineage example_lib ''c'' race_db = Inr ()"
    by (simp add: lockLineage_def ancestors_def found) (simp add: race_db_def)
  then have "check_lineage example_lib race_lease race_db = Inr ()"
    by (simp add: check_lineage_def check_delegator_def check_parent_def select_workload_def select_lease_def found)
      (simp add: acceptedWorkloadKey_def race_lease_def race_child_def example_child_row_def example_workload_def duration_defs)
  moreover have "lease_row example_lib race_lease = Some race_row"
    by (simp add: lease_row_def) (simp add: race_lease_def race_child_def example_child_row_def pg_time_def duration_defs)
  then have "insert_lease example_lib race_lease race_db
      = Inr ((), race_db\<lparr>db_leases := [example_root_row, race_child, race_row]\<rparr>)"
    by (simp add: insert_lease_def race_checks lease_references_def found)
      (simp add: race_db_def lease_conflict_def, simp add: race_lease_def race_child_def example_child_row_def
        example_root_row_def find_lease_def find_workload_def)
  moreover have "\<exists>e. insertAuditEvent example_lib [] (example_issued\<lparr>e_Actor := ''w2''\<rparr>)
      (race_db\<lparr>db_leases := [example_root_row, race_child, race_row]\<rparr>)
    = Inr ((), log_event e (race_db\<lparr>db_leases := [example_root_row, race_child, race_row]\<rparr>))"
    by (simp add: insertAuditEvent_def accepts_optional_uuid_def audit_checks_def example_issued_def
        find_workload_def find_lease_def pg_text_def log_event_def Let_def race_db_def) (rule exI, rule refl)
  ultimately show ?thesis
    by (auto simp: CreateLease_def create_lease_tx_def BeginFunc_def select_workload_def found)
qed

subsection \<open>Properties\<close>

text \<open>C26: disabling a workload is final, whatever other transactions commit while it runs. The workload
  stays disabled; the leases it holds, the leases it delegated, and all leases below one of its
  leases at the time of the snapshot stay revoked; and \<open>CreateLease\<close> refuses each lease for it as
  recipient, and each lease it would delegate. A lease that others delegated further below its leases
  after the snapshot escapes, so only when no transaction comes in between is every lease below one of
  its leases revoked, those of later states included.\<close>

theorem disabling_is_final:
  assumes "uuid_canonical L" and "db_ok L s"
    and "DisableWorkload_during L ctx given actor t between s = (Inr n, s')" and "parse_uuid L given = Some i"
    and "list_all (spares L i) between" and "list_all op_ok ops" and "later = fold (run_op L) ops s'"
  shows "(\<exists>w. find_workload later i = Some w \<and> w_DisabledAt w \<noteq> None)
    \<and> (\<forall>k \<in> set (db_leases later). l_WorkloadID k = i \<longrightarrow> l_RevokedAt k \<noteq> None)
    \<and> (\<forall>l \<in> set (db_leases later). \<forall>k \<in> set (db_leases later).
        l_WorkloadID l = i \<longrightarrow> l_ParentLeaseID k = Some (l_ID l) \<longrightarrow> l_RevokedAt k \<noteq> None)
    \<and> (\<forall>l \<in> set (db_leases s). \<forall>k \<in> set (db_leases later).
        l_WorkloadID l = i \<longrightarrow> descendant (db_leases s) (l_ID l) (l_ID k) \<longrightarrow> l_RevokedAt k \<noteq> None)
    \<and> (between = [] \<longrightarrow> (\<forall>l \<in> set (db_leases later). \<forall>k \<in> set (db_leases later).
        l_WorkloadID l = i \<longrightarrow> descendant (db_leases later) (l_ID l) (l_ID k) \<longrightarrow> l_RevokedAt k \<noteq> None))
    \<and> (\<forall>lease. parse_uuid L (l_WorkloadID lease) = Some i \<longrightarrow>
        CreateLease L ctx' lease event later = (Inl (DomainE ErrUnauthenticated), later))
    \<and> (\<forall>lease d p. l_ParentLeaseID lease = Some p \<longrightarrow> l_DelegatedByWorkloadID lease = Some d \<longrightarrow>
        parse_uuid L d = Some i \<longrightarrow> \<not> ok (fst (CreateLease L ctx' lease event later)))"
proof (intro conjI allI impI ballI)
  note shut = disabled_for_good [OF assms(1-5), of ops, folded assms(7)]
  note bound = shut [unfolded shut_def watched_def bound_to_def]
  have disabled: "is_disabled i later" using shut by (simp add: shut_def)
  then show "\<exists>w. find_workload later i = Some w \<and> w_DisabledAt w \<noteq> None" by (simp add: is_disabled_def)
  show "l_RevokedAt k \<noteq> None" if "k \<in> set (db_leases later)" "l_WorkloadID k = i" for k
    using bound that by blast
  show "l_RevokedAt k \<noteq> None" if "l \<in> set (db_leases later)" "k \<in> set (db_leases later)" "l_WorkloadID l = i"
    "l_ParentLeaseID k = Some (l_ID l)" for l k
    using bound that by blast
  show "l_RevokedAt k \<noteq> None" if "l \<in> set (db_leases s)" "k \<in> set (db_leases later)" "l_WorkloadID l = i"
    "descendant (db_leases s) (l_ID l) (l_ID k)" for l k
  proof -
    have "l_ID k \<in> set (lineage s (workload_lease_ids s i))"
      using lineage_iff [OF db_ok_forest [OF assms(2)]] workload_lease_ids_iff [OF that(1,3)] that(4) by blast
    then show ?thesis using bound that(2) by blast
  qed
  show "l_RevokedAt k \<noteq> None" if "between = []" "l \<in> set (db_leases later)" "k \<in> set (db_leases later)"
    "l_WorkloadID l = i" "descendant (db_leases later) (l_ID l) (l_ID k)" for l k
    using disabled_lineage [of L s, OF _ _ assms(4,6,7)] assms(1-3) that
    by (simp add: DisableWorkload_during_nothing store_ok_def)
  show "CreateLease L ctx' lease event later = (Inl (DomainE ErrUnauthenticated), later)"
    if "parse_uuid L (l_WorkloadID lease) = Some i" for lease
    by (rule disabled_refuses(1) [OF disabled that])
  show "\<not> ok (fst (CreateLease L ctx' lease event later))"
    if "l_ParentLeaseID lease = Some p" "l_DelegatedByWorkloadID lease = Some d" "parse_uuid L d = Some i" for lease d p
    by (rule disabled_refuses(2) [OF disabled that])
qed

lemma race_run:
  "\<exists>s'. DisableWorkload_during example_lib [] ''w1'' ''revoker'' second [race_delegation] race_db = (Inr 2, s')
    \<and> db_leases s' = [revoke_row [''r'', ''c''] second example_root_row, revoke_row [''r'', ''c''] second race_child, race_row]"
proof -
  obtain e where e: "run_op example_lib race_delegation race_db
      = log_event e (race_db\<lparr>db_leases := [example_root_row, race_child, race_row]\<rparr>)"
    using race_delegated by blast
  have "lineage race_db (workload_lease_ids race_db ''w1'') = [''r'', ''c'']"
    by (simp add: race_db_def workload_lease_ids_def lineage_def children_ids_def)
  then show ?thesis
    by (simp add: DisableWorkload_during_def disable_workload_during_tx_def e del: run_op.simps)
      (simp add: race_db_def find_workload_def update_workloads_def revoke_rows_def revocable_def revoke_row_def
        insertAuditEvent_def accepts_optional_uuid_def audit_checks_def pg_text_def Let_def log_event_def)
qed

text \<open>The escape. While the first workload is disabled, the second delegates a lease below those of the
  first; the lease stays live although both leases above it are revoked.\<close>

theorem disabling_race:
  "\<exists>s'. DisableWorkload_during example_lib [] ''w1'' ''revoker'' second [race_delegation] race_db = (Inr 2, s')
    \<and> spares example_lib ''w1'' race_delegation
    \<and> (\<exists>k \<in> set (db_leases s'). l_ID k = ''n'' \<and> l_RevokedAt k = None \<and> descendant (db_leases s') ''r'' ''n'')
    \<and> (\<forall>k \<in> set (db_leases s'). l_ID k \<noteq> ''n'' \<longrightarrow> l_RevokedAt k \<noteq> None)"
proof -
  obtain s' where s': "DisableWorkload_during example_lib [] ''w1'' ''revoker'' second [race_delegation] race_db = (Inr 2, s')"
    "db_leases s' = [revoke_row [''r'', ''c''] second example_root_row, revoke_row [''r'', ''c''] second race_child, race_row]"
    using race_run by blast
  have "descendant (db_leases s') ''r'' (l_ID (revoke_row [''r'', ''c''] second race_child))"
    by (rule descendant_child [OF descendant_self]) (simp_all add: s'(2))
  then have "descendant (db_leases s') ''r'' (l_ID race_row)"
    by (rule descendant_child) (simp_all add: s'(2))
  moreover have "spares example_lib ''w1'' race_delegation" by (simp add: spares_def op_ok_def)
  ultimately show ?thesis using s' by (simp add: revoke_row_revoked del: not_None_eq)
qed

theorem disabling_is_final_witness:
  "\<exists>s'. fst (DisableWorkload_during example_lib [] ''w1'' ''revoker'' second [race_delegation] race_db) = Inr 2
    \<and> s' = snd (DisableWorkload_during example_lib [] ''w1'' ''revoker'' second [race_delegation] race_db)
    \<and> (\<exists>w. find_workload s' ''w1'' = Some w \<and> w_DisabledAt w \<noteq> None)
    \<and> CreateLease example_lib [] (example_root_row\<lparr>l_ID := ''r2'', l_RootLeaseID := ''r2''\<rparr>) example_issued s'
      = (Inl (DomainE ErrUnauthenticated), s')"
proof -
  obtain s' where s': "DisableWorkload_during example_lib [] ''w1'' ''revoker'' second [race_delegation] race_db = (Inr 2, s')"
    using race_run by blast
  have "uuid_canonical example_lib" "parse_uuid example_lib ''w1'' = Some ''w1''"
    using example_store_ok by (simp_all add: store_ok_def)
  moreover have "list_all (spares example_lib ''w1'') [race_delegation]" by (simp add: spares_def op_ok_def)
  ultimately have "(\<exists>w. find_workload s' ''w1'' = Some w \<and> w_DisabledAt w \<noteq> None)
    \<and> CreateLease example_lib [] (example_root_row\<lparr>l_ID := ''r2'', l_RootLeaseID := ''r2''\<rparr>) example_issued s'
      = (Inl (DomainE ErrUnauthenticated), s')"
    using disabling_is_final [OF _ race_db_ok s', of "''w1''" "[]" s' "[]" example_issued] by simp
  then show ?thesis using s' by simp
qed

end
