(* ===== verification/Json_Text.thy ===== *)
theory Json_Text
  imports Json Base64
begin

section \<open>Documents that parse back\<close>

text \<open>
  The compact text of a JSON value, and the fact that the model of \<open>encoding/json\<close> reads it back:
  on the documents the program writes, texts without characters to escape and integers in
  decimal, the fuel of the parser is enough.
\<close>

subsection \<open>The text of a value\<close>

definition plain_text_char :: "char \<Rightarrow> bool" where
  "plain_text_char c \<longleftrightarrow> 0x20 \<le> byte c \<and> byte c < 0x80 \<and> c \<noteq> CHR 0x22 \<and> c \<noteq> CHR 0x5C"

abbreviation plain_text :: "bytes \<Rightarrow> bool" where
  "plain_text s \<equiv> list_all plain_text_char s"

text \<open>An unsigned decimal integer without leading zeros.\<close>

definition plain_number :: "bytes \<Rightarrow> bool" where
  "plain_number t \<longleftrightarrow> t = ''0'' \<or> t \<noteq> [] \<and> hd t \<noteq> CHR ''0'' \<and> list_all is_digit t"

fun json_text :: "json \<Rightarrow> bytes"
  and members_text :: "(bytes \<times> json) list \<Rightarrow> bytes"
  and elements_text :: "json list \<Rightarrow> bytes" where
  "json_text JNull = ''null''"
| "json_text (JBool b) = (if b then ''true'' else ''false'')"
| "json_text (JNumber t) = t"
| "json_text (JString s) = CHR 0x22 # s @ [CHR 0x22]"
| "json_text (JArray vs) = CHR ''['' # (case vs of [] \<Rightarrow> [CHR '']''] | _ \<Rightarrow> elements_text vs)"
| "json_text (JObject ms) = CHR ''{'' # (case ms of [] \<Rightarrow> [CHR ''}''] | _ \<Rightarrow> members_text ms)"
| "members_text [] = []"
| "members_text ((k, v) # ms) = CHR 0x22 # k @ CHR 0x22 # CHR '':'' # json_text v
     @ (case ms of [] \<Rightarrow> [CHR ''}''] | _ \<Rightarrow> CHR '','' # members_text ms)"
| "elements_text [] = []"
| "elements_text (v # vs) = json_text v @ (case vs of [] \<Rightarrow> [CHR '']''] | _ \<Rightarrow> CHR '','' # elements_text vs)"

text \<open>Plain values: no text needs an escape, numbers are integers, nesting within \<open>d\<close>.\<close>

fun plain_json :: "nat \<Rightarrow> json \<Rightarrow> bool" where
  "plain_json d JNull = True"
| "plain_json d (JBool b) = True"
| "plain_json d (JNumber t) = plain_number t"
| "plain_json d (JString s) = plain_text s"
| "plain_json d (JArray vs) = (0 < d \<and> list_all (plain_json (d - 1)) vs)"
| "plain_json d (JObject ms) = (0 < d \<and> list_all (\<lambda>m. plain_text (fst m) \<and> plain_json (d - 1) (snd m)) ms)"

text \<open>What may follow a value: nothing, or a character that ends it.\<close>

definition ends_value :: "bytes \<Rightarrow> bool" where
  "ends_value s \<longleftrightarrow> s = [] \<or> hd s \<in> set '',]}''"

subsection \<open>Reading it back\<close>

lemma quoted_plain: "plain_text s \<Longrightarrow> quoted (s @ CHR 0x22 # rest) = Some (s, rest)"
  by (induction s) (simp_all add: plain_text_char_def prepend_def)

lemma digits_of_plain:
  assumes "list_all is_digit t" "ends_value rest"
  shows "digits_of (t @ rest) = (t, rest)"
proof -
  have stop: "takeWhile is_digit rest = []" "dropWhile is_digit rest = rest"
    using assms(2) by (cases rest; auto simp: ends_value_def is_digit_def)+
  show ?thesis
    using assms(1) stop
    by (simp add: digits_of_def takeWhile_append2 dropWhile_append2 list_all_iff)
qed

lemma number_plain:
  assumes "plain_number t" "ends_value rest"
  shows "number (t @ rest) = Some (t, rest)" "t \<noteq> []" "is_digit (hd t)"
proof -
  show "t \<noteq> []" "is_digit (hd t)"
    using assms(1) by (cases t; auto simp: plain_number_def is_digit_def)+
  have stops: "fraction_part rest = Some ([], rest)" "exponent_part rest = Some ([], rest)"
    using assms(2) by (cases rest; auto simp: ends_value_def fraction_part_def exponent_part_def)+
  obtain c t' where t: "t = c # t'" using \<open>t \<noteq> []\<close> by (cases t) auto
  have "integer_part (t @ rest) = Some (t, rest)"
    using assms(1) digits_of_plain [OF _ assms(2), of t]
    by (auto simp: integer_part_def plain_number_def t)
  moreover have "c \<noteq> CHR ''-''" using \<open>is_digit (hd t)\<close> by (auto simp: t is_digit_def)
  ultimately show "number (t @ rest) = Some (t, rest)"
    using stops by (simp add: number_def t)
qed

lemma skip_space_plain [simp]:
  "c \<in> set ''{[tfn,]}:'' \<or> c = CHR 0x22 \<or> is_digit c \<Longrightarrow> skip_space (c # s) = c # s"
  by (auto simp: skip_space_def json_space_def is_digit_def)

lemma json_text_head:
  assumes "plain_json d v"
  obtains c s where "json_text v = c # s" "c \<in> set ''{[tfn'' \<or> c = CHR 0x22 \<or> is_digit c"
  using assms
proof (cases v)
  case (JNumber t)
  then have "t \<noteq> []" "is_digit (hd t)"
    using assms number_plain(2,3) [of t "[]"] by (simp_all add: ends_value_def)
  then show thesis using that [of "hd t" "tl t"] JNumber by simp
next
  case (JBool b)
  then show thesis using that by (cases b) auto
qed auto

lemma json_value_text:
  "plain_json d v \<Longrightarrow> ends_value rest \<Longrightarrow> length (json_text v) < fuel \<Longrightarrow>
     json_value fuel d (json_text v @ rest) = Some (v, rest)"
  "list_all (\<lambda>m. plain_text (fst m) \<and> plain_json d (snd m)) ms \<Longrightarrow> ms \<noteq> [] \<Longrightarrow> length (members_text ms) \<le> fuel \<Longrightarrow>
     json_members fuel d (members_text ms @ rest) = Some (ms, rest)"
  "list_all (plain_json d) vs \<Longrightarrow> vs \<noteq> [] \<Longrightarrow> length (elements_text vs) < fuel \<Longrightarrow>
     json_elements fuel d (elements_text vs @ rest) = Some (vs, rest)"
proof (induction v and ms and vs arbitrary: d fuel rest and d fuel rest and d fuel rest
    rule: json_text_members_text_elements_text.induct)
  case (1 d)
  then show ?case by (cases fuel) (simp_all add: has_prefix_def)
next
  case (2 b)
  then show ?case by (cases fuel) (simp_all add: has_prefix_def)
next
  case (3 t)
  then obtain f where f: "fuel = Suc f" by (cases fuel) auto
  note n = number_plain [of t, OF _ 3(2)]
  obtain c t' where t: "t = c # t'" "is_digit c" using n(2,3) 3 by (cases t) auto
  then have "c \<notin> set ''{[tfn'' \<and> c \<noteq> CHR 0x22" by (auto simp: is_digit_def)
  then show ?case using 3 n(1) t f by (auto simp: has_prefix_def)
next
  case (4 s)
  then obtain f where "fuel = Suc f" by (cases fuel) auto
  then show ?case using 4 quoted_plain [of s rest] by simp
next
  case (5 vs)
  then obtain f where f: "fuel = Suc f" by (cases fuel) auto
  show ?case
  proof (cases vs)
    case Nil
    then show ?thesis using 5 f by simp
  next
    case (Cons v vs')
    have "json_elements f (d - 1) (elements_text vs @ rest) = Some (vs, rest)"
      using 5 f Cons by simp
    moreover have "plain_json (d - 1) v" using 5(2) Cons by simp
    then obtain c s where cs: "json_text v = c # s" "c \<in> set ''{[tfn'' \<or> c = CHR 0x22 \<or> is_digit c"
      by (rule json_text_head)
    then have "skip_space (c # r) = c # r" "c \<noteq> CHR '']''" for r
      by (auto simp: is_digit_def)
    moreover obtain s' where "elements_text vs @ rest = c # s'" using cs(1) Cons by simp
    ultimately show ?thesis using 5(2) f Cons by simp
  qed
next
  case (6 ms)
  then obtain f where f: "fuel = Suc f" by (cases fuel) auto
  show ?case
  proof (cases ms)
    case Nil
    then show ?thesis using 6 f by simp
  next
    case (Cons m ms')
    have "json_members f (d - 1) (members_text ms @ rest) = Some (ms, rest)"
      using 6 f Cons by simp
    moreover obtain s where "members_text ms @ rest = CHR 0x22 # s"
      using Cons by (cases m) simp
    ultimately show ?thesis using 6(2) f Cons by simp
  qed
next
  case (8 k v ms)
  then obtain f where f: "fuel = Suc f" by (cases fuel) auto
  let ?tail = "(case ms of [] \<Rightarrow> [CHR ''}''] | _ \<Rightarrow> CHR '','' # members_text ms) @ rest"
  have tail: "ends_value ?tail" by (cases ms) (simp_all add: ends_value_def)
  have v: "json_value f d (json_text v @ ?tail) = Some (v, ?tail)"
    using 8 f tail by (cases ms) simp_all
  have k: "quoted (k @ CHR 0x22 # CHR '':'' # json_text v @ ?tail) = Some (k, CHR '':'' # json_text v @ ?tail)"
    using 8(3) quoted_plain by simp
  show ?case
  proof (cases ms)
    case Nil
    then show ?thesis using k v f by simp
  next
    case (Cons m ms')
    then have "json_members f d (members_text ms @ rest) = Some (ms, rest)"
      using 8 f by simp
    then show ?thesis using k v f Cons by simp
  qed
next
  case (10 v vs)
  then obtain f where f: "fuel = Suc f" by (cases fuel) auto
  let ?tail = "(case vs of [] \<Rightarrow> [CHR '']''] | _ \<Rightarrow> CHR '','' # elements_text vs) @ rest"
  have tail: "ends_value ?tail" by (cases vs) (simp_all add: ends_value_def)
  have v: "json_value f d (json_text v @ ?tail) = Some (v, ?tail)"
    using 10 f tail by (cases vs) simp_all
  show ?case
  proof (cases vs)
    case Nil
    then show ?thesis using v f by simp
  next
    case (Cons m ms')
    then have "json_elements f d (elements_text vs @ rest) = Some (vs, rest)"
      using 10 f by simp
    then show ?thesis using v f Cons by simp
  qed
qed simp_all

lemma json_unmarshal_text:
  assumes "plain_json max_nesting_depth v"
  shows "json_unmarshal (json_text v) = Some v"
  using json_value_text(1) [OF assms, of "[]" "2 * length (json_text v) + 2"]
  by (simp add: json_unmarshal_def ends_value_def skip_space_def del: json_value.simps)

lemma raw_url_encode_plain [simp]: "plain_text (raw_url_encode s)"
proof -
  have "list_all plain_text_char url_alphabet"
    by (simp add: url_alphabet_def plain_text_char_def)
  then show ?thesis
    using set_b64_encode [OF url_alphabet_facts(2), of s] by (auto simp: raw_url_encode_def list_all_iff)
qed

end
