(* ===== verification/Pop.thy ===== *)
theory Pop
  imports Token Json_Text
begin

section \<open>Proofs of possession\<close>

text \<open>
  \<open>sdk/go/pop/pop.go\<close>: the proof a client signs for one request (\<open>Sign\<close>) and the check a resource
  server makes of it (\<open>Verify\<close>). A proof is a compact JWT whose header carries the public key
  and whose claims name the method, the address and a hash of the access token.

  Three libraries are arguments of the model, fields of \<open>web_lib\<close>: the parser and the printer of
  \<open>net/url\<close>, and the signing and parsing of proofs by the JWT library. The texts of a proof are
  decoded with the model of \<open>encoding/json\<close>.
\<close>

subsection \<open>Data\<close>

definition TokenType :: bytes where
  "TokenType = ''dpop+jwt''"

definition MaxProofBytes :: nat where
  "MaxProofBytes = 8 * 1024"

record JSONWebKey =
  jwk_KeyType :: bytes
  jwk_Curve :: bytes
  jwk_X :: bytes

record ProofClaims =
  pc_HTTPMethod :: bytes
  pc_HTTPURI :: bytes
  pc_AccessHash :: bytes
  pc_IssuedAt :: "instant option"
  pc_ID :: bytes

record VerifiedProof =
  vp_ID :: bytes
  vp_Thumbprint :: bytes
  vp_ReplayExpiry :: instant

text \<open>The fields of a \<open>url.URL\<close>.\<close>

record url =
  u_Scheme :: bytes
  u_Opaque :: bytes
  u_User :: "bytes option"
  u_Host :: bytes
  u_Path :: bytes
  u_RawPath :: bytes
  u_OmitHost :: bool
  u_ForceQuery :: bool
  u_RawQuery :: bytes
  u_Fragment :: bytes
  u_RawFragment :: bytes

text \<open>
  \<open>proof_sign\<close> is \<open>SignedString\<close> of a token with the given key in its header, and \<open>proof_parse\<close> is
  \<open>jwt.ParseWithClaims\<close> at an instant, with the key the callback answers and the options of
  \<open>Verify\<close>: the method EdDSA only, a check of \<open>iat\<close>, strict decoding.
\<close>

record web_lib =
  auth :: auth_lib
  parse_request_uri :: "bytes \<Rightarrow> url option"
  url_string :: "url \<Rightarrow> bytes"
  proof_sign :: "JSONWebKey \<Rightarrow> ProofClaims \<Rightarrow> bytes \<Rightarrow> bytes result"
  proof_parse :: "instant \<Rightarrow> bytes \<Rightarrow> bytes \<Rightarrow> ProofClaims option"

subsection \<open>Operations\<close>

definition canonicalURI :: "web_lib \<Rightarrow> bytes \<Rightarrow> bytes result" where
  "canonicalURI W value =
    (case parse_request_uri W value of
       None \<Rightarrow> Inl (SdkE ErrInvalidProof)
     | Some parsed \<Rightarrow>
         if u_Scheme parsed = [] \<or> u_Host parsed = [] \<or> u_User parsed \<noteq> None \<or> u_Fragment parsed \<noteq> []
         then Inl (SdkE ErrInvalidProof)
         else Inr (url_string W (parsed\<lparr>u_Scheme := to_lower (unicode (auth W)) (u_Scheme parsed),
           u_Host := to_lower (unicode (auth W)) (u_Host parsed), u_RawQuery := [], u_Fragment := [],
           u_Path := (if u_Path parsed = [] then ''/'' else u_Path parsed)\<rparr>)))"

text \<open>A document is refused when it is not JSON, here or by the decoding that follows in
  \<open>strictParts\<close>, or when an object in it names a member twice.\<close>

definition rejectDuplicateKeys :: "bytes \<Rightarrow> unit result" where
  "rejectDuplicateKeys data =
    (case json_unmarshal data of
       None \<Rightarrow> Inl (SdkE ErrInvalidProof)
     | Some value \<Rightarrow> if distinct_keys value then Inr () else Inl (SdkE ErrInvalidProof))"

definition strictParts :: "bytes \<Rightarrow> ((bytes, json) fmap \<times> (bytes, json) fmap) result" where
  "strictParts raw =
    (case split_on CHR ''.'' raw of
       [part0, part1, part2] \<Rightarrow>
         (if part0 = [] \<or> part1 = [] \<or> part2 = [] then Inl (SdkE ErrInvalidProof)
          else case raw_url_decode part0 of
            None \<Rightarrow> Inl (Opaque ''illegal base64 data'')
          | Some headerBytes \<Rightarrow>
          (case raw_url_decode part1 of
            None \<Rightarrow> Inl (Opaque ''illegal base64 data'')
          | Some payloadBytes \<Rightarrow>
            if \<not> ok (rejectDuplicateKeys headerBytes) \<or> \<not> ok (rejectDuplicateKeys payloadBytes)
            then Inl (SdkE ErrInvalidProof)
            else case (unmarshal_object headerBytes, unmarshal_object payloadBytes) of
              (Some header, Some payload) \<Rightarrow>
                if \<not> fmpred (\<lambda>name _. name \<in> set [''alg'', ''typ'', ''jwk'']) header
                then Inl (SdkE ErrInvalidProof)
                else if \<not> fmpred (\<lambda>name _. name \<in> set [''htm'', ''htu'', ''ath'', ''iat'', ''jti'']) payload
                then Inl (SdkE ErrInvalidProof)
                else Inr (header, payload)
            | _ \<Rightarrow> Inl (SdkE ErrInvalidProof)))
     | _ \<Rightarrow> Inl (SdkE ErrInvalidProof))"

text \<open>The key of the header: an object with exactly the three members of an Ed25519 key.\<close>

definition header_key :: "(bytes, json) fmap \<Rightarrow> bytes option" where
  "header_key header =
    (case member_object header ''jwk'' of
       None \<Rightarrow> None
     | Some rawKey \<Rightarrow>
         if fmlen rawKey \<noteq> 3 \<or> list_ex (\<lambda>required. fmlookup rawKey required = None) [''kty'', ''crv'', ''x'']
         then None
         else case (member_string rawKey ''kty'', member_string rawKey ''crv'', member_string rawKey ''x'') of
           (Some kty, Some crv, Some x) \<Rightarrow>
             if kty \<noteq> ''OKP'' \<or> crv \<noteq> ''Ed25519'' then None
             else (case raw_url_decode x of
               None \<Rightarrow> None
             | Some decoded \<Rightarrow> if length decoded \<noteq> PublicKeySize then None else Some decoded)
         | _ \<Rightarrow> None)"

definition access_hash :: "auth_lib \<Rightarrow> bytes \<Rightarrow> bytes" where
  "access_hash L accessToken = raw_url_encode (sha256 L accessToken)"

definition Sign :: "web_lib \<Rightarrow> bytes option \<Rightarrow> bytes \<Rightarrow> bytes \<Rightarrow> bytes \<Rightarrow> bytes \<Rightarrow> instant \<Rightarrow> bytes result" where
  "Sign W random privateKey method target accessToken now =
    (if length privateKey \<noteq> PrivateKeySize \<or> method = [] \<or> accessToken = []
     then Inl (SdkE ErrInvalidProof)
     else case canonicalURI W target of
       Inl err \<Rightarrow> Inl err
     | Inr canonicalTarget \<Rightarrow>
     (case random of
       None \<Rightarrow> Inl (Wrapped ''generate proof id'' [Opaque ''rand''])
     | Some identifier \<Rightarrow>
         case proof_sign W
             \<lparr>jwk_KeyType = ''OKP'', jwk_Curve = ''Ed25519'', jwk_X = raw_url_encode (Public privateKey)\<rparr>
             \<lparr>pc_HTTPMethod = to_upper (unicode (auth W)) method, pc_HTTPURI = canonicalTarget,
              pc_AccessHash = access_hash (auth W) accessToken, pc_IssuedAt = Some (trunc_second now),
              pc_ID = raw_url_encode identifier\<rparr> privateKey of
           Inl err \<Rightarrow> Inl (Wrapped ''sign proof'' [err])
         | Inr signed_token \<Rightarrow> Inr signed_token))"

text \<open>The checks of \<open>Verify\<close> on the claims of a parsed proof.\<close>

definition check_proof ::
    "web_lib \<Rightarrow> ProofClaims \<Rightarrow> bytes \<Rightarrow> bytes \<Rightarrow> bytes \<Rightarrow> bytes \<Rightarrow> instant \<Rightarrow> duration \<Rightarrow> VerifiedProof result" where
  "check_proof W claims method target accessToken thumbprint now window =
    (case pc_IssuedAt claims of
       None \<Rightarrow> Inl (SdkE ErrInvalidProof)
     | Some issuedAt \<Rightarrow>
     if pc_ID claims = [] \<or> length (pc_ID claims) > 128 then Inl (SdkE ErrInvalidProof)
     else case canonicalURI W target of
       Inl _ \<Rightarrow> Inl (SdkE ErrInvalidProof)
     | Inr canonicalTarget \<Rightarrow>
     if pc_HTTPMethod claims \<noteq> to_upper (unicode (auth W)) method \<or> pc_HTTPURI claims \<noteq> canonicalTarget
     then Inl (SdkE ErrInvalidProof)
     else if time_sub now issuedAt < - window \<or> time_sub now issuedAt > window
     then Inl (SdkE ErrInvalidProof)
     else if pc_AccessHash claims \<noteq> access_hash (auth W) accessToken then Inl (SdkE ErrInvalidProof)
     else Inr \<lparr>vp_ID = pc_ID claims, vp_Thumbprint = thumbprint,
       vp_ReplayExpiry = issuedAt + window + second\<rparr>)"

definition Verify ::
    "web_lib \<Rightarrow> instant \<Rightarrow> bytes \<Rightarrow> bytes \<Rightarrow> bytes \<Rightarrow> bytes \<Rightarrow> bytes \<Rightarrow> instant \<Rightarrow> duration
      \<Rightarrow> VerifiedProof result" where
  "Verify W jwt_now raw method target accessToken expectedThumbprint now window =
    (if length raw = 0 \<or> length raw > MaxProofBytes \<or> method = [] \<or> accessToken = []
        \<or> length expectedThumbprint \<noteq> 43 \<or> window \<le> 0 \<or> window > minute
     then Inl (SdkE ErrInvalidProof)
     else case strictParts raw of
       Inl _ \<Rightarrow> Inl (SdkE ErrInvalidProof)
     | Inr (header, payload) \<Rightarrow>
     if fmlen header \<noteq> 3 \<or> fmlen payload \<noteq> 5 then Inl (SdkE ErrInvalidProof)
     else if member_string header ''alg'' \<noteq> Some ''EdDSA'' \<or> member_string header ''typ'' \<noteq> Some TokenType
     then Inl (SdkE ErrInvalidProof)
     else case header_key header of
       None \<Rightarrow> Inl (SdkE ErrInvalidProof)
     | Some publicKey \<Rightarrow>
     (case JWKThumbprint (auth W) publicKey of
       Inl _ \<Rightarrow> Inl (SdkE ErrInvalidProof)
     | Inr thumbprint \<Rightarrow>
     if thumbprint \<noteq> expectedThumbprint then Inl (SdkE ErrInvalidProof)
     else case proof_parse W jwt_now raw publicKey of
       None \<Rightarrow> Inl (SdkE ErrInvalidProof)
     | Some claims \<Rightarrow> check_proof W claims method target accessToken thumbprint now window))"

subsection \<open>What the libraries promise\<close>

definition proof_signed :: "auth_lib \<Rightarrow> bytes \<Rightarrow> bytes \<Rightarrow> bool" where
  "proof_signed L raw key \<longleftrightarrow>
    (\<exists>part0 part1 part2 sig. split_on CHR ''.'' raw = [part0, part1, part2]
      \<and> raw_url_decode part2 = Some sig \<and> ed25519_verify L key (part0 @ ''.'' @ part1) sig)"

text \<open>
  What \<open>jwt.ParseWithClaims\<close> documents of a proof it accepts: its signature verifies under the key,
  its claims are decoded from the second part, and it was not issued after the instant of the
  check.
\<close>

definition proofs_sound :: "web_lib \<Rightarrow> bool" where
  "proofs_sound W \<longleftrightarrow>
    (\<exists>decode. \<forall>now raw key claims. proof_parse W now raw key = Some claims \<longrightarrow>
       proof_signed (auth W) raw key \<and> claims = decode (split_on CHR ''.'' raw ! 1)
       \<and> (\<forall>t. pc_IssuedAt claims = Some t \<longrightarrow> t \<le> now))"

text \<open>The members a JWT library writes for a key and for claims.\<close>

definition header_json :: "JSONWebKey \<Rightarrow> json" where
  "header_json key = JObject
     [(''alg'', JString ''EdDSA''),
      (''jwk'', JObject [(''kty'', JString (jwk_KeyType key)), (''crv'', JString (jwk_Curve key)),
         (''x'', JString (jwk_X key))]),
      (''typ'', JString TokenType)]"

definition payload_json :: "ProofClaims \<Rightarrow> bytes \<Rightarrow> json" where
  "payload_json claims digits = JObject
     [(''htm'', JString (pc_HTTPMethod claims)), (''htu'', JString (pc_HTTPURI claims)),
      (''ath'', JString (pc_AccessHash claims)), (''iat'', JNumber digits), (''jti'', JString (pc_ID claims))]"

definition encodes_proof :: "bytes \<Rightarrow> JSONWebKey \<Rightarrow> ProofClaims \<Rightarrow> bool" where
  "encodes_proof raw key claims \<longleftrightarrow>
    (\<exists>part0 part1 part2 headerBytes payloadBytes digits.
      split_on CHR ''.'' raw = [part0, part1, part2] \<and> part0 \<noteq> [] \<and> part1 \<noteq> [] \<and> part2 \<noteq> []
      \<and> raw_url_decode part0 = Some headerBytes \<and> raw_url_decode part1 = Some payloadBytes
      \<and> json_unmarshal headerBytes = Some (header_json key)
      \<and> json_unmarshal payloadBytes = Some (payload_json claims digits))"

text \<open>
  What signing documents: the text encodes the key and the claims, when these are ASCII, and parses
  back to them under the public key from the instant of issue on.
\<close>

definition signing_sound :: "web_lib \<Rightarrow> bool" where
  "signing_sound W \<longleftrightarrow>
    (\<forall>key claims privateKey raw.
      proof_sign W key claims privateKey = Inr raw \<and> ascii (pc_HTTPMethod claims) \<and> ascii (pc_HTTPURI claims) \<longrightarrow>
      encodes_proof raw key claims
      \<and> (\<forall>now t. pc_IssuedAt claims = Some t \<and> t \<le> now \<longrightarrow>
           proof_parse W now raw (Public privateKey) = Some claims))"

subsection \<open>Lemmas\<close>

lemma check_proof_Inr:
  "check_proof W claims method target token thumbprint now window = Inr v \<longleftrightarrow>
   (\<exists>t. pc_IssuedAt claims = Some t \<and> pc_ID claims \<noteq> [] \<and> length (pc_ID claims) \<le> 128
     \<and> canonicalURI W target = Inr (pc_HTTPURI claims) \<and> pc_HTTPMethod claims = to_upper (unicode (auth W)) method
     \<and> - window \<le> time_sub now t \<and> time_sub now t \<le> window
     \<and> pc_AccessHash claims = access_hash (auth W) token
     \<and> v = \<lparr>vp_ID = pc_ID claims, vp_Thumbprint = thumbprint, vp_ReplayExpiry = t + window + second\<rparr>)"
  unfolding check_proof_def
  by (cases "pc_IssuedAt claims"; cases "canonicalURI W target") auto

lemma Verify_Inr:
  assumes "Verify W jwt_now raw method target token expected now window = Inr v"
  obtains key claims where "JWKThumbprint (auth W) key = Inr expected" "proof_parse W jwt_now raw key = Some claims"
    "check_proof W claims method target token expected now window = Inr v"
    "0 < window" "window \<le> minute" "method \<noteq> []" "token \<noteq> []"
  using assms
  by (auto simp: Verify_def not_less not_le split: sum.splits prod.splits option.splits if_splits)

lemma window_bounds:
  assumes "- window \<le> time_sub now t" "time_sub now t \<le> window" "0 < window" "window \<le> minute"
  shows "\<bar>now - t\<bar> \<le> window"
  using assms time_sub_le_iff [of window now t] time_sub_ge_iff [of "- window" now t]
  by (simp add: duration_defs abs_le_iff)

text \<open>A proof that verified once is, while its window lasts, before its replay expiry.\<close>

lemma verified_before_expiry:
  assumes "proofs_sound W"
    and "Verify W j1 raw m1 u1 k1 expected now1 window = Inr v1"
    and "Verify W j2 raw m2 u2 k2 expected now2 window = Inr v2"
  shows "now2 + second \<le> vp_ReplayExpiry v1" "vp_ID v1 = vp_ID v2" "vp_ReplayExpiry v1 = vp_ReplayExpiry v2"
proof -
  obtain key1 c1 where v1: "proof_parse W j1 raw key1 = Some c1"
    "check_proof W c1 m1 u1 k1 expected now1 window = Inr v1"
    using assms(2) by (rule Verify_Inr)
  obtain key2 c2 where v2: "proof_parse W j2 raw key2 = Some c2"
    "check_proof W c2 m2 u2 k2 expected now2 window = Inr v2" "0 < window" "window \<le> minute"
    using assms(3) by (rule Verify_Inr)
  have "c1 = c2" using assms(1) v1(1) v2(1) unfolding proofs_sound_def by metis
  then obtain t where t: "pc_IssuedAt c1 = Some t" "vp_ReplayExpiry v1 = t + window + second"
    "vp_ReplayExpiry v2 = t + window + second" "vp_ID v1 = vp_ID v2"
    "- window \<le> time_sub now2 t" "time_sub now2 t \<le> window"
    using v1(2) v2(2) by (auto simp: check_proof_Inr)
  show "now2 + second \<le> vp_ReplayExpiry v1"
    using window_bounds [OF t(5,6) v2(3,4)] t(2) by linarith
  show "vp_ID v1 = vp_ID v2" "vp_ReplayExpiry v1 = vp_ReplayExpiry v2" using t by simp_all
qed

lemma encoded_parts:
  assumes "encodes_proof raw key claims"
  obtains header payload where "strictParts raw = Inr (header, payload)" "fmlen header = 3" "fmlen payload = 5"
    "member_string header ''alg'' = Some ''EdDSA''" "member_string header ''typ'' = Some TokenType"
    "member_object header ''jwk'' = Some (fmap_of_list [(''x'', JString (jwk_X key)),
       (''crv'', JString (jwk_Curve key)), (''kty'', JString (jwk_KeyType key))])"
proof -
  let ?jwk = "[(''kty'', JString (jwk_KeyType key)), (''crv'', JString (jwk_Curve key)), (''x'', JString (jwk_X key))]"
  let ?header = "[(''alg'', JString ''EdDSA''), (''jwk'', JObject ?jwk), (''typ'', JString TokenType)]"
  from assms obtain part0 part1 part2 hb pb digits where
    parts: "split_on CHR ''.'' raw = [part0, part1, part2]" "part0 \<noteq> []" "part1 \<noteq> []" "part2 \<noteq> []"
      "raw_url_decode part0 = Some hb" "raw_url_decode part1 = Some pb"
    and json: "json_unmarshal hb = Some (header_json key)" "json_unmarshal pb = Some (payload_json claims digits)"
    unfolding encodes_proof_def by blast
  note json = json [unfolded header_json_def payload_json_def]
  let ?payload = "[(''jti'', JString (pc_ID claims)), (''iat'', JNumber digits), (''ath'', JString (pc_AccessHash claims)),
    (''htu'', JString (pc_HTTPURI claims)), (''htm'', JString (pc_HTTPMethod claims))]"
  have "ok (rejectDuplicateKeys hb)" "ok (rejectDuplicateKeys pb)"
    by (simp_all add: rejectDuplicateKeys_def json)
  moreover have "unmarshal_object hb = Some (fmap_of_list (rev ?header))" "unmarshal_object pb = Some (fmap_of_list ?payload)"
    by (simp_all add: unmarshal_object_def json)
  ultimately have "strictParts raw = Inr (fmap_of_list (rev ?header), fmap_of_list ?payload)"
    using parts by (simp add: strictParts_def fmpred_iff fmlookup_of_list split: if_splits)
  moreover have "fmlen (fmap_of_list (rev ?header)) = 3" "fmlen (fmap_of_list ?payload) = 5"
    by (simp_all add: fmlen_fmap_of_list)
  ultimately show thesis
    by (rule that) (simp_all add: member_string_def member_object_def)
qed

lemma encoded_key:
  assumes "member_object header ''jwk'' = Some (fmap_of_list [(''x'', JString (raw_url_encode key)),
     (''crv'', JString ''Ed25519''), (''kty'', JString ''OKP'')])" "length key = 32"
  shows "header_key header = Some key"
  using assms by (simp add: header_key_def fmlen_fmap_of_list member_string_def PublicKeySize_def)

lemma Verify_encoded:
  assumes "encodes_proof raw \<lparr>jwk_KeyType = ''OKP'', jwk_Curve = ''Ed25519'', jwk_X = raw_url_encode key\<rparr> claims"
    and "proof_parse W jwt_now raw key = Some claims" and "JWKThumbprint (auth W) key = Inr thumbprint"
    and "digest_size (auth W)" and "length raw \<le> MaxProofBytes" and "method \<noteq> []" and "token \<noteq> []"
    and "0 < window" and "window \<le> minute"
  shows "Verify W jwt_now raw method target token thumbprint now window
    = check_proof W claims method target token thumbprint now window"
proof -
  have key: "length key = 32" "length thumbprint = 43"
    using assms(3,4) by (auto simp: JWKThumbprint_Inr digest_size_def length_raw_url_encode_32)
  obtain header payload where parts: "strictParts raw = Inr (header, payload)" "fmlen header = 3" "fmlen payload = 5"
    "member_string header ''alg'' = Some ''EdDSA''" "member_string header ''typ'' = Some TokenType"
    "header_key header = Some key"
    using assms(1) by (rule encoded_parts) (simp add: encoded_key key)
  moreover have "raw \<noteq> []" using parts(1) by (auto simp: strictParts_def)
  ultimately show ?thesis using assms key by (simp add: Verify_def)
qed

subsection \<open>A concrete proof\<close>

definition proof_target :: bytes where
  "proof_target = ''https://h/p''"

definition example_url :: url where
  "example_url = \<lparr>u_Scheme = ''https'', u_Opaque = [], u_User = None, u_Host = ''h'', u_Path = ''/p'',
     u_RawPath = [], u_OmitHost = False, u_ForceQuery = False, u_RawQuery = [], u_Fragment = [], u_RawFragment = []\<rparr>"

definition example_seed :: bytes where
  "example_seed = replicate 64 (CHR ''k'')"

definition example_proof_claims :: ProofClaims where
  "example_proof_claims = \<lparr>pc_HTTPMethod = ''GET'', pc_HTTPURI = proof_target,
     pc_AccessHash = access_hash example_lib ''t'', pc_IssuedAt = Some 0,
     pc_ID = raw_url_encode (replicate 24 (CHR ''i''))\<rparr>"

definition example_jwk :: JSONWebKey where
  "example_jwk = \<lparr>jwk_KeyType = ''OKP'', jwk_Curve = ''Ed25519'', jwk_X = raw_url_encode (replicate 32 (CHR ''k''))\<rparr>"

abbreviation proof_header :: bytes where
  "proof_header \<equiv> json_text (header_json example_jwk)"

abbreviation proof_payload :: bytes where
  "proof_payload \<equiv> json_text (payload_json example_proof_claims ''0'')"

definition example_proof :: bytes where
  "example_proof = raw_url_encode proof_header @ CHR ''.'' # raw_url_encode proof_payload
     @ CHR ''.'' # raw_url_encode ''sig''"

definition example_web :: web_lib where
  "example_web =
    \<lparr>auth = example_lib, parse_request_uri = (\<lambda>s. if s = proof_target then Some example_url else None),
     url_string = (\<lambda>u. if u = example_url then proof_target else []),
     proof_sign = (\<lambda>key claims privateKey. if key = example_jwk \<and> claims = example_proof_claims
         \<and> privateKey = example_seed then Inr example_proof else Inl (Opaque ''jwt'')),
     proof_parse = (\<lambda>now raw key. if raw = example_proof \<and> key = replicate 32 (CHR ''k'') \<and> 0 \<le> now
         then Some example_proof_claims else None)\<rparr>"

lemma example_proof_split:
  "split_on CHR ''.'' example_proof = [raw_url_encode proof_header, raw_url_encode proof_payload, raw_url_encode ''sig'']"
  unfolding example_proof_def append.simps split_on_append_sep
  using dot_not_encoded by (simp add: split_on_single split_on_append_sep)

lemma example_proof_json:
  "json_unmarshal proof_header = Some (header_json example_jwk)"
  "json_unmarshal proof_payload = Some (payload_json example_proof_claims ''0'')"
  by (rule json_unmarshal_text;
      simp add: header_json_def payload_json_def example_jwk_def example_proof_claims_def proof_target_def
        TokenType_def access_hash_def max_nesting_depth_def plain_number_def plain_text_char_def)+

lemma example_proof_encodes: "encodes_proof example_proof example_jwk example_proof_claims"
proof -
  have "proof_header \<noteq> []" "proof_payload \<noteq> []"
    by (simp_all add: header_json_def payload_json_def)
  then show ?thesis
    unfolding encodes_proof_def example_proof_split
    using example_proof_json
    by (intro exI [of _ "raw_url_encode proof_header"] exI [of _ "raw_url_encode proof_payload"]
        exI [of _ "raw_url_encode ''sig''"] exI [of _ proof_header] exI [of _ proof_payload] exI [of _ "''0''"]) simp
qed

lemma example_public: "Public example_seed = replicate 32 (CHR ''k'')"
  by (simp add: Public_def example_seed_def)

lemma example_web_sound: "signing_sound example_web" "proofs_sound example_web"
proof -
  show "signing_sound example_web"
    using example_proof_encodes
    by (auto simp: signing_sound_def example_web_def example_proof_claims_def example_public split: if_splits)
  have "proof_signed example_lib example_proof key" for key
    by (simp add: proof_signed_def example_proof_split) (simp add: example_lib_def)
  then show "proofs_sound example_web"
    by (auto simp: proofs_sound_def example_web_def example_proof_claims_def split: if_splits
        intro!: exI [of _ "\<lambda>_. example_proof_claims"])
qed

lemma example_canonical: "canonicalURI example_web proof_target = Inr proof_target"
  by (simp add: canonicalURI_def example_web_def) (simp add: example_url_def to_lower_def ascii_def ascii_lower_def example_lib_def)

lemma example_upper: "to_upper U ''get'' = ''GET''"
  by code_simp

lemma example_digest: "digest_size example_lib"
  by (auto simp: digest_size_def example_lib_def)

lemma example_signed_proof:
  "Sign example_web (Some (replicate 24 (CHR ''i''))) example_seed ''get'' proof_target ''t'' 0 = Inr example_proof"
proof -
  have "trunc_second 0 = 0" by (simp add: trunc_second_def)
  then show ?thesis
    by (simp add: Sign_def example_canonical example_public example_upper)
      (simp add: example_web_def example_seed_def example_jwk_def example_proof_claims_def PrivateKeySize_def)
qed

lemma example_proof_length: "length example_proof \<le> MaxProofBytes"
  by (simp add: example_proof_def header_json_def payload_json_def example_jwk_def example_proof_claims_def
      proof_target_def TokenType_def access_hash_def MaxProofBytes_def raw_url_encode_def length_b64_encode
      example_lib_def)

lemma example_verified_proof:
  "Verify example_web 0 example_proof ''get'' proof_target ''t''
      (raw_url_encode (sha256 example_lib (canonical_jwk (replicate 32 (CHR ''k''))))) 0 minute
    = Inr \<lparr>vp_ID = raw_url_encode (replicate 24 (CHR ''i'')),
       vp_Thumbprint = raw_url_encode (sha256 example_lib (canonical_jwk (replicate 32 (CHR ''k'')))),
       vp_ReplayExpiry = minute + second\<rparr>"
proof -
  have "check_proof example_web example_proof_claims ''get'' proof_target ''t'' th 0 minute
    = Inr \<lparr>vp_ID = raw_url_encode (replicate 24 (CHR ''i'')), vp_Thumbprint = th, vp_ReplayExpiry = minute + second\<rparr>" for th
    using example_upper example_canonical length_b64_encode [of url_alphabet "replicate 24 (CHR ''i'')"]
    by (simp add: check_proof_def example_proof_claims_def time_sub_def duration_defs flip: raw_url_encode_def)
      (simp add: example_web_def)
  then show ?thesis
    using Verify_encoded [OF example_proof_encodes [unfolded example_jwk_def], of example_web 0]
      example_proof_length
    by (simp add: example_web_def JWKThumbprint_Inr example_digest duration_defs)
qed

subsection \<open>Properties\<close>

text \<open>A proof that \<open>Sign\<close> makes is one that \<open>Verify\<close> accepts. Signed for an ASCII method and address
  with an Ed25519 key and at most eight kilobytes long, it verifies for the same method, address
  and access token under the thumbprint of that key, at any time from its issue until the window
  has passed.\<close>

theorem Verify_Sign:
  assumes "signing_sound W" and "length (Public privateKey) = 32" and "digest_size (auth W)"
    and "length identifier = 24"
    and "Sign W (Some identifier) privateKey method target token t0 = Inr raw" and "length raw \<le> MaxProofBytes"
    and "canonicalURI W target = Inr uri" and "ascii uri" and "ascii method"
    and "JWKThumbprint (auth W) (Public privateKey) = Inr thumbprint"
    and "0 < window" and "window \<le> minute" and "t0 \<le> now" and "now \<le> trunc_second t0 + window" and "t0 \<le> jwt_now"
  shows "Verify W jwt_now raw method target token thumbprint now window
    = Inr \<lparr>vp_ID = raw_url_encode identifier, vp_Thumbprint = thumbprint,
        vp_ReplayExpiry = trunc_second t0 + window + second\<rparr>"
proof -
  let ?claims = "\<lparr>pc_HTTPMethod = to_upper (unicode (auth W)) method, pc_HTTPURI = uri,
    pc_AccessHash = access_hash (auth W) token, pc_IssuedAt = Some (trunc_second t0), pc_ID = raw_url_encode identifier\<rparr>"
  let ?key = "\<lparr>jwk_KeyType = ''OKP'', jwk_Curve = ''Ed25519'', jwk_X = raw_url_encode (Public privateKey)\<rparr>"
  have s: "method \<noteq> []" "token \<noteq> []" "proof_sign W ?key ?claims privateKey = Inr raw"
    using assms(5,7) by (auto simp: Sign_def split: if_splits sum.splits)
  moreover have "ascii (to_upper (unicode (auth W)) method)"
    using assms(9) by (auto simp: to_upper_def ascii_def list_all_iff byte_ascii_upper)
  ultimately have encodes: "encodes_proof raw ?key ?claims"
    and parse: "proof_parse W jwt_now raw (Public privateKey) = Some ?claims"
    using assms(1,8,15) trunc_second_le [of t0] unfolding signing_sound_def by auto
  have "length (raw_url_encode identifier) = 32"
    using assms(4) by (simp add: raw_url_encode_def length_b64_encode)
  then have "check_proof W ?claims method target token thumbprint now window
    = Inr \<lparr>vp_ID = raw_url_encode identifier, vp_Thumbprint = thumbprint,
        vp_ReplayExpiry = trunc_second t0 + window + second\<rparr>"
    using assms(4,7,11-14) trunc_second_le [of t0]
    by (auto simp: check_proof_def time_sub_def duration_defs)
  with Verify_encoded [OF encodes parse assms(10,3,6) s(1,2) assms(11,12)] show ?thesis by simp
qed

theorem Verify_Sign_witness:
  "Verify example_web 0 example_proof ''get'' proof_target ''t''
     (raw_url_encode (sha256 example_lib (canonical_jwk (replicate 32 (CHR ''k''))))) second minute
   = Inr \<lparr>vp_ID = raw_url_encode (replicate 24 (CHR ''i'')),
       vp_Thumbprint = raw_url_encode (sha256 example_lib (canonical_jwk (replicate 32 (CHR ''k'')))),
       vp_ReplayExpiry = minute + second\<rparr>"
proof -
  have "auth example_web = example_lib" by (simp add: example_web_def)
  moreover note example_digest
  moreover have "ascii proof_target" "ascii ''get''" by (simp_all add: ascii_def proof_target_def)
  moreover have "trunc_second 0 = 0" by (simp add: trunc_second_def)
  ultimately show ?thesis
    using Verify_Sign [OF example_web_sound(1) _ _ _ example_signed_proof example_proof_length example_canonical,
        of _ minute second 0]
    by (simp add: example_public JWKThumbprint_Inr duration_defs)
qed

text \<open>C32: a verified proof was made for this request by the holder of the key. \<open>Verify\<close> accepts only a
  text that a key with the expected thumbprint signed, whose claims name the method, the canonical
  address and the hash of the access token of the request, issued within the window around the
  clock and not in the future; the identifier it answers is that of the claims, and its replay
  expiry lies a second past the end of the window.\<close>

theorem Verify_sound:
  assumes "proofs_sound W" and "Verify W jwt_now raw method target token expected now window = Inr v"
  shows "\<exists>key claims t. length key = 32 \<and> JWKThumbprint (auth W) key = Inr expected
    \<and> proof_signed (auth W) raw key \<and> proof_parse W jwt_now raw key = Some claims
    \<and> pc_HTTPMethod claims = to_upper (unicode (auth W)) method \<and> canonicalURI W target = Inr (pc_HTTPURI claims)
    \<and> pc_AccessHash claims = access_hash (auth W) token
    \<and> pc_IssuedAt claims = Some t \<and> \<bar>now - t\<bar> \<le> window \<and> t \<le> jwt_now
    \<and> v = \<lparr>vp_ID = pc_ID claims, vp_Thumbprint = expected, vp_ReplayExpiry = t + window + second\<rparr>
    \<and> vp_ID v \<noteq> [] \<and> now + second \<le> vp_ReplayExpiry v"
proof -
  obtain key claims where key: "JWKThumbprint (auth W) key = Inr expected" "proof_parse W jwt_now raw key = Some claims"
    and check: "check_proof W claims method target token expected now window = Inr v"
    and w: "0 < window" "window \<le> minute"
    using assms(2) by (rule Verify_Inr)
  obtain t where t: "pc_IssuedAt claims = Some t" "- window \<le> time_sub now t" "time_sub now t \<le> window"
    "v = \<lparr>vp_ID = pc_ID claims, vp_Thumbprint = expected, vp_ReplayExpiry = t + window + second\<rparr>"
    using check by (auto simp: check_proof_Inr)
  have "proof_signed (auth W) raw key" "t \<le> jwt_now"
    using assms(1) key(2) t(1) unfolding proofs_sound_def by metis+
  moreover have "length key = 32" using key(1) by (simp add: JWKThumbprint_Inr)
  moreover note window_bounds [OF t(2,3) w]
  ultimately show ?thesis
    using key check t(1,4) by (intro exI [of _ key] exI [of _ claims] exI [of _ t]) (auto simp: check_proof_Inr)
qed

theorem Verify_sound_witness:
  "\<exists>key. proof_signed (auth example_web) example_proof key \<and> length key = 32"
  using Verify_sound [OF example_web_sound(2) example_verified_proof] by blast

end
