(* ===== verification/Float64.thy ===== *)
theory Float64
  imports Prelude Complex_Main "HOL-Library.Log_Nat"
begin

section \<open>Floating-point arithmetic\<close>

text \<open>
  A finite \<open>float64\<close> is the rational number it stands for. Each operation of the machine is the
  exact operation followed by one rounding, to the nearest number with 53 significant bits and no
  bit below \<open>2^-1074\<close>, and to the even one of two that are as near. Infinities and NaN, which no
  value of the code reaches, have no counterpart. Go lets a compiler fuse a product and a sum into
  one rounding, as it does on arm64; here each operation is rounded by itself, as on amd64.
\<close>

definition log2_floor :: "rat \<Rightarrow> int" where
  "log2_floor x =
    (let (n, d) = quotient_of x; e = bitlen n - bitlen d in if x < 2 powi e then e - 1 else e)"

definition round_even :: "rat \<Rightarrow> int" where
  "round_even x =
    (let f = \<lfloor>x\<rfloor>; r = x - of_int f
     in if r < 1 / 2 then f else if r > 1 / 2 then f + 1 else if even f then f else f + 1)"

definition unit_in_last_place :: "rat \<Rightarrow> rat" where
  "unit_in_last_place x = 2 powi (max (log2_floor \<bar>x\<bar> - 52) (- 1074))"

definition float64 :: "rat \<Rightarrow> rat" where
  "float64 x =
    (if x = 0 then 0 else of_int (round_even (x / unit_in_last_place x)) * unit_in_last_place x)"

abbreviation fl_add :: "rat \<Rightarrow> rat \<Rightarrow> rat" where
  "fl_add x y \<equiv> float64 (x + y)"

abbreviation fl_sub :: "rat \<Rightarrow> rat \<Rightarrow> rat" where
  "fl_sub x y \<equiv> float64 (x - y)"

abbreviation fl_mul :: "rat \<Rightarrow> rat \<Rightarrow> rat" where
  "fl_mul x y \<equiv> float64 (x * y)"

abbreviation fl_div :: "rat \<Rightarrow> rat \<Rightarrow> rat" where
  "fl_div x y \<equiv> float64 (x / y)"

text \<open>\<open>d.Seconds()\<close> adds the whole seconds and the rest, each as a \<open>float64\<close>.\<close>

definition duration_seconds :: "duration \<Rightarrow> rat" where
  "duration_seconds d =
    (let sec = go_div d second; nsec = d - sec * second
     in fl_add (float64 (of_int sec)) (fl_div (float64 (of_int nsec)) 1000000000))"

subsection \<open>Exact values and rounding errors\<close>

lemma log2_floor_le:
  assumes "0 < x"
  shows "2 powi log2_floor x \<le> x"
proof -
  obtain n d where q: "quotient_of x = (n, d)" by fastforce
  then have x: "x = of_int n / of_int d" and d: "0 < d"
    by (simp_all add: quotient_of_div quotient_of_denom_pos)
  then have n: "0 < n" using assms by (simp add: zero_less_divide_iff)
  have bits: "1 \<le> bitlen n" "0 \<le> bitlen d"
    using n bitlen_nonneg [of n] bitlen_nonneg [of d] bitlen_eq_zero_iff [of n] by linarith+
  have "(2::int) ^ nat (bitlen n - 1) \<le> n" "d \<le> 2 ^ nat (bitlen d)"
    using bitlen_bounds [OF n] bitlen_bounds [OF d] by auto
  then have bounds: "(2::rat) ^ nat (bitlen n - 1) \<le> of_int n" "of_int d \<le> (2::rat) ^ nat (bitlen d)"
    by (metis of_int_le_iff of_int_numeral of_int_power)+
  then have "2 powi (bitlen n - 1) / 2 powi bitlen d \<le> x"
    unfolding x using bits d n bounds by (auto simp: power_int_nonneg_exp intro!: frac_le)
  then have "2 powi (bitlen n - bitlen d - 1) \<le> x"
    by (simp add: power_int_diff [symmetric] algebra_simps)
  then show ?thesis
    by (simp add: log2_floor_def q Let_def algebra_simps)
qed

lemma round_even_error: "\<bar>of_int (round_even x) - x\<bar> \<le> 1 / 2"
proof -
  have "of_int \<lfloor>x\<rfloor> \<le> x" "x < of_int \<lfloor>x\<rfloor> + 1"
    by linarith+
  then show ?thesis
    by (auto simp: round_even_def Let_def)
qed

lemma round_even_int [simp]: "round_even (of_int k) = k"
  by (simp add: round_even_def)

lemma round_even_nonneg: "0 \<le> x \<Longrightarrow> 0 \<le> round_even x"
  by (auto simp: round_even_def Let_def)

lemma unit_pos [simp]: "0 < unit_in_last_place x"
  by (simp add: unit_in_last_place_def)

lemma float64_0 [simp]: "float64 0 = 0"
  by (simp add: float64_def)

lemma float64_nonneg: "0 \<le> x \<Longrightarrow> 0 \<le> float64 x"
  using round_even_nonneg [of "x / unit_in_last_place x"] unit_pos [of x]
  by (simp add: float64_def less_imp_le)

definition float_tiny :: rat where
  "float_tiny = 2 powi - 1075"

lemma unit_bound: "unit_in_last_place x \<le> max (\<bar>x\<bar> / 2 ^ 52) (2 * float_tiny)" if "x \<noteq> 0"
proof (cases "log2_floor \<bar>x\<bar> - 52 \<le> - 1074")
  case True
  have "(2::rat) powi - 1074 = 2 powi (1 + - 1075)" by simp
  also have "\<dots> = 2 * float_tiny"
    unfolding float_tiny_def by (subst power_int_add) simp_all
  finally show ?thesis
    using True by (simp add: unit_in_last_place_def max_def del: power_int_minus_divide)
next
  case False
  have "2 powi (log2_floor \<bar>x\<bar> - 52) = 2 powi log2_floor \<bar>x\<bar> / (2::rat) ^ 52"
    by (simp add: power_int_diff)
  also have "\<dots> \<le> \<bar>x\<bar> / 2 ^ 52"
    using log2_floor_le [of "\<bar>x\<bar>"] that by (simp add: divide_right_mono)
  finally show ?thesis
    using False by (simp add: unit_in_last_place_def max_def)
qed

lemma float64_error: "\<bar>float64 x - x\<bar> \<le> \<bar>x\<bar> / 2 ^ 53 + float_tiny"
proof (cases "x = 0")
  case False
  let ?u = "unit_in_last_place x"
  have "float64 x - x = (of_int (round_even (x / ?u)) - x / ?u) * ?u"
    using False unit_pos [of x, THEN less_imp_neq] by (simp add: float64_def algebra_simps)
  then have "\<bar>float64 x - x\<bar> = \<bar>of_int (round_even (x / ?u)) - x / ?u\<bar> * ?u"
    using unit_pos [of x] by (simp add: abs_mult less_imp_le)
  also have "\<dots> \<le> 1 / 2 * ?u"
    using round_even_error unit_pos [of x] by (intro mult_right_mono) (simp_all add: less_imp_le)
  also have "\<dots> \<le> 1 / 2 * (\<bar>x\<bar> / 2 ^ 52 + 2 * float_tiny)"
  proof -
    have "0 \<le> \<bar>x\<bar> / 2 ^ 52" "0 \<le> 2 * float_tiny" by (simp_all add: float_tiny_def)
    then have "?u \<le> \<bar>x\<bar> / 2 ^ 52 + 2 * float_tiny"
      using unit_bound [OF False] by linarith
    then show ?thesis by simp
  qed
  finally show ?thesis by simp
qed (simp add: float_tiny_def)

lemma float64_int:
  assumes "\<bar>k\<bar> < 2 ^ 53"
  shows "float64 (of_int k) = of_int k"
proof (cases "k = 0")
  case False
  define m where "m = max (log2_floor \<bar>of_int k\<bar> - 52) (- 1074)"
  have "2 powi log2_floor \<bar>of_int k\<bar> \<le> \<bar>rat_of_int k\<bar>"
    using False by (intro log2_floor_le) simp
  also have "\<dots> < 2 powi (53 :: int)"
    using assms by (metis of_int_abs of_int_less_iff of_int_numeral of_int_power power_int_numeral)
  finally have "log2_floor \<bar>of_int k\<bar> < 53"
    by (rule power_int_le_imp_less_exp [rotated]) simp_all
  then have m: "m \<le> 0" by (simp add: m_def)
  have u: "unit_in_last_place (of_int k) = inverse (2 ^ nat (- m))"
    unfolding unit_in_last_place_def m_def [symmetric] using m by (simp add: power_int_def power_one_over inverse_eq_divide)
  have q: "of_int k / unit_in_last_place (of_int k) = of_int (k * 2 ^ nat (- m))"
    by (simp add: u divide_inverse)
  have "float64 (of_int k) = of_int (k * 2 ^ nat (- m)) * unit_in_last_place (of_int k)"
    using False unfolding float64_def q round_even_int by simp
  then show ?thesis
    by (simp add: u)
qed simp

lemma float_tiny_bounds: "0 \<le> float_tiny" "float_tiny \<le> 1 / 2 ^ 200"
proof -
  show "0 \<le> float_tiny" by (simp add: float_tiny_def)
  have "float_tiny \<le> (2 :: rat) powi - 200"
    unfolding float_tiny_def by (intro power_int_increasing) simp_all
  then show "float_tiny \<le> 1 / 2 ^ 200" by (simp add: power_int_minus_divide)
qed

lemma float64_le: "0 \<le> x \<Longrightarrow> float64 x \<le> x + x / 2 ^ 53 + float_tiny"
  using float64_error [of x] by (simp add: abs_if split: if_splits)

text \<open>The seconds of a duration, within a relative error.\<close>

lemma seconds_error:
  fixes sec nsec a b c s :: rat
  assumes "0 \<le> sec" "0 \<le> nsec" "float_tiny \<le> (sec + nsec / 10 ^ 9) / 2 ^ 60"
    and "a \<le> sec + sec / 2 ^ 53 + float_tiny" "b \<le> nsec + nsec / 2 ^ 53 + float_tiny"
    and "c \<le> b / 10 ^ 9 + b / 10 ^ 9 / 2 ^ 53 + float_tiny"
    and "s \<le> a + c + (a + c) / 2 ^ 53 + float_tiny"
  shows "s \<le> (sec + nsec / 10 ^ 9) * (1 + 1 / 2 ^ 50)"
  using assms float_tiny_bounds(1) by (simp add: field_simps)

lemma duration_seconds_bounds:
  assumes "0 \<le> d"
  shows "0 \<le> duration_seconds d" "duration_seconds d \<le> (of_int d / 10 ^ 9) * (1 + 1 / 2 ^ 50)"
proof -
  define sec nsec where "sec = d div second" and "nsec = d mod second"
  have parts: "0 \<le> sec" "0 \<le> nsec" "go_div d second = sec" "d - sec * second = nsec"
    using assms by (auto simp: sec_def nsec_def go_div_pos pos_imp_zdiv_nonneg_iff minus_div_mult_eq_mod)
  define a b where "a = float64 (of_int sec)" and "b = float64 (of_int nsec)"
  define c where "c = float64 (b / 1000000000)"
  have s: "duration_seconds d = float64 (a + c)"
    unfolding duration_seconds_def Let_def parts a_def b_def c_def ..
  have nonneg: "0 \<le> a" "0 \<le> b" "0 \<le> c"
    using parts by (simp_all add: a_def b_def c_def float64_nonneg)
  then show "0 \<le> duration_seconds d" by (simp add: s float64_nonneg)
  show "duration_seconds d \<le> (of_int d / 10 ^ 9) * (1 + 1 / 2 ^ 50)"
  proof (cases "d = 0")
    case True
    then show ?thesis
      using s parts by (simp add: sec_def nsec_def a_def b_def c_def)
  next
    case False
    have "d = sec * second + nsec" using parts by simp
    then have e: "rat_of_int d / 10 ^ 9 = of_int sec + of_int nsec / 10 ^ 9"
      by (simp add: second_def field_simps)
    have "1 \<le> rat_of_int d" using False assms by simp
    then have "float_tiny \<le> (of_int d / 10 ^ 9) / 2 ^ 60"
      using float_tiny_bounds(2) by simp
    then show ?thesis
      unfolding s e
    proof (intro seconds_error [where a = a and b = b and c = c])
      show "a \<le> of_int sec + of_int sec / 2 ^ 53 + float_tiny"
        unfolding a_def by (rule float64_le) (use parts in simp)
      show "b \<le> of_int nsec + of_int nsec / 2 ^ 53 + float_tiny"
        unfolding b_def by (rule float64_le) (use parts in simp)
      show "c \<le> b / 10 ^ 9 + b / 10 ^ 9 / 2 ^ 53 + float_tiny"
        using float64_le [of "b / 10 ^ 9"] nonneg by (simp add: c_def)
      show "float64 (a + c) \<le> a + c + (a + c) / 2 ^ 53 + float_tiny"
        by (rule float64_le) (use nonneg in simp)
    qed (use parts in simp_all)
  qed
qed

end
