(* ===== verification/Attenuation.thy ===== *)
theory Attenuation
  imports Resource Constraints
begin

section \<open>Attenuation of authority\<close>

text \<open>
  Package \<open>internal/attenuation\<close>: the checks that decide whether a root lease stays within the
  grant of its workload (\<open>ValidateRoot\<close>) and whether a delegated lease stays within its parent
  (\<open>Validate\<close>). \<open>error\<close> is \<open>unit result\<close>, with \<open>Inr ()\<close> for \<open>nil\<close>; a
  \<open>map[string]struct{}\<close> is a finite set; depths and numbers of uses are 64-bit words compared
  as signed integers.

  After the operations come a description of the contexts each check accepts, what an authority
  permits (an action, on a resource, with given constraint values, at an instant), and the
  refinement: a check that succeeds only ever removes permitted requests. Authorities are one
  more instance of the contract \<open>scope_check\<close>.
\<close>

record GrantContext =
  gc_Audiences :: "bytes list"
  gc_Actions :: "bytes list"
  gc_Resources :: "bytes list"
  gc_MaxTTL :: duration
  gc_MaxDelegationDepth :: go_int
  gc_CanDelegate :: bool
  gc_MaxUses :: go_int
  gc_Constraints :: constraints

record AuthorityContext =
  ac_Actions :: "bytes list"
  ac_Resources :: "bytes list"
  ac_Expiration :: instant
  ac_Depth :: go_int
  ac_MaxDepth :: go_int
  ac_MaxUses :: go_int
  ac_Constraints :: constraints

subsection \<open>Lists and sets of strings\<close>

fun has_empty_or_duplicate_loop :: "bytes fset \<Rightarrow> bytes list \<Rightarrow> bool" where
  "has_empty_or_duplicate_loop seen [] = False"
| "has_empty_or_duplicate_loop seen (value # values) =
    (if value = [] \<or> trim_space value \<noteq> value then True
     else if value |\<in>| seen then True
     else has_empty_or_duplicate_loop (finsert value seen) values)"

definition hasEmptyOrDuplicate :: "bytes list \<Rightarrow> bool" where
  "hasEmptyOrDuplicate values = has_empty_or_duplicate_loop {||} values"

definition resourcesSubset :: "unicode_lib \<Rightarrow> bytes list \<Rightarrow> bytes list \<Rightarrow> bool" where
  "resourcesSubset U candidate parent = Subset U candidate parent"

definition contains :: "bytes list \<Rightarrow> bytes \<Rightarrow> bool" where
  "contains values required = list_ex (\<lambda>value. value = required) values"

definition toSet :: "bytes list \<Rightarrow> bytes fset" where
  "toSet values = fold finsert values {||}"

definition isSubset :: "bytes fset \<Rightarrow> bytes fset \<Rightarrow> bool" where
  "isSubset candidate parent = fBall candidate (\<lambda>value. value |\<in>| parent)"

definition setsEqual :: "bytes fset \<Rightarrow> bytes fset \<Rightarrow> bool" where
  "setsEqual left right = (fcard left = fcard right \<and> isSubset left right)"

subsection \<open>The checks\<close>

definition validateContext :: "unicode_lib \<Rightarrow> AuthorityContext \<Rightarrow> unit result" where
  "validateContext U context =
    (if sint (ac_Depth context) < 0 \<or> sint (ac_MaxDepth context) < sint (ac_Depth context)
        \<or> sint (ac_MaxUses context) < 0 \<or> is_zero_time (ac_Expiration context)
        \<or> \<not> Valid U (ac_Constraints context)
     then Inl (AttenuationE ErrInvalidContext)
     else if hasEmptyOrDuplicate (ac_Actions context) \<or> hasEmptyOrDuplicate (ac_Resources context)
     then Inl (AttenuationE ErrInvalidContext)
     else if list_ex (\<lambda>resource. \<not> ok (CanonicalizePattern U resource)) (ac_Resources context)
     then Inl (AttenuationE ErrInvalidContext)
     else Inr ())"

definition ValidateRoot ::
    "unicode_lib \<Rightarrow> GrantContext \<Rightarrow> bytes \<Rightarrow> AuthorityContext \<Rightarrow> instant \<Rightarrow> unit result" where
  "ValidateRoot U grant audience requested issuedAt =
    (if gc_MaxTTL grant \<le> 0 \<or> sint (gc_MaxDelegationDepth grant) < 0
        \<or> sint (gc_MaxDelegationDepth grant) > 16 \<or> sint (gc_MaxUses grant) < 0
        \<or> is_zero_time issuedAt
     then Inl (AttenuationE ErrInvalidContext)
     else if hasEmptyOrDuplicate (gc_Audiences grant) \<or> hasEmptyOrDuplicate (gc_Actions grant)
        \<or> hasEmptyOrDuplicate (gc_Resources grant)
     then Inl (AttenuationE ErrInvalidContext)
     else if \<not> Valid U (gc_Constraints grant)
        \<or> \<not> AtLeastAsStrong U (gc_Constraints grant) (ac_Constraints requested)
     then Inl (AttenuationE ErrConstraintsWeakened)
     else if list_ex (\<lambda>value. \<not> ok (CanonicalizePattern U value)) (gc_Resources grant)
     then Inl (AttenuationE ErrInvalidContext)
     else if \<not> contains (gc_Audiences grant) audience
     then Inl (AttenuationE ErrAudienceExpanded)
     else if ac_Depth requested \<noteq> 0
        \<or> sint (ac_MaxDepth requested) > sint (gc_MaxDelegationDepth grant)
     then Inl (AttenuationE ErrMaxDepthExpanded)
     else if sint (ac_MaxDepth requested) > 0 \<and> \<not> gc_CanDelegate grant
     then Inl (AttenuationE ErrDelegationForbidden)
     else if sint (ac_MaxUses requested) > 0 \<and> sint (ac_MaxDepth requested) > 0
     then Inl (AttenuationE ErrStatefulDelegation)
     else if sint (gc_MaxUses grant) > 0 \<and>
        (ac_MaxUses requested = 0 \<or> sint (ac_MaxUses requested) > sint (gc_MaxUses grant))
     then Inl (AttenuationE ErrUsesExpanded)
     else if ac_Expiration requested > issuedAt + gc_MaxTTL grant
     then Inl (AttenuationE ErrTTLExpanded)
     else case validateContext U requested of
       Inl err \<Rightarrow> Inl err
     | Inr _ \<Rightarrow>
       (if \<not> isSubset (toSet (ac_Actions requested)) (toSet (gc_Actions grant))
        then Inl (AttenuationE ErrActionsExpanded)
        else if \<not> Subset U (ac_Resources requested) (gc_Resources grant)
        then Inl (AttenuationE ErrResourcesExpanded)
        else Inr ()))"

definition Validate :: "unicode_lib \<Rightarrow> AuthorityContext \<Rightarrow> AuthorityContext \<Rightarrow> unit result" where
  "Validate U parent child =
    (case validateContext U parent of
       Inl err \<Rightarrow> Inl (Wrapped ''parent'' [err])
     | Inr _ \<Rightarrow>
     (case validateContext U child of
       Inl err \<Rightarrow> Inl (Wrapped ''child'' [err])
     | Inr _ \<Rightarrow>
     if sint (ac_MaxUses parent) > 0
     then Inl (AttenuationE ErrStatefulDelegation)
     else if ac_Depth parent = max_int \<or> ac_Depth child \<noteq> ac_Depth parent + 1
     then Inl (AttenuationE ErrInvalidDepth)
     else if sint (ac_Depth child) > sint (ac_MaxDepth parent)
     then Inl (AttenuationE ErrMaxDepthExceeded)
     else if sint (ac_MaxDepth child) > sint (ac_MaxDepth parent)
     then Inl (AttenuationE ErrMaxDepthExpanded)
     else if sint (ac_MaxDepth child) < sint (ac_Depth child)
     then Inl (AttenuationE ErrInvalidContext)
     else if ac_Expiration child > ac_Expiration parent
     then Inl (AttenuationE ErrExpirationExtended)
     else if sint (ac_MaxUses child) > 0 \<and> ac_MaxDepth child \<noteq> ac_Depth child
     then Inl (AttenuationE ErrStatefulDelegation)
     else if \<not> AtLeastAsStrong U (ac_Constraints parent) (ac_Constraints child)
     then Inl (AttenuationE ErrConstraintsWeakened)
     else
       let parentActions = toSet (ac_Actions parent);
           childActions = toSet (ac_Actions child)
       in
       if \<not> isSubset childActions parentActions
       then Inl (AttenuationE ErrActionsExpanded)
       else if \<not> resourcesSubset U (ac_Resources child) (ac_Resources parent)
       then Inl (AttenuationE ErrResourcesExpanded)
       else if setsEqual childActions parentActions
          \<and> setsEqual (toSet (ac_Resources child)) (toSet (ac_Resources parent))
          \<and> ac_Expiration child = ac_Expiration parent
          \<and> ac_MaxDepth child = ac_MaxDepth parent
          \<and> ac_MaxUses child = ac_MaxUses parent
          \<and> Equal U (ac_Constraints parent) (ac_Constraints child)
       then Inl (AttenuationE ErrNotStrict)
       else Inr ()))"

subsection \<open>What the checks accept\<close>

lemma has_empty_or_duplicate_loop_iff:
  "has_empty_or_duplicate_loop seen vs \<longleftrightarrow>
   \<not> (trimmed_names vs \<and> list_all (\<lambda>v. v |\<notin>| seen) vs)"
proof (induction vs arbitrary: seen)
  case Nil
  then show ?case by (simp add: trimmed_names_def)
next
  case (Cons v vs)
  have split: "list_all (\<lambda>w. w |\<notin>| finsert v seen) vs \<longleftrightarrow>
      v \<notin> set vs \<and> list_all (\<lambda>w. w |\<notin>| seen) vs"
    by (auto simp: list_all_iff)
  have "trimmed_names (v # vs) \<longleftrightarrow>
      v \<noteq> [] \<and> trim_space v = v \<and> v \<notin> set vs \<and> trimmed_names vs"
    by (auto simp: trimmed_names_def)
  then show ?case
    unfolding has_empty_or_duplicate_loop.simps(2) Cons.IH split by (simp only: list.pred_inject) argo
qed

lemma hasEmptyOrDuplicate_iff: "hasEmptyOrDuplicate vs \<longleftrightarrow> \<not> trimmed_names vs"
proof -
  have "list_all (\<lambda>v. v |\<notin>| {||}) vs" by (simp add: list_all_iff)
  then show ?thesis
    by (simp add: hasEmptyOrDuplicate_def has_empty_or_duplicate_loop_iff)
qed

lemma contains_iff: "contains vs required \<longleftrightarrow> required \<in> set vs"
  by (auto simp: contains_def list_ex_iff)

lemma fset_toSet [simp]: "fset (toSet vs) = set vs"
proof -
  have "fset (fold finsert vs seen) = set vs \<union> fset seen" for seen
    by (induction vs arbitrary: seen) auto
  then show ?thesis by (simp add: toSet_def)
qed

lemma isSubset_toSet: "isSubset (toSet cs) (toSet ps) \<longleftrightarrow> set cs \<subseteq> set ps"
  by (auto simp: isSubset_def)

lemma setsEqual_iff: "setsEqual l r \<longleftrightarrow> l = r"
proof
  assume eq: "setsEqual l r"
  then have "fset l \<subseteq> fset r" by (auto simp: setsEqual_def isSubset_def)
  moreover have "card (fset r) = card (fset l)"
    using eq by (simp add: setsEqual_def fcard.rep_eq)
  ultimately have "fset l = fset r"
    by (intro card_subset_eq) simp_all
  then show "l = r" by (simp add: fset_inject)
qed (auto simp: setsEqual_def isSubset_def)

lemma setsEqual_toSet: "setsEqual (toSet l) (toSet r) \<longleftrightarrow> set l = set r"
  by (metis setsEqual_iff fset_toSet fset_inject)

definition wf_context :: "unicode_lib \<Rightarrow> AuthorityContext \<Rightarrow> bool" where
  "wf_context U c \<longleftrightarrow>
    0 \<le> sint (ac_Depth c) \<and> sint (ac_Depth c) \<le> sint (ac_MaxDepth c) \<and> 0 \<le> sint (ac_MaxUses c)
    \<and> ac_Expiration c \<noteq> zero_time \<and> Valid U (ac_Constraints c)
    \<and> trimmed_names (ac_Actions c) \<and> trimmed_names (ac_Resources c)
    \<and> list_all (valid_pattern U) (ac_Resources c)"

lemma validateContext_ok: "validateContext U c = Inr u \<longleftrightarrow> wf_context U c"
  by (auto simp: validateContext_def wf_context_def hasEmptyOrDuplicate_iff is_zero_time_def
      list_ex_iff list_all_iff)

lemma validateContext_error:
  "validateContext U c = Inl e \<longleftrightarrow> e = AttenuationE ErrInvalidContext \<and> \<not> wf_context U c"
  unfolding validateContext_ok [of U c "()", symmetric] by (auto simp: validateContext_def)

lemma validateContext_cases:
  "validateContext U c = (if wf_context U c then Inr () else Inl (AttenuationE ErrInvalidContext))"
  by (cases "validateContext U c") (auto simp: validateContext_ok validateContext_error)

definition same_authority :: "AuthorityContext \<Rightarrow> AuthorityContext \<Rightarrow> bool" where
  "same_authority parent child \<longleftrightarrow>
    set (ac_Actions child) = set (ac_Actions parent)
    \<and> set (ac_Resources child) = set (ac_Resources parent)
    \<and> ac_Expiration child = ac_Expiration parent \<and> ac_MaxDepth child = ac_MaxDepth parent
    \<and> ac_MaxUses child = ac_MaxUses parent \<and> ac_Constraints child = ac_Constraints parent"

definition attenuates :: "unicode_lib \<Rightarrow> AuthorityContext \<Rightarrow> AuthorityContext \<Rightarrow> bool" where
  "attenuates U parent child \<longleftrightarrow>
    wf_context U parent \<and> wf_context U child
    \<and> sint (ac_MaxUses parent) = 0
    \<and> sint (ac_Depth child) = sint (ac_Depth parent) + 1
    \<and> sint (ac_Depth child) \<le> sint (ac_MaxDepth child)
    \<and> sint (ac_MaxDepth child) \<le> sint (ac_MaxDepth parent)
    \<and> ac_Expiration child \<le> ac_Expiration parent
    \<and> (0 < sint (ac_MaxUses child) \<longrightarrow> ac_MaxDepth child = ac_Depth child)
    \<and> AtLeastAsStrong U (ac_Constraints parent) (ac_Constraints child)
    \<and> set (ac_Actions child) \<subseteq> set (ac_Actions parent)
    \<and> Subset U (ac_Resources child) (ac_Resources parent)
    \<and> \<not> same_authority parent child"

lemma next_depth:
  "(parent :: go_int) \<noteq> max_int \<and> child = parent + 1 \<longleftrightarrow> sint child = sint parent + 1"
proof
  assume "parent \<noteq> max_int \<and> child = parent + 1"
  then show "sint child = sint parent + 1" by (simp add: sint_add_one)
next
  assume s: "sint child = sint parent + 1"
  then have "parent \<noteq> max_int"
    using sint_go_int_range(2) [of child] sint_max_int by auto
  with s show "parent \<noteq> max_int \<and> child = parent + 1"
    by (simp add: sint_add_one flip: sint_eq_iff)
qed

lemma same_authority_Equal:
  assumes "Valid U (ac_Constraints parent)"
  shows "setsEqual (toSet (ac_Actions child)) (toSet (ac_Actions parent))
      \<and> setsEqual (toSet (ac_Resources child)) (toSet (ac_Resources parent))
      \<and> ac_Expiration child = ac_Expiration parent \<and> ac_MaxDepth child = ac_MaxDepth parent
      \<and> ac_MaxUses child = ac_MaxUses parent
      \<and> Equal U (ac_Constraints parent) (ac_Constraints child)
    \<longleftrightarrow> same_authority parent child"
  using assms by (auto simp: setsEqual_toSet Equal_iff same_authority_def)

lemma Validate_ok: "Validate U parent child = Inr u \<longleftrightarrow> attenuates U parent child"
proof (cases "wf_context U parent \<and> wf_context U child")
  case False
  then show ?thesis
    by (auto simp: Validate_def validateContext_cases attenuates_def)
next
  case True
  then have wf: "wf_context U parent" "wf_context U child" by simp_all
  then have eq: "Valid U (ac_Constraints parent)" "0 \<le> sint (ac_MaxUses parent)"
    "sint (ac_Depth child) \<le> sint (ac_MaxDepth child)"
    by (simp_all add: wf_context_def)
  show ?thesis
    using eq(2,3)
    by (simp add: Validate_def validateContext_cases wf attenuates_def Let_def isSubset_toSet
        resourcesSubset_def same_authority_Equal [OF eq(1)] flip: next_depth)
      (auto simp: not_less)
qed

lemma Validate_not_strict_iff:
  "Validate U parent child = Inl (AttenuationE ErrNotStrict) \<longleftrightarrow>
   same_authority parent child \<and> wf_context U parent \<and> wf_context U child
   \<and> sint (ac_MaxUses parent) = 0 \<and> sint (ac_Depth child) = sint (ac_Depth parent) + 1"
proof (cases "wf_context U parent \<and> wf_context U child")
  case False
  then show ?thesis by (auto simp: Validate_def validateContext_cases)
next
  case True
  then have wf: "wf_context U parent" "wf_context U child" by simp_all
  then have eq: "Valid U (ac_Constraints parent)" "0 \<le> sint (ac_MaxUses parent)"
    "sint (ac_Depth child) \<le> sint (ac_MaxDepth child)"
    and ps: "list_all (valid_pattern U) (ac_Resources parent)"
    by (simp_all add: wf_context_def)
  have "AtLeastAsStrong U (ac_Constraints parent) (ac_Constraints child)"
    and "set (ac_Actions child) \<subseteq> set (ac_Actions parent)"
    and "Subset U (ac_Resources child) (ac_Resources parent)"
    if "same_authority parent child"
    using that eq(1) AtLeastAsStrong_refl Subset_refl [OF ps]
    by (auto simp: same_authority_def Subset_def list_all_iff)
  then show ?thesis
    using eq(2,3)
    by (simp add: Validate_def validateContext_cases wf Let_def isSubset_toSet
        resourcesSubset_def same_authority_Equal [OF eq(1)] flip: next_depth)
      (auto simp: not_less same_authority_def)
qed

definition wf_grant :: "unicode_lib \<Rightarrow> GrantContext \<Rightarrow> bool" where
  "wf_grant U g \<longleftrightarrow>
    0 < gc_MaxTTL g \<and> 0 \<le> sint (gc_MaxDelegationDepth g) \<and> sint (gc_MaxDelegationDepth g) \<le> 16
    \<and> 0 \<le> sint (gc_MaxUses g) \<and> Valid U (gc_Constraints g)
    \<and> trimmed_names (gc_Audiences g) \<and> trimmed_names (gc_Actions g)
    \<and> trimmed_names (gc_Resources g) \<and> list_all (valid_pattern U) (gc_Resources g)"

definition within_grant ::
    "unicode_lib \<Rightarrow> GrantContext \<Rightarrow> bytes \<Rightarrow> AuthorityContext \<Rightarrow> instant \<Rightarrow> bool" where
  "within_grant U g audience r issuedAt \<longleftrightarrow>
    audience \<in> set (gc_Audiences g) \<and> set (ac_Actions r) \<subseteq> set (gc_Actions g)
    \<and> Subset U (ac_Resources r) (gc_Resources g)
    \<and> AtLeastAsStrong U (gc_Constraints g) (ac_Constraints r)
    \<and> ac_Expiration r \<le> issuedAt + gc_MaxTTL g
    \<and> ac_Depth r = 0 \<and> sint (ac_MaxDepth r) \<le> sint (gc_MaxDelegationDepth g)
    \<and> (0 < sint (ac_MaxDepth r) \<longrightarrow> gc_CanDelegate g \<and> ac_MaxUses r = 0)
    \<and> (0 < sint (gc_MaxUses g) \<longrightarrow>
        0 < sint (ac_MaxUses r) \<and> sint (ac_MaxUses r) \<le> sint (gc_MaxUses g))"

lemma ValidateRoot_ok:
  "ValidateRoot U g audience r issuedAt = Inr u \<longleftrightarrow>
   issuedAt \<noteq> zero_time \<and> wf_grant U g \<and> wf_context U r \<and> within_grant U g audience r issuedAt"
proof (cases "wf_context U r")
  case False
  then show ?thesis by (simp add: ValidateRoot_def validateContext_cases)
next
  case True
  then have uses: "0 \<le> sint (ac_MaxUses r)" by (simp add: wf_context_def)
  then have used: "0 < sint (ac_MaxUses r) \<longleftrightarrow> ac_MaxUses r \<noteq> 0"
    using sint_eq_iff [of "ac_MaxUses r" 0] by auto
  have gr: "list_ex (\<lambda>v. \<not> valid_pattern U v) (gc_Resources g) \<longleftrightarrow>
      \<not> list_all (valid_pattern U) (gc_Resources g)"
    by (auto simp: list_ex_iff list_all_iff)
  show ?thesis
    using True
    by (simp add: ValidateRoot_def validateContext_cases hasEmptyOrDuplicate_iff gr contains_iff
        isSubset_toSet wf_grant_def within_grant_def is_zero_time_def not_less not_le)
      (use uses used in \<open>auto simp: not_le\<close>)
qed

subsection \<open>What an authority permits\<close>

text \<open>
  A request for an action on a resource, with the constraint values the service derived, at
  an instant, is permitted when the action is listed, a pattern allows the resource, the
  constraints are satisfied and the authority has not expired.
\<close>

type_synonym use_request = "bytes \<times> bytes \<times> constraints \<times> instant"

definition permits :: "unicode_lib \<Rightarrow> AuthorityContext \<Rightarrow> use_request \<Rightarrow> bool" where
  "permits U c = (\<lambda>(action, resource, actual, now).
    action \<in> set (ac_Actions c) \<and> list_ex (\<lambda>p. Allows U p resource) (ac_Resources c)
    \<and> Satisfied U (ac_Constraints c) actual \<and> now < ac_Expiration c)"

definition grant_permits :: "unicode_lib \<Rightarrow> GrantContext \<Rightarrow> instant \<Rightarrow> use_request \<Rightarrow> bool" where
  "grant_permits U g issuedAt = (\<lambda>(action, resource, actual, now).
    action \<in> set (gc_Actions g) \<and> list_ex (\<lambda>p. Allows U p resource) (gc_Resources g)
    \<and> Satisfied U (gc_Constraints g) actual \<and> now < issuedAt + gc_MaxTTL g)"

definition narrows :: "unicode_lib \<Rightarrow> AuthorityContext \<Rightarrow> AuthorityContext \<Rightarrow> bool" where
  "narrows U parent child \<longleftrightarrow>
    wf_context U parent \<and> wf_context U child
    \<and> set (ac_Actions child) \<subseteq> set (ac_Actions parent)
    \<and> Subset U (ac_Resources child) (ac_Resources parent)
    \<and> AtLeastAsStrong U (ac_Constraints parent) (ac_Constraints child)
    \<and> ac_Expiration child \<le> ac_Expiration parent
    \<and> sint (ac_MaxDepth child) \<le> sint (ac_MaxDepth parent)"

lemma attenuates_narrows: "attenuates U parent child \<Longrightarrow> narrows U parent child"
  by (simp add: attenuates_def narrows_def)

lemma narrows_permits:
  assumes "narrows U parent child" "permits U child q"
  shows "permits U parent q"
proof -
  obtain a r m t where q: "q = (a, r, m, t)" by (cases q)
  have "list_ex (\<lambda>p. Allows U p r) (ac_Resources parent)"
    by (rule Subset_admits [of U "ac_Resources child"]) (use assms in \<open>simp_all add: narrows_def permits_def q\<close>)
  moreover have "Satisfied U (ac_Constraints parent) m"
    by (rule AtLeastAsStrong_satisfied [of U _ "ac_Constraints child"]) (use assms in \<open>simp_all add: narrows_def permits_def q\<close>)
  ultimately show ?thesis
    using assms by (auto simp: narrows_def permits_def q)
qed

interpretation authority_scope: scope_check "wf_context U" "narrows U" "permits U" for U
proof
  show "narrows U s s" if "wf_context U s" for s
    using that by (simp add: narrows_def wf_context_def Subset_refl AtLeastAsStrong_refl)
  show "narrows U s u" if "narrows U s t" "narrows U t u" for s t u
    using that Subset_trans [of U "ac_Resources u" "ac_Resources t" "ac_Resources s"]
      AtLeastAsStrong_trans [of U "ac_Constraints s" "ac_Constraints t" "ac_Constraints u"]
    by (auto simp: narrows_def)
  show "permits U s v" if "narrows U s t" "permits U t v" for s t v
    using that by (rule narrows_permits)
qed (simp_all add: narrows_def)

lemma narrows_chain:
  assumes "successively (attenuates U) (root # rest)" "wf_context U root"
  shows "narrows U root (last (root # rest))"
proof (rule authority_scope.chain_covers [OF _ assms(2)])
  show "successively (narrows U) (root # rest)"
    by (rule successively_mono [OF assms(1)]) (rule attenuates_narrows)
qed

lemma chain_depth:
  assumes "successively (attenuates U) (root # rest)"
  shows "sint (ac_Depth (last (root # rest))) = sint (ac_Depth root) + int (length rest)"
  using assms
proof (induction rest arbitrary: root)
  case (Cons c rest)
  then have "sint (ac_Depth c) = sint (ac_Depth root) + 1"
    by (auto simp: attenuates_def)
  with Cons show ?case by auto
qed simp

lemma chain_bound:
  assumes "successively (attenuates U) (root # rest)" "wf_context U root"
  shows "int (length rest) \<le> sint (ac_MaxDepth root) - sint (ac_Depth root)"
  using narrows_chain [OF assms] chain_depth [OF assms(1)]
  by (auto simp: narrows_def wf_context_def)

lemma within_grant_permits:
  assumes "within_grant U g audience r issuedAt" "permits U r q"
  shows "grant_permits U g issuedAt q"
proof -
  obtain a s m t where q: "q = (a, s, m, t)" by (cases q)
  have "list_ex (\<lambda>p. Allows U p s) (gc_Resources g)"
    by (rule Subset_admits [of U "ac_Resources r"]) (use assms in \<open>simp_all add: within_grant_def permits_def q\<close>)
  moreover have "Satisfied U (gc_Constraints g) m"
    by (rule AtLeastAsStrong_satisfied [of U _ "ac_Constraints r"]) (use assms in \<open>simp_all add: within_grant_def permits_def q\<close>)
  ultimately show ?thesis
    using assms by (auto simp: within_grant_def permits_def grant_permits_def q)
qed

text \<open>A pattern that the resources of a context already cover adds nothing to what it permits.\<close>

lemma trimmed_pattern: "valid_pattern U p \<Longrightarrow> p \<noteq> [] \<and> trim_space p = p"
  using trimmed_patterns [of "[p]" U] by (simp add: trimmed_names_def)

lemma padded_accepted:
  assumes "wf_context U parent" "sint (ac_MaxUses parent) = 0" "sint (ac_Depth parent) < sint (ac_MaxDepth parent)"
    and "list_ex (\<lambda>q. Covers U q p) (ac_Resources parent)" "p \<notin> set (ac_Resources parent)"
  defines "child \<equiv> parent\<lparr>ac_Resources := ac_Resources parent @ [p], ac_Depth := ac_Depth parent + 1\<rparr>"
  shows "Validate U parent child = Inr ()" "permits U child = permits U parent"
    "Validate U parent (child\<lparr>ac_Resources := ac_Resources parent\<rparr>) = Inl (AttenuationE ErrNotStrict)"
proof -
  have "ac_Depth parent \<noteq> max_int"
    using assms(3) sint_go_int_range(2) [of "ac_MaxDepth parent"] sint_max_int by auto
  then have deeper: "sint (ac_Depth parent + 1) = sint (ac_Depth parent) + 1" by (rule sint_add_one)
  have p: "valid_pattern U p" using assms(4) by (auto simp: list_ex_iff Covers_iff)
  then have "trimmed_names (ac_Resources parent @ [p])"
    using assms(1,5) trimmed_pattern [OF p] by (auto simp: wf_context_def trimmed_names_def)
  with p have child: "wf_context U child" "wf_context U (child\<lparr>ac_Resources := ac_Resources parent\<rparr>)"
    using assms(1-3) deeper by (simp_all add: child_def wf_context_def)
  have kept: "Subset U (ac_Resources parent) (ac_Resources parent)"
    using assms(1) by (simp add: wf_context_def Subset_refl)
  then have "Subset U (ac_Resources child) (ac_Resources parent)"
    using assms(4) by (simp add: child_def Subset_def)
  then have "attenuates U parent child"
    using assms child deeper AtLeastAsStrong_refl [of U "ac_Constraints parent"]
    by (auto simp: attenuates_def same_authority_def wf_context_def)
  then show "Validate U parent child = Inr ()" by (simp add: Validate_ok)
  have "permits U child q" if "permits U parent q" for q
    using that by (cases q) (simp add: permits_def child_def)
  then show "permits U child = permits U parent"
    using narrows_permits [OF attenuates_narrows [OF \<open>attenuates U parent child\<close>]] by blast
  show "Validate U parent (child\<lparr>ac_Resources := ac_Resources parent\<rparr>) = Inl (AttenuationE ErrNotStrict)"
    using assms(1-3) child(2) deeper
    by (simp add: Validate_not_strict_iff same_authority_def) (simp add: child_def)
qed

subsection \<open>A concrete delegation\<close>

definition example_grant :: GrantContext where
  "example_grant = \<lparr>gc_Audiences = [''billing''], gc_Actions = [''refund'', ''read''],
     gc_Resources = [''customer/*'', ''invoice/*''], gc_MaxTTL = hour,
     gc_MaxDelegationDepth = 3, gc_CanDelegate = True, gc_MaxUses = 0,
     gc_Constraints = prod_limits ''1000''\<rparr>"

definition example_root :: AuthorityContext where
  "example_root = \<lparr>ac_Actions = [''refund'', ''read''], ac_Resources = [''customer/*''],
     ac_Expiration = hour, ac_Depth = 0, ac_MaxDepth = 2, ac_MaxUses = 0,
     ac_Constraints = prod_limits ''1000''\<rparr>"

definition example_child :: AuthorityContext where
  "example_child = \<lparr>ac_Actions = [''refund''], ac_Resources = [''customer/cus_123''],
     ac_Expiration = minute, ac_Depth = 1, ac_MaxDepth = 1, ac_MaxUses = 5,
     ac_Constraints = prod_limits ''500''\<rparr>"

text \<open>The child of a parent with the same authority but for one redundant resource.\<close>

definition example_padded :: AuthorityContext where
  "example_padded = example_root \<lparr>ac_Resources := [''customer/*'', ''customer/cus_123''],
     ac_Depth := 1\<rparr>"

lemma example_trimmed:
  "trimmed_names [''refund'', ''read'']" "trimmed_names [''refund'']" "trimmed_names [''billing'']"
  by (rule trimmed_plain; simp add: plain_char_def)+

lemma example_trimmed_resources:
  "trimmed_names [''customer/*'']" "trimmed_names [''customer/cus_123'']"
  "trimmed_names [''customer/*'', ''customer/cus_123'']"
  "trimmed_names [''customer/*'', ''invoice/*'']"
  by (rule trimmed_patterns [of _ ascii_lib]; simp add: example_resources)+

lemmas example_context_facts =
  example_trimmed example_trimmed_resources example_resources example_valid_constraints
  duration_defs zero_time_def

lemma example_wf:
  "wf_context ascii_lib example_root" "wf_context ascii_lib example_child"
  "wf_context ascii_lib example_padded" "wf_grant ascii_lib example_grant"
  by (simp_all add: wf_context_def wf_grant_def example_root_def example_child_def
      example_padded_def example_grant_def example_context_facts)

lemma example_attenuates: "attenuates ascii_lib example_root example_child"
proof -
  have "Covers ascii_lib ''customer/*'' ''customer/cus_123''"
    by (simp add: Covers_iff example_resources example_within)
  then show ?thesis
    using example_stronger [of ascii_lib]
    by (simp add: attenuates_def example_wf)
      (simp add: example_root_def example_child_def Subset_def same_authority_def duration_defs)
qed

lemma example_padded_attenuates: "attenuates ascii_lib example_root example_padded"
proof -
  have "Covers ascii_lib ''customer/*'' ''customer/cus_123''" "Covers ascii_lib ''customer/*'' ''customer/*''"
    by (simp_all add: Covers_iff example_resources example_within)
  then show ?thesis
    using AtLeastAsStrong_refl [OF example_valid_constraints(1) [of ascii_lib]]
    by (simp add: attenuates_def example_wf)
      (simp add: example_root_def example_padded_def Subset_def same_authority_def duration_defs)
qed

lemma example_within_grant: "within_grant ascii_lib example_grant ''billing'' example_root 0"
proof -
  have "Covers ascii_lib ''customer/*'' ''customer/*''"
    by (simp add: Covers_iff example_resources)
  then show ?thesis
    using AtLeastAsStrong_refl [OF example_valid_constraints(1) [of ascii_lib]]
    by (simp add: within_grant_def example_grant_def example_root_def Subset_def)
qed

lemma example_permits:
  "permits ascii_lib example_child (''refund'', ''customer/cus_123'', prod_limits ''500'', 0)"
  by (simp add: permits_def example_child_def Satisfied_self example_valid_constraints
      example_resources Allows_iff duration_defs)

lemma example_chain: "successively (attenuates ascii_lib) [example_root, example_child]"
  by (simp add: example_attenuates)

subsection \<open>Properties\<close>

text \<open>C13: delegation is decided exactly. \<open>Validate\<close> accepts a child of a parent precisely when
  both contexts are well formed, the parent is not limited in its uses, the child sits one
  level deeper (as integers: the depth never wraps) within both maximum depths, it extends
  neither the expiration nor the maximum depth nor the actions nor the resources, it keeps or
  strengthens every constraint, it delegates no further when its uses are limited, and it
  differs from the parent in some component of its authority.\<close>

theorem Validate_exact:
  "Validate U parent child = Inr () \<longleftrightarrow>
    validateContext U parent = Inr () \<and> validateContext U child = Inr ()
    \<and> sint (ac_MaxUses parent) = 0
    \<and> sint (ac_Depth child) = sint (ac_Depth parent) + 1
    \<and> sint (ac_Depth child) \<le> sint (ac_MaxDepth child)
    \<and> sint (ac_MaxDepth child) \<le> sint (ac_MaxDepth parent)
    \<and> ac_Expiration child \<le> ac_Expiration parent
    \<and> (0 < sint (ac_MaxUses child) \<longrightarrow> ac_MaxDepth child = ac_Depth child)
    \<and> AtLeastAsStrong U (ac_Constraints parent) (ac_Constraints child)
    \<and> set (ac_Actions child) \<subseteq> set (ac_Actions parent)
    \<and> Subset U (ac_Resources child) (ac_Resources parent)
    \<and> \<not> same_authority parent child"
  by (simp add: Validate_ok attenuates_def validateContext_ok)

theorem Validate_exact_witness:
  "Validate ascii_lib example_root example_child = Inr ()"
  using Validate_exact [of ascii_lib example_root example_child] example_attenuates
  by (simp add: attenuates_def validateContext_ok)

text \<open>C14: delegation never adds authority. Every request (an action on a resource with constraint
  values at an instant) that an accepted child permits, its parent permits.\<close>

theorem Validate_refines_parent:
  assumes "Validate U parent child = Inr ()" and "permits U child request"
  shows "permits U parent request"
  using assms by (auto simp: Validate_ok intro: narrows_permits attenuates_narrows)

theorem Validate_refines_parent_witness:
  "permits ascii_lib example_root (''refund'', ''customer/cus_123'', prod_limits ''500'', 0)"
  by (rule Validate_refines_parent [OF _ example_permits])
    (simp add: Validate_ok example_attenuates)

text \<open>The answer that a child is not strict is given exactly when nothing but the lack of
  strictness is wrong with it: the contexts are well formed, the depths are consecutive, the
  parent is unlimited, and the child repeats the parent's authority in every component.\<close>

theorem Validate_not_strict_exact:
  "Validate U parent child = Inl (AttenuationE ErrNotStrict) \<longleftrightarrow>
    validateContext U parent = Inr () \<and> validateContext U child = Inr ()
    \<and> sint (ac_MaxUses parent) = 0 \<and> sint (ac_Depth child) = sint (ac_Depth parent) + 1
    \<and> same_authority parent child"
  by (auto simp: Validate_not_strict_iff validateContext_ok)

text \<open>C23: strictness compares the lists of patterns, not what they allow. A well-formed parent with
  unlimited uses and depth to spare, repeated with one more pattern that its own patterns already
  cover, is accepted as a child, although it permits exactly the same requests; without the extra
  pattern the same child is refused as not strict.\<close>

theorem strictness_is_syntactic:
  assumes "validateContext U parent = Inr ()" and "sint (ac_MaxUses parent) = 0"
    and "sint (ac_Depth parent) < sint (ac_MaxDepth parent)"
    and "list_ex (\<lambda>q. Covers U q p) (ac_Resources parent)" and "p \<notin> set (ac_Resources parent)"
    and "child = parent\<lparr>ac_Resources := ac_Resources parent @ [p], ac_Depth := ac_Depth parent + 1\<rparr>"
  shows "Validate U parent child = Inr () \<and> permits U child = permits U parent
    \<and> Validate U parent (child\<lparr>ac_Resources := ac_Resources parent\<rparr>) = Inl (AttenuationE ErrNotStrict)"
  using padded_accepted [OF _ assms(2-5)] assms(1) by (simp add: validateContext_ok assms(6))

theorem strictness_is_syntactic_witness:
  "Validate ascii_lib example_root example_padded = Inr () \<and> permits ascii_lib example_padded = permits ascii_lib example_root"
proof -
  have "Covers ascii_lib ''customer/*'' ''customer/cus_123''"
    by (simp add: Covers_iff example_resources example_within)
  moreover have "example_padded = example_root\<lparr>ac_Resources := ac_Resources example_root @ [''customer/cus_123''],
      ac_Depth := ac_Depth example_root + 1\<rparr>"
    by (simp add: example_padded_def example_root_def)
  ultimately show ?thesis
    using strictness_is_syntactic [of ascii_lib example_root "''customer/cus_123''" example_padded] example_wf(1)
    by (simp add: validateContext_ok) (simp add: example_root_def)
qed

text \<open>A root lease stays within its grant. \<open>ValidateRoot\<close> accepts a request precisely when
  the grant and the requested context are well formed and the audience, actions, resources,
  constraints, lifetime, depth and uses are within the grant; a delegable root needs the
  grant's permission and unlimited uses.\<close>

theorem ValidateRoot_exact:
  "ValidateRoot U grant audience requested issuedAt = Inr () \<longleftrightarrow>
    issuedAt \<noteq> zero_time \<and> wf_grant U grant \<and> validateContext U requested = Inr ()
    \<and> audience \<in> set (gc_Audiences grant)
    \<and> set (ac_Actions requested) \<subseteq> set (gc_Actions grant)
    \<and> Subset U (ac_Resources requested) (gc_Resources grant)
    \<and> AtLeastAsStrong U (gc_Constraints grant) (ac_Constraints requested)
    \<and> ac_Expiration requested \<le> issuedAt + gc_MaxTTL grant
    \<and> ac_Depth requested = 0
    \<and> sint (ac_MaxDepth requested) \<le> sint (gc_MaxDelegationDepth grant)
    \<and> (0 < sint (ac_MaxDepth requested) \<longrightarrow> gc_CanDelegate grant \<and> ac_MaxUses requested = 0)
    \<and> (0 < sint (gc_MaxUses grant) \<longrightarrow>
        0 < sint (ac_MaxUses requested) \<and> sint (ac_MaxUses requested) \<le> sint (gc_MaxUses grant))"
  by (simp add: ValidateRoot_ok within_grant_def validateContext_ok)

theorem ValidateRoot_exact_witness:
  "ValidateRoot ascii_lib example_grant ''billing'' example_root 0 = Inr ()"
  using ValidateRoot_exact [of ascii_lib example_grant "''billing''" example_root 0]
    example_within_grant example_wf(1,4)
  by (simp add: within_grant_def validateContext_ok duration_defs zero_time_def)

text \<open>C12: the grant bounds the whole tree below a root. Along any chain of accepted delegations
  from an accepted root, what the last lease permits the grant permits, the lease expires
  within the grant's lifetime, and the chain has at most as many delegations as the grant's
  delegation depth, which is at most 16; a grant that limits uses admits no delegation.\<close>

theorem grant_bounds_chain:
  assumes "ValidateRoot U grant audience root issuedAt = Inr ()"
    and "successively (\<lambda>parent child. Validate U parent child = Inr ()) (root # rest)"
  shows "(\<forall>request. permits U (last (root # rest)) request \<longrightarrow> grant_permits U grant issuedAt request)
    \<and> ac_Expiration (last (root # rest)) \<le> issuedAt + gc_MaxTTL grant
    \<and> sint (ac_Depth (last (root # rest))) = int (length rest)
    \<and> int (length rest) \<le> sint (gc_MaxDelegationDepth grant) \<and> length rest \<le> 16
    \<and> (0 < sint (gc_MaxUses grant) \<longrightarrow> rest = [])"
proof -
  from assms(1) have g: "wf_grant U grant" and wf: "wf_context U root"
    and r: "within_grant U grant audience root issuedAt"
    by (simp_all add: ValidateRoot_ok)
  from assms(2) have chain: "successively (attenuates U) (root # rest)"
    by (simp add: Validate_ok)
  have n: "narrows U root (last (root # rest))" by (rule narrows_chain [OF chain wf])
  have d: "int (length rest) \<le> sint (gc_MaxDelegationDepth grant)"
    using chain_bound [OF chain wf] r by (simp add: within_grant_def)
  have "rest = []" if "0 < sint (gc_MaxUses grant)"
  proof (cases rest)
    case (Cons c cs)
    then have "attenuates U root c" using chain by simp
    then show ?thesis using that r by (simp add: attenuates_def within_grant_def)
  qed simp
  moreover have "\<forall>request. permits U (last (root # rest)) request \<longrightarrow>
      grant_permits U grant issuedAt request"
    using narrows_permits [OF n] within_grant_permits [OF r] by blast
  moreover have "ac_Expiration (last (root # rest)) \<le> issuedAt + gc_MaxTTL grant"
    using n r unfolding narrows_def within_grant_def by linarith
  moreover have "sint (ac_Depth (last (root # rest))) = int (length rest)"
    using chain_depth [OF chain] r by (simp add: within_grant_def)
  ultimately show ?thesis
    using d g by (simp add: wf_grant_def)
qed

theorem grant_bounds_chain_witness:
  "grant_permits ascii_lib example_grant 0 (''refund'', ''customer/cus_123'', prod_limits ''500'', 0)"
  using grant_bounds_chain [of ascii_lib example_grant "''billing''" example_root 0 "[example_child]"]
    example_within_grant example_wf(1,4) example_attenuates example_permits
  by (simp add: ValidateRoot_ok Validate_ok zero_time_def duration_defs)

end
