(* ===== verification/Usecase.thy ===== *)
theory Usecase
  imports Store Attenuation
begin

section \<open>The use cases\<close>

text \<open>
  Package \<open>internal/usecase\<close>: what the service does for each request, over the database. The
  clocks, the random source and the request identifier a call sees are the fields of \<open>call_env\<close>:
  \<open>now\<close> is \<open>usecase.now()\<close>, \<open>jwt_now\<close> the clock of the JWT library, \<open>db_now\<close> that of the
  database, \<open>ctx_request_id\<close> the identifier in the context, and \<open>random1\<close>, \<open>random2\<close> the 16
  bytes each call of \<open>newID\<close> reads (\<open>None\<close> when reading fails).

  \<open>MintRootLease\<close> and \<open>DelegateLease\<close> read the database before they write it. They are split where
  the code does so: \<open>check_delegation\<close> reads the parent, \<open>prepare_root\<close> and \<open>prepare_delegated\<close> read a
  workload and build the lease, and \<open>issue\<close> signs and stores it. The theory \<open>System\<close> lets other
  requests run in between.
\<close>

definition maxCapabilityValues :: nat where
  "maxCapabilityValues = 64"

definition maxCapabilityValueLength :: nat where
  "maxCapabilityValueLength = 256"

definition maxDelegationDepth :: int where
  "maxDelegationDepth = 16"

record Config =
  cf_HasRepository :: bool
  cf_PrivateKey :: bytes
  cf_VerificationKeys :: "(bytes, bytes) fmap"
  cf_Issuer :: bytes
  cf_MaxTTL :: duration
  cf_ClockSkew :: duration
  cf_RequestWindow :: duration

record LeaseUsecase =
  uc_privateKey :: bytes
  uc_verificationKeys :: "(bytes, bytes) fmap"
  uc_issuer :: bytes
  uc_maxTTL :: duration
  uc_clockSkew :: duration
  uc_requestWindow :: duration

record call_env =
  now :: instant
  jwt_now :: instant
  db_now :: instant
  ctx_request_id :: bytes
  random1 :: "bytes option"
  random2 :: "bytes option"

definition NewLeaseUsecase :: "Config \<Rightarrow> LeaseUsecase result" where
  "NewLeaseUsecase config =
    (if \<not> cf_HasRepository config \<or> length (cf_PrivateKey config) \<noteq> PrivateKeySize
        \<or> fmlen (cf_VerificationKeys config) = 0 \<or> trim_space (cf_Issuer config) = []
     then Inl (DomainE ErrInvalidLease)
     else if cf_MaxTTL config \<le> 0 \<or> cf_MaxTTL config > 24 * hour \<or> cf_ClockSkew config < 0
        \<or> cf_ClockSkew config > minute \<or> cf_RequestWindow config \<le> 0
        \<or> cf_RequestWindow config > 5 * minute
     then Inl (DomainE ErrInvalidLease)
     else if \<not> fmpred (\<lambda>i key. i \<noteq> [] \<and> length key = PublicKeySize) (cf_VerificationKeys config)
     then Inl (DomainE ErrInvalidLease)
     else Inr \<lparr>uc_privateKey = cf_PrivateKey config, uc_verificationKeys = cf_VerificationKeys config,
       uc_issuer = cf_Issuer config, uc_maxTTL = cf_MaxTTL config, uc_clockSkew = cf_ClockSkew config,
       uc_requestWindow = cf_RequestWindow config\<rparr>)"

subsection \<open>Checks on values\<close>

fun unique_values_loop :: "bytes fset \<Rightarrow> bytes list \<Rightarrow> unit result" where
  "unique_values_loop seen [] = Inr ()"
| "unique_values_loop seen (value # values) =
    (if value = [] \<or> length value > maxCapabilityValueLength \<or> trim_space value \<noteq> value
     then Inl (DomainE ErrInvalidWorkload)
     else if value |\<in>| seen then Inl (DomainE ErrInvalidWorkload)
     else unique_values_loop (finsert value seen) values)"

definition validateUniqueValues :: "bytes list \<Rightarrow> nat \<Rightarrow> unit result" where
  "validateUniqueValues values maximum =
    (if length values = 0 \<or> length values > maximum then Inl (DomainE ErrInvalidWorkload)
     else unique_values_loop {||} values)"

definition validateValues :: "unicode_lib \<Rightarrow> bytes list \<Rightarrow> bytes list \<Rightarrow> unit result" where
  "validateValues U actions resources =
    (if length actions = 0 \<or> length resources = 0 \<or> length actions > maxCapabilityValues
        \<or> length resources > maxCapabilityValues
     then Inl (DomainE ErrInvalidLease)
     else if list_ex (list_ex (\<lambda>value. length value > maxCapabilityValueLength)) [actions, resources]
     then Inl (DomainE ErrInvalidLease)
     else case CanonicalizePatterns U resources of
       Inl err \<Rightarrow> Inl (Wrapped [] [DomainE ErrInvalidLease, err])
     | Inr _ \<Rightarrow>
       let context = \<lparr>ac_Actions = actions, ac_Resources = resources, ac_Expiration = time_unix 1,
             ac_Depth = 0, ac_MaxDepth = 1, ac_MaxUses = 0, ac_Constraints = fmempty\<rparr>;
           child = context\<lparr>ac_Depth := 1, ac_Expiration := time_unix 0\<rparr>
       in case Validate U context child of
         Inl err \<Rightarrow> if \<not> errors_is err (AttenuationE ErrNotStrict)
                    then Inl (Wrapped [] [DomainE ErrInvalidLease, err]) else Inr ()
       | Inr _ \<Rightarrow> Inr ())"

definition copyConstraints :: "constraints \<Rightarrow> constraints" where
  "copyConstraints values = values"

definition validateGrant :: "unicode_lib \<Rightarrow> LeaseUsecase \<Rightarrow> AuthorityGrant \<Rightarrow> AuthorityGrant result" where
  "validateGrant U usecase grant =
    (if length (g_Audiences grant) = 0 \<or> length (g_Audiences grant) > 16 \<or> g_MaxTTL grant \<le> 0
        \<or> g_MaxTTL grant > uc_maxTTL usecase \<or> sint (g_MaxDelegationDepth grant) < 0
        \<or> sint (g_MaxDelegationDepth grant) > maxDelegationDepth \<or> sint (g_MaxUses grant) < 0
        \<or> sint (g_MaxUses grant) > 1000000
     then Inl (DomainE ErrInvalidWorkload)
     else if \<not> g_CanDelegate grant \<and> g_MaxDelegationDepth grant \<noteq> 0
     then Inl (DomainE ErrInvalidWorkload)
     else if sint (g_MaxUses grant) > 0 \<and> (g_CanDelegate grant \<or> g_MaxDelegationDepth grant \<noteq> 0)
     then Inl (DomainE ErrInvalidWorkload)
     else case validateUniqueValues (g_Audiences grant) 16 of
       Inl _ \<Rightarrow> Inl (DomainE ErrInvalidWorkload)
     | Inr _ \<Rightarrow>
     (case validateValues U (g_Actions grant) (g_Resources grant) of
       Inl _ \<Rightarrow> Inl (DomainE ErrInvalidWorkload)
     | Inr _ \<Rightarrow>
     (case CanonicalizePatterns U (g_Resources grant) of
       Inl _ \<Rightarrow> Inl (DomainE ErrInvalidWorkload)
     | Inr canonicalResources \<Rightarrow>
     (case ValidateRoot U
         \<lparr>gc_Audiences = g_Audiences grant, gc_Actions = g_Actions grant, gc_Resources = canonicalResources,
          gc_MaxTTL = g_MaxTTL grant, gc_MaxDelegationDepth = g_MaxDelegationDepth grant,
          gc_CanDelegate = g_CanDelegate grant, gc_MaxUses = g_MaxUses grant,
          gc_Constraints = g_Constraints grant\<rparr>
         (hd (g_Audiences grant))
         \<lparr>ac_Actions = g_Actions grant, ac_Resources = canonicalResources,
          ac_Expiration = time_unix 1 + g_MaxTTL grant, ac_Depth = 0,
          ac_MaxDepth = g_MaxDelegationDepth grant, ac_MaxUses = g_MaxUses grant,
          ac_Constraints = g_Constraints grant\<rparr>
         (time_unix 1) of
       Inl _ \<Rightarrow> Inl (DomainE ErrInvalidWorkload)
     | Inr _ \<Rightarrow>
         Inr (grant\<lparr>g_Resources := canonicalResources,
           g_Constraints := copyConstraints (g_Constraints grant), g_Version := 1\<rparr>)))))"

definition validNonce :: "bytes \<Rightarrow> bool" where
  "validNonce value =
    (if length value < 32 \<or> length value > 128 then False else list_all url_safe_rune (runes value))"

definition validIdempotencyKey :: "bytes \<Rightarrow> bool" where
  "validIdempotencyKey value =
    (if length value < 16 \<or> length value > 128 \<or> trim_space value \<noteq> value then False
     else list_all (\<lambda>character. \<not> (character < 0x21 \<or> character > 0x7e)) (runes value))"

definition sameStrings :: "bytes list \<Rightarrow> bytes list \<Rightarrow> bool" where
  "sameStrings left right =
    (if length left \<noteq> length right then False
     else list_all (\<lambda>value. value |\<in>| fset_of_list left) right)"

definition parentID :: "Lease \<Rightarrow> bytes" where
  "parentID lease = (case l_ParentLeaseID lease of None \<Rightarrow> [] | Some i \<Rightarrow> i)"

definition delegatedByID :: "Lease \<Rightarrow> bytes" where
  "delegatedByID lease = (case l_DelegatedByWorkloadID lease of None \<Rightarrow> [] | Some i \<Rightarrow> i)"

definition claimConfirmation :: "LeaseClaims \<Rightarrow> bytes" where
  "claimConfirmation claims = (case c_Confirmation claims of None \<Rightarrow> [] | Some cnf \<Rightarrow> jkt cnf)"

subsection \<open>Identifiers\<close>

definition hex_digit :: "nat \<Rightarrow> char" where
  "hex_digit n = ''0123456789abcdef'' ! n"

definition hex_encode :: "bytes \<Rightarrow> bytes" where
  "hex_encode value = concat (map (\<lambda>c. [hex_digit (byte c div 16), hex_digit (byte c mod 16)]) value)"

text \<open>\<open>value[6]&0x0f | 0x40\<close> and \<open>value[8]&0x3f | 0x80\<close>, on bytes.\<close>

definition set_bits :: "8 word \<Rightarrow> 8 word \<Rightarrow> char \<Rightarrow> char" where
  "set_bits keep bits c = chr (unat (or (and (word_of_nat (byte c)) keep) bits))"

definition stamp_version :: "bytes \<Rightarrow> bytes" where
  "stamp_version value =
    (let value = value[6 := set_bits 0x0f 0x40 (value ! 6)]
     in value[8 := set_bits 0x3f 0x80 (value ! 8)])"

definition slice :: "bytes \<Rightarrow> nat \<Rightarrow> nat \<Rightarrow> bytes" where
  "slice s a b = take (b - a) (drop a s)"

definition newID :: "bytes option \<Rightarrow> bytes result" where
  "newID random =
    (case random of
       None \<Rightarrow> Inl (Opaque ''generate id'')
     | Some value \<Rightarrow>
         (let encoded = hex_encode (stamp_version value)
          in Inr (slice encoded 0 8 @ ''-'' @ slice encoded 8 12 @ ''-'' @ slice encoded 12 16 @ ''-''
               @ slice encoded 16 20 @ ''-'' @ slice encoded 20 32)))"

subsection \<open>Workloads\<close>

definition registered_event :: "RegisterWorkloadRequest \<Rightarrow> Workload \<Rightarrow> AuthorityGrant \<Rightarrow> instant \<Rightarrow> AuditEvent" where
  "registered_event request workload grant at =
    \<lparr>e_ID = 0, e_WorkloadID = Some (w_ID workload), e_LeaseID = None,
     e_EventType = ''workload.registered'', e_Actor = rw_Actor request,
     e_Details =
       [(''name'', DString (w_Name workload)), (''grant_version'', DInt (sint (g_Version grant))),
        (''audiences'', DStrings (g_Audiences grant)), (''actions'', DStrings (g_Actions grant)),
        (''resources'', DStrings (g_Resources grant)),
        (''max_ttl_seconds'', DInt (go_div (g_MaxTTL grant) second)),
        (''max_delegation_depth'', DInt (sint (g_MaxDelegationDepth grant))),
        (''can_delegate'', DBool (g_CanDelegate grant)),
        (''require_proof_of_possession'', DBool (g_RequireProofOfPossession grant)),
        (''max_uses'', DInt (sint (g_MaxUses grant))), (''constraints'', DMap (g_Constraints grant))],
     e_OccurredAt = at, e_RequestID = []\<rparr>"

definition RegisterWorkload ::
    "auth_lib \<Rightarrow> LeaseUsecase \<Rightarrow> call_env \<Rightarrow> RegisterWorkloadRequest \<Rightarrow> db \<Rightarrow> Workload result \<times> db" where
  "RegisterWorkload L usecase env request s =
    (let name = trim_space (rw_Name request)
     in if name \<noteq> rw_Name request \<or> length name < 3 \<or> length name > 128
          \<or> length (rw_PublicKey request) \<noteq> PublicKeySize \<or> trim_space (rw_Actor request) = []
     then (Inl (DomainE ErrInvalidWorkload), s)
     else case validateGrant (unicode L) usecase (rw_Grant request) of
       Inl err \<Rightarrow> (Inl err, s)
     | Inr grant \<Rightarrow>
     (case newID (random1 env) of
       Inl err \<Rightarrow> (Inl err, s)
     | Inr i \<Rightarrow>
       let at = trunc_second (now env);
           workload = \<lparr>w_ID = i, w_Name = name, w_PublicKey = rw_PublicKey request,
             w_PreviousPublicKey = None, w_PreviousKeyExpiresAt = None, w_CreatedAt = at,
             w_UpdatedAt = at, w_DisabledAt = None, w_Grant = grant, w_AuthenticatedKeyThumbprint = []\<rparr>
       in case CreateWorkload L (ctx_request_id env) workload (registered_event request workload grant at) s of
         (Inl err, s') \<Rightarrow> (Inl err, s')
       | (Inr _, s') \<Rightarrow> (Inr workload, s')))"

definition GetWorkload :: "auth_lib \<Rightarrow> bytes \<Rightarrow> db \<Rightarrow> Workload result" where
  "GetWorkload L workloadID s =
    (if workloadID = [] then Inl (DomainE ErrInvalidWorkload) else GetWorkloadByID L workloadID s)"

text \<open>The thumbprint of the key that verifies the signature; \<open>None\<close> when no accepted key does.\<close>

definition authenticatedWorkloadKey ::
    "auth_lib \<Rightarrow> Workload \<Rightarrow> bytes \<Rightarrow> bytes \<Rightarrow> instant \<Rightarrow> bytes option" where
  "authenticatedWorkloadKey L workload message signature at =
    (if length (w_PublicKey workload) = PublicKeySize
        \<and> ed25519_verify L (w_PublicKey workload) message signature
     then (case JWKThumbprint L (w_PublicKey workload) of Inl _ \<Rightarrow> None | Inr t \<Rightarrow> Some t)
     else case (w_PreviousKeyExpiresAt workload, w_PreviousPublicKey workload) of
       (Some expires, Some previous) \<Rightarrow>
         if at < expires \<and> length previous = PublicKeySize \<and> ed25519_verify L previous message signature
         then (case JWKThumbprint L previous of Inl _ \<Rightarrow> None | Inr t \<Rightarrow> Some t)
         else None
     | _ \<Rightarrow> None)"

definition workloadAcceptsThumbprint :: "auth_lib \<Rightarrow> Workload \<Rightarrow> bytes \<Rightarrow> instant \<Rightarrow> bool" where
  "workloadAcceptsThumbprint L workload thumbprint at =
    (if JWKThumbprint L (w_PublicKey workload) = Inr thumbprint then True
     else case w_PreviousKeyExpiresAt workload of
       None \<Rightarrow> False
     | Some expires \<Rightarrow>
         if \<not> at < expires then False
         else JWKThumbprint L (case w_PreviousPublicKey workload of None \<Rightarrow> [] | Some k \<Rightarrow> k)
              = Inr thumbprint)"

definition AuthenticateWorkload ::
    "auth_lib \<Rightarrow> LeaseUsecase \<Rightarrow> call_env \<Rightarrow> AuthenticateWorkloadRequest \<Rightarrow> db \<Rightarrow> Workload result \<times> db" where
  "AuthenticateWorkload L usecase env request s =
    (let at = trunc_second (now env)
     in if aw_WorkloadID request = [] \<or> is_zero_time (aw_Timestamp request) \<or> \<not> validNonce (aw_Nonce request)
          \<or> length (aw_Message request) = 0 \<or> length (aw_Signature request) \<noteq> SignatureSize
     then (Inl (DomainE ErrUnauthenticated), s)
     else
       let delta = time_sub at (aw_Timestamp request)
       in if delta < - uc_requestWindow usecase \<or> delta > uc_requestWindow usecase
     then (Inl (DomainE ErrUnauthenticated), s)
     else case GetWorkloadByID L (aw_WorkloadID request) s of
       Inl err \<Rightarrow>
         (Inl (if errors_is err (DomainE ErrWorkloadNotFound) then DomainE ErrUnauthenticated else err), s)
     | Inr workload \<Rightarrow>
       if w_DisabledAt workload \<noteq> None then (Inl (DomainE ErrUnauthenticated), s)
       else case authenticatedWorkloadKey L workload (aw_Message request) (aw_Signature request) at of
         None \<Rightarrow> (Inl (DomainE ErrUnauthenticated), s)
       | Some authenticatedKey \<Rightarrow>
         (case ConsumeWorkloadNonce L (db_now env) (w_ID workload) (sha256 L (aw_Nonce request))
                 (aw_Timestamp request + uc_requestWindow usecase) s of
            (Inl err, s') \<Rightarrow> (Inl err, s')
          | (Inr _, s') \<Rightarrow> (Inr (workload\<lparr>w_AuthenticatedKeyThumbprint := authenticatedKey\<rparr>), s')))"

definition DisableWorkloadCase ::
    "auth_lib \<Rightarrow> call_env \<Rightarrow> bytes \<Rightarrow> bytes \<Rightarrow> db \<Rightarrow> int result \<times> db" where
  "DisableWorkloadCase L env workloadID actor s =
    (if workloadID = [] \<or> trim_space actor = [] then (Inl (DomainE ErrInvalidWorkload), s)
     else DisableWorkload L (ctx_request_id env) workloadID actor (trunc_second (now env)) s)"

definition RotateWorkloadKeyCase ::
    "auth_lib \<Rightarrow> call_env \<Rightarrow> RotateWorkloadKeyRequest \<Rightarrow> db \<Rightarrow> (Workload \<times> int) result \<times> db" where
  "RotateWorkloadKeyCase L env request s =
    (if rk_WorkloadID request = [] \<or> length (rk_PublicKey request) \<noteq> PublicKeySize
        \<or> rk_Overlap request < 0 \<or> rk_Overlap request > 24 * hour \<or> trim_space (rk_Actor request) = []
     then (Inl (DomainE ErrInvalidWorkload), s)
     else RotateWorkloadKey L (ctx_request_id env) request (trunc_second (now env)) s)"

subsection \<open>Issuing leases\<close>

text \<open>The zero time as \<open>explicit\<close> asks for a duration, a zero \<open>ttl\<close> for an explicit instant.\<close>

definition lease_expiration :: "LeaseUsecase \<Rightarrow> instant \<Rightarrow> instant \<Rightarrow> duration \<Rightarrow> instant result" where
  "lease_expiration usecase at explicit ttl =
    (if \<not> is_zero_time explicit \<and> ttl \<noteq> 0 then Inl (DomainE ErrInvalidLease)
     else if is_zero_time explicit \<and> ttl \<le> 0 then Inl (DomainE ErrInvalidLease)
     else
       let expiration = trunc_second (if is_zero_time explicit then at + ttl else trunc_second explicit)
       in if \<not> expiration > at \<or> expiration > at + uc_maxTTL usecase
          then Inl (DomainE ErrInvalidLease)
          else Inr expiration)"

definition grant_context :: "AuthorityGrant \<Rightarrow> GrantContext" where
  "grant_context grant =
    \<lparr>gc_Audiences = g_Audiences grant, gc_Actions = g_Actions grant, gc_Resources = g_Resources grant,
     gc_MaxTTL = g_MaxTTL grant, gc_MaxDelegationDepth = g_MaxDelegationDepth grant,
     gc_CanDelegate = g_CanDelegate grant, gc_MaxUses = g_MaxUses grant,
     gc_Constraints = g_Constraints grant\<rparr>"

definition prepare_root ::
    "auth_lib \<Rightarrow> LeaseUsecase \<Rightarrow> call_env \<Rightarrow> MintRootLeaseRequest \<Rightarrow> db \<Rightarrow> Lease result" where
  "prepare_root L usecase env request s =
    (let at = trunc_second (now env)
     in if mr_WorkloadID request = [] \<or> mr_Audience request = []
          \<or> trim_space (mr_Audience request) \<noteq> mr_Audience request \<or> length (mr_Audience request) > 256
          \<or> sint (mr_MaxDepth request) < 0 \<or> sint (mr_MaxDepth request) > maxDelegationDepth
          \<or> sint (mr_MaxUses request) < 0 \<or> sint (mr_MaxUses request) > 1000000
          \<or> length (mr_AuthenticatedKeyThumbprint request) \<noteq> 43
     then Inl (DomainE ErrInvalidLease)
     else case GetWorkloadByID L (mr_WorkloadID request) s of
       Inl err \<Rightarrow> Inl err
     | Inr workload \<Rightarrow>
     if w_DisabledAt workload \<noteq> None then Inl (DomainE ErrUnauthenticated)
     else if \<not> workloadAcceptsThumbprint L workload (mr_AuthenticatedKeyThumbprint request) at
     then Inl (DomainE ErrUnauthenticated)
     else case lease_expiration usecase at (mr_Expiration request) (mr_TTL request) of
       Inl err \<Rightarrow> Inl err
     | Inr expiration \<Rightarrow>
     (case validateValues (unicode L) (mr_Actions request) (mr_Resources request) of
       Inl err \<Rightarrow> Inl err
     | Inr _ \<Rightarrow>
     (case ValidateRoot (unicode L) (grant_context (w_Grant workload)) (mr_Audience request)
         \<lparr>ac_Actions = mr_Actions request, ac_Resources = mr_Resources request,
          ac_Expiration = expiration, ac_Depth = 0, ac_MaxDepth = mr_MaxDepth request,
          ac_MaxUses = mr_MaxUses request, ac_Constraints = mr_Constraints request\<rparr> at of
       Inl err \<Rightarrow> Inl (Wrapped [] [DomainE ErrAuthorityEscalation, err])
     | Inr _ \<Rightarrow>
     (case newID (random1 env) of
       Inl err \<Rightarrow> Inl err
     | Inr i \<Rightarrow>
     (case newID (random2 env) of
       Inl err \<Rightarrow> Inl err
     | Inr tokenID \<Rightarrow>
     (case (if mr_ProofOfPossession request \<or> g_RequireProofOfPossession (w_Grant workload)
            then JWKThumbprint L (w_PublicKey workload) else Inr []) of
       Inl _ \<Rightarrow> Inl (DomainE ErrInvalidWorkload)
     | Inr confirmation \<Rightarrow>
         Inr \<lparr>l_ID = i, l_TokenID = tokenID, l_WorkloadID = mr_WorkloadID request,
           l_RootWorkloadID = mr_WorkloadID request, l_Audience = mr_Audience request,
           l_ParentLeaseID = None, l_RootLeaseID = i, l_DelegatedByWorkloadID = None,
           l_Actions = mr_Actions request, l_Resources = mr_Resources request,
           l_Expiration = expiration, l_Depth = 0, l_MaxDepth = mr_MaxDepth request, l_TokenHash = [],
           l_IssuedAt = at, l_RevokedAt = None, l_GrantVersion = g_Version (w_Grant workload),
           l_ConfirmationThumbprint = confirmation, l_MaxUses = mr_MaxUses request, l_UsesConsumed = 0,
           l_Constraints = copyConstraints (mr_Constraints request),
           l_AuthenticatedKeyThumbprint = mr_AuthenticatedKeyThumbprint request\<rparr>))))))"

definition NumericDate :: "instant \<Rightarrow> instant" where
  "NumericDate t = trunc_second t"

definition lease_claims :: "LeaseUsecase \<Rightarrow> Lease \<Rightarrow> LeaseClaims" where
  "lease_claims usecase lease =
    \<lparr>c_UPS =
       \<lparr>ups_Version = LeaseTokenVersion, ups_LeaseID = l_ID lease, ups_RootLeaseID = l_RootLeaseID lease,
        ups_RootWorkloadID = l_RootWorkloadID lease, ups_WorkloadID = l_WorkloadID lease,
        ups_DelegatedByWorkloadID = delegatedByID lease, ups_Actions = l_Actions lease,
        ups_Resources = l_Resources lease, ups_Depth = l_Depth lease, ups_MaxDepth = l_MaxDepth lease,
        ups_ParentLeaseID = parentID lease, ups_MaxUses = l_MaxUses lease,
        ups_Constraints = Some (copyConstraints (l_Constraints lease))\<rparr>,
     c_Confirmation =
       (if l_ConfirmationThumbprint lease \<noteq> [] then Some \<lparr>jkt = l_ConfirmationThumbprint lease\<rparr> else None),
     c_Issuer = uc_issuer usecase, c_Subject = l_WorkloadID lease, c_Audience = [l_Audience lease],
     c_ExpiresAt = Some (NumericDate (l_Expiration lease)),
     c_NotBefore = Some (NumericDate (l_IssuedAt lease)),
     c_IssuedAt = Some (NumericDate (l_IssuedAt lease)), c_ID = l_TokenID lease\<rparr>"

definition issued_event :: "Lease \<Rightarrow> bytes \<Rightarrow> bytes \<Rightarrow> AuditEvent" where
  "issued_event lease eventType actor =
    \<lparr>e_ID = 0, e_WorkloadID = Some (l_WorkloadID lease), e_LeaseID = Some (l_ID lease),
     e_EventType = eventType, e_Actor = actor,
     e_Details =
       [(''audience'', DString (l_Audience lease)), (''depth'', DInt (sint (l_Depth lease))),
        (''expires_at'', DTime (l_Expiration lease)), (''parent_lease_id'', DString (parentID lease)),
        (''root_lease_id'', DString (l_RootLeaseID lease)),
        (''root_workload_id'', DString (l_RootWorkloadID lease)),
        (''subject_workload_id'', DString (l_WorkloadID lease)),
        (''delegated_by_workload_id'', DString (delegatedByID lease)),
        (''actions'', DStrings (l_Actions lease)), (''resources'', DStrings (l_Resources lease)),
        (''max_uses'', DInt (sint (l_MaxUses lease))), (''constraints'', DMap (l_Constraints lease))],
     e_OccurredAt = l_IssuedAt lease, e_RequestID = []\<rparr>"

definition issue ::
    "auth_lib \<Rightarrow> LeaseUsecase \<Rightarrow> call_env \<Rightarrow> Lease \<Rightarrow> bytes \<Rightarrow> bytes \<Rightarrow> db \<Rightarrow> IssuedLease result \<times> db" where
  "issue L usecase env lease eventType actor s =
    (if l_TokenID lease = [] \<or> l_RootLeaseID lease = [] \<or> l_RootWorkloadID lease = []
     then (Inl (DomainE ErrInvalidLease), s)
     else case SignLeaseClaims L (lease_claims usecase lease) (uc_privateKey usecase) of
       Inl err \<Rightarrow> (Inl (Wrapped ''sign lease'' [err]), s)
     | Inr token \<Rightarrow>
       let hashed = lease\<lparr>l_TokenHash := sha256 L token\<rparr>
       in case CreateLease L (ctx_request_id env) hashed (issued_event hashed eventType actor) s of
         (Inl err, s') \<Rightarrow> (Inl err, s')
       | (Inr _, s') \<Rightarrow> (Inr \<lparr>il_Lease = hashed, il_Token = token\<rparr>, s'))"

definition MintRootLease ::
    "auth_lib \<Rightarrow> LeaseUsecase \<Rightarrow> call_env \<Rightarrow> MintRootLeaseRequest \<Rightarrow> db \<Rightarrow> IssuedLease result \<times> db" where
  "MintRootLease L usecase env request s =
    (case prepare_root L usecase env request s of
       Inl err \<Rightarrow> (Inl err, s)
     | Inr lease \<Rightarrow> issue L usecase env lease ''lease.root_minted'' (mr_WorkloadID request) s)"

subsection \<open>Delegation\<close>

definition parentTokenMatches :: "auth_lib \<Rightarrow> Lease \<Rightarrow> bytes \<Rightarrow> LeaseClaims \<Rightarrow> bool" where
  "parentTokenMatches L parent raw claims =
    (let ups = c_UPS claims
     in if c_ID claims \<noteq> l_TokenID parent \<or> c_Subject claims \<noteq> l_WorkloadID parent
          \<or> ups_LeaseID ups \<noteq> l_ID parent \<or> ups_RootLeaseID ups \<noteq> l_RootLeaseID parent
          \<or> ups_RootWorkloadID ups \<noteq> l_RootWorkloadID parent
          \<or> ups_WorkloadID ups \<noteq> l_WorkloadID parent
          \<or> ups_DelegatedByWorkloadID ups \<noteq> delegatedByID parent \<or> ups_Depth ups \<noteq> l_Depth parent
          \<or> ups_MaxDepth ups \<noteq> l_MaxDepth parent \<or> ups_MaxUses ups \<noteq> l_MaxUses parent
          \<or> claimConfirmation claims \<noteq> l_ConfirmationThumbprint parent
          \<or> c_ExpiresAt claims \<noteq> Some (l_Expiration parent)
     then False
     else if \<not> sameStrings (ups_Actions ups) (l_Actions parent)
          \<or> \<not> sameStrings (ups_Resources ups) (l_Resources parent)
          \<or> \<not> Equal (unicode L) (case ups_Constraints ups of None \<Rightarrow> fmempty | Some m \<Rightarrow> m)
                (l_Constraints parent)
          \<or> ups_ParentLeaseID ups \<noteq> parentID parent
     then False
     else length (l_TokenHash parent) = 32 \<and> sha256 L raw = l_TokenHash parent)"

definition lease_context :: "Lease \<Rightarrow> AuthorityContext" where
  "lease_context l =
    \<lparr>ac_Actions = l_Actions l, ac_Resources = l_Resources l, ac_Expiration = l_Expiration l,
     ac_Depth = l_Depth l, ac_MaxDepth = l_MaxDepth l, ac_MaxUses = l_MaxUses l,
     ac_Constraints = l_Constraints l\<rparr>"

definition check_delegation ::
    "auth_lib \<Rightarrow> LeaseUsecase \<Rightarrow> call_env \<Rightarrow> DelegateLeaseRequest \<Rightarrow> db \<Rightarrow> Lease result" where
  "check_delegation L usecase env request s =
    (if dl_ParentLeaseID request = [] \<or> dl_ParentToken request = []
        \<or> dl_DelegatingWorkloadID request = [] \<or> dl_DelegateToWorkloadID request = []
        \<or> sint (dl_MaxUses request) < 0 \<or> sint (dl_MaxUses request) > 1000000
        \<or> length (dl_AuthenticatedKeyThumbprint request) \<noteq> 43
     then Inl (DomainE ErrUnauthenticated)
     else case GetLeaseByID L (dl_ParentLeaseID request) s of
       Inl err \<Rightarrow> Inl err
     | Inr parent \<Rightarrow>
       let at = trunc_second (now env)
       in if l_RevokedAt parent \<noteq> None then Inl (DomainE ErrLeaseRevoked)
       else if dl_DelegatingWorkloadID request \<noteq> l_WorkloadID parent
       then Inl (DomainE ErrUnauthenticated)
       else if \<not> l_Expiration parent > at then Inl (DomainE ErrInvalidLease)
       else case VerifyLeaseToken L (jwt_now env) (dl_ParentToken request) (uc_verificationKeys usecase)
           (uc_issuer usecase) (l_Audience parent) (uc_clockSkew usecase) of
         Inl _ \<Rightarrow> Inl (DomainE ErrUnauthenticated)
       | Inr claims \<Rightarrow>
         if \<not> parentTokenMatches L parent (dl_ParentToken request) claims
         then Inl (DomainE ErrUnauthenticated)
         else if l_ConfirmationThumbprint parent \<noteq> []
            \<and> l_ConfirmationThumbprint parent \<noteq> dl_AuthenticatedKeyThumbprint request
         then Inl (DomainE ErrUnauthenticated)
         else Inr parent)"

definition child_max_depth :: "DelegateLeaseRequest \<Rightarrow> Lease \<Rightarrow> go_int" where
  "child_max_depth request parent =
    (if sint (dl_MaxUses request) > 0 then l_Depth parent + 1 else l_MaxDepth parent)"

definition prepare_delegated ::
    "auth_lib \<Rightarrow> LeaseUsecase \<Rightarrow> call_env \<Rightarrow> DelegateLeaseRequest \<Rightarrow> Lease \<Rightarrow> db \<Rightarrow> Lease result" where
  "prepare_delegated L usecase env request parent s =
    (let at = trunc_second (now env)
     in case GetWorkloadByID L (dl_DelegateToWorkloadID request) s of
       Inl err \<Rightarrow> Inl err
     | Inr recipient \<Rightarrow>
     if w_DisabledAt recipient \<noteq> None then Inl (DomainE ErrUnauthenticated)
     else case lease_expiration usecase at (dl_Expiration request) (dl_TTL request) of
       Inl err \<Rightarrow> Inl err
     | Inr expiration \<Rightarrow>
     (case Validate (unicode L) (lease_context parent)
         \<lparr>ac_Actions = dl_Actions request, ac_Resources = dl_Resources request,
          ac_Expiration = expiration, ac_Depth = l_Depth parent + 1,
          ac_MaxDepth = child_max_depth request parent, ac_MaxUses = dl_MaxUses request,
          ac_Constraints = dl_Constraints request\<rparr> of
       Inl err \<Rightarrow> Inl (Wrapped [] [DomainE ErrInvalidAttenuation, err])
     | Inr _ \<Rightarrow>
     (case newID (random1 env) of
       Inl err \<Rightarrow> Inl err
     | Inr i \<Rightarrow>
     (case newID (random2 env) of
       Inl err \<Rightarrow> Inl err
     | Inr tokenID \<Rightarrow>
     (case (if dl_ProofOfPossession request \<or> l_ConfirmationThumbprint parent \<noteq> []
            then JWKThumbprint L (w_PublicKey recipient) else Inr []) of
       Inl _ \<Rightarrow> Inl (DomainE ErrInvalidWorkload)
     | Inr confirmation \<Rightarrow>
         Inr \<lparr>l_ID = i, l_TokenID = tokenID, l_WorkloadID = w_ID recipient,
           l_RootWorkloadID = l_RootWorkloadID parent, l_Audience = l_Audience parent,
           l_ParentLeaseID = Some (l_ID parent), l_RootLeaseID = l_RootLeaseID parent,
           l_DelegatedByWorkloadID = Some (l_WorkloadID parent), l_Actions = dl_Actions request,
           l_Resources = dl_Resources request, l_Expiration = expiration,
           l_Depth = l_Depth parent + 1, l_MaxDepth = child_max_depth request parent,
           l_TokenHash = [], l_IssuedAt = at, l_RevokedAt = None,
           l_GrantVersion = l_GrantVersion parent, l_ConfirmationThumbprint = confirmation,
           l_MaxUses = dl_MaxUses request, l_UsesConsumed = 0,
           l_Constraints = copyConstraints (dl_Constraints request),
           l_AuthenticatedKeyThumbprint = dl_AuthenticatedKeyThumbprint request\<rparr>)))))"

definition DelegateLease ::
    "auth_lib \<Rightarrow> LeaseUsecase \<Rightarrow> call_env \<Rightarrow> DelegateLeaseRequest \<Rightarrow> db \<Rightarrow> IssuedLease result \<times> db" where
  "DelegateLease L usecase env request s =
    (case check_delegation L usecase env request s of
       Inl err \<Rightarrow> (Inl err, s)
     | Inr parent \<Rightarrow>
     (case prepare_delegated L usecase env request parent s of
       Inl err \<Rightarrow> (Inl err, s)
     | Inr lease \<Rightarrow> issue L usecase env lease ''lease.delegated'' (l_WorkloadID parent) s))"

subsection \<open>The other requests\<close>

definition RevokeLease :: "auth_lib \<Rightarrow> call_env \<Rightarrow> RevokeLeaseRequest \<Rightarrow> db \<Rightarrow> int result \<times> db" where
  "RevokeLease L env request s =
    (if rl_LeaseID request = [] \<or> trim_space (rl_Actor request) = []
     then (Inl (DomainE ErrInvalidLease), s)
     else RevokeLeaseLineage L (ctx_request_id env) (rl_LeaseID request) (rl_Actor request)
       (trunc_second (now env)) s)"

definition GetLease :: "auth_lib \<Rightarrow> bytes \<Rightarrow> db \<Rightarrow> Lease result" where
  "GetLease L leaseID s =
    (if leaseID = [] then Inl (DomainE ErrInvalidLease) else GetLeaseByID L leaseID s)"

definition TraceLeaseCase :: "auth_lib \<Rightarrow> bytes \<Rightarrow> db \<Rightarrow> Lease list result" where
  "TraceLeaseCase L leaseID s =
    (if leaseID = [] then Inl (DomainE ErrInvalidLease) else TraceLease L leaseID s)"

definition ListAuditEventsCase :: "bytes \<Rightarrow> bytes \<Rightarrow> go_int \<Rightarrow> db \<Rightarrow> AuditEvent list result" where
  "ListAuditEventsCase workloadID leaseID limit s =
    (if sint limit \<le> 0 \<or> sint limit > 200 then Inl (DomainE ErrInvalidLease)
     else ListAuditEvents workloadID leaseID limit s)"

definition ConsumeLease ::
    "auth_lib \<Rightarrow> LeaseUsecase \<Rightarrow> call_env \<Rightarrow> ConsumeLeaseRequest \<Rightarrow> db \<Rightarrow> LeaseConsumption result \<times> db" where
  "ConsumeLease L usecase env request s =
    (if cl_LeaseID request = [] \<or> cl_Token request = [] \<or> \<not> validIdempotencyKey (cl_IdempotencyKey request)
     then (Inl (DomainE ErrInvalidLease), s)
     else case GetLeaseByID L (cl_LeaseID request) s of
       Inl err \<Rightarrow> (Inl err, s)
     | Inr lease \<Rightarrow>
     (case VerifyLeaseToken L (jwt_now env) (cl_Token request) (uc_verificationKeys usecase)
         (uc_issuer usecase) (l_Audience lease) (uc_clockSkew usecase) of
       Inl _ \<Rightarrow> (Inl (DomainE ErrUnauthenticated), s)
     | Inr claims \<Rightarrow>
       if \<not> parentTokenMatches L lease (cl_Token request) claims
       then (Inl (DomainE ErrUnauthenticated), s)
       else ConsumeLeaseUse L (l_ID lease) (sha256 L (cl_Token request)) (cl_IdempotencyKey request)
         (trunc_second (now env)) s))"

definition ListActiveRevocationsCase :: "call_env \<Rightarrow> db \<Rightarrow> bytes list result" where
  "ListActiveRevocationsCase env s = ListActiveRevocations (trunc_second (now env)) s"

end
