(* ===== verification/Http_Text.thy ===== *)
theory Http_Text
  imports Float64 Usecase Json
begin

section \<open>Text and addresses in requests\<close>

text \<open>
  What \<open>strconv\<close>, \<open>time\<close> and \<open>net\<close> do for the delivery layer: signed decimal numbers, durations
  such as \<open>1h30m\<close>, and membership of an address in a network; and the helpers of
  \<open>internal/delivery/delivery.go\<close> that work on one value: tokens, request identifiers, keys,
  lifetimes and the text a workload signs.
\<close>

subsection \<open>Signed numbers\<close>

definition decimal_value :: "bytes \<Rightarrow> nat" where
  "decimal_value s = foldl (\<lambda>n c. n * 10 + digit_value c) 0 s"

definition signed_digits :: "bytes \<Rightarrow> bool \<times> bytes" where
  "signed_digits s =
    (case s of
       c # rest \<Rightarrow> if c = CHR ''-'' then (True, rest) else if c = CHR ''+'' then (False, rest) else (False, s)
     | [] \<Rightarrow> (False, []))"

text \<open>\<open>strconv.ParseInt(s, 10, 64)\<close> and \<open>strconv.Atoi\<close>; their callers only ask whether they fail.\<close>

definition parse_int64 :: "bytes \<Rightarrow> int option" where
  "parse_int64 s =
    (let (negative, ds) = signed_digits s; n = decimal_value ds
     in if ds = [] \<or> \<not> list_all is_digit ds then None
        else if negative then (if n > 2 ^ 63 then None else Some (- int n))
        else if n \<ge> 2 ^ 63 then None else Some (int n))"

subsection \<open>Durations\<close>

text \<open>
  \<open>time.ParseDuration\<close>: a sign, then numbers with a fraction and a unit, added up in 64 bits. The
  fraction is computed with \<open>float64\<close>; further digits than fit 63 bits are dropped.
\<close>

fun leading_int :: "nat \<Rightarrow> bytes \<Rightarrow> (nat \<times> bytes) option" where
  "leading_int x [] = Some (x, [])"
| "leading_int x (c # s) =
    (if \<not> is_digit c then Some (x, c # s)
     else if x > 2 ^ 63 div 10 then None
     else if x * 10 + digit_value c > 2 ^ 63 then None
     else leading_int (x * 10 + digit_value c) s)"

fun leading_fraction :: "nat \<Rightarrow> rat \<Rightarrow> bool \<Rightarrow> bytes \<Rightarrow> nat \<times> rat \<times> bytes" where
  "leading_fraction x scale overflow [] = (x, scale, [])"
| "leading_fraction x scale overflow (c # s) =
    (if \<not> is_digit c then (x, scale, c # s)
     else if overflow \<or> x > (2 ^ 63 - 1) div 10 \<or> x * 10 + digit_value c > 2 ^ 63
     then leading_fraction x scale True s
     else leading_fraction (x * 10 + digit_value c) (fl_mul scale 10) False s)"

definition duration_units :: "(bytes \<times> nat) list" where
  "duration_units =
    [(''ns'', 1), (''us'', 1000), ([CHR 0xC2, CHR 0xB5, CHR ''s''], 1000), ([CHR 0xCE, CHR 0xBC, CHR ''s''], 1000),
     (''ms'', 1000000), (''s'', 1000000000), (''m'', 60000000000), (''h'', 3600000000000)]"

definition unit_char :: "char \<Rightarrow> bool" where
  "unit_char c \<longleftrightarrow> c \<noteq> CHR ''.'' \<and> \<not> is_digit c"

definition fraction_nanos :: "nat \<Rightarrow> nat \<Rightarrow> rat \<Rightarrow> nat" where
  "fraction_nanos f u scale = nat \<lfloor>fl_mul (float64 (of_nat f)) (fl_div (float64 (of_nat u)) scale)\<rfloor>"

text \<open>One number and its unit, and what follows.\<close>

definition duration_component :: "bytes \<Rightarrow> (nat \<times> bytes) option" where
  "duration_component s =
    (case leading_int 0 s of
       None \<Rightarrow> None
     | Some (v, s1) \<Rightarrow>
       let (f, scale, s2) =
         (case s1 of c # rest \<Rightarrow> if c = CHR ''.'' then leading_fraction 0 1 False rest else (0, 1, s1)
          | [] \<Rightarrow> (0, 1, s1));
           pre = (length s1 \<noteq> length s);
           post = (case s1 of c # rest \<Rightarrow> c = CHR ''.'' \<and> length s2 \<noteq> length rest | [] \<Rightarrow> False);
           u = takeWhile unit_char s2
       in if \<not> pre \<and> \<not> post then None
          else case map_of duration_units u of
            None \<Rightarrow> None
          | Some nanos \<Rightarrow>
              if v > 2 ^ 63 div nanos then None
              else let total = v * nanos + (if f > 0 then fraction_nanos f nanos scale else 0)
                   in if total > 2 ^ 63 then None else Some (total, dropWhile unit_char s2))"

lemma leading_int_length: "leading_int x s = Some (v, t) \<Longrightarrow> length t \<le> length s"
  by (induction x s rule: leading_int.induct) (auto split: if_splits)

lemma leading_fraction_length: "leading_fraction x k b s = (f, m, t) \<Longrightarrow> length t \<le> length s"
  by (induction x k b s rule: leading_fraction.induct) (auto split: if_splits)

lemma duration_component_length:
  assumes "duration_component s = Some (v, t)"
  shows "length t < length s"
proof -
  obtain v0 s1 where int: "leading_int 0 s = Some (v0, s1)"
    using assms by (auto simp: duration_component_def split: option.splits)
  define r where "r = (case s1 of c # rest \<Rightarrow> if c = CHR ''.'' then leading_fraction 0 1 False rest else (0, 1, s1)
    | [] \<Rightarrow> (0, 1, s1))"
  obtain f scale s2 where r: "r = (f, scale, s2)" by (metis prod_cases3)
  have t: "t = dropWhile unit_char s2"
    and parts: "length s1 \<noteq> length s \<or> (case s1 of c # rest \<Rightarrow> c = CHR ''.'' \<and> length s2 \<noteq> length rest | [] \<Rightarrow> False)"
    using assms r by (auto simp: duration_component_def int r_def Let_def split: option.splits if_splits)
  have "length s1 \<le> length s" using leading_int_length [OF int] .
  moreover have "length s2 \<le> length s1"
    using r by (auto simp: r_def split: list.splits if_splits dest!: leading_fraction_length)
  moreover have "length t \<le> length s2" by (simp add: t length_dropWhile_le)
  moreover have "length s2 < length s1" if "length s1 = length s"
    using parts r that by (auto simp: r_def split: list.splits if_splits dest!: leading_fraction_length)
  ultimately show ?thesis by linarith
qed

function duration_sum :: "nat \<Rightarrow> bytes \<Rightarrow> nat option" where
  "duration_sum d s =
    (if s = [] then Some d
     else case duration_component s of
       None \<Rightarrow> None
     | Some (v, rest) \<Rightarrow>
         let d' = (d + v) mod 2 ^ 64
         in if d' > 2 ^ 63 then None else duration_sum d' rest)"
  by pat_completeness auto
termination
  by (relation "measure (length \<circ> snd)") (auto dest: duration_component_length)

definition parse_duration :: "bytes \<Rightarrow> duration option" where
  "parse_duration text_value =
    (let (negative, s) = signed_digits text_value
     in if s = ''0'' then Some 0
        else if s = [] then None
        else case duration_sum 0 s of
          None \<Rightarrow> None
        | Some d \<Rightarrow>
            if negative then Some (- int d) else if d > 2 ^ 63 - 1 then None else Some (int d))"

subsection \<open>Networks\<close>

text \<open>
  \<open>net.IP\<close> is a list of 4 or 16 bytes and \<open>net.IPNet\<close> an address with a mask. Reading addresses and
  networks from text (\<open>net.ParseIP\<close> and \<open>net.ParseCIDR\<close>) is an argument of the model.
\<close>

record ip_net =
  net_IP :: bytes
  net_Mask :: bytes

definition to4 :: "bytes \<Rightarrow> bytes option" where
  "to4 ip =
    (if length ip = 4 then Some ip
     else if length ip = 16 \<and> take 10 ip = replicate 10 (CHR 0x00) \<and> take 2 (drop 10 ip) = [CHR 0xFF, CHR 0xFF]
     then Some (drop 12 ip) else None)"

text \<open>\<open>networkNumberAndMask\<close>.\<close>

definition network_number :: "ip_net \<Rightarrow> (bytes \<times> bytes) option" where
  "network_number n =
    (let ip = (case to4 (net_IP n) of None \<Rightarrow> net_IP n | Some v4 \<Rightarrow> v4); mask_bytes = net_Mask n
     in if length ip \<noteq> 4 \<and> length ip \<noteq> 16 then None
        else if length mask_bytes = 4 then (if length ip = 4 then Some (ip, mask_bytes) else None)
        else if length mask_bytes = 16 then Some (ip, if length ip = 4 then drop 12 mask_bytes else mask_bytes)
        else None)"

definition masked :: "bytes \<Rightarrow> bytes \<Rightarrow> nat list" where
  "masked ip mask_bytes = map2 (\<lambda>a m. and (byte a) (byte m)) ip mask_bytes"

definition net_contains :: "ip_net \<Rightarrow> bytes \<Rightarrow> bool" where
  "net_contains n address =
    (let ip = (case to4 address of None \<Rightarrow> address | Some v4 \<Rightarrow> v4)
     in case network_number n of
       None \<Rightarrow> length ip = 0
     | Some (base, mask_bytes) \<Rightarrow> length ip = length base \<and> masked base mask_bytes = masked ip mask_bytes)"

text \<open>\<open>net.SplitHostPort\<close>, which takes the port after the last colon, and brackets around the host.\<close>

definition split_host_port :: "bytes \<Rightarrow> (bytes \<times> bytes) option" where
  "split_host_port hostport =
    (if CHR '':'' \<notin> set hostport then None
     else
       let port = rev (takeWhile (\<lambda>c. c \<noteq> CHR '':'') (rev hostport));
           host = take (length hostport - length port - 1) hostport
       in if hd hostport = CHR ''['' then
            (let inner = takeWhile (\<lambda>c. c \<noteq> CHR '']'') hostport
             in if CHR '']'' \<notin> set hostport \<or> length inner + 1 \<noteq> length host then None
                else if CHR ''['' \<in> set (tl hostport) \<or> CHR '']'' \<in> set port then None
                else Some (tl inner, port))
          else if CHR '':'' \<in> set host \<or> CHR ''['' \<in> set hostport \<or> CHR '']'' \<in> set hostport then None
          else Some (host, port))"

definition clientAddress :: "bytes \<Rightarrow> bytes" where
  "clientAddress remoteAddress =
    (case split_host_port remoteAddress of
       Some (host, _) \<Rightarrow> if host \<noteq> [] then host else remoteAddress
     | None \<Rightarrow> remoteAddress)"

subsection \<open>Tokens, identifiers and keys\<close>

definition rune_count :: "nat list \<Rightarrow> nat \<Rightarrow> nat" where
  "rune_count rs r = length (filter (\<lambda>x. x = r) rs)"

definition validAdminToken :: "bytes \<Rightarrow> bool" where
  "validAdminToken value =
    (if length value < 32 \<or> length value > 256 \<or> trim_space value \<noteq> value then False
     else case raw_url_decode value of
       None \<Rightarrow> False
     | Some decoded \<Rightarrow>
       if length decoded < 24 then False
       else
         let characters = runes value; kinds = remdups characters;
             maximum = fold max (map (rune_count characters) kinds) 0
         in length kinds \<ge> 8 \<and> maximum * 2 \<le> length value)"

definition validRequestID :: "bytes \<Rightarrow> bool" where
  "validRequestID value =
    (if length value < 16 \<or> length value > 64 then False else list_all url_safe_rune (runes value))"

definition bearerToken :: "unicode_lib \<Rightarrow> bytes \<Rightarrow> bytes option" where
  "bearerToken U header =
    (case string_fields header of
       [scheme, credential] \<Rightarrow>
         if equal_fold U scheme ''Bearer'' \<and> credential \<noteq> [] then Some credential else None
     | _ \<Rightarrow> None)"

definition decodePublicKey :: "bytes \<Rightarrow> bytes result" where
  "decodePublicKey value =
    (case raw_url_decode value of
       None \<Rightarrow> Inl (Opaque ''invalid public key'')
     | Some decoded \<Rightarrow>
         if length decoded \<noteq> PublicKeySize then Inl (Opaque ''invalid public key'') else Inr decoded)"

definition keyThumbprint :: "auth_lib \<Rightarrow> bytes \<Rightarrow> bytes" where
  "keyThumbprint L publicKey = (case JWKThumbprint L publicKey of Inl _ \<Rightarrow> [] | Inr value \<Rightarrow> value)"

definition parseTTL :: "bytes \<Rightarrow> instant \<Rightarrow> duration result" where
  "parseTTL value expiration =
    (if value = [] then
       (if is_zero_time expiration then Inl (Opaque ''ttl or expiration is required'') else Inr 0)
     else if \<not> is_zero_time expiration then Inl (Opaque ''ttl and expiration are mutually exclusive'')
     else case parse_duration value of
       None \<Rightarrow> Inl (Opaque ''ttl must be a positive duration'')
     | Some ttl \<Rightarrow> if ttl \<le> 0 then Inl (Opaque ''ttl must be a positive duration'') else Inr ttl)"

definition newline :: char where
  "newline = CHR 0x0A"

definition signedRequestMessage :: "auth_lib \<Rightarrow> bytes \<Rightarrow> bytes \<Rightarrow> bytes \<Rightarrow> bytes \<Rightarrow> bytes \<Rightarrow> bytes" where
  "signedRequestMessage L verb path timestamp nonce body =
    verb @ newline # path @ newline # timestamp @ newline # nonce @ newline # hex_encode (sha256 L body)"

end
