(* ===== verification/Client.thy ===== *)
theory Client
  imports Pop Http_Text
begin

section \<open>The client SDK\<close>

text \<open>
  \<open>sdk/go/client\<close>: requests signed by a workload (\<open>client.go\<close>), the consumption of uses by a
  resource server, and the calls of the control plane (\<open>api.go\<close>).

  A request is built and handed to a transport, a function from requests to responses: the
  \<open>http.Client\<close>, which follows no redirect here and so answers the first response. Other
  libraries are arguments, fields of \<open>client_lib\<close>: \<open>url.Parse\<close>, the escaped path of an address,
  the signature of Ed25519, and the encoding and decoding of the documents of the interface.
\<close>

subsection \<open>Data\<close>

record client_request =
  cq_Method :: bytes
  cq_URL :: url
  cq_Header :: "(bytes, bytes) fmap"
  cq_Body :: bytes

text \<open>The body is \<open>None\<close> when reading it fails, and \<open>cp_Closed\<close> tells whether closing it succeeds.\<close>

record client_response =
  cp_StatusCode :: int
  cp_Body :: "bytes option"
  cp_Closed :: bool

type_synonym transport = "client_request \<Rightarrow> client_response option"

record APIError =
  ap_Status :: int
  ap_Code :: bytes
  ap_Message :: bytes
  ap_RequestID :: bytes

datatype client_error = Failed go_error | Answered APIError

record LeaseRequest =
  kl_Audience :: bytes
  kl_Actions :: "bytes list"
  kl_Resources :: "bytes list"
  kl_Expiration :: "instant option"
  kl_TTL :: bytes
  kl_MaxDepth :: go_int
  kl_ProofOfPossession :: bool
  kl_MaxUses :: go_int
  kl_Constraints :: constraints

record DelegationRequest =
  rd_DelegateTo :: bytes
  rd_Actions :: "bytes list"
  rd_Resources :: "bytes list"
  rd_Expiration :: "instant option"
  rd_TTL :: bytes
  rd_ProofOfPossession :: bool
  rd_MaxUses :: go_int
  rd_Constraints :: constraints

record ApiIssuedLease =
  ai_ID :: bytes
  ai_Token :: bytes
  ai_WorkloadID :: bytes
  ai_Audience :: bytes
  ai_ParentLeaseID :: "bytes option"
  ai_Expiration :: instant
  ai_Depth :: go_int
  ai_MaxDepth :: go_int
  ai_ProofOfPossession :: bool
  ai_MaxUses :: go_int
  ai_Constraints :: constraints

record WorkloadGrant =
  wg_Audiences :: "bytes list"
  wg_Actions :: "bytes list"
  wg_Resources :: "bytes list"
  wg_MaxTTL :: bytes
  wg_MaxTTLSeconds :: go_int
  wg_MaxDelegationDepth :: go_int
  wg_CanDelegate :: bool
  wg_RequireProofOfPossession :: bool
  wg_MaxUses :: go_int
  wg_Constraints :: constraints
  wg_Version :: go_int

record ApiRegisterWorkloadRequest =
  ar_Name :: bytes
  ar_PublicKey :: bytes
  ar_Grant :: WorkloadGrant

record ApiWorkload =
  cw_ID :: bytes
  cw_Name :: bytes
  cw_CreatedAt :: instant
  cw_UpdatedAt :: instant
  cw_DisabledAt :: "instant option"
  cw_KeyThumbprint :: bytes
  cw_Grant :: WorkloadGrant

record LeaseInspection =
  ci_ID :: bytes
  ci_TokenID :: bytes
  ci_WorkloadID :: bytes
  ci_RootWorkloadID :: bytes
  ci_Audience :: bytes
  ci_ParentLeaseID :: "bytes option"
  ci_RootLeaseID :: bytes
  ci_DelegatedByWorkloadID :: "bytes option"
  ci_Actions :: "bytes list"
  ci_Resources :: "bytes list"
  ci_Expiration :: instant
  ci_IssuedAt :: instant
  ci_RevokedAt :: "instant option"
  ci_Depth :: go_int
  ci_MaxDepth :: go_int
  ci_MaxUses :: go_int
  ci_UsesConsumed :: go_int
  ci_ProofOfPossession :: bool
  ci_Constraints :: constraints

text \<open>
  \<open>marshal\<close> fields are \<open>json.Marshal\<close> on the documents sent, \<open>decode\<close> fields the strict decoder on
  the documents received. \<open>decode_error\<close> is \<open>json.Unmarshal\<close> into the error envelope, whose own
  error is ignored.
\<close>

record client_lib =
  net :: web_lib
  url_parse :: "bytes \<Rightarrow> url option"
  escaped_path :: "url \<Rightarrow> bytes"
  ed25519_sign :: "bytes \<Rightarrow> bytes \<Rightarrow> bytes"
  marshal_lease :: "LeaseRequest \<Rightarrow> bytes result"
  marshal_delegation :: "DelegationRequest \<Rightarrow> bytes result"
  marshal_registration :: "ApiRegisterWorkloadRequest \<Rightarrow> bytes result"
  decode_issued :: "bytes \<Rightarrow> ApiIssuedLease result"
  decode_registered :: "bytes \<Rightarrow> ApiWorkload result"
  decode_revoked :: "bytes \<Rightarrow> int result"
  decode_inspection :: "bytes \<Rightarrow> LeaseInspection result"
  decode_lineage :: "bytes \<Rightarrow> LeaseInspection list result"
  decode_error :: "bytes \<Rightarrow> bytes \<times> bytes \<times> bytes"

subsection \<open>Addresses\<close>

text \<open>\<open>strings.TrimRight(s, "/")\<close>.\<close>

definition trim_right_slashes :: "bytes \<Rightarrow> bytes" where
  "trim_right_slashes s = rev (dropWhile (\<lambda>c. c = CHR ''/'') (rev s))"

text \<open>\<open>url.PathEscape\<close> keeps letters, digits and the marks a path segment may hold.\<close>

definition path_segment_char :: "char \<Rightarrow> bool" where
  "path_segment_char c \<longleftrightarrow>
    is_digit c \<or> byte (CHR ''a'') \<le> byte c \<and> byte c \<le> byte (CHR ''z'')
    \<or> byte (CHR ''A'') \<le> byte c \<and> byte c \<le> byte (CHR ''Z'') \<or> c \<in> set ''-_.~$&+:=@''"

definition upper_hex_digit :: "nat \<Rightarrow> char" where
  "upper_hex_digit n = ''0123456789ABCDEF'' ! n"

fun path_escape :: "bytes \<Rightarrow> bytes" where
  "path_escape [] = []"
| "path_escape (c # s) =
    (if path_segment_char c then [c]
     else [CHR ''%'', upper_hex_digit (byte c div 16), upper_hex_digit (byte c mod 16)]) @ path_escape s"

definition parseBaseURL :: "client_lib \<Rightarrow> bytes \<Rightarrow> bool \<Rightarrow> url result" where
  "parseBaseURL C value allowInsecureHTTP =
    (case parse_request_uri (net C) value of
       None \<Rightarrow> Inl (Opaque ''invalid UpsilonAuth base URL'')
     | Some parsed \<Rightarrow>
         let secureScheme = (u_Scheme parsed = ''https'' \<or> allowInsecureHTTP \<and> u_Scheme parsed = ''http'')
         in if u_Host parsed = [] \<or> u_User parsed \<noteq> None \<or> u_RawQuery parsed \<noteq> [] \<or> u_Fragment parsed \<noteq> []
               \<or> \<not> secureScheme
            then Inl (Opaque ''invalid UpsilonAuth base URL'')
            else Inr (parsed\<lparr>u_Path := trim_right_slashes (u_Path parsed)\<rparr>))"

text \<open>
  \<open>http.NewRequestWithContext\<close>: no method is \<open>GET\<close>; a method is a token; the host of the address
  loses an empty port.
\<close>

definition token_char :: "char \<Rightarrow> bool" where
  "token_char c \<longleftrightarrow>
    is_digit c \<or> byte (CHR ''a'') \<le> byte c \<and> byte c \<le> byte (CHR ''z'')
    \<or> byte (CHR ''A'') \<le> byte c \<and> byte c \<le> byte (CHR ''Z'')
    \<or> c \<in> set ''!#$%&*+-.^_|~'' \<or> byte c = 39 \<or> byte c = 96"

definition new_request :: "client_lib \<Rightarrow> bytes \<Rightarrow> bytes \<Rightarrow> bytes \<Rightarrow> client_request result" where
  "new_request C method target body =
    (let method = (if method = [] then ''GET'' else method)
     in if \<not> list_all token_char method then Inl (Opaque ''net/http: invalid method'')
     else case url_parse C target of
       None \<Rightarrow> Inl (Opaque ''parse'')
     | Some u \<Rightarrow> Inr \<lparr>cq_Method = method, cq_URL = u\<lparr>u_Host := trim_suffix (u_Host u) '':''\<rparr>,
         cq_Header = fmempty, cq_Body = body\<rparr>)"

definition set_request_header :: "bytes \<Rightarrow> bytes \<Rightarrow> client_request \<Rightarrow> client_request" where
  "set_request_header name value request = request\<lparr>cq_Header := fmupd name value (cq_Header request)\<rparr>"

definition request_header :: "client_request \<Rightarrow> bytes \<Rightarrow> bytes" where
  "request_header request name = (case fmlookup (cq_Header request) name of None \<Rightarrow> [] | Some value \<Rightarrow> value)"

subsection \<open>Consuming uses\<close>

definition maxConsumerResponseBytes :: nat where
  "maxConsumerResponseBytes = 4 * 1024"

record Consumer =
  cn_baseURL :: url
  cn_consumerToken :: bytes

definition NewConsumer :: "client_lib \<Rightarrow> bytes \<Rightarrow> bytes \<Rightarrow> bool \<Rightarrow> Consumer result" where
  "NewConsumer C baseURL consumerToken allowInsecureHTTP =
    (case parseBaseURL C baseURL allowInsecureHTTP of
       Inl _ \<Rightarrow> Inl (Opaque ''invalid UpsilonAuth consumer configuration'')
     | Inr parsed \<Rightarrow>
         if consumerToken = [] \<or> length consumerToken > 256
         then Inl (Opaque ''invalid UpsilonAuth consumer configuration'')
         else Inr \<lparr>cn_baseURL = parsed, cn_consumerToken = consumerToken\<rparr>)"

text \<open>The request \<open>Consume\<close> sends. The body of the answer is read and thrown away.\<close>

definition consume_target :: "Consumer \<Rightarrow> bytes \<Rightarrow> url" where
  "consume_target consumer leaseID =
    (cn_baseURL consumer)\<lparr>u_Path := trim_right_slashes (u_Path (cn_baseURL consumer))
       @ ''/v1/leases/'' @ path_escape leaseID @ ''/consume''\<rparr>"

definition consume_request :: "client_lib \<Rightarrow> Consumer \<Rightarrow> bytes \<Rightarrow> bytes \<Rightarrow> bytes \<Rightarrow> client_request result" where
  "consume_request C consumer leaseID token idempotencyKey =
    (case new_request C ''POST'' (url_string (net C) (consume_target consumer leaseID)) [] of
       Inl err \<Rightarrow> Inl err
     | Inr request \<Rightarrow> Inr
         (set_request_header ''Idempotency-Key'' idempotencyKey
           (set_request_header ''Upsilon-Capability'' token
             (set_request_header ''Authorization'' (''Bearer '' @ cn_consumerToken consumer) request))))"

definition Consume :: "client_lib \<Rightarrow> transport \<Rightarrow> Consumer \<Rightarrow> bytes \<Rightarrow> bytes \<Rightarrow> bytes \<Rightarrow> unit result" where
  "Consume C send consumer leaseID token idempotencyKey =
    (if leaseID = [] \<or> token = [] \<or> length idempotencyKey < 16 \<or> length idempotencyKey > 128
     then Inl (SdkE ErrLeaseRejected)
     else case consume_request C consumer leaseID token idempotencyKey of
       Inl _ \<Rightarrow> Inl (SdkE ErrLeaseRejected)
     | Inr request \<Rightarrow>
     (case send request of
       None \<Rightarrow> Inl (SdkE ErrUnavailable)
     | Some response \<Rightarrow>
         if \<not> cp_Closed response then Inl (SdkE ErrUnavailable)
         else if cp_StatusCode response = 200 then Inr ()
         else if cp_StatusCode response = 403 then Inl (SdkE ErrUsesExhausted)
         else if cp_StatusCode response \<in> {401, 404, 422} then Inl (SdkE ErrLeaseRejected)
         else Inl (SdkE ErrUnavailable)))"

subsection \<open>Signed requests\<close>

record Signer =
  sg_workloadID :: bytes
  sg_privateKey :: bytes

definition NewSigner :: "bytes \<Rightarrow> bytes \<Rightarrow> Signer result" where
  "NewSigner workloadID privateKey =
    (if workloadID = [] \<or> length privateKey \<noteq> PrivateKeySize
     then Inl (Opaque ''invalid workload signer configuration'')
     else Inr \<lparr>sg_workloadID = workloadID, sg_privateKey = privateKey\<rparr>)"

text \<open>\<open>random\<close> are the bytes the random source answers, \<open>signedAt\<close> what the clock of the signer reads.\<close>

definition NewAuthorizedRequest ::
    "client_lib \<Rightarrow> Signer \<Rightarrow> bytes option \<Rightarrow> instant \<Rightarrow> bytes \<Rightarrow> bytes \<Rightarrow> bytes \<Rightarrow> bytes \<Rightarrow> client_request result" where
  "NewAuthorizedRequest C signer random signedAt method target body accessToken =
    (if accessToken = [] then Inl (Opaque ''access token is required'')
     else case new_request C method target body of
       Inl err \<Rightarrow> Inl err
     | Inr request \<Rightarrow>
     (case Sign (net C) random (sg_privateKey signer) method target accessToken signedAt of
       Inl err \<Rightarrow> Inl err
     | Inr proof \<Rightarrow>
         let request = set_request_header ''DPoP'' proof
               (set_request_header ''Authorization'' (''Bearer '' @ accessToken) request)
         in Inr (if length body > 0 then set_request_header ''Content-Type'' ''application/json'' request
                 else request)))"

text \<open>\<open>fmt.Sprintf("%d", n)\<close>.\<close>

definition format_int :: "int \<Rightarrow> bytes" where
  "format_int n = (if n < 0 then CHR ''-'' # format_uint (nat (- n)) else format_uint (nat n))"

definition request_message :: "client_lib \<Rightarrow> bytes \<Rightarrow> client_request \<Rightarrow> bytes \<Rightarrow> bytes \<Rightarrow> bytes \<Rightarrow> bytes" where
  "request_message C method request timestamp nonce body =
    method @ newline # escaped_path C (cq_URL request) @ newline # timestamp @ newline # nonce
      @ newline # hex_encode (sha256 (auth (net C)) body)"

definition NewJSONRequest ::
    "client_lib \<Rightarrow> Signer \<Rightarrow> bytes option \<Rightarrow> instant \<Rightarrow> bytes \<Rightarrow> bytes \<Rightarrow> bytes \<Rightarrow> client_request result" where
  "NewJSONRequest C signer random signedAt method target body =
    (case new_request C method target body of
       Inl err \<Rightarrow> Inl err
     | Inr request \<Rightarrow>
     if u_RawQuery (cq_URL request) \<noteq> [] \<or> u_Fragment (cq_URL request) \<noteq> []
     then Inl (Opaque ''signed request URL must not contain a query or fragment'')
     else (case random of
       None \<Rightarrow> Inl (Wrapped ''generate request nonce'' [Opaque ''rand''])
     | Some nonceBytes \<Rightarrow>
       let timestamp = format_int (signedAt div second);
           nonce = raw_url_encode nonceBytes;
           message = request_message C method request timestamp nonce body;
           signature = ed25519_sign C (sg_privateKey signer) message
       in Inr
         (set_request_header ''X-Upsilon-Signature'' (raw_url_encode signature)
           (set_request_header ''X-Upsilon-Nonce'' nonce
             (set_request_header ''X-Upsilon-Timestamp'' timestamp
               (set_request_header ''X-Upsilon-Workload-ID'' (sg_workloadID signer)
                 (set_request_header ''Content-Type'' ''application/json'' request)))))))"

subsection \<open>The control plane\<close>

definition maxAPIResponseBytes :: nat where
  "maxAPIResponseBytes = 2 ^ 20"

definition Error_text :: "APIError \<Rightarrow> bytes" where
  "Error_text err =
    (if ap_Code err = [] then ''UpsilonAuth request failed with status '' @ format_int (ap_Status err)
     else ''UpsilonAuth request failed: '' @ ap_Code err)"

definition NewRegisterWorkloadRequest :: "bytes \<Rightarrow> bytes \<Rightarrow> WorkloadGrant \<Rightarrow> ApiRegisterWorkloadRequest result" where
  "NewRegisterWorkloadRequest name publicKey grant =
    (if name = [] \<or> length publicKey \<noteq> PublicKeySize then Inl (Opaque ''invalid workload registration'')
     else Inr \<lparr>ar_Name = name, ar_PublicKey = raw_url_encode publicKey, ar_Grant = grant\<rparr>)"

text \<open>The HTTP client of a \<open>ControlPlane\<close> is the transport its calls are given.\<close>

record ControlPlane =
  ct_baseURL :: url

definition NewControlPlane :: "client_lib \<Rightarrow> bytes \<Rightarrow> bool \<Rightarrow> ControlPlane result" where
  "NewControlPlane C baseURL allowInsecureHTTP =
    (case parseBaseURL C baseURL allowInsecureHTTP of
       Inl err \<Rightarrow> Inl err
     | Inr parsed \<Rightarrow> Inr \<lparr>ct_baseURL = parsed\<rparr>)"

text \<open>The method \<open>target\<close>.\<close>

definition target_address :: "client_lib \<Rightarrow> ControlPlane \<Rightarrow> bytes \<Rightarrow> bytes" where
  "target_address C control path =
    url_string (net C)
      ((ct_baseURL control)\<lparr>u_Path := trim_right_slashes (u_Path (ct_baseURL control)) @ path,
         u_RawQuery := [], u_Fragment := []\<rparr>)"

definition decodeAPIError :: "client_lib \<Rightarrow> int \<Rightarrow> bytes \<Rightarrow> client_error" where
  "decodeAPIError C status data =
    (let (code, message, requestID) = decode_error C data
     in Answered \<lparr>ap_Status = status, ap_Code = code, ap_Message = message, ap_RequestID = requestID\<rparr>)"

text \<open>
  The call of \<open>requestClient.Do\<close> and what is made of the answer. Without a body the destination
  keeps its zero value, here \<open>None\<close>.
\<close>

definition do_request ::
    "client_lib \<Rightarrow> transport \<Rightarrow> client_request \<Rightarrow> int \<Rightarrow> (bytes \<Rightarrow> 'a result) \<Rightarrow> client_error + 'a option" where
  "do_request C send request expectedStatus decode =
    (case send request of
       None \<Rightarrow> Inl (Failed (Opaque ''do''))
     | Some response \<Rightarrow>
     (case map_option (take (maxAPIResponseBytes + 1)) (cp_Body response) of
       None \<Rightarrow> Inl (Failed (Opaque ''read''))
     | Some data \<Rightarrow>
         if \<not> cp_Closed response then Inl (Failed (Opaque ''close''))
         else if length data > maxAPIResponseBytes then Inl (Failed (Opaque ''UpsilonAuth response is too large''))
         else if cp_StatusCode response \<noteq> expectedStatus
         then Inl (decodeAPIError C (cp_StatusCode response) data)
         else if data = [] then Inr None
         else case decode data of
           Inl err \<Rightarrow> Inl (Failed err)
         | Inr v \<Rightarrow> Inr (Some v)))"

definition adminJSON ::
    "client_lib \<Rightarrow> transport \<Rightarrow> ControlPlane \<Rightarrow> bytes \<Rightarrow> bytes \<Rightarrow> bytes \<Rightarrow> bytes result option \<Rightarrow> (bytes \<Rightarrow> 'a result)
      \<Rightarrow> client_error + 'a option" where
  "adminJSON C send control method path adminToken body decode =
    (if adminToken = [] then Inl (Failed (Opaque ''admin token is required''))
     else case (case body of None \<Rightarrow> Inr [] | Some encoded \<Rightarrow> encoded) of
       Inl err \<Rightarrow> Inl (Failed err)
     | Inr encoded \<Rightarrow>
     (case new_request C method (target_address C control path) encoded of
       Inl err \<Rightarrow> Inl (Failed err)
     | Inr request \<Rightarrow>
         let request = set_request_header ''Authorization'' (''Bearer '' @ adminToken) request;
             request = (if body \<noteq> None then set_request_header ''Content-Type'' ''application/json'' request
                        else request);
             expected = (if method = ''POST'' \<and> path = ''/v1/workloads'' then 201 else 200)
         in do_request C send request expected decode))"

definition RegisterWorkloadCall ::
    "client_lib \<Rightarrow> transport \<Rightarrow> ControlPlane \<Rightarrow> bytes \<Rightarrow> ApiRegisterWorkloadRequest \<Rightarrow> client_error + ApiWorkload option" where
  "RegisterWorkloadCall C send control adminToken registration =
    adminJSON C send control ''POST'' ''/v1/workloads'' adminToken (Some (marshal_registration C registration))
      (decode_registered C)"

definition RequestLease ::
    "client_lib \<Rightarrow> transport \<Rightarrow> ControlPlane \<Rightarrow> Signer option \<Rightarrow> bytes option \<Rightarrow> instant \<Rightarrow> LeaseRequest
      \<Rightarrow> client_error + ApiIssuedLease option" where
  "RequestLease C send control signer random signedAt request =
    (case signer of
       None \<Rightarrow> Inl (Failed (Opaque ''workload signer is required''))
     | Some signer \<Rightarrow>
     (case marshal_lease C request of
       Inl err \<Rightarrow> Inl (Failed err)
     | Inr body \<Rightarrow>
     (case NewJSONRequest C signer random signedAt ''POST'' (target_address C control ''/v1/leases'') body of
       Inl err \<Rightarrow> Inl (Failed err)
     | Inr httpRequest \<Rightarrow> do_request C send httpRequest 201 (decode_issued C))))"

definition DelegateLeaseCall ::
    "client_lib \<Rightarrow> transport \<Rightarrow> ControlPlane \<Rightarrow> Signer option \<Rightarrow> bytes option \<Rightarrow> instant \<Rightarrow> bytes \<Rightarrow> bytes \<Rightarrow> DelegationRequest
      \<Rightarrow> client_error + ApiIssuedLease option" where
  "DelegateLeaseCall C send control signer random signedAt parentLeaseID parentToken request =
    (case signer of
       None \<Rightarrow> Inl (Failed (Opaque ''signer, parent lease, and parent token are required''))
     | Some signer \<Rightarrow>
     if parentLeaseID = [] \<or> parentToken = []
     then Inl (Failed (Opaque ''signer, parent lease, and parent token are required''))
     else case marshal_delegation C request of
       Inl err \<Rightarrow> Inl (Failed err)
     | Inr body \<Rightarrow>
     (case NewJSONRequest C signer random signedAt ''POST''
         (target_address C control (''/v1/leases/'' @ path_escape parentLeaseID @ ''/delegate'')) body of
       Inl err \<Rightarrow> Inl (Failed err)
     | Inr httpRequest \<Rightarrow>
         do_request C send (set_request_header ''Authorization'' (''Bearer '' @ parentToken) httpRequest) 201
           (decode_issued C)))"

definition RevokeLeaseCall ::
    "client_lib \<Rightarrow> transport \<Rightarrow> ControlPlane \<Rightarrow> bytes \<Rightarrow> bytes \<Rightarrow> client_error + int option" where
  "RevokeLeaseCall C send control adminToken leaseID =
    adminJSON C send control ''POST'' (''/v1/leases/'' @ path_escape leaseID @ ''/revoke'') adminToken None
      (decode_revoked C)"

definition GetLeaseCall ::
    "client_lib \<Rightarrow> transport \<Rightarrow> ControlPlane \<Rightarrow> bytes \<Rightarrow> bytes \<Rightarrow> client_error + LeaseInspection option" where
  "GetLeaseCall C send control adminToken leaseID =
    adminJSON C send control ''GET'' (''/v1/leases/'' @ path_escape leaseID) adminToken None (decode_inspection C)"

definition TraceLeaseCall ::
    "client_lib \<Rightarrow> transport \<Rightarrow> ControlPlane \<Rightarrow> bytes \<Rightarrow> bytes \<Rightarrow> client_error + LeaseInspection list option" where
  "TraceLeaseCall C send control adminToken leaseID =
    adminJSON C send control ''GET'' (''/v1/leases/'' @ path_escape leaseID @ ''/trace'') adminToken None
      (decode_lineage C)"

end
