(* ===== verification/Limiter.thy ===== *)
theory Limiter
  imports Float64
begin

section \<open>The rate limiter\<close>

text \<open>
  \<open>ipLimiter\<close> of \<open>internal/delivery/delivery.go\<close>: a token bucket for each client address. Tokens and
  rates are \<open>float64\<close> values, as in the theory \<open>Float64\<close>. The method holds the lock of the limiter
  throughout, so its calls are a sequence.
\<close>

record rateVisitor =
  tokens :: rat
  updated :: instant
  lastSeen :: instant

record ipLimiter =
  lm_visitors :: "(bytes, rateVisitor) fmap"
  lm_rate :: rat
  lm_burst :: rat
  lm_requests :: "64 word"

definition stale_visitor :: "instant \<Rightarrow> rateVisitor \<Rightarrow> bool" where
  "stale_visitor now visitor \<longleftrightarrow> time_sub now (lastSeen visitor) > 10 * minute"

text \<open>Every 1024th request drops the visitors of the last ten minutes.\<close>

definition prune :: "instant \<Rightarrow> ipLimiter \<Rightarrow> ipLimiter" where
  "prune now limiter =
    (let requests = lm_requests limiter + 1
     in limiter\<lparr>lm_requests := requests,
          lm_visitors :=
            (if unat requests mod 1024 = 0
             then fmfilter (\<lambda>key. case fmlookup (lm_visitors limiter) key of
                 None \<Rightarrow> False | Some visitor \<Rightarrow> \<not> stale_visitor now visitor) (lm_visitors limiter)
             else lm_visitors limiter)\<rparr>)"

definition maxVisitors :: nat where
  "maxVisitors = 10000"

definition refilled :: "ipLimiter \<Rightarrow> instant \<Rightarrow> rateVisitor \<Rightarrow> rat" where
  "refilled limiter now visitor =
    (let elapsed = duration_seconds (time_sub now (updated visitor))
     in min (lm_burst limiter) (fl_add (tokens visitor) (fl_mul elapsed (lm_rate limiter))))"

definition allow :: "bytes \<Rightarrow> instant \<Rightarrow> ipLimiter \<Rightarrow> bool \<times> ipLimiter" where
  "allow address now limiter =
    (let limiter = prune now limiter;
         found = fmlookup (lm_visitors limiter) address
     in if found = None \<and> fmlen (lm_visitors limiter) \<ge> maxVisitors then (False, limiter)
     else
       let visitor = (case found of
             None \<Rightarrow> \<lparr>tokens = lm_burst limiter, updated = now, lastSeen = now\<rparr>
           | Some visitor \<Rightarrow> visitor);
         level = refilled limiter now visitor;
         allowed = (1 \<le> level);
         visitor = visitor\<lparr>tokens := (if allowed then fl_sub level 1 else level), updated := now, lastSeen := now\<rparr>
       in (allowed, limiter\<lparr>lm_visitors := fmupd address visitor (lm_visitors limiter)\<rparr>))"

text \<open>The calls of the limiter in their order, and how many of one address it allowed.\<close>

fun allowed_calls :: "bytes \<Rightarrow> (bytes \<times> instant) list \<Rightarrow> ipLimiter \<Rightarrow> nat" where
  "allowed_calls a [] m = 0"
| "allowed_calls a ((b, t) # calls) m =
    (let (allowed, m') = allow b t m
     in (if a = b \<and> allowed then 1 else 0) + allowed_calls a calls m')"

definition run_limiter :: "bytes \<times> instant \<Rightarrow> ipLimiter \<Rightarrow> ipLimiter" where
  "run_limiter call m = snd (allow (fst call) (snd call) m)"

subsection \<open>The table of visitors\<close>

definition visitor_ok :: "ipLimiter \<Rightarrow> rateVisitor \<Rightarrow> bool" where
  "visitor_ok m v \<longleftrightarrow> 0 \<le> tokens v \<and> tokens v \<le> lm_burst m \<and> lastSeen v = updated v"

definition limiter_ok :: "ipLimiter \<Rightarrow> bool" where
  "limiter_ok m \<longleftrightarrow>
    fmlen (lm_visitors m) \<le> maxVisitors \<and> 1 \<le> lm_burst m \<and> lm_burst m \<le> 2 ^ 52 \<and> 0 \<le> lm_rate m
    \<and> (\<forall>a v. fmlookup (lm_visitors m) a = Some v \<longrightarrow> visitor_ok m v)"

text \<open>Every entry is at most as recent as \<open>t\<close>.\<close>

definition seen_by :: "instant \<Rightarrow> ipLimiter \<Rightarrow> bool" where
  "seen_by t m \<longleftrightarrow> (\<forall>a v. fmlookup (lm_visitors m) a = Some v \<longrightarrow> updated v \<le> t)"

lemma seen_by_mono: "seen_by t m \<Longrightarrow> t \<le> u \<Longrightarrow> seen_by u m"
  by (auto simp: seen_by_def intro: order_trans)

lemma prune_fields [simp]:
  "lm_rate (prune t m) = lm_rate m" "lm_burst (prune t m) = lm_burst m"
  by (simp_all add: prune_def Let_def)

lemma prune_lookup:
  "fmlookup (lm_visitors (prune t m)) a = fmlookup (lm_visitors m) a
   \<or> fmlookup (lm_visitors (prune t m)) a = None
     \<and> (\<exists>v. fmlookup (lm_visitors m) a = Some v \<and> stale_visitor t v)"
  by (auto simp: prune_def Let_def split: option.splits)

lemma prune_subset: "fmlookup (lm_visitors (prune t m)) a = Some v \<Longrightarrow> fmlookup (lm_visitors m) a = Some v"
  using prune_lookup [of t m a] by auto

lemma fmlen_prune: "fmlen (lm_visitors (prune t m)) \<le> fmlen (lm_visitors m)"
  by (auto simp: prune_def Let_def fmlen_def intro!: fcard_mono)

text \<open>What the table counts for an address at an instant, with exact arithmetic.\<close>

definition exact_level :: "ipLimiter \<Rightarrow> instant \<Rightarrow> rateVisitor \<Rightarrow> rat" where
  "exact_level m t v = min (lm_burst m) (tokens v + lm_rate m * (of_int (t - updated v) / 10 ^ 9))"

definition level :: "ipLimiter \<Rightarrow> bytes \<Rightarrow> instant \<Rightarrow> rat" where
  "level m a t =
    (case fmlookup (lm_visitors m) a of None \<Rightarrow> lm_burst m | Some v \<Rightarrow> exact_level m t v)"

definition slack :: "ipLimiter \<Rightarrow> rat" where
  "slack m = lm_burst m / 2 ^ 48"

lemma refill_error:
  fixes k g z y x b :: rat
  assumes "z \<le> g + g / 2 ^ 50" "0 \<le> z" "y \<le> z + z / 2 ^ 53 + float_tiny"
    and "x \<le> k + y + (k + y) / 2 ^ 53 + float_tiny" "k + g < b" "float_tiny \<le> b / 2 ^ 60" "0 \<le> k"
  shows "x \<le> k + g + b / 2 ^ 49 + b / 2 ^ 51"
  using assms float_tiny_bounds(1) by (simp add: field_simps)

lemma refilled_bounds:
  assumes "limiter_ok m" "visitor_ok m v" "updated v \<le> t"
  shows "0 \<le> refilled m t v" "refilled m t v \<le> lm_burst m"
    "refilled m t v \<le> exact_level m t v + lm_burst m / 2 ^ 49 + lm_burst m / 2 ^ 51"
proof -
  define b r k s e where "b = lm_burst m" and "r = lm_rate m" and "k = tokens v"
    and "s = duration_seconds (time_sub t (updated v))" and "e = rat_of_int (t - updated v) / 10 ^ 9"
  have sub: "0 \<le> time_sub t (updated v)" "time_sub t (updated v) \<le> t - updated v"
    using assms(3) by (simp_all add: time_sub_def)
  have facts: "1 \<le> b" "0 \<le> r" "0 \<le> k" "k \<le> b"
    using assms by (simp_all add: limiter_ok_def visitor_ok_def b_def r_def k_def)
  have s: "0 \<le> s" "s \<le> e * (1 + 1 / 2 ^ 50)"
  proof -
    show "0 \<le> s" unfolding s_def by (rule duration_seconds_bounds) (rule sub)
    have "s \<le> (of_int (time_sub t (updated v)) / 10 ^ 9) * (1 + 1 / 2 ^ 50)"
      unfolding s_def by (rule duration_seconds_bounds) (rule sub)
    also have "\<dots> \<le> e * (1 + 1 / 2 ^ 50)"
      unfolding e_def using sub by (intro mult_right_mono divide_right_mono) simp_all
    finally show "s \<le> e * (1 + 1 / 2 ^ 50)" .
  qed
  have level: "refilled m t v = min b (float64 (k + float64 (s * r)))"
    by (simp add: refilled_def b_def r_def k_def s_def)
  have exact: "exact_level m t v = min b (k + r * e)"
    by (simp add: exact_level_def b_def r_def k_def e_def)
  have gain: "0 \<le> float64 (s * r)" using s facts by (simp add: float64_nonneg)
  then show "0 \<le> refilled m t v" using facts unfolding level by (simp add: float64_nonneg)
  show "refilled m t v \<le> lm_burst m" unfolding level b_def by simp
  show "refilled m t v \<le> exact_level m t v + lm_burst m / 2 ^ 49 + lm_burst m / 2 ^ 51"
  proof (cases "b \<le> k + r * e")
    case True
    then show ?thesis unfolding level exact using facts by (simp add: min_def b_def [symmetric])
  next
    case False
    define g where "g = r * e"
    have "s * r \<le> (e * (1 + 1 / 2 ^ 50)) * r" using s facts by (intro mult_right_mono)
    also have "\<dots> = g + g / 2 ^ 50" by (simp add: g_def algebra_simps)
    finally have "s * r \<le> g + g / 2 ^ 50" .
    moreover have "float64 (s * r) \<le> s * r + s * r / 2 ^ 53 + float_tiny"
      by (rule float64_le) (use s facts in simp)
    moreover have "float64 (k + float64 (s * r))
        \<le> k + float64 (s * r) + (k + float64 (s * r)) / 2 ^ 53 + float_tiny"
      by (rule float64_le) (use gain facts in simp)
    moreover have "float_tiny \<le> b / 2 ^ 60" using float_tiny_bounds(2) facts by simp
    ultimately have "float64 (k + float64 (s * r)) \<le> k + g + b / 2 ^ 49 + b / 2 ^ 51"
      using False s facts by (intro refill_error [where z = "s * r" and y = "float64 (s * r)"]) (simp_all add: g_def)
    moreover have "min b (k + r * e) = k + g" using False by (simp add: g_def)
    ultimately show ?thesis
      unfolding level exact using min.cobounded2 [of b] by (simp add: b_def [symmetric])
  qed
qed

lemma subtracted:
  assumes "1 \<le> x" "x \<le> b" "b \<le> 2 ^ 52"
  shows "0 \<le> fl_sub x 1" "fl_sub x 1 \<le> x - 1 + b / 2 ^ 52" "fl_sub x 1 \<le> b"
proof -
  show "0 \<le> fl_sub x 1" using assms by (simp add: float64_nonneg)
  have "fl_sub x 1 \<le> x - 1 + (x - 1) / 2 ^ 53 + float_tiny"
    by (rule float64_le) (use assms in simp)
  moreover have "float_tiny \<le> 1 / 2 ^ 54" using float_tiny_bounds(2) by (simp add: field_simps)
  ultimately show "fl_sub x 1 \<le> x - 1 + b / 2 ^ 52" "fl_sub x 1 \<le> b"
    using assms by (simp_all add: field_simps)
qed

subsection \<open>One call\<close>

text \<open>The entry a call leaves for its address, when the table has room for it.\<close>

definition found_visitor :: "bytes \<Rightarrow> instant \<Rightarrow> ipLimiter \<Rightarrow> rateVisitor" where
  "found_visitor a t m =
    (case fmlookup (lm_visitors (prune t m)) a of
       None \<Rightarrow> \<lparr>tokens = lm_burst m, updated = t, lastSeen = t\<rparr> | Some v \<Rightarrow> v)"

definition spent_visitor :: "bytes \<Rightarrow> instant \<Rightarrow> ipLimiter \<Rightarrow> rateVisitor" where
  "spent_visitor a t m =
    (let x = refilled m t (found_visitor a t m)
     in (found_visitor a t m)
       \<lparr>tokens := (if 1 \<le> x then fl_sub x 1 else x), updated := t, lastSeen := t\<rparr>)"

lemma refilled_prune [simp]: "refilled (prune t m) u v = refilled m u v"
  by (simp add: refilled_def)

lemma allow_cases:
  obtains (full) "allow a t m = (False, prune t m)" "fmlookup (lm_visitors (prune t m)) a = None"
  | (entered) "allow a t m = (1 \<le> refilled m t (found_visitor a t m),
       (prune t m)\<lparr>lm_visitors := fmupd a (spent_visitor a t m) (lm_visitors (prune t m))\<rparr>)"
     "fmlookup (lm_visitors (prune t m)) a \<noteq> None \<or> fmlen (lm_visitors (prune t m)) < maxVisitors"
proof (cases "fmlookup (lm_visitors (prune t m)) a = None \<and> maxVisitors \<le> fmlen (lm_visitors (prune t m))")
  case True
  then show ?thesis by (intro full) (simp_all add: allow_def Let_def)
next
  case False
  show ?thesis
  proof (rule entered)
    show "allow a t m = (1 \<le> refilled m t (found_visitor a t m),
       (prune t m)\<lparr>lm_visitors := fmupd a (spent_visitor a t m) (lm_visitors (prune t m))\<rparr>)"
      using False
      by (cases "fmlookup (lm_visitors (prune t m)) a")
        (simp_all add: allow_def Let_def found_visitor_def spent_visitor_def)
  qed (use False in auto)
qed

lemma found_visitor_ok:
  assumes "limiter_ok m" "seen_by t m"
  shows "visitor_ok m (found_visitor a t m)" "updated (found_visitor a t m) \<le> t"
  using assms prune_subset [of t m a]
  by (auto simp: found_visitor_def limiter_ok_def seen_by_def visitor_ok_def split: option.splits)

lemma spent_visitor_ok:
  assumes "limiter_ok m" "seen_by t m"
  shows "visitor_ok m (spent_visitor a t m)" "updated (spent_visitor a t m) = t"
  using assms(1) refilled_bounds(1,2) [OF assms(1) found_visitor_ok [OF assms, of a]]
    subtracted [of "refilled m t (found_visitor a t m)" "lm_burst m"]
  by (auto simp: spent_visitor_def Let_def visitor_ok_def limiter_ok_def)

lemma prune_ok:
  assumes "limiter_ok m" "seen_by t m"
  shows "limiter_ok (prune t m)" "seen_by t (prune t m)"
  using assms fmlen_prune [of t m]
  by (auto simp: limiter_ok_def seen_by_def visitor_ok_def dest!: prune_subset)

lemma fmlen_upd_present: "fmlookup m k \<noteq> None \<Longrightarrow> fmlen (fmupd k v m) = fmlen m"
  by (auto simp: fmlen_def fmlookup_dom_iff finsert_absorb dest: fmdomI)

lemma fmlen_upd_le: "fmlen (fmupd k v m) \<le> Suc (fmlen m)"
  by (simp add: fmlen_def fcard_finsert_if)

lemma allow_ok:
  assumes "limiter_ok m" "seen_by t m"
  shows "limiter_ok (snd (allow a t m))" "seen_by t (snd (allow a t m))"
    "lm_burst (snd (allow a t m)) = lm_burst m" "lm_rate (snd (allow a t m)) = lm_rate m"
proof -
  note pruned = prune_ok [OF assms] and spent = spent_visitor_ok [OF assms, of a]
  have "limiter_ok (snd (allow a t m)) \<and> seen_by t (snd (allow a t m))
    \<and> lm_burst (snd (allow a t m)) = lm_burst m \<and> lm_rate (snd (allow a t m)) = lm_rate m"
  proof (cases rule: allow_cases [of a t m])
    case full
    then show ?thesis using pruned by simp
  next
    case entered
    have "fmlen (fmupd a (spent_visitor a t m) (lm_visitors (prune t m))) \<le> maxVisitors"
      using entered(2) pruned(1) fmlen_upd_present [of "lm_visitors (prune t m)" a]
        fmlen_upd_le [of a "spent_visitor a t m" "lm_visitors (prune t m)"]
      by (auto simp: limiter_ok_def)
    then show ?thesis
      using pruned spent unfolding entered(1) by (auto simp: limiter_ok_def seen_by_def visitor_ok_def)
  qed
  then show "limiter_ok (snd (allow a t m))" "seen_by t (snd (allow a t m))"
    "lm_burst (snd (allow a t m)) = lm_burst m" "lm_rate (snd (allow a t m)) = lm_rate m"
    by simp_all
qed

subsection \<open>The level of a bucket\<close>

text \<open>A bucket that is dropped after ten minutes has filled up by then.\<close>

definition patient :: "ipLimiter \<Rightarrow> bool" where
  "patient m \<longleftrightarrow> lm_burst m \<le> lm_rate m * 600"

lemma exact_level_le: "exact_level m t v \<le> lm_burst m"
  by (simp add: exact_level_def)

lemma level_le: "level m a t \<le> lm_burst m"
  by (auto simp: level_def exact_level_le split: option.splits)

lemma level_later:
  assumes "0 \<le> lm_rate m" "t \<le> u"
  shows "level m a u \<le> level m a t + lm_rate m * (of_int (u - t) / 10 ^ 9)"
proof (cases "fmlookup (lm_visitors m) a")
  case None
  then show ?thesis using assms by (simp add: level_def)
next
  case (Some v)
  have "lm_rate m * (of_int (u - updated v) / 10 ^ 9)
      = lm_rate m * (of_int (t - updated v) / 10 ^ 9) + lm_rate m * (of_int (u - t) / 10 ^ 9)"
    by (simp add: field_simps)
  moreover have "0 \<le> lm_rate m * (of_int (u - t) / 10 ^ 9)" using assms by simp
  ultimately show ?thesis
    unfolding level_def exact_level_def Some option.case by linarith
qed

lemma stale_level:
  assumes "limiter_ok m" "patient m" "visitor_ok m v" "stale_visitor t v"
  shows "exact_level m t v = lm_burst m"
proof -
  have "10 * minute < t - updated v"
    using assms(3,4) by (auto simp: stale_visitor_def visitor_ok_def time_sub_def minute_def second_def)
  then have "600 * 10 ^ 9 \<le> t - updated v" by (simp add: minute_def second_def)
  then have "600 * 10 ^ 9 \<le> rat_of_int (t - updated v)"
    by (metis of_int_le_iff of_int_mult of_int_numeral of_int_power)
  then have "600 \<le> rat_of_int (t - updated v) / 10 ^ 9" by (simp add: field_simps)
  then have "lm_rate m * 600 \<le> lm_rate m * (of_int (t - updated v) / 10 ^ 9)"
    using assms(1) by (intro mult_left_mono) (simp_all add: limiter_ok_def)
  then show ?thesis
    using assms(2,3) by (simp add: exact_level_def patient_def visitor_ok_def min_def)
qed

lemma level_prune:
  assumes "limiter_ok m" "patient m"
  shows "level (prune t m) a t = level m a t"
  using prune_lookup [of t m a] stale_level [OF assms] assms(1)
  by (auto simp: level_def exact_level_def limiter_ok_def split: option.splits)

lemma level_other:
  assumes "limiter_ok m" "patient m" "a \<noteq> b"
  shows "level (snd (allow b t m)) a t = level m a t"
proof -
  have "level (snd (allow b t m)) a t = level (prune t m) a t"
    using assms(3) by (cases rule: allow_cases [of b t m]) (auto simp: level_def exact_level_def split: option.splits)
  then show ?thesis using level_prune [OF assms(1,2)] by simp
qed

lemma found_level: "exact_level m t (found_visitor a t m) = level (prune t m) a t"
  by (auto simp: found_visitor_def level_def exact_level_def split: option.splits)

lemma level_same:
  assumes "limiter_ok m" "seen_by t m" "patient m"
  shows "(if fst (allow a t m) then 1 else 0) + level (snd (allow a t m)) a t \<le> level m a t + slack m"
proof (cases rule: allow_cases [of a t m])
  case full
  then show ?thesis
    using level_prune [OF assms(1,3), of t a] assms(1) by (simp add: slack_def limiter_ok_def)
next
  case entered
  let ?x = "refilled m t (found_visitor a t m)"
  have b: "1 \<le> lm_burst m" "lm_burst m \<le> 2 ^ 52" using assms(1) by (simp_all add: limiter_ok_def)
  have x: "?x \<le> level m a t + lm_burst m / 2 ^ 49 + lm_burst m / 2 ^ 51" "?x \<le> lm_burst m"
    using refilled_bounds(2,3) [OF assms(1) found_visitor_ok [OF assms(1,2), of a]]
    unfolding found_level level_prune [OF assms(1,3)] by simp_all
  have "level (snd (allow a t m)) a t \<le> tokens (spent_visitor a t m)"
    unfolding entered(1) by (simp add: level_def exact_level_def spent_visitor_def Let_def)
  moreover have "tokens (spent_visitor a t m) = (if 1 \<le> ?x then fl_sub ?x 1 else ?x)"
    by (simp add: spent_visitor_def Let_def)
  moreover have "fst (allow a t m) = (1 \<le> ?x)" unfolding entered(1) by simp
  ultimately show ?thesis
    using x b subtracted(2) [of ?x "lm_burst m"] by (cases "1 \<le> ?x") (simp_all add: slack_def field_simps)
qed

subsection \<open>The rate of an address\<close>

definition calls_of :: "bytes \<Rightarrow> (bytes \<times> instant) list \<Rightarrow> nat" where
  "calls_of a calls = length (filter (\<lambda>c. fst c = a) calls)"

lemma allowed_bound:
  assumes "limiter_ok m" "seen_by start m" "patient m"
    and "sorted (map snd calls)" "\<And>c. c \<in> set calls \<Longrightarrow> start \<le> snd c \<and> snd c \<le> finish"
    and "start \<le> finish"
  shows "of_nat (allowed_calls a calls m)
    \<le> level m a start + lm_rate m * (of_int (finish - start) / 10 ^ 9) + of_nat (calls_of a calls) * slack m"
  using assms
proof (induction calls arbitrary: m start)
  case Nil
  have "\<forall>v. fmlookup (lm_visitors m) a = Some v \<longrightarrow> updated v \<le> start \<and> 0 \<le> tokens v"
    using Nil.prems(1,2) by (auto simp: limiter_ok_def seen_by_def visitor_ok_def)
  then have "0 \<le> level m a start"
    using Nil.prems(1) by (auto simp: level_def exact_level_def limiter_ok_def split: option.splits)
  moreover have "0 \<le> lm_rate m * (of_int (finish - start) / 10 ^ 9)"
    using Nil.prems(1,6) by (simp add: limiter_ok_def)
  ultimately show ?case by (simp add: calls_of_def)
next
  case (Cons c calls)
  obtain b t where c: "c = (b, t)" by fastforce
  let ?m = "snd (allow b t m)"
  have times: "start \<le> t" "t \<le> finish" using Cons.prems(5) [of c] by (simp_all add: c)
  have seen: "seen_by t m" using Cons.prems(2) times(1) by (rule seen_by_mono)
  note step = allow_ok [OF Cons.prems(1) seen, of b]
  have rate: "0 \<le> lm_rate m" using Cons.prems(1) by (simp add: limiter_ok_def)
  have rest: "of_nat (allowed_calls a calls ?m)
      \<le> level ?m a t + lm_rate m * (of_int (finish - t) / 10 ^ 9) + of_nat (calls_of a calls) * slack m"
    using Cons.IH [of ?m t] Cons.prems(3,4,5) step times
    by (force simp: c patient_def slack_def)
  have first: "(if a = b \<and> fst (allow b t m) then 1 else 0) + level ?m a t
      \<le> level m a t + (if a = b then slack m else 0)"
    using level_same [OF Cons.prems(1) seen Cons.prems(3)] level_other [OF Cons.prems(1,3), of a b t]
    by (cases "a = b") simp_all
  have later: "level m a t \<le> level m a start + lm_rate m * (of_int (t - start) / 10 ^ 9)"
    by (rule level_later [OF rate times(1)])
  have counted: "of_nat (allowed_calls a (c # calls) m)
      = (if a = b \<and> fst (allow b t m) then 1 else 0) + rat_of_nat (allowed_calls a calls ?m)"
    "of_nat (calls_of a (c # calls)) * slack m
      = (if a = b then slack m else 0) + of_nat (calls_of a calls) * slack m"
    by (auto simp: c calls_of_def Let_def split: prod.splits simp: algebra_simps)
  have split: "lm_rate m * (of_int (finish - start) / 10 ^ 9)
      = lm_rate m * (of_int (t - start) / 10 ^ 9) + lm_rate m * (of_int (finish - t) / 10 ^ 9)"
    by (simp add: field_simps)
  show ?case
    unfolding counted split using rest first later by linarith
qed

text \<open>C33: The rate limit holds. In any sequence of calls of the limiter, from any addresses, the
  number of calls allowed to one address between two instants is at most the burst, plus the rate
  times the time between them, plus a rounding error of \<open>2^-48\<close> of the burst for each of its calls.
  The hypothesis \<open>patient\<close> says that a bucket fills up within the ten minutes after which the
  limiter forgets an address.\<close>
theorem rate_limit_holds:
  assumes "limiter_ok m" "seen_by start m" "patient m"
    and "sorted (map snd calls)" "\<forall>c \<in> set calls. start \<le> snd c \<and> snd c \<le> finish"
    and "start \<le> finish"
  shows "of_nat (allowed_calls a calls m)
    \<le> lm_burst m + lm_rate m * (of_int (finish - start) / 10 ^ 9)
      + of_nat (calls_of a calls) * (lm_burst m / 2 ^ 48)"
  using allowed_bound [OF assms(1-4) _ assms(6), of a] assms(5) level_le [of m a start]
  unfolding slack_def by fastforce

definition example_limiter :: ipLimiter where
  "example_limiter = \<lparr>lm_visitors = fmempty, lm_rate = 2, lm_burst = 2, lm_requests = 0\<rparr>"

definition example_calls :: "(bytes \<times> instant) list" where
  "example_calls = [(''a'', 5), (''a'', 5), (''b'', 6), (''a'', 7)]"

lemma example_limiter_ok: "limiter_ok example_limiter" "seen_by t example_limiter" "patient example_limiter"
  by (simp_all add: limiter_ok_def seen_by_def patient_def example_limiter_def)

lemma rate_limit_holds_witness:
  "of_nat (allowed_calls ''a'' example_calls example_limiter)
     \<le> 2 + 2 * (of_int (7 - 5) / 10 ^ 9) + 3 * (2 / 2 ^ 48 :: rat)
   \<and> allowed_calls ''a'' example_calls example_limiter = 2"
proof
  have "sorted (map snd example_calls)" "\<forall>c \<in> set example_calls. 5 \<le> snd c \<and> snd c \<le> 7"
    by (simp_all add: example_calls_def)
  from rate_limit_holds [OF example_limiter_ok(1,2,3) this, of "''a''"]
  show "of_nat (allowed_calls ''a'' example_calls example_limiter)
     \<le> 2 + 2 * (of_int (7 - 5) / 10 ^ 9) + 3 * (2 / 2 ^ 48 :: rat)"
    by (simp add: example_limiter_def example_calls_def calls_of_def)
  show "allowed_calls ''a'' example_calls example_limiter = 2"
    by code_simp
qed

end
