(* ===== verification/Jwks.thy ===== *)
theory Jwks
  imports Token Json_Text
begin

section \<open>The published key set\<close>

text \<open>
  The key set of \<open>internal/crypto/ed25519.go\<close>: \<open>PublicKeysJWKS\<close> lists each key once, and
  \<open>json.Marshal\<close> writes the members of a struct in the order of its fields.
\<close>

record JSONWebKey =
  jk_KeyType :: bytes
  jk_Use :: bytes
  jk_Algorithm :: bytes
  jk_KeyID :: bytes
  jk_Curve :: bytes
  jk_X :: bytes

definition web_key :: "auth_lib \<Rightarrow> bytes \<Rightarrow> JSONWebKey" where
  "web_key L publicKey =
    \<lparr>jk_KeyType = ''OKP'', jk_Use = ''sig'', jk_Algorithm = ''EdDSA'', jk_KeyID = keyID L publicKey,
     jk_Curve = ''Ed25519'', jk_X = raw_url_encode publicKey\<rparr>"

fun web_keys_loop :: "auth_lib \<Rightarrow> bytes fset \<Rightarrow> bytes list \<Rightarrow> JSONWebKey list result" where
  "web_keys_loop L seen [] = Inr []"
| "web_keys_loop L seen (publicKey # publicKeys) =
    (if length publicKey \<noteq> PublicKeySize then Inl (CryptoE ErrInvalidPublicKey)
     else if keyID L publicKey |\<in>| seen then web_keys_loop L seen publicKeys
     else case web_keys_loop L (finsert (keyID L publicKey) seen) publicKeys of
       Inl err \<Rightarrow> Inl err
     | Inr keys \<Rightarrow> Inr (web_key L publicKey # keys))"

definition web_key_json :: "JSONWebKey \<Rightarrow> json" where
  "web_key_json k =
    JObject [(''kty'', JString (jk_KeyType k)), (''use'', JString (jk_Use k)),
      (''alg'', JString (jk_Algorithm k)), (''kid'', JString (jk_KeyID k)),
      (''crv'', JString (jk_Curve k)), (''x'', JString (jk_X k))]"

definition key_set_json :: "JSONWebKey list \<Rightarrow> json" where
  "key_set_json keys = JObject [(''keys'', JArray (map web_key_json keys))]"

definition PublicKeysJWKS :: "auth_lib \<Rightarrow> bytes list \<Rightarrow> bytes result" where
  "PublicKeysJWKS L publicKeys =
    (case web_keys_loop L {||} publicKeys of
       Inl err \<Rightarrow> Inl err
     | Inr keys \<Rightarrow>
         if keys = [] then Inl (CryptoE ErrInvalidPublicKey) else Inr (json_text (key_set_json keys)))"

definition PublicKeyJWKS :: "auth_lib \<Rightarrow> bytes \<Rightarrow> bytes result" where
  "PublicKeyJWKS L publicKey = PublicKeysJWKS L [publicKey]"

end
