(* ===== verification/Delivery.thy ===== *)
theory Delivery
  imports Http_Text Limiter Jwks
begin

section \<open>The HTTP interface of the service\<close>

text \<open>
  \<open>internal/delivery/delivery.go\<close>. A request passes the middlewares of the router in their order,
  then the handler of its route. The state are the database, the rate limiter and the counters of
  the metrics. The router of \<open>gin\<close> is not part of the repository: which route a request has, with
  its path parameter, and the client address it computes are inputs, as is what a request reads
  from outside (clocks, random bytes, the outcome of the readiness check). Reading a body into a
  request struct with unknown fields refused (\<open>json.Decoder\<close>) and reading addresses from text
  (\<open>net.ParseIP\<close>, \<open>net.ParseCIDR\<close>) are arguments of the model. No modelled step panics, so
  \<open>safeRecovery\<close> passes every request on; log lines are not modelled.

  A handler maps the response so far and the database to the response and the database.
\<close>

subsection \<open>Requests and responses\<close>

definition maxRequestBodyBytes :: nat where
  "maxRequestBodyBytes = 64 * 1024"

record leaseRequest =
  lq_Audience :: bytes
  lq_Actions :: "bytes list"
  lq_Resources :: "bytes list"
  lq_Expiration :: instant
  lq_TTL :: bytes
  lq_MaxDepth :: go_int
  lq_ProofOfPossession :: bool
  lq_MaxUses :: go_int
  lq_Constraints :: constraints

record delegateRequest =
  dq_DelegateTo :: bytes
  dq_Actions :: "bytes list"
  dq_Resources :: "bytes list"
  dq_Expiration :: instant
  dq_TTL :: bytes
  dq_ProofOfPossession :: bool
  dq_MaxUses :: go_int
  dq_Constraints :: constraints

record rotateWorkloadKeyRequest =
  kq_PublicKey :: bytes
  kq_Overlap :: bytes
  kq_RevokeOutstanding :: bool

record workloadGrantRequest =
  gq_Audiences :: "bytes list"
  gq_Actions :: "bytes list"
  gq_Resources :: "bytes list"
  gq_MaxTTL :: bytes
  gq_MaxDelegationDepth :: go_int
  gq_CanDelegate :: bool
  gq_RequireProofOfPossession :: bool
  gq_MaxUses :: go_int
  gq_Constraints :: constraints

record workloadRequest =
  wq_Name :: bytes
  wq_PublicKey :: bytes
  wq_Grant :: workloadGrantRequest

record leaseResponse =
  lr_ID :: bytes
  lr_Token :: bytes
  lr_WorkloadID :: bytes
  lr_Audience :: bytes
  lr_ParentLeaseID :: "bytes option"
  lr_Expiration :: instant
  lr_Depth :: go_int
  lr_MaxDepth :: go_int
  lr_ProofOfPossession :: bool
  lr_MaxUses :: go_int
  lr_Constraints :: constraints

record workloadGrantResponse =
  gr_Audiences :: "bytes list"
  gr_Actions :: "bytes list"
  gr_Resources :: "bytes list"
  gr_MaxTTLSeconds :: int
  gr_MaxDelegationDepth :: go_int
  gr_CanDelegate :: bool
  gr_RequireProofOfPossession :: bool
  gr_MaxUses :: go_int
  gr_Constraints :: constraints
  gr_Version :: go_int

record workloadResponse =
  wr_ID :: bytes
  wr_Name :: bytes
  wr_CreatedAt :: instant
  wr_UpdatedAt :: instant
  wr_DisabledAt :: "instant option"
  wr_KeyThumbprint :: bytes
  wr_Grant :: workloadGrantResponse

record leaseInspectionResponse =
  li_ID :: bytes
  li_TokenID :: bytes
  li_WorkloadID :: bytes
  li_RootWorkloadID :: bytes
  li_Audience :: bytes
  li_ParentLeaseID :: "bytes option"
  li_RootLeaseID :: bytes
  li_DelegatedByWorkloadID :: "bytes option"
  li_Actions :: "bytes list"
  li_Resources :: "bytes list"
  li_Expiration :: instant
  li_IssuedAt :: instant
  li_RevokedAt :: "instant option"
  li_Depth :: go_int
  li_MaxDepth :: go_int
  li_MaxUses :: go_int
  li_UsesConsumed :: go_int
  li_ProofOfPossession :: bool
  li_Constraints :: constraints

record auditEventResponse =
  er_ID :: int
  er_WorkloadID :: "bytes option"
  er_LeaseID :: "bytes option"
  er_EventType :: bytes
  er_Actor :: bytes
  er_Details :: "(bytes \<times> detail) list"
  er_OccurredAt :: instant
  er_RequestID :: bytes

text \<open>
  The values the handlers pass to \<open>c.JSON\<close>, \<open>c.Data\<close> and \<open>AbortWithStatusJSON\<close>; a \<open>gin.H\<close> literal is
  a constructor with its members.
\<close>

datatype body =
    NoBody
  | DataBody bytes
  | ErrorBody bytes bytes bytes
  | WorkloadBody workloadResponse
  | RevokedBody int
  | RotatedBody bytes instant "instant option" int
  | LeaseBody leaseResponse
  | InspectionBody leaseInspectionResponse
  | LineageBody "leaseInspectionResponse list"
  | EventsBody "auditEventResponse list"
  | ConsumptionBody LeaseConsumption
  | RevocationsBody "bytes list" instant

text \<open>
  The request as the handlers read it. \<open>in_header\<close> and \<open>in_query\<close> answer a header or a query value,
  empty when absent; \<open>in_Body\<close> is \<open>None\<close> when reading the body fails.
\<close>

record http_in =
  in_Method :: bytes
  in_EscapedPath :: bytes
  in_RawQuery :: bytes
  in_query :: "bytes \<Rightarrow> bytes"
  in_header :: "bytes \<Rightarrow> bytes"
  in_Body :: "bytes option"
  in_TLS :: bool
  in_RemoteAddr :: bytes
  in_ClientIP :: bytes

text \<open>The part of \<open>gin.Context\<close> the handlers write: the request identifier, and the response.\<close>

record gin =
  gx_RequestID :: bytes
  gx_Status :: int
  gx_Headers :: "(bytes, bytes) fmap"
  gx_Body :: body

record http_lib =
  lib :: auth_lib
  parse_ip :: "bytes \<Rightarrow> bytes option"
  parse_cidr :: "bytes \<Rightarrow> ip_net option"
  decode_lease :: "bytes \<Rightarrow> leaseRequest option"
  decode_delegate :: "bytes \<Rightarrow> delegateRequest option"
  decode_workload :: "bytes \<Rightarrow> workloadRequest option"
  decode_rotate :: "bytes \<Rightarrow> rotateWorkloadKeyRequest option"

text \<open>
  What one request reads from outside: \<open>he_auth\<close> and \<open>he_call\<close> are what the authentication and the
  operation of the use case read.
\<close>

record http_env =
  he_random_id :: "bytes option"
  he_started :: instant
  he_finished :: instant
  he_limit_now :: instant
  he_generated :: instant
  he_ready :: "unit result"
  he_auth :: call_env
  he_call :: call_env

subsection \<open>The handler\<close>

record DeliveryConfig =
  dc_HasUsecase :: bool
  dc_PublicKeys :: "bytes list"
  dc_AdminToken :: bytes
  dc_ConsumptionToken :: bytes
  dc_RequireTLS :: bool
  dc_TrustForwardedProto :: bool
  dc_TrustedProxies :: "bytes list"
  dc_RateLimitPerMinute :: rat
  dc_RateLimitBurst :: go_int
  dc_HasReadiness :: bool

record Handler =
  dh_publicKeys :: "bytes list"
  dh_adminTokenHash :: bytes
  dh_consumptionTokenHash :: bytes
  dh_requireTLS :: bool
  dh_trustForwardedProto :: bool
  dh_trustedProxies :: "bytes list"
  dh_trustedProxyNets :: "ip_net list"
  dh_hasReadiness :: bool

record metricsState =
  ms_requests :: "64 word"
  ms_denials :: "64 word"
  ms_issued :: "64 word"
  ms_delegated :: "64 word"
  ms_revocations :: "64 word"
  ms_latencyMicros :: "64 word"

fun parse_proxies_loop :: "http_lib \<Rightarrow> bytes list \<Rightarrow> (bytes list \<times> ip_net list) result" where
  "parse_proxies_loop P [] = Inr ([], [])"
| "parse_proxies_loop P (given # values) =
    (let value = trim_space given
     in if value = [] then parse_proxies_loop P values
        else case (case parse_ip P value of
            Some ip \<Rightarrow>
              (let bits = (if to4 ip \<noteq> None then 32 else 128)
               in Some \<lparr>net_IP = ip, net_Mask = replicate (bits div 8) (CHR 0xFF)\<rparr>)
          | None \<Rightarrow> parse_cidr P value) of
          None \<Rightarrow> Inl (Opaque ''invalid trusted proxy'')
        | Some network \<Rightarrow>
          (case parse_proxies_loop P values of
             Inl err \<Rightarrow> Inl err
           | Inr (proxies, networks) \<Rightarrow> Inr (value # proxies, network # networks)))"

definition parseTrustedProxies :: "http_lib \<Rightarrow> bytes list \<Rightarrow> (bytes list \<times> ip_net list) result" where
  "parseTrustedProxies P values = parse_proxies_loop P values"

definition NewHandler :: "http_lib \<Rightarrow> DeliveryConfig \<Rightarrow> (Handler \<times> ipLimiter) result" where
  "NewHandler P config =
    (if \<not> dc_HasUsecase config \<or> length (dc_PublicKeys config) = 0 \<or> \<not> validAdminToken (dc_AdminToken config)
        \<or> \<not> validAdminToken (dc_ConsumptionToken config) \<or> dc_AdminToken config = dc_ConsumptionToken config
        \<or> dc_RateLimitPerMinute config \<le> 0 \<or> sint (dc_RateLimitBurst config) \<le> 0
     then Inl (Opaque ''invalid delivery configuration'')
     else if list_ex (\<lambda>key. length key \<noteq> PublicKeySize) (dc_PublicKeys config)
     then Inl (Opaque ''invalid delivery public key'')
     else case parseTrustedProxies P (dc_TrustedProxies config) of
       Inl err \<Rightarrow> Inl err
     | Inr (proxies, networks) \<Rightarrow>
     if dc_TrustForwardedProto config \<and> networks = []
     then Inl (Opaque ''forwarded protocol trust requires trusted proxies'')
     else Inr
       (\<lparr>dh_publicKeys = dc_PublicKeys config, dh_adminTokenHash = sha256 (lib P) (dc_AdminToken config),
         dh_consumptionTokenHash = sha256 (lib P) (dc_ConsumptionToken config),
         dh_requireTLS = dc_RequireTLS config, dh_trustForwardedProto = dc_TrustForwardedProto config,
         dh_trustedProxies = proxies, dh_trustedProxyNets = networks,
         dh_hasReadiness = dc_HasReadiness config\<rparr>,
        \<lparr>lm_visitors = fmempty, lm_rate = fl_div (dc_RateLimitPerMinute config) 60,
         lm_burst = float64 (of_int (sint (dc_RateLimitBurst config))), lm_requests = 0\<rparr>))"

definition isTrustedProxy :: "http_lib \<Rightarrow> Handler \<Rightarrow> bytes \<Rightarrow> bool" where
  "isTrustedProxy P handler remoteAddress =
    (case parse_ip P (clientAddress remoteAddress) of
       None \<Rightarrow> False
     | Some address \<Rightarrow> list_ex (\<lambda>network. net_contains network address) (dh_trustedProxyNets handler))"

subsection \<open>Reading bodies and writing errors\<close>

definition set_header :: "bytes \<Rightarrow> bytes \<Rightarrow> gin \<Rightarrow> gin" where
  "set_header k v c = c\<lparr>gx_Headers := fmupd k v (gx_Headers c)\<rparr>"

definition respond :: "int \<Rightarrow> body \<Rightarrow> gin \<Rightarrow> gin" where
  "respond status b c = c\<lparr>gx_Status := status, gx_Body := b\<rparr>"

definition respondError :: "int \<Rightarrow> bytes \<Rightarrow> bytes \<Rightarrow> gin \<Rightarrow> gin" where
  "respondError status code message c = respond status (ErrorBody code message (gx_RequestID c)) c"

text \<open>The error of \<open>http.MaxBytesReader\<close>, which \<open>errors.As\<close> finds.\<close>

definition MaxBytesError :: go_error where
  "MaxBytesError = Opaque ''http: request body too large''"

definition rejectDuplicateBodyKeys :: "bytes \<Rightarrow> unit result" where
  "rejectDuplicateBodyKeys body =
    (case json_unmarshal body of
       None \<Rightarrow> Inl (Opaque ''request body must contain one JSON value'')
     | Some value \<Rightarrow> if distinct_keys value then Inr () else Inl (Opaque ''duplicate JSON object key''))"

text \<open>
  The body and what it decodes to. A body that passes \<open>rejectDuplicateJSONKeys\<close> is one JSON value, so
  the second \<open>Decode\<close> of the code always meets the end of the input.
\<close>

definition readJSON :: "(bytes \<Rightarrow> 'a option) \<Rightarrow> http_in \<Rightarrow> (bytes \<times> 'a) result" where
  "readJSON decode r =
    (case in_Body r of
       None \<Rightarrow> Inl (Opaque ''read request body'')
     | Some body \<Rightarrow>
       if length body > maxRequestBodyBytes then Inl MaxBytesError
       else case rejectDuplicateBodyKeys body of
         Inl err \<Rightarrow> Inl err
       | Inr _ \<Rightarrow>
         (case decode body of
            None \<Rightarrow> Inl (Opaque ''decode request body'')
          | Some request \<Rightarrow> Inr (body, request)))"

definition writeJSONError :: "go_error \<Rightarrow> gin \<Rightarrow> gin" where
  "writeJSONError err c =
    (if errors_is err MaxBytesError then respondError 413 ''REQUEST_TOO_LARGE'' ''request body too large'' c
     else respondError 400 ''INVALID_REQUEST'' ''invalid request'' c)"

definition writeError :: "go_error \<Rightarrow> gin \<Rightarrow> gin" where
  "writeError err c =
    (if errors_is err (DomainE ErrUnauthenticated) \<or> errors_is err (DomainE ErrReplayDetected)
        \<or> errors_is err (DomainE ErrLeaseRevoked)
     then respondError 401 ''AUTHENTICATION_FAILED'' ''authentication failed''
            (set_header ''WWW-Authenticate'' ''Bearer'' c)
     else if errors_is err (DomainE ErrLeaseNotFound) \<or> errors_is err (DomainE ErrWorkloadNotFound)
     then respondError 404 ''RESOURCE_NOT_FOUND'' ''resource not found'' c
     else if errors_is err (DomainE ErrConflict)
     then respondError 409 ''RESOURCE_CONFLICT'' ''resource conflict'' c
     else if errors_is err (DomainE ErrMaxUsesExceeded)
     then respondError 403 ''MAX_USES_EXCEEDED'' ''capability use limit exceeded'' c
     else if errors_is err (DomainE ErrAuthorityEscalation) \<or> errors_is err (DomainE ErrInvalidAttenuation)
     then respondError 422 ''AUTHORITY_ESCALATION'' ''request violates authorization policy'' c
     else if errors_is err (DomainE ErrInvalidLease) \<or> errors_is err (DomainE ErrInvalidWorkload)
     then respondError 422 ''INVALID_REQUEST'' ''request violates authorization policy'' c
     else respondError 500 ''INTERNAL_ERROR'' ''internal server error'' c)"

subsection \<open>Middlewares\<close>

text \<open>A middleware that may stop the chain answers the response it stops with.\<close>

definition requestContext :: "http_env \<Rightarrow> http_in \<Rightarrow> gin option" where
  "requestContext env r =
    (let given = in_header r ''X-Request-ID'';
         chosen = (if validRequestID given then Some given else map_option raw_url_encode (he_random_id env))
     in map_option (\<lambda>identifier. set_header ''X-Request-ID'' identifier
          \<lparr>gx_RequestID = identifier, gx_Status = 200, gx_Headers = fmempty, gx_Body = NoBody\<rparr>) chosen)"

definition securityHeaders :: "Handler \<Rightarrow> gin \<Rightarrow> gin" where
  "securityHeaders handler c =
    (let c = set_header ''Cache-Control'' ''no-store'' c;
         c = set_header ''Content-Security-Policy''
               (''default-src '' @ CHR 0x27 # ''none'' @ CHR 0x27 # ''; frame-ancestors '' @ CHR 0x27 # ''none''
                @ CHR 0x27 # ''; base-uri '' @ CHR 0x27 # ''none'' @ [CHR 0x27]) c;
         c = set_header ''Cross-Origin-Resource-Policy'' ''same-site'' c;
         c = set_header ''Permissions-Policy'' ''camera=(), geolocation=(), microphone=()'' c;
         c = set_header ''Referrer-Policy'' ''no-referrer'' c;
         c = set_header ''X-Permitted-Cross-Domain-Policies'' ''none'' c;
         c = (if dh_requireTLS handler then set_header ''Strict-Transport-Security'' ''max-age=31536000'' c else c);
         c = set_header ''X-Content-Type-Options'' ''nosniff'' c
     in set_header ''X-Frame-Options'' ''DENY'' c)"

definition enforceTLS :: "http_lib \<Rightarrow> Handler \<Rightarrow> http_in \<Rightarrow> gin \<Rightarrow> gin option" where
  "enforceTLS P handler r c =
    (let forwarded = dh_trustForwardedProto handler \<and> isTrustedProxy P handler (in_RemoteAddr r)
           \<and> equal_fold (unicode (lib P)) (in_header r ''X-Forwarded-Proto'') ''https'';
         secure = in_TLS r \<or> forwarded
     in if dh_requireTLS handler \<and> \<not> secure
        then Some (respondError 426 ''TLS_REQUIRED'' ''tls is required'' c) else None)"

definition rateLimit :: "http_env \<Rightarrow> http_in \<Rightarrow> gin \<Rightarrow> ipLimiter \<Rightarrow> gin option \<times> ipLimiter" where
  "rateLimit env r c limiter =
    (let (allowed, limiter) = allow (in_ClientIP r) (he_limit_now env) limiter
     in (if allowed then None
         else Some (respondError 429 ''RATE_LIMITED'' ''rate limit exceeded'' (set_header ''Retry-After'' ''60'' c)),
         limiter))"

definition unauthenticated :: "gin \<Rightarrow> gin" where
  "unauthenticated c =
    respondError 401 ''AUTHENTICATION_FAILED'' ''authentication failed'' (set_header ''WWW-Authenticate'' ''Bearer'' c)"

definition requireAdmin :: "http_lib \<Rightarrow> Handler \<Rightarrow> http_in \<Rightarrow> gin \<Rightarrow> gin option" where
  "requireAdmin P handler r c =
    (case bearerToken (unicode (lib P)) (in_header r ''Authorization'') of
       None \<Rightarrow> Some (unauthenticated c)
     | Some token \<Rightarrow>
         if sha256 (lib P) token \<noteq> dh_adminTokenHash handler then Some (unauthenticated c) else None)"

definition requireConsumer :: "http_lib \<Rightarrow> Handler \<Rightarrow> http_in \<Rightarrow> gin \<Rightarrow> gin option" where
  "requireConsumer P handler r c =
    (case bearerToken (unicode (lib P)) (in_header r ''Authorization'') of
       None \<Rightarrow> Some (unauthenticated c)
     | Some token \<Rightarrow>
         if sha256 (lib P) token \<noteq> dh_consumptionTokenHash handler then Some (unauthenticated c) else None)"

subsection \<open>Public documents\<close>

definition ready :: "Handler \<Rightarrow> http_env \<Rightarrow> gin \<Rightarrow> gin" where
  "ready handler env c =
    (if \<not> dh_hasReadiness handler then c\<lparr>gx_Status := 204\<rparr>
     else case he_ready env of
       Inl _ \<Rightarrow> respondError 503 ''NOT_READY'' ''service not ready'' c
     | Inr _ \<Rightarrow> c\<lparr>gx_Status := 204\<rparr>)"

definition jwks :: "http_lib \<Rightarrow> Handler \<Rightarrow> gin \<Rightarrow> gin" where
  "jwks P handler c =
    (case PublicKeysJWKS (lib P) (dh_publicKeys handler) of
       Inl _ \<Rightarrow> respondError 500 ''INTERNAL_ERROR'' ''internal server error'' c
     | Inr data \<Rightarrow>
         respond 200 (DataBody data)
           (set_header ''Cache-Control'' ''public, max-age=60, must-revalidate''
             (set_header ''Content-Type'' ''application/json; charset=utf-8'' c)))"

definition revocations_etag :: "auth_lib \<Rightarrow> bytes list \<Rightarrow> bytes" where
  "revocations_etag L ids = CHR 0x22 # hex_encode (sha256 L (join_with newline ids)) @ [CHR 0x22]"

definition revocations :: "http_lib \<Rightarrow> http_env \<Rightarrow> http_in \<Rightarrow> gin \<Rightarrow> db \<Rightarrow> gin" where
  "revocations P env r c s =
    (case ListActiveRevocationsCase (he_call env) s of
       Inl _ \<Rightarrow> respondError 500 ''INTERNAL_ERROR'' ''internal server error'' c
     | Inr ids \<Rightarrow>
       let etag = revocations_etag (lib P) ids;
           c = set_header ''ETag'' etag (set_header ''Cache-Control'' ''private, max-age=0, must-revalidate'' c)
       in if in_header r ''If-None-Match'' = etag then c\<lparr>gx_Status := 304\<rparr>
          else respond 200 (RevocationsBody ids (he_generated env)) c)"

definition counter_line :: "bytes \<Rightarrow> bytes \<Rightarrow> bytes" where
  "counter_line name value =
    ''# TYPE '' @ name @ '' counter'' @ newline # name @ '' '' @ value @ [newline]"

text \<open>\<open>%.6f\<close> of a number of microseconds divided by a million, below \<open>2^53\<close> of them.\<close>

definition six_decimals :: "nat \<Rightarrow> bytes" where
  "six_decimals micros =
    format_uint (micros div 1000000) @ CHR ''.'' # tl (format_uint (1000000 + micros mod 1000000))"

definition serveMetrics :: "metricsState \<Rightarrow> gin \<Rightarrow> gin" where
  "serveMetrics m c =
    (let body =
       counter_line ''upsilon_http_requests_total'' (format_uint (unat (ms_requests m)))
       @ counter_line ''upsilon_authorization_denials_total'' (format_uint (unat (ms_denials m)))
       @ counter_line ''upsilon_lease_issuance_total'' (format_uint (unat (ms_issued m)))
       @ counter_line ''upsilon_delegation_total'' (format_uint (unat (ms_delegated m)))
       @ counter_line ''upsilon_revocation_operations_total'' (format_uint (unat (ms_revocations m)))
       @ counter_line ''upsilon_http_latency_seconds_sum'' (six_decimals (unat (ms_latencyMicros m)))
     in respond 200 (DataBody body) (set_header ''Content-Type'' ''text/plain; version=0.0.4; charset=utf-8'' c))"

subsection \<open>Response documents\<close>

definition grant_response :: "AuthorityGrant \<Rightarrow> workloadGrantResponse" where
  "grant_response grant =
    \<lparr>gr_Audiences = g_Audiences grant, gr_Actions = g_Actions grant, gr_Resources = g_Resources grant,
     gr_MaxTTLSeconds = go_div (g_MaxTTL grant) second, gr_MaxDelegationDepth = g_MaxDelegationDepth grant,
     gr_CanDelegate = g_CanDelegate grant, gr_RequireProofOfPossession = g_RequireProofOfPossession grant,
     gr_MaxUses = g_MaxUses grant, gr_Constraints = g_Constraints grant, gr_Version = g_Version grant\<rparr>"

definition workload_response :: "auth_lib \<Rightarrow> instant option \<Rightarrow> Workload \<Rightarrow> workloadResponse" where
  "workload_response L disabledAt workload =
    \<lparr>wr_ID = w_ID workload, wr_Name = w_Name workload, wr_CreatedAt = w_CreatedAt workload,
     wr_UpdatedAt = w_UpdatedAt workload, wr_DisabledAt = disabledAt,
     wr_KeyThumbprint = keyThumbprint L (w_PublicKey workload), wr_Grant = grant_response (w_Grant workload)\<rparr>"

definition responseFromIssued :: "IssuedLease \<Rightarrow> leaseResponse" where
  "responseFromIssued issued =
    (let lease = il_Lease issued
     in \<lparr>lr_ID = l_ID lease, lr_Token = il_Token issued, lr_WorkloadID = l_WorkloadID lease,
         lr_Audience = l_Audience lease, lr_ParentLeaseID = l_ParentLeaseID lease,
         lr_Expiration = l_Expiration lease, lr_Depth = l_Depth lease, lr_MaxDepth = l_MaxDepth lease,
         lr_ProofOfPossession = (l_ConfirmationThumbprint lease \<noteq> []), lr_MaxUses = l_MaxUses lease,
         lr_Constraints = l_Constraints lease\<rparr>)"

definition inspectLease :: "Lease \<Rightarrow> leaseInspectionResponse" where
  "inspectLease lease =
    \<lparr>li_ID = l_ID lease, li_TokenID = l_TokenID lease, li_WorkloadID = l_WorkloadID lease,
     li_RootWorkloadID = l_RootWorkloadID lease, li_Audience = l_Audience lease,
     li_ParentLeaseID = l_ParentLeaseID lease, li_RootLeaseID = l_RootLeaseID lease,
     li_DelegatedByWorkloadID = l_DelegatedByWorkloadID lease, li_Actions = l_Actions lease,
     li_Resources = l_Resources lease, li_Expiration = l_Expiration lease, li_IssuedAt = l_IssuedAt lease,
     li_RevokedAt = l_RevokedAt lease, li_Depth = l_Depth lease, li_MaxDepth = l_MaxDepth lease,
     li_MaxUses = l_MaxUses lease, li_UsesConsumed = l_UsesConsumed lease,
     li_ProofOfPossession = (l_ConfirmationThumbprint lease \<noteq> []), li_Constraints = l_Constraints lease\<rparr>"

definition audit_response :: "AuditEvent \<Rightarrow> auditEventResponse" where
  "audit_response event =
    \<lparr>er_ID = e_ID event, er_WorkloadID = e_WorkloadID event, er_LeaseID = e_LeaseID event,
     er_EventType = e_EventType event, er_Actor = e_Actor event, er_Details = e_Details event,
     er_OccurredAt = e_OccurredAt event, er_RequestID = e_RequestID event\<rparr>"

subsection \<open>Workload handlers\<close>

text \<open>The request identifier reaches the use case in the context.\<close>

definition call_env_of :: "gin \<Rightarrow> call_env \<Rightarrow> call_env" where
  "call_env_of c env = env\<lparr>ctx_request_id := gx_RequestID c\<rparr>"

definition admin_actor :: bytes where
  "admin_actor = ''control-plane-admin''"

definition requested_grant :: "workloadGrantRequest \<Rightarrow> duration \<Rightarrow> AuthorityGrant" where
  "requested_grant grant maxTTL =
    \<lparr>g_Audiences = gq_Audiences grant, g_Actions = gq_Actions grant, g_Resources = gq_Resources grant,
     g_MaxTTL = maxTTL, g_MaxDelegationDepth = gq_MaxDelegationDepth grant,
     g_CanDelegate = gq_CanDelegate grant, g_RequireProofOfPossession = gq_RequireProofOfPossession grant,
     g_MaxUses = gq_MaxUses grant, g_Constraints = gq_Constraints grant, g_Version = 0\<rparr>"

definition registerWorkload ::
    "http_lib \<Rightarrow> LeaseUsecase \<Rightarrow> http_env \<Rightarrow> http_in \<Rightarrow> gin \<Rightarrow> db \<Rightarrow> gin \<times> db" where
  "registerWorkload P usecase env r c s =
    (case readJSON (decode_workload P) r of
       Inl err \<Rightarrow> (writeJSONError err c, s)
     | Inr (_, request) \<Rightarrow>
     (case decodePublicKey (wq_PublicKey request) of
       Inl _ \<Rightarrow> (respondError 400 ''INVALID_PUBLIC_KEY'' ''invalid public key'' c, s)
     | Inr publicKey \<Rightarrow>
     (case parse_duration (gq_MaxTTL (wq_Grant request)) of
       None \<Rightarrow> (respondError 400 ''INVALID_GRANT'' ''invalid workload grant ttl'' c, s)
     | Some maxTTL \<Rightarrow>
     if maxTTL \<le> 0 then (respondError 400 ''INVALID_GRANT'' ''invalid workload grant ttl'' c, s)
     else case RegisterWorkload (lib P) usecase (call_env_of c (he_call env))
         \<lparr>rw_Name = wq_Name request, rw_PublicKey = publicKey, rw_Actor = admin_actor,
          rw_Grant = requested_grant (wq_Grant request) maxTTL\<rparr> s of
       (Inl err, s') \<Rightarrow> (writeError err c, s')
     | (Inr workload, s') \<Rightarrow>
         (respond 201 (WorkloadBody (workload_response (lib P) None workload)) c, s'))))"

definition getWorkload :: "http_lib \<Rightarrow> bytes \<Rightarrow> gin \<Rightarrow> db \<Rightarrow> gin" where
  "getWorkload P i c s =
    (case GetWorkload (lib P) i s of
       Inl err \<Rightarrow> writeError err c
     | Inr workload \<Rightarrow> respond 200 (WorkloadBody (workload_response (lib P) (w_DisabledAt workload) workload)) c)"

definition disableWorkload :: "http_lib \<Rightarrow> http_env \<Rightarrow> bytes \<Rightarrow> gin \<Rightarrow> db \<Rightarrow> gin \<times> db" where
  "disableWorkload P env workloadID c s =
    (if workloadID = [] then (respondError 400 ''INVALID_WORKLOAD'' ''invalid workload id'' c, s)
     else case DisableWorkloadCase (lib P) (call_env_of c (he_call env)) workloadID admin_actor s of
       (Inl err, s') \<Rightarrow> (writeError err c, s')
     | (Inr revoked, s') \<Rightarrow> (respond 200 (RevokedBody revoked) c, s'))"

text \<open>An overlap that is not given is zero.\<close>

definition requested_overlap :: "bytes \<Rightarrow> duration option" where
  "requested_overlap value =
    (if value = [] then Some 0
     else case parse_duration value of None \<Rightarrow> None | Some overlap \<Rightarrow> if overlap < 0 then None else Some overlap)"

definition rotateWorkloadKey ::
    "http_lib \<Rightarrow> http_env \<Rightarrow> http_in \<Rightarrow> bytes \<Rightarrow> gin \<Rightarrow> db \<Rightarrow> gin \<times> db" where
  "rotateWorkloadKey P env r workloadID c s =
    (if workloadID = [] then (respondError 400 ''INVALID_WORKLOAD'' ''invalid workload id'' c, s)
     else case readJSON (decode_rotate P) r of
       Inl err \<Rightarrow> (writeJSONError err c, s)
     | Inr (_, request) \<Rightarrow>
     (case decodePublicKey (kq_PublicKey request) of
       Inl _ \<Rightarrow> (respondError 400 ''INVALID_PUBLIC_KEY'' ''invalid public key'' c, s)
     | Inr publicKey \<Rightarrow>
     (case requested_overlap (kq_Overlap request) of
       None \<Rightarrow> (respondError 400 ''INVALID_KEY_OVERLAP'' ''invalid key overlap'' c, s)
     | Some overlap \<Rightarrow>
     (case RotateWorkloadKeyCase (lib P) (call_env_of c (he_call env))
         \<lparr>rk_WorkloadID = workloadID, rk_PublicKey = publicKey, rk_Overlap = overlap,
          rk_RevokeOutstanding = kq_RevokeOutstanding request, rk_Actor = admin_actor\<rparr> s of
       (Inl err, s') \<Rightarrow> (writeError err c, s')
     | (Inr (workload, revoked), s') \<Rightarrow>
         (respond 200 (RotatedBody (w_ID workload) (w_UpdatedAt workload) (w_PreviousKeyExpiresAt workload) revoked) c,
          s')))))"

subsection \<open>Lease handlers\<close>

definition authenticateWorkload ::
    "http_lib \<Rightarrow> LeaseUsecase \<Rightarrow> call_env \<Rightarrow> http_in \<Rightarrow> bytes \<Rightarrow> db \<Rightarrow> Workload result \<times> db" where
  "authenticateWorkload P usecase env r body s =
    (if in_RawQuery r \<noteq> [] then (Inl (DomainE ErrUnauthenticated), s)
     else case parse_int64 (in_header r ''X-Upsilon-Timestamp'') of
       None \<Rightarrow> (Inl (DomainE ErrUnauthenticated), s)
     | Some timestampUnix \<Rightarrow>
     (case raw_url_decode (in_header r ''X-Upsilon-Signature'') of
       None \<Rightarrow> (Inl (DomainE ErrUnauthenticated), s)
     | Some signature \<Rightarrow>
       let nonce = in_header r ''X-Upsilon-Nonce'';
           message = signedRequestMessage (lib P) (in_Method r) (in_EscapedPath r)
             (in_header r ''X-Upsilon-Timestamp'') nonce body
       in AuthenticateWorkload (lib P) usecase env
            \<lparr>aw_WorkloadID = in_header r ''X-Upsilon-Workload-ID'', aw_Timestamp = time_unix timestampUnix,
             aw_Nonce = nonce, aw_Message = message, aw_Signature = signature\<rparr> s))"

definition mintRootLease ::
    "http_lib \<Rightarrow> LeaseUsecase \<Rightarrow> http_env \<Rightarrow> http_in \<Rightarrow> gin \<Rightarrow> db \<Rightarrow> gin \<times> db" where
  "mintRootLease P usecase env r c s =
    (case readJSON (decode_lease P) r of
       Inl err \<Rightarrow> (writeJSONError err c, s)
     | Inr (body, request) \<Rightarrow>
     (case authenticateWorkload P usecase (call_env_of c (he_auth env)) r body s of
       (Inl err, s') \<Rightarrow> (writeError err c, s')
     | (Inr workload, s') \<Rightarrow>
     (case parseTTL (lq_TTL request) (lq_Expiration request) of
       Inl _ \<Rightarrow> (respondError 400 ''INVALID_TTL'' ''invalid ttl'' c, s')
     | Inr ttl \<Rightarrow>
     (case MintRootLease (lib P) usecase (call_env_of c (he_call env))
         \<lparr>mr_WorkloadID = w_ID workload, mr_Audience = lq_Audience request, mr_Actions = lq_Actions request,
          mr_Resources = lq_Resources request, mr_Expiration = lq_Expiration request, mr_TTL = ttl,
          mr_MaxDepth = lq_MaxDepth request, mr_ProofOfPossession = lq_ProofOfPossession request,
          mr_MaxUses = lq_MaxUses request, mr_Constraints = lq_Constraints request,
          mr_AuthenticatedKeyThumbprint = w_AuthenticatedKeyThumbprint workload\<rparr> s' of
       (Inl err, s'') \<Rightarrow> (writeError err c, s'')
     | (Inr issued, s'') \<Rightarrow> (respond 201 (LeaseBody (responseFromIssued issued)) c, s'')))))"

definition delegateLease ::
    "http_lib \<Rightarrow> LeaseUsecase \<Rightarrow> http_env \<Rightarrow> http_in \<Rightarrow> bytes \<Rightarrow> gin \<Rightarrow> db \<Rightarrow> gin \<times> db" where
  "delegateLease P usecase env r parent_id c s =
    (case (if parent_id = [] then None else bearerToken (unicode (lib P)) (in_header r ''Authorization'')) of
       None \<Rightarrow> (unauthenticated c, s)
     | Some parentToken \<Rightarrow>
     (case readJSON (decode_delegate P) r of
       Inl err \<Rightarrow> (writeJSONError err c, s)
     | Inr (body, request) \<Rightarrow>
     (case authenticateWorkload P usecase (call_env_of c (he_auth env)) r body s of
       (Inl err, s') \<Rightarrow> (writeError err c, s')
     | (Inr workload, s') \<Rightarrow>
     (case parseTTL (dq_TTL request) (dq_Expiration request) of
       Inl _ \<Rightarrow> (respondError 400 ''INVALID_TTL'' ''invalid ttl'' c, s')
     | Inr ttl \<Rightarrow>
     (case DelegateLease (lib P) usecase (call_env_of c (he_call env))
         \<lparr>dl_ParentLeaseID = parent_id, dl_ParentToken = parentToken, dl_DelegatingWorkloadID = w_ID workload,
          dl_DelegateToWorkloadID = dq_DelegateTo request, dl_Actions = dq_Actions request,
          dl_Resources = dq_Resources request, dl_Expiration = dq_Expiration request, dl_TTL = ttl,
          dl_ProofOfPossession = dq_ProofOfPossession request, dl_MaxUses = dq_MaxUses request,
          dl_Constraints = dq_Constraints request,
          dl_AuthenticatedKeyThumbprint = w_AuthenticatedKeyThumbprint workload\<rparr> s' of
       (Inl err, s'') \<Rightarrow> (writeError err c, s'')
     | (Inr issued, s'') \<Rightarrow> (respond 201 (LeaseBody (responseFromIssued issued)) c, s''))))))"

definition revokeLease :: "http_lib \<Rightarrow> http_env \<Rightarrow> bytes \<Rightarrow> gin \<Rightarrow> db \<Rightarrow> gin \<times> db" where
  "revokeLease P env leaseID c s =
    (if leaseID = [] then (respondError 400 ''INVALID_LEASE'' ''invalid lease id'' c, s)
     else case RevokeLease (lib P) (call_env_of c (he_call env)) \<lparr>rl_LeaseID = leaseID, rl_Actor = admin_actor\<rparr> s of
       (Inl err, s') \<Rightarrow> (writeError err c, s')
     | (Inr count, s') \<Rightarrow> (respond 200 (RevokedBody count) c, s'))"

definition getLease :: "http_lib \<Rightarrow> bytes \<Rightarrow> gin \<Rightarrow> db \<Rightarrow> gin" where
  "getLease P i c s =
    (case GetLease (lib P) i s of
       Inl err \<Rightarrow> writeError err c
     | Inr lease \<Rightarrow> respond 200 (InspectionBody (inspectLease lease)) c)"

definition traceLease :: "http_lib \<Rightarrow> bytes \<Rightarrow> gin \<Rightarrow> db \<Rightarrow> gin" where
  "traceLease P i c s =
    (case TraceLeaseCase (lib P) i s of
       Inl err \<Rightarrow> writeError err c
     | Inr leases \<Rightarrow> respond 200 (LineageBody (map inspectLease leases)) c)"

definition listAuditEvents :: "http_in \<Rightarrow> gin \<Rightarrow> db \<Rightarrow> gin" where
  "listAuditEvents r c s =
    (case (if in_query r ''limit'' = [] then Some 100 else parse_int64 (in_query r ''limit'')) of
       None \<Rightarrow> respondError 400 ''INVALID_LIMIT'' ''invalid limit'' c
     | Some limit \<Rightarrow>
     (case ListAuditEventsCase (in_query r ''workload_id'') (in_query r ''lease_id'') (word_of_int limit) s of
       Inl err \<Rightarrow> writeError err c
     | Inr events \<Rightarrow> respond 200 (EventsBody (map audit_response events)) c))"

definition consumeLease ::
    "http_lib \<Rightarrow> LeaseUsecase \<Rightarrow> http_env \<Rightarrow> http_in \<Rightarrow> bytes \<Rightarrow> gin \<Rightarrow> db \<Rightarrow> gin \<times> db" where
  "consumeLease P usecase env r leaseID c s =
    (let token = in_header r ''Upsilon-Capability''; idempotencyKey = in_header r ''Idempotency-Key''
     in if leaseID = [] \<or> token = [] \<or> length token > MaxLeaseTokenBytes \<or> idempotencyKey = []
     then (respondError 400 ''INVALID_CONSUMPTION'' ''invalid capability consumption request'' c, s)
     else case ConsumeLease (lib P) usecase (call_env_of c (he_call env))
         \<lparr>cl_LeaseID = leaseID, cl_Token = token, cl_IdempotencyKey = idempotencyKey\<rparr> s of
       (Inl err, s') \<Rightarrow> (writeError err c, s')
     | (Inr consumption, s') \<Rightarrow> (respond 200 (ConsumptionBody consumption) c, s'))"

subsection \<open>The router\<close>

text \<open>The routes of \<open>Router\<close> with their path parameter; \<open>RNone\<close> is a path without a route.\<close>

datatype route =
    RHealth
  | RReady
  | RMetrics
  | RJwks
  | RRevocations
  | RRegisterWorkload
  | RGetWorkload bytes
  | RDisableWorkload bytes
  | RRotateWorkloadKey bytes
  | RMint
  | RGetLease bytes
  | RTraceLease bytes
  | RDelegate bytes
  | RConsume bytes
  | RRevoke bytes
  | RAuditEvents
  | RNone

fun full_path :: "route \<Rightarrow> bytes" where
  "full_path RHealth = ''/healthz''"
| "full_path RReady = ''/readyz''"
| "full_path RMetrics = ''/metrics''"
| "full_path RJwks = ''/.well-known/jwks.json''"
| "full_path RRevocations = ''/.well-known/revocations.json''"
| "full_path RRegisterWorkload = ''/v1/workloads''"
| "full_path (RGetWorkload i) = ''/v1/workloads/:id''"
| "full_path (RDisableWorkload i) = ''/v1/workloads/:id/disable''"
| "full_path (RRotateWorkloadKey i) = ''/v1/workloads/:id/rotate-key''"
| "full_path RMint = ''/v1/leases''"
| "full_path (RGetLease i) = ''/v1/leases/:id''"
| "full_path (RTraceLease i) = ''/v1/leases/:id/trace''"
| "full_path (RDelegate i) = ''/v1/leases/:id/delegate''"
| "full_path (RConsume i) = ''/v1/leases/:id/consume''"
| "full_path (RRevoke i) = ''/v1/leases/:id/revoke''"
| "full_path RAuditEvents = ''/v1/audit-events''"
| "full_path RNone = []"

text \<open>The middleware a route has of its own.\<close>

fun route_guard :: "http_lib \<Rightarrow> Handler \<Rightarrow> http_in \<Rightarrow> gin \<Rightarrow> route \<Rightarrow> gin option" where
  "route_guard P h r c RMetrics = requireAdmin P h r c"
| "route_guard P h r c RRegisterWorkload = requireAdmin P h r c"
| "route_guard P h r c (RGetWorkload i) = requireAdmin P h r c"
| "route_guard P h r c (RDisableWorkload i) = requireAdmin P h r c"
| "route_guard P h r c (RRotateWorkloadKey i) = requireAdmin P h r c"
| "route_guard P h r c (RGetLease i) = requireAdmin P h r c"
| "route_guard P h r c (RTraceLease i) = requireAdmin P h r c"
| "route_guard P h r c (RConsume i) = requireConsumer P h r c"
| "route_guard P h r c (RRevoke i) = requireAdmin P h r c"
| "route_guard P h r c RAuditEvents = requireAdmin P h r c"
| "route_guard P h r c _ = None"

fun route_handler ::
    "http_lib \<Rightarrow> Handler \<Rightarrow> LeaseUsecase \<Rightarrow> metricsState \<Rightarrow> http_env \<Rightarrow> http_in \<Rightarrow> route \<Rightarrow> gin \<Rightarrow> db \<Rightarrow> gin \<times> db"
where
  "route_handler P h u m env r RHealth c s = (c\<lparr>gx_Status := 204\<rparr>, s)"
| "route_handler P h u m env r RReady c s = (ready h env c, s)"
| "route_handler P h u m env r RMetrics c s = (serveMetrics m c, s)"
| "route_handler P h u m env r RJwks c s = (jwks P h c, s)"
| "route_handler P h u m env r RRevocations c s = (revocations P env r c s, s)"
| "route_handler P h u m env r RRegisterWorkload c s = registerWorkload P u env r c s"
| "route_handler P h u m env r (RGetWorkload i) c s = (getWorkload P i c s, s)"
| "route_handler P h u m env r (RDisableWorkload i) c s = disableWorkload P env i c s"
| "route_handler P h u m env r (RRotateWorkloadKey i) c s = rotateWorkloadKey P env r i c s"
| "route_handler P h u m env r RMint c s = mintRootLease P u env r c s"
| "route_handler P h u m env r (RGetLease i) c s = (getLease P i c s, s)"
| "route_handler P h u m env r (RTraceLease i) c s = (traceLease P i c s, s)"
| "route_handler P h u m env r (RDelegate i) c s = delegateLease P u env r i c s"
| "route_handler P h u m env r (RConsume i) c s = consumeLease P u env r i c s"
| "route_handler P h u m env r (RRevoke i) c s = revokeLease P env i c s"
| "route_handler P h u m env r RAuditEvents c s = (listAuditEvents r c s, s)"
| "route_handler P h u m env r RNone c s = (c\<lparr>gx_Status := 404\<rparr>, s)"

definition requestLogger :: "http_env \<Rightarrow> route \<Rightarrow> gin \<Rightarrow> metricsState \<Rightarrow> metricsState" where
  "requestLogger env route c m =
    (let status = gx_Status c; latency = time_sub (he_finished env) (he_started env);
         m = m\<lparr>ms_requests := ms_requests m + 1\<rparr>;
         m = m\<lparr>ms_latencyMicros := ms_latencyMicros m + word_of_int (max 0 (go_div latency 1000))\<rparr>;
         m = (if status = 401 \<or> status = 403 then m\<lparr>ms_denials := ms_denials m + 1\<rparr> else m);
         m = (if status = 201 \<and> full_path route = ''/v1/leases'' then m\<lparr>ms_issued := ms_issued m + 1\<rparr> else m);
         m = (if status = 201 \<and> full_path route = ''/v1/leases/:id/delegate''
              then m\<lparr>ms_delegated := ms_delegated m + 1\<rparr> else m)
     in if status = 200 \<and> full_path route = ''/v1/leases/:id/revoke''
        then m\<lparr>ms_revocations := ms_revocations m + 1\<rparr> else m)"

record http_state =
  hs_db :: db
  hs_limiter :: ipLimiter
  hs_metrics :: metricsState

text \<open>
  What runs inside \<open>requestLogger\<close>: the security headers, the transport and the rate checks, the guard
  of the route and its handler. Without a response from \<open>requestContext\<close> nothing else runs.
\<close>

definition serve_chain ::
    "http_lib \<Rightarrow> Handler \<Rightarrow> LeaseUsecase \<Rightarrow> http_env \<Rightarrow> http_in \<Rightarrow> route \<Rightarrow> gin \<Rightarrow> http_state \<Rightarrow> gin \<times> http_state"
where
  "serve_chain P h u env r route c st =
    (let c = securityHeaders h c
     in case enforceTLS P h r c of
       Some stopped \<Rightarrow> (stopped, st)
     | None \<Rightarrow>
     (case rateLimit env r c (hs_limiter st) of
       (Some stopped, limiter) \<Rightarrow> (stopped, st\<lparr>hs_limiter := limiter\<rparr>)
     | (None, limiter) \<Rightarrow>
       let st = st\<lparr>hs_limiter := limiter\<rparr>
       in case route_guard P h r c route of
         Some stopped \<Rightarrow> (stopped, st)
       | None \<Rightarrow>
           (let (c, s) = route_handler P h u (hs_metrics st) env r route c (hs_db st)
            in (c, st\<lparr>hs_db := s\<rparr>))))"

definition aborted_response :: gin where
  "aborted_response = \<lparr>gx_RequestID = [], gx_Status = 500, gx_Headers = fmempty, gx_Body = NoBody\<rparr>"

definition Router ::
    "http_lib \<Rightarrow> Handler \<Rightarrow> LeaseUsecase \<Rightarrow> http_env \<Rightarrow> http_in \<Rightarrow> route \<Rightarrow> http_state \<Rightarrow> gin \<times> http_state" where
  "Router P h u env r route st =
    (case requestContext env r of
       None \<Rightarrow> (aborted_response, st)
     | Some c \<Rightarrow>
       let (c, st) = serve_chain P h u env r route c st
       in (c, st\<lparr>hs_metrics := requestLogger env route c (hs_metrics st)\<rparr>))"

end
