(* ===== verification/Identifiers.thy ===== *)
theory Identifiers
  imports Usecase
begin

section \<open>Identifiers\<close>

text \<open>
  \<open>newID\<close> writes 16 random bytes as a version 4 UUID. The lemmas show that hexadecimal encoding
  can be undone, where the version and variant digits come from, and that the dashes can be
  removed again, so an identifier determines the bytes it was made of.
\<close>

lemma byte_chr [simp]: "byte (chr n) = n mod 256"
  by simp

text \<open>The version and the variant of the identifier.\<close>

lemma small_word:
  "and w 3 \<in> {0, 1, 2, 3}" for w :: "8 word"
proof -
  have "unat (and w 3) = unat w mod 4"
  proof -
    have "take_bit 2 w = and w 3" using take_bit_eq_mask [of 2 w] by (simp add: mask_numeral)
    then have "unat (and w 3) = unat (take_bit 2 w)" by simp
    also have "\<dots> = unat w mod 4" by (simp only: unsigned_take_bit_eq) (simp add: take_bit_eq_mod)
    finally show ?thesis .
  qed
  then have "unat (and w 3) < 4" by simp
  moreover have "and w 3 = word_of_nat (unat (and w 3))" by simp
  moreover have "n < 4 \<Longrightarrow> n \<in> {0, 1, 2, 3}" for n :: nat by auto
  ultimately show ?thesis by fastforce
qed

lemma set_bits_high:
  "byte (set_bits 0x0f 0x40 c) div 16 = 4"
  "byte (set_bits 0x3f 0x80 c) div 16 \<in> {8, 9, 10, 11}"
proof -
  let ?w = "word_of_nat (byte c) :: 8 word"
  have less: "unat (w :: 8 word) mod 256 = unat w" for w
  proof -
    have "unat w < 2 ^ LENGTH(8)" by (rule unsigned_less)
    then show ?thesis by simp
  qed
  have high: "unat (w :: 8 word) div 16 = unat (drop_bit 4 w)" for w
    unfolding unat_drop_bit_eq by (simp add: drop_bit_eq_div)
  have "drop_bit 4 (or (and ?w 0x0f) 0x40) = 4"
    by (simp add: drop_bit_or drop_bit_and)
  then show "byte (set_bits 0x0f 0x40 c) div 16 = 4"
    by (simp add: set_bits_def less high)
  have "drop_bit 4 (or (and ?w 0x3f) 0x80) = or (and (drop_bit 4 ?w) 3) 8"
    by (simp only: drop_bit_or drop_bit_and) simp
  moreover have "unat (or v 8 :: 8 word) \<in> {8, 9, 10, 11}" if "v \<in> {0, 1, 2, 3}" for v
    using that by auto
  ultimately show "byte (set_bits 0x3f 0x80 c) div 16 \<in> {8, 9, 10, 11}"
    using small_word [of "drop_bit 4 ?w"] by (simp only: set_bits_def char_of_mod_256 less high byte_chr)
qed

lemma hex_digit_cases: "n < 16 \<Longrightarrow> hex_digit n \<in> set ''0123456789abcdef''"
  unfolding hex_digit_def by (rule nth_mem) simp

lemma hex_digit_inj: "m < 16 \<Longrightarrow> n < 16 \<Longrightarrow> hex_digit m = hex_digit n \<longleftrightarrow> m = n"
  unfolding hex_digit_def by (intro nth_eq_iff_index_eq) simp_all

lemma byte_halves:
  "byte c div 16 < 16" "byte c mod 16 < 16"
  "byte c div 16 = byte d div 16 \<and> byte c mod 16 = byte d mod 16 \<longleftrightarrow> c = d"
proof -
  show "byte c div 16 < 16" using byte_less_256 [of c] by linarith
  show "byte c div 16 = byte d div 16 \<and> byte c mod 16 = byte d mod 16 \<longleftrightarrow> c = d"
    by (metis div_mult_mod_eq of_char_eq_iff)
qed simp

lemma hex_encode_Cons: "hex_encode (c # cs) = hex_digit (byte c div 16) # hex_digit (byte c mod 16) # hex_encode cs"
  by (simp add: hex_encode_def)

lemma hex_encode_Nil [simp]: "hex_encode [] = []"
  by (simp add: hex_encode_def)

lemma length_hex_encode [simp]: "length (hex_encode v) = 2 * length v"
  by (induction v) (simp_all add: hex_encode_Cons)

lemma hex_encode_inj: "hex_encode v = hex_encode w \<longleftrightarrow> v = w"
proof (induction v arbitrary: w)
  case Nil
  then show ?case by (cases w) (simp_all add: hex_encode_Cons)
next
  case (Cons c v)
  show ?case
  proof (cases w)
    case (Cons d w')
    have "hex_encode (c # v) = hex_encode (d # w') \<longleftrightarrow>
        (byte c div 16 = byte d div 16 \<and> byte c mod 16 = byte d mod 16) \<and> v = w'"
      unfolding hex_encode_Cons Cons.IH [symmetric] list.inject
        hex_digit_inj [OF byte_halves(1) byte_halves(1)] hex_digit_inj [OF byte_halves(2) byte_halves(2)]
      by blast
    then show ?thesis unfolding Cons byte_halves(3) list.inject .
  qed (simp add: hex_encode_Cons)
qed

lemma hex_encode_digits: "set (hex_encode v) \<subseteq> set ''0123456789abcdef''"
proof (induction v)
  case (Cons c v)
  have "hex_digit (byte c div 16) \<in> set ''0123456789abcdef''" "hex_digit (byte c mod 16) \<in> set ''0123456789abcdef''"
    by (intro hex_digit_cases byte_halves)+
  with Cons show ?case unfolding hex_encode_Cons by simp
qed simp

text \<open>The text of an identifier: 32 lower-case hexadecimal digits in five groups.\<close>

definition dashed :: "bytes \<Rightarrow> bytes" where
  "dashed h = slice h 0 8 @ ''-'' @ slice h 8 12 @ ''-'' @ slice h 12 16 @ ''-'' @ slice h 16 20 @ ''-'' @ slice h 20 32"

lemma slice_drop: "a \<le> b \<Longrightarrow> slice h a b @ drop b h = drop a h"
  using append_take_drop_id [of "b - a" "drop a h"] by (simp add: slice_def)

lemma length_slice: "b \<le> length h \<Longrightarrow> length (slice h a b) = b - a"
  by (simp add: slice_def)

lemma slices:
  assumes "length h = 32"
  shows "slice h 0 8 @ slice h 8 12 @ slice h 12 16 @ slice h 16 20 @ slice h 20 32 = h"
proof -
  have "drop 32 h = []" using assms by simp
  then show ?thesis
    using slice_drop [of 0 8 h] slice_drop [of 8 12 h] slice_drop [of 12 16 h] slice_drop [of 16 20 h]
      slice_drop [of 20 32 h] by simp
qed

lemma dashed_back:
  assumes "length h = 32" "CHR ''-'' \<notin> set h"
  shows "filter (\<lambda>c. c \<noteq> CHR ''-'') (dashed h) = h" "length (dashed h) = 36"
    "dashed h ! 8 = CHR ''-''" "dashed h ! 13 = CHR ''-''" "dashed h ! 18 = CHR ''-''" "dashed h ! 23 = CHR ''-''"
    "dashed h ! 14 = h ! 12" "dashed h ! 19 = h ! 16"
proof -
  have keep: "filter (\<lambda>c. c \<noteq> CHR ''-'') (slice h a b) = slice h a b" for a b
    using assms(2) by (auto simp: slice_def filter_id_conv dest!: in_set_takeD in_set_dropD)
  show "filter (\<lambda>c. c \<noteq> CHR ''-'') (dashed h) = h"
    using slices [OF assms(1)] by (simp add: dashed_def keep)
  note len = length_slice [of 8 h 0] length_slice [of 12 h 8] length_slice [of 16 h 12]
    length_slice [of 20 h 16] length_slice [of 32 h 20]
  show "length (dashed h) = 36" using assms(1) len by (simp add: dashed_def)
  show "dashed h ! 8 = CHR ''-''" "dashed h ! 13 = CHR ''-''" "dashed h ! 18 = CHR ''-''" "dashed h ! 23 = CHR ''-''"
    "dashed h ! 14 = h ! 12" "dashed h ! 19 = h ! 16"
    using assms(1) len by (simp_all add: dashed_def nth_append nth_Cons') (simp_all add: slice_def)
qed

lemma hex_encode_nth: "n < length v \<Longrightarrow> hex_encode v ! (2 * n) = hex_digit (byte (v ! n) div 16)"
proof (induction v arbitrary: n)
  case (Cons c v)
  then show ?case by (cases n) (simp_all add: hex_encode_Cons)
qed simp

lemma stamp_version_nth:
  assumes "length value = 16"
  shows "length (stamp_version value) = 16"
    "stamp_version value ! 6 = set_bits 0x0f 0x40 (value ! 6)"
    "stamp_version value ! 8 = set_bits 0x3f 0x80 (value ! 8)"
  using assms by (simp_all add: stamp_version_def Let_def)

lemma newID_dashed: "newID (Some value) = Inr (dashed (hex_encode (stamp_version value)))"
  by (simp add: newID_def dashed_def Let_def)

lemma newID_Inr:
  assumes "newID random = Inr i"
  obtains v where "random = Some v" "i = dashed (hex_encode (stamp_version v))"
  using assms newID_dashed by (cases random) (simp_all add: newID_def)

subsection \<open>Properties\<close>

text \<open>An identifier is a version 4 UUID, and determines its bytes. For 16 random bytes it has 36
  characters: dashes at 8, 13, 18 and 23, the digit 4 for the version, one of 8, 9, a, b for the
  variant, and lower-case hexadecimal digits; without the dashes it is the encoding of the
  stamped bytes, and two identifiers are equal only if their stamped bytes are.\<close>

theorem newID_roundtrip:
  assumes "length value = 16" and "newID (Some value) = Inr i"
  shows "length i = 36 \<and> i ! 8 = CHR ''-'' \<and> i ! 13 = CHR ''-'' \<and> i ! 18 = CHR ''-'' \<and> i ! 23 = CHR ''-''
    \<and> i ! 14 = CHR ''4'' \<and> i ! 19 \<in> set ''89ab''
    \<and> filter (\<lambda>c. c \<noteq> CHR ''-'') i = hex_encode (stamp_version value)
    \<and> set (filter (\<lambda>c. c \<noteq> CHR ''-'') i) \<subseteq> set ''0123456789abcdef''
    \<and> (length value' = 16 \<and> newID (Some value') = Inr i \<longrightarrow> stamp_version value' = stamp_version value)"
proof -
  let ?h = "hex_encode (stamp_version value)"
  have plain: "CHR ''-'' \<notin> set (hex_encode v)" for v
    using hex_encode_digits [of v] by auto
  have len: "length (hex_encode (stamp_version v)) = 32" if "length v = 16" for v
    using stamp_version_nth(1) [OF that] by simp
  have i: "i = dashed ?h" using assms(2) by (simp add: newID_dashed)
  note d = dashed_back [OF len [OF assms(1)] plain, folded i]
  have "?h ! 12 = CHR ''4''"
    using hex_encode_nth [of 6 "stamp_version value"] stamp_version_nth [OF assms(1)]
    by (simp add: set_bits_high hex_digit_def)
  moreover have "?h ! 16 \<in> set ''89ab''"
    using hex_encode_nth [of 8 "stamp_version value"] stamp_version_nth [OF assms(1)]
      set_bits_high(2) [of "value ! 8"] by (auto simp: hex_digit_def)
  moreover have "stamp_version value' = stamp_version value"
    if "length value' = 16" "newID (Some value') = Inr i"
  proof -
    have "i = dashed (hex_encode (stamp_version value'))" using that(2) unfolding newID_dashed by simp
    then have "hex_encode (stamp_version value') = ?h"
      using d(1) dashed_back(1) [OF len [OF that(1)] plain] by metis
    then show ?thesis unfolding hex_encode_inj .
  qed
  ultimately show ?thesis
    using d(2-8) hex_encode_digits [of "stamp_version value"] unfolding d(1)
    by (intro conjI impI) (simp_all only: conj_imp_eq_imp_imp)
qed

theorem newID_roundtrip_witness:
  "\<exists>i. newID (Some (replicate 16 (CHR ''r''))) = Inr i \<and> length i = 36 \<and> i ! 14 = CHR ''4''"
proof -
  let ?v = "replicate 16 (CHR ''r'')"
  have "length ?v = 16" by simp
  then show ?thesis
    using newID_roundtrip [of ?v "dashed (hex_encode (stamp_version ?v))" ?v] newID_dashed [of ?v] by blast
qed

end
