(* ===== verification/Issuance.thy ===== *)
theory Issuance
  imports Identifiers
begin

section \<open>Authentication and issuing\<close>

text \<open>
  What the use cases establish before they write: who was authenticated, which expirations are
  accepted, and what a lease that is about to be stored has been checked against (\<open>prepared_root\<close>,
  \<open>prepared_delegation\<close>). Then the properties of single requests: authentication and its replay
  protection, the bounds of an expiration, and the round trip from the claims of an issued token
  back to the stored lease.
\<close>

subsection \<open>Reading a workload or a lease\<close>

lemma GetWorkloadByID_Inr:
  assumes "db_ok L s"
  shows "GetWorkloadByID L given s = Inr w \<longleftrightarrow>
    parse_uuid L given = Some (w_ID w) \<and> w \<in> set (db_workloads s)"
  using find_workload_iff [OF assms] by (auto simp: GetWorkloadByID_def select_workload_Inr)

lemma GetLeaseByID_Inr:
  assumes "db_ok L s"
  shows "GetLeaseByID L given s = Inr l \<longleftrightarrow> parse_uuid L given = Some (l_ID l) \<and> l \<in> set (db_leases s)"
  using find_lease_iff [OF assms] by (auto simp: GetLeaseByID_def select_lease_Inr)

subsection \<open>Authentication\<close>

definition accepted_key :: "Workload \<Rightarrow> instant \<Rightarrow> bytes \<Rightarrow> bool" where
  "accepted_key w at key \<longleftrightarrow>
    key = w_PublicKey w
    \<or> w_PreviousPublicKey w = Some key
      \<and> (case w_PreviousKeyExpiresAt w of None \<Rightarrow> False | Some t \<Rightarrow> at < t)"

lemma authenticatedWorkloadKey_Some:
  assumes "authenticatedWorkloadKey L w message signature at = Some thumbprint"
  obtains key where "accepted_key w at key" "ed25519_verify L key message signature"
    "JWKThumbprint L key = Inr thumbprint"
  using assms
  by (auto simp: authenticatedWorkloadKey_def accepted_key_def split: if_splits sum.splits option.splits)

lemma workloadAcceptsThumbprint_iff:
  "length thumbprint = 43 \<Longrightarrow> workloadAcceptsThumbprint L w thumbprint at \<longleftrightarrow>
   acceptedWorkloadKey L (w_PublicKey w) (w_PreviousPublicKey w) (w_PreviousKeyExpiresAt w) thumbprint at"
  by (simp add: workloadAcceptsThumbprint_def acceptedWorkloadKey_def)

lemma AuthenticateWorkload_Inr:
  assumes "AuthenticateWorkload L u env request s = (Inr w, s')"
  obtains stored thumbprint where
    "GetWorkloadByID L (aw_WorkloadID request) s = Inr stored" "w_DisabledAt stored = None"
    "authenticatedWorkloadKey L stored (aw_Message request) (aw_Signature request) (trunc_second (now env))
      = Some thumbprint"
    "w = stored\<lparr>w_AuthenticatedKeyThumbprint := thumbprint\<rparr>"
    "- uc_requestWindow u \<le> time_sub (trunc_second (now env)) (aw_Timestamp request)"
    "time_sub (trunc_second (now env)) (aw_Timestamp request) \<le> uc_requestWindow u"
    "validNonce (aw_Nonce request)"
    "ConsumeWorkloadNonce L (db_now env) (w_ID stored) (sha256 L (aw_Nonce request))
       (aw_Timestamp request + uc_requestWindow u) s = (Inr (), s')"
proof -
  obtain stored where stored: "GetWorkloadByID L (aw_WorkloadID request) s = Inr stored"
    using assms
    by (cases "GetWorkloadByID L (aw_WorkloadID request) s")
      (auto simp: AuthenticateWorkload_def Let_def split: if_splits)
  obtain thumbprint where t: "authenticatedWorkloadKey L stored (aw_Message request) (aw_Signature request)
      (trunc_second (now env)) = Some thumbprint"
    using assms stored
    by (cases "authenticatedWorkloadKey L stored (aw_Message request) (aw_Signature request) (trunc_second (now env))")
      (auto simp: AuthenticateWorkload_def Let_def split: if_splits)
  show thesis
    by (rule that [OF stored _ t])
      (use assms stored t in \<open>auto simp: AuthenticateWorkload_def Let_def split: if_splits prod.splits sum.splits\<close>)
qed

subsection \<open>Expirations\<close>

lemma lease_expiration_Inr:
  "lease_expiration u at explicit ttl = Inr e \<longleftrightarrow>
    (if is_zero_time explicit then 0 < ttl \<and> e = trunc_second (at + ttl)
     else ttl = 0 \<and> e = trunc_second explicit)
    \<and> at < e \<and> e \<le> at + uc_maxTTL u"
  by (auto simp: lease_expiration_def Let_def)

lemma pg_time_seconds: "second dvd t \<Longrightarrow> pg_time t = t"
proof -
  have "second = 1000 * 1000000" by (simp add: second_def)
  then show "second dvd t \<Longrightarrow> pg_time t = t"
    by (metis dvd_mult_left dvd_imp_mod_0 diff_zero pg_time_def)
qed

subsection \<open>What a prepared lease was checked against\<close>

text \<open>A root lease stays within the grant of a stored workload; a delegated lease attenuates a stored
  parent. Instants are whole seconds, as in the token.\<close>

definition whole_seconds :: "Lease \<Rightarrow> bool" where
  "whole_seconds lease \<longleftrightarrow> second dvd l_Expiration lease \<and> second dvd l_IssuedAt lease"

definition root_prepared :: "auth_lib \<Rightarrow> db \<Rightarrow> Lease \<Rightarrow> bool" where
  "root_prepared L s lease \<longleftrightarrow>
    l_ParentLeaseID lease = None \<and> l_UsesConsumed lease = 0 \<and> whole_seconds lease
    \<and> wf_context (unicode L) (lease_context lease)
    \<and> (\<exists>w \<in> set (db_workloads s). parse_uuid L (l_WorkloadID lease) = Some (w_ID w)
        \<and> wf_grant (unicode L) (grant_context (w_Grant w))
        \<and> within_grant (unicode L) (grant_context (w_Grant w)) (l_Audience lease)
            (lease_context lease) (l_IssuedAt lease))"

definition delegation_prepared :: "auth_lib \<Rightarrow> db \<Rightarrow> Lease \<Rightarrow> bool" where
  "delegation_prepared L s lease \<longleftrightarrow>
    l_UsesConsumed lease = 0 \<and> whole_seconds lease
    \<and> (\<exists>p \<in> set (db_leases s). l_ParentLeaseID lease = Some (l_ID p)
        \<and> l_Audience lease = l_Audience p
        \<and> attenuates (unicode L) (lease_context p) (lease_context lease))"

lemma lease_context_simps [simp]:
  "ac_Actions (lease_context l) = l_Actions l" "ac_Resources (lease_context l) = l_Resources l"
  "ac_Expiration (lease_context l) = l_Expiration l" "ac_Depth (lease_context l) = l_Depth l"
  "ac_MaxDepth (lease_context l) = l_MaxDepth l" "ac_MaxUses (lease_context l) = l_MaxUses l"
  "ac_Constraints (lease_context l) = l_Constraints l"
  by (simp_all add: lease_context_def)

lemma lease_context_same: "same_identity l k \<Longrightarrow> lease_context k = lease_context l"
  by (simp add: lease_context_def same_identity_def)

lemma prepare_root_Inr:
  assumes "prepare_root L u env request s = Inr lease"
  obtains w expiration i tokenID thumbprint where
    "GetWorkloadByID L (mr_WorkloadID request) s = Inr w" "w_DisabledAt w = None"
    "workloadAcceptsThumbprint L w (mr_AuthenticatedKeyThumbprint request) (trunc_second (now env))"
    "length (mr_AuthenticatedKeyThumbprint request) = 43"
    "lease_expiration u (trunc_second (now env)) (mr_Expiration request) (mr_TTL request) = Inr expiration"
    "newID (random1 env) = Inr i" "newID (random2 env) = Inr tokenID"
    "g_RequireProofOfPossession (w_Grant w) \<Longrightarrow> JWKThumbprint L (w_PublicKey w) = Inr thumbprint"
    "lease = \<lparr>l_ID = i, l_TokenID = tokenID, l_WorkloadID = mr_WorkloadID request,
           l_RootWorkloadID = mr_WorkloadID request, l_Audience = mr_Audience request,
           l_ParentLeaseID = None, l_RootLeaseID = i, l_DelegatedByWorkloadID = None,
           l_Actions = mr_Actions request, l_Resources = mr_Resources request,
           l_Expiration = expiration, l_Depth = 0, l_MaxDepth = mr_MaxDepth request, l_TokenHash = [],
           l_IssuedAt = trunc_second (now env), l_RevokedAt = None, l_GrantVersion = g_Version (w_Grant w),
           l_ConfirmationThumbprint = thumbprint, l_MaxUses = mr_MaxUses request, l_UsesConsumed = 0,
           l_Constraints = mr_Constraints request,
           l_AuthenticatedKeyThumbprint = mr_AuthenticatedKeyThumbprint request\<rparr>"
    "ValidateRoot (unicode L) (grant_context (w_Grant w)) (l_Audience lease) (lease_context lease)
       (l_IssuedAt lease) = Inr ()"
  using assms unfolding prepare_root_def Let_def case_error_Inr guard_Inr copyConstraints_def
proof (elim exE conjE)
  fix w e a v i t c
  assume w: "GetWorkloadByID L (mr_WorkloadID request) s = Inr w" "\<not> w_DisabledAt w \<noteq> None"
    "\<not> \<not> workloadAcceptsThumbprint L w (mr_AuthenticatedKeyThumbprint request) (trunc_second (now env))"
    and guards: "\<not> (mr_WorkloadID request = [] \<or> mr_Audience request = []
          \<or> trim_space (mr_Audience request) \<noteq> mr_Audience request \<or> length (mr_Audience request) > 256
          \<or> sint (mr_MaxDepth request) < 0 \<or> sint (mr_MaxDepth request) > maxDelegationDepth
          \<or> sint (mr_MaxUses request) < 0 \<or> sint (mr_MaxUses request) > 1000000
          \<or> length (mr_AuthenticatedKeyThumbprint request) \<noteq> 43)"
    and e: "lease_expiration u (trunc_second (now env)) (mr_Expiration request) (mr_TTL request) = Inr e"
    and v: "ValidateRoot (unicode L) (grant_context (w_Grant w)) (mr_Audience request)
         \<lparr>ac_Actions = mr_Actions request, ac_Resources = mr_Resources request,
          ac_Expiration = e, ac_Depth = 0, ac_MaxDepth = mr_MaxDepth request,
          ac_MaxUses = mr_MaxUses request, ac_Constraints = mr_Constraints request\<rparr>
         (trunc_second (now env)) = Inr v"
    and ids: "newID (random1 env) = Inr i" "newID (random2 env) = Inr t"
    and c: "(if mr_ProofOfPossession request \<or> g_RequireProofOfPossession (w_Grant w)
            then JWKThumbprint L (w_PublicKey w) else Inr []) = Inr c"
    and lease: "Inr \<lparr>l_ID = i, l_TokenID = t, l_WorkloadID = mr_WorkloadID request,
           l_RootWorkloadID = mr_WorkloadID request, l_Audience = mr_Audience request,
           l_ParentLeaseID = None, l_RootLeaseID = i, l_DelegatedByWorkloadID = None,
           l_Actions = mr_Actions request, l_Resources = mr_Resources request,
           l_Expiration = e, l_Depth = 0, l_MaxDepth = mr_MaxDepth request, l_TokenHash = [],
           l_IssuedAt = trunc_second (now env), l_RevokedAt = None,
           l_GrantVersion = g_Version (w_Grant w), l_ConfirmationThumbprint = c,
           l_MaxUses = mr_MaxUses request, l_UsesConsumed = 0, l_Constraints = mr_Constraints request,
           l_AuthenticatedKeyThumbprint = mr_AuthenticatedKeyThumbprint request\<rparr> = (Inr lease :: Lease result)"
  show thesis
    by (rule that [OF w(1) _ _ _ e ids, of c]) (use w guards v c lease in \<open>auto simp: lease_context_def\<close>)
qed

lemma check_delegation_Inr:
  assumes "check_delegation L u env request s = Inr p"
  obtains claims where "GetLeaseByID L (dl_ParentLeaseID request) s = Inr p" "l_RevokedAt p = None"
    "dl_DelegatingWorkloadID request = l_WorkloadID p" "trunc_second (now env) < l_Expiration p"
    "VerifyLeaseToken L (jwt_now env) (dl_ParentToken request) (uc_verificationKeys u) (uc_issuer u)
       (l_Audience p) (uc_clockSkew u) = Inr claims"
    "parentTokenMatches L p (dl_ParentToken request) claims"
    "l_ConfirmationThumbprint p \<noteq> [] \<Longrightarrow>
       l_ConfirmationThumbprint p = dl_AuthenticatedKeyThumbprint request"
    "length (dl_AuthenticatedKeyThumbprint request) = 43"
  using assms unfolding check_delegation_def Let_def case_error_Inr guard_Inr
proof (elim exE conjE)
  fix q claims
  assume guards: "\<not> (dl_ParentLeaseID request = [] \<or> dl_ParentToken request = []
        \<or> dl_DelegatingWorkloadID request = [] \<or> dl_DelegateToWorkloadID request = []
        \<or> sint (dl_MaxUses request) < 0 \<or> sint (dl_MaxUses request) > 1000000
        \<or> length (dl_AuthenticatedKeyThumbprint request) \<noteq> 43)"
    and q: "GetLeaseByID L (dl_ParentLeaseID request) s = Inr q" "\<not> l_RevokedAt q \<noteq> None"
      "\<not> dl_DelegatingWorkloadID request \<noteq> l_WorkloadID q"
      "\<not> \<not> l_Expiration q > trunc_second (now env)"
    and claims: "VerifyLeaseToken L (jwt_now env) (dl_ParentToken request) (uc_verificationKeys u)
       (uc_issuer u) (l_Audience q) (uc_clockSkew u) = Inr claims"
      "\<not> \<not> parentTokenMatches L q (dl_ParentToken request) claims"
    and c: "\<not> (l_ConfirmationThumbprint q \<noteq> []
            \<and> l_ConfirmationThumbprint q \<noteq> dl_AuthenticatedKeyThumbprint request)"
    and "Inr q = (Inr p :: Lease result)"
  then have "q = p" by simp
  show thesis
    by (rule that [of claims]) (use guards q claims c in \<open>auto simp: \<open>q = p\<close>\<close>)
qed

lemma prepare_delegated_Inr:
  assumes "prepare_delegated L u env request p s = Inr lease"
  obtains w e i t c where
    "GetWorkloadByID L (dl_DelegateToWorkloadID request) s = Inr w" "w_DisabledAt w = None"
    "lease_expiration u (trunc_second (now env)) (dl_Expiration request) (dl_TTL request) = Inr e"
    "newID (random1 env) = Inr i" "newID (random2 env) = Inr t"
    "l_ConfirmationThumbprint p \<noteq> [] \<Longrightarrow> JWKThumbprint L (w_PublicKey w) = Inr c"
    "lease = \<lparr>l_ID = i, l_TokenID = t, l_WorkloadID = w_ID w,
           l_RootWorkloadID = l_RootWorkloadID p, l_Audience = l_Audience p,
           l_ParentLeaseID = Some (l_ID p), l_RootLeaseID = l_RootLeaseID p,
           l_DelegatedByWorkloadID = Some (l_WorkloadID p), l_Actions = dl_Actions request,
           l_Resources = dl_Resources request, l_Expiration = e,
           l_Depth = l_Depth p + 1, l_MaxDepth = child_max_depth request p,
           l_TokenHash = [], l_IssuedAt = trunc_second (now env), l_RevokedAt = None,
           l_GrantVersion = l_GrantVersion p, l_ConfirmationThumbprint = c,
           l_MaxUses = dl_MaxUses request, l_UsesConsumed = 0,
           l_Constraints = dl_Constraints request,
           l_AuthenticatedKeyThumbprint = dl_AuthenticatedKeyThumbprint request\<rparr>"
    "Validate (unicode L) (lease_context p) (lease_context lease) = Inr ()"
  using assms unfolding prepare_delegated_def Let_def case_error_Inr guard_Inr copyConstraints_def
proof (elim exE conjE)
  fix w e v i t c
  assume w: "GetWorkloadByID L (dl_DelegateToWorkloadID request) s = Inr w" "\<not> w_DisabledAt w \<noteq> None"
    and e: "lease_expiration u (trunc_second (now env)) (dl_Expiration request) (dl_TTL request) = Inr e"
    and v: "Validate (unicode L) (lease_context p)
         \<lparr>ac_Actions = dl_Actions request, ac_Resources = dl_Resources request,
          ac_Expiration = e, ac_Depth = l_Depth p + 1,
          ac_MaxDepth = child_max_depth request p, ac_MaxUses = dl_MaxUses request,
          ac_Constraints = dl_Constraints request\<rparr> = Inr v"
    and ids: "newID (random1 env) = Inr i" "newID (random2 env) = Inr t"
    and c: "(if dl_ProofOfPossession request \<or> l_ConfirmationThumbprint p \<noteq> []
            then JWKThumbprint L (w_PublicKey w) else Inr []) = Inr c"
    and lease: "Inr \<lparr>l_ID = i, l_TokenID = t, l_WorkloadID = w_ID w,
           l_RootWorkloadID = l_RootWorkloadID p, l_Audience = l_Audience p,
           l_ParentLeaseID = Some (l_ID p), l_RootLeaseID = l_RootLeaseID p,
           l_DelegatedByWorkloadID = Some (l_WorkloadID p), l_Actions = dl_Actions request,
           l_Resources = dl_Resources request, l_Expiration = e,
           l_Depth = l_Depth p + 1, l_MaxDepth = child_max_depth request p,
           l_TokenHash = [], l_IssuedAt = trunc_second (now env), l_RevokedAt = None,
           l_GrantVersion = l_GrantVersion p, l_ConfirmationThumbprint = c,
           l_MaxUses = dl_MaxUses request, l_UsesConsumed = 0, l_Constraints = dl_Constraints request,
           l_AuthenticatedKeyThumbprint = dl_AuthenticatedKeyThumbprint request\<rparr> = (Inr lease :: Lease result)"
  show thesis
    by (rule that [OF w(1) _ e ids, of c]) (use w v c lease in \<open>auto simp: lease_context_def\<close>)
qed

lemma prepare_root_prepared:
  assumes "db_ok L s" "prepare_root L u env request s = Inr lease"
  shows "root_prepared L s lease"
  using assms(2)
proof (rule prepare_root_Inr)
  fix w e i t c
  assume w: "GetWorkloadByID L (mr_WorkloadID request) s = Inr w"
    and e: "lease_expiration u (trunc_second (now env)) (mr_Expiration request) (mr_TTL request) = Inr e"
    and lease: "lease = \<lparr>l_ID = i, l_TokenID = t, l_WorkloadID = mr_WorkloadID request,
           l_RootWorkloadID = mr_WorkloadID request, l_Audience = mr_Audience request,
           l_ParentLeaseID = None, l_RootLeaseID = i, l_DelegatedByWorkloadID = None,
           l_Actions = mr_Actions request, l_Resources = mr_Resources request,
           l_Expiration = e, l_Depth = 0, l_MaxDepth = mr_MaxDepth request, l_TokenHash = [],
           l_IssuedAt = trunc_second (now env), l_RevokedAt = None, l_GrantVersion = g_Version (w_Grant w),
           l_ConfirmationThumbprint = c, l_MaxUses = mr_MaxUses request, l_UsesConsumed = 0,
           l_Constraints = mr_Constraints request,
           l_AuthenticatedKeyThumbprint = mr_AuthenticatedKeyThumbprint request\<rparr>"
    and v: "ValidateRoot (unicode L) (grant_context (w_Grant w)) (l_Audience lease) (lease_context lease)
       (l_IssuedAt lease) = Inr ()"
  have "whole_seconds lease"
    using e by (auto simp: whole_seconds_def lease lease_expiration_Inr split: if_splits)
  moreover have "parse_uuid L (l_WorkloadID lease) = Some (w_ID w)" "w \<in> set (db_workloads s)"
    using w GetWorkloadByID_Inr [OF assms(1)] by (simp_all add: lease)
  moreover have "l_ParentLeaseID lease = None" "l_UsesConsumed lease = 0" by (simp_all add: lease)
  ultimately show ?thesis
    using v unfolding root_prepared_def ValidateRoot_ok by blast
qed

lemma prepare_delegated_prepared:
  assumes "prepare_delegated L u env request p s = Inr lease"
    and "k \<in> set (db_leases t)" "same_identity p k"
  shows "delegation_prepared L t lease"
  using assms(1)
proof (rule prepare_delegated_Inr)
  fix w e i tok c
  assume e: "lease_expiration u (trunc_second (now env)) (dl_Expiration request) (dl_TTL request) = Inr e"
    and lease: "lease = \<lparr>l_ID = i, l_TokenID = tok, l_WorkloadID = w_ID w,
           l_RootWorkloadID = l_RootWorkloadID p, l_Audience = l_Audience p,
           l_ParentLeaseID = Some (l_ID p), l_RootLeaseID = l_RootLeaseID p,
           l_DelegatedByWorkloadID = Some (l_WorkloadID p), l_Actions = dl_Actions request,
           l_Resources = dl_Resources request, l_Expiration = e,
           l_Depth = l_Depth p + 1, l_MaxDepth = child_max_depth request p,
           l_TokenHash = [], l_IssuedAt = trunc_second (now env), l_RevokedAt = None,
           l_GrantVersion = l_GrantVersion p, l_ConfirmationThumbprint = c,
           l_MaxUses = dl_MaxUses request, l_UsesConsumed = 0,
           l_Constraints = dl_Constraints request,
           l_AuthenticatedKeyThumbprint = dl_AuthenticatedKeyThumbprint request\<rparr>"
    and v: "Validate (unicode L) (lease_context p) (lease_context lease) = Inr ()"
  have "whole_seconds lease"
    using e by (auto simp: whole_seconds_def lease lease_expiration_Inr split: if_splits)
  moreover have "l_ID k = l_ID p" "l_Audience k = l_Audience p" "lease_context k = lease_context p"
    using assms(3) lease_context_same by (simp_all add: same_identity_def)
  moreover have "l_ParentLeaseID lease = Some (l_ID p)" "l_UsesConsumed lease = 0"
    "l_Audience lease = l_Audience p" by (simp_all add: lease)
  ultimately show ?thesis
    using v assms(2) unfolding delegation_prepared_def Validate_ok by metis
qed

subsection \<open>Issuing\<close>

lemma issue_Inr:
  assumes "issue L u env lease eventType actor s = (Inr il, s')"
  obtains token where "SignLeaseClaims L (lease_claims u lease) (uc_privateKey u) = Inr token"
    "il = \<lparr>il_Lease = lease\<lparr>l_TokenHash := sha256 L token\<rparr>, il_Token = token\<rparr>"
    "CreateLease L (ctx_request_id env) (lease\<lparr>l_TokenHash := sha256 L token\<rparr>)
       (issued_event (lease\<lparr>l_TokenHash := sha256 L token\<rparr>) eventType actor) s = (Inr (), s')"
proof -
  obtain token where "SignLeaseClaims L (lease_claims u lease) (uc_privateKey u) = Inr token"
    using assms by (cases "SignLeaseClaims L (lease_claims u lease) (uc_privateKey u)")
      (auto simp: issue_def split: if_splits)
  then show thesis
    using that assms by (auto simp: issue_def Let_def split: if_splits prod.splits sum.splits)
qed

text \<open>The row a lease is stored as has its authority.\<close>

lemma stored_authority:
  assumes "lease_row L lease = Some row" "whole_seconds lease"
  shows "lease_context row = lease_context lease" "l_Audience row = l_Audience lease"
    "l_IssuedAt row = l_IssuedAt lease" "l_UsesConsumed row = l_UsesConsumed lease"
  using lease_row_Some [OF assms(1)] assms(2)
  by (simp_all add: lease_context_def whole_seconds_def pg_time_seconds)

lemma issue_stored:
  assumes "issue L u env lease eventType actor s = (Inr il, s')"
  obtains token row e where "SignLeaseClaims L (lease_claims u lease) (uc_privateKey u) = Inr token"
    "il = \<lparr>il_Lease = lease\<lparr>l_TokenHash := sha256 L token\<rparr>, il_Token = token\<rparr>"
    "lease_row L (lease\<lparr>l_TokenHash := sha256 L token\<rparr>) = Some row"
    "s' = log_event e (s\<lparr>db_leases := db_leases s @ [row]\<rparr>)"
  using issue_Inr [OF assms] CreateLease_Inr by metis

text \<open>Identifiers the database answers as they were given.\<close>

definition canonical_ids :: "auth_lib \<Rightarrow> Lease \<Rightarrow> bool" where
  "canonical_ids L lease \<longleftrightarrow>
    list_all (is_uuid L) [l_ID lease, l_TokenID lease, l_WorkloadID lease, l_RootWorkloadID lease,
      l_RootLeaseID lease]
    \<and> (\<forall>i \<in> set_option (l_ParentLeaseID lease). is_uuid L i)
    \<and> (\<forall>i \<in> set_option (l_DelegatedByWorkloadID lease). is_uuid L i)"

lemma canonical_row:
  assumes "canonical_ids L lease" "lease_row L lease = Some row"
  shows "l_ID row = l_ID lease" "l_TokenID row = l_TokenID lease" "l_WorkloadID row = l_WorkloadID lease"
    "l_RootWorkloadID row = l_RootWorkloadID lease" "l_RootLeaseID row = l_RootLeaseID lease"
    "l_ParentLeaseID row = l_ParentLeaseID lease"
    "l_DelegatedByWorkloadID row = l_DelegatedByWorkloadID lease"
  using assms by (auto simp: canonical_ids_def is_uuid_def lease_row_def split: option.splits)

lemma sameStrings_refl [simp]: "sameStrings xs xs"
  by (simp add: sameStrings_def list_all_iff fset_of_list_elem)

subsection \<open>A concrete service\<close>

definition example_usecase :: LeaseUsecase where
  "example_usecase = \<lparr>uc_privateKey = replicate 64 (CHR ''p''),
     uc_verificationKeys = fmap_of_list [(''k'', replicate 32 (CHR ''p''))], uc_issuer = ''i'',
     uc_maxTTL = 24 * hour, uc_clockSkew = 0, uc_requestWindow = minute\<rparr>"

definition example_env :: "instant \<Rightarrow> call_env" where
  "example_env t = \<lparr>now = t, jwt_now = t, db_now = t, ctx_request_id = [],
     random1 = Some (replicate 16 (CHR ''r'')), random2 = Some (replicate 16 (CHR ''s''))\<rparr>"

definition example_auth :: AuthenticateWorkloadRequest where
  "example_auth = \<lparr>aw_WorkloadID = ''w1'', aw_Timestamp = minute, aw_Nonce = replicate 32 (CHR ''n''),
     aw_Message = ''m'', aw_Signature = replicate 64 (CHR ''s'')\<rparr>"

lemma ascii_replicate [simp]: "ascii (replicate n c) \<longleftrightarrow> n = 0 \<or> byte c < 0x80"
  by (auto simp: ascii_def list_all_iff)

lemma example_nonce: "validNonce (replicate 32 (CHR ''n''))"
  by (simp add: validNonce_def ascii_runes url_safe_rune_def list_all_iff)

abbreviation example_hash :: bytes where
  "example_hash \<equiv> sha256 example_lib (replicate 32 (CHR ''n''))"

lemma example_authenticated:
  assumes "minute \<le> trunc_second t" "trunc_second t \<le> 2 * minute"
    and "db_workloads s = db_workloads example_db"
    and "ConsumeWorkloadNonce example_lib t ''w1'' example_hash (2 * minute) s = (Inr (), s')"
  shows "AuthenticateWorkload example_lib example_usecase (example_env t) example_auth s
    = (Inr ((example_workload ''w1'' ''worker-one'' (CHR ''k''))
         \<lparr>w_AuthenticatedKeyThumbprint := example_thumbprint (CHR ''k'')\<rparr>), s')"
proof -
  have "minute \<noteq> zero_time" by (simp add: duration_defs zero_time_def)
  moreover have "authenticatedWorkloadKey example_lib (example_workload ''w1'' ''worker-one'' (CHR ''k'')) ''m''
      (replicate 64 (CHR ''s'')) at = Some (example_thumbprint (CHR ''k''))" for at
    by (simp add: authenticatedWorkloadKey_def PublicKeySize_def) (simp add: example_lib_def)
  moreover have "GetWorkloadByID example_lib ''w1'' s = Inr (example_workload ''w1'' ''worker-one'' (CHR ''k''))"
    using assms(3) by (simp add: GetWorkloadByID_def select_workload_def find_workload_def)
  moreover have "\<not> time_sub (trunc_second t) minute < - minute" "\<not> time_sub (trunc_second t) minute > minute"
    using assms(1,2) by (simp_all add: time_sub_def duration_defs)
  ultimately show ?thesis
    using assms(4) example_nonce
    by (simp add: AuthenticateWorkload_def example_auth_def example_env_def example_usecase_def
        is_zero_time_def SignatureSize_def)
qed

lemma example_hash_length: "length example_hash = 32"
  by (simp add: example_lib_def)

definition example_nonce_rows :: "nonce_row list" where
  "example_nonce_rows = [\<lparr>n_workload_id = ''w1'', n_nonce_hash = example_hash, n_expires_at = 2 * minute\<rparr>]"

lemma example_consumed:
  "ConsumeWorkloadNonce example_lib t ''w1'' example_hash (2 * minute) example_db
   = (Inr (), example_db\<lparr>db_workload_nonces := example_nonce_rows\<rparr>)"
  using example_hash_length
  by (simp add: ConsumeWorkloadNonce_def consume_workload_nonce_tx_def BeginFunc_def find_workload_def
      example_nonce_rows_def pg_time_def duration_defs)

lemma example_first_request:
  "AuthenticateWorkload example_lib example_usecase (example_env minute) example_auth example_db
   = (Inr ((example_workload ''w1'' ''worker-one'' (CHR ''k''))
         \<lparr>w_AuthenticatedKeyThumbprint := example_thumbprint (CHR ''k'')\<rparr>),
      example_db\<lparr>db_workload_nonces := example_nonce_rows\<rparr>)"
  by (rule example_authenticated [OF _ _ _ example_consumed]) (simp_all add: trunc_second_def duration_defs)


text \<open>A signing function that answers one token.\<close>

definition signing_lib :: auth_lib where
  "signing_lib = example_lib\<lparr>jwt_sign := (\<lambda>_ _ _. Inr (replicate 40 (CHR ''c'')))\<rparr>"

lemma signing_lib_simps [simp]:
  "unicode signing_lib = ascii_lib" "parse_uuid signing_lib = Some"
  "sha256 signing_lib (replicate 40 (CHR ''c'')) = replicate 32 (CHR ''c'')"
  "JWKThumbprint signing_lib k = JWKThumbprint example_lib k"
  by (simp_all add: signing_lib_def example_lib_def JWKThumbprint_def)

lemma signing_lib_digest: "digest_size signing_lib"
  by (auto simp: digest_size_def signing_lib_def example_lib_def)

lemma example_signed:
  assumes "jwt_sign L = (\<lambda>_ _ _. Inr (replicate 40 (CHR ''c'')))"
  shows "SignLeaseClaims L c (uc_privateKey example_usecase) = Inr (replicate 40 (CHR ''c''))"
  using assms by (simp add: SignLeaseClaims_def example_usecase_def PrivateKeySize_def)

lemma signing_lib_signs: "jwt_sign signing_lib = (\<lambda>_ _ _. Inr (replicate 40 (CHR ''c'')))"
  by (simp add: signing_lib_def)

lemma example_lease_hash [simp]:
  "example_lease_named i t\<lparr>l_TokenHash := replicate 32 (CHR ''c'')\<rparr> = example_lease_named i t"
  by (simp add: example_lease_named_def)

lemma example_issue:
  assumes L: "parse_uuid L = Some" "\<And>k. JWKThumbprint L k = JWKThumbprint example_lib k"
    "jwt_sign L = (\<lambda>_ _ _. Inr (replicate 40 (CHR ''c'')))"
    "sha256 L (replicate 40 (CHR ''c'')) = replicate 32 (CHR ''c'')"
    and ids: "i \<notin> {''r'', ''c'', []}" "t \<notin> {''tr'', ''tc'', []}"
  shows "\<exists>il s'. issue L example_usecase (example_env e) (example_lease_named i t\<lparr>l_TokenHash := h\<rparr>)
     ''lease.delegated'' ''w1'' example_db = (Inr il, s') \<and> l_ID (il_Lease il) = i"
proof -
  let ?lease = "example_lease_named i t"
  have "l_WorkloadID ?lease = ''w2''" "l_ID ?lease = i"
    "l_TokenID ?lease \<noteq> []" "l_RootLeaseID ?lease \<noteq> []" "l_RootWorkloadID ?lease \<noteq> []"
    using ids by (simp_all add: example_lease_named_def example_child_row_def)
  moreover have "CreateLease L [] ?lease (issued_event ?lease ''lease.delegated'' ''w1'') example_db
     = (Inr (), log_event (issued_event ?lease ''lease.delegated'' ''w1''\<lparr>e_ID := 1,
         e_OccurredAt := pg_time (l_IssuedAt ?lease)\<rparr>)
       (example_db\<lparr>db_leases := [example_root_row, example_child_row, example_row_named i t]\<rparr>))"
    using example_created [OF L(1,2), of i t "issued_event ?lease ''lease.delegated'' ''w1''"] ids
    by (simp add: issued_event_def pg_text_def example_lease_named_def example_child_row_def)
  ultimately show ?thesis
    using ids(1) example_signed [OF L(3)] L(4) by (simp add: issue_def example_env_def Let_def)
qed

subsection \<open>Properties\<close>

text \<open>C30: only the holder of an accepted key authenticates. A request that authenticates names an
  enabled workload, carries a signature over its message that verifies under the current key or
  under the previous key before it expires, was made within the window around the clock, and its
  nonce was unused or expired; the answer is that workload with the thumbprint of the key, and
  nothing but the nonce, now recorded until the end of the window, changes.\<close>

theorem AuthenticateWorkload_sound:
  assumes "db_ok L s" and "0 < uc_requestWindow u" and "uc_requestWindow u \<le> 5 * minute"
    and "AuthenticateWorkload L u env request s = (Inr w, s')"
  shows "\<exists>stored key thumbprint. stored \<in> set (db_workloads s)
    \<and> parse_uuid L (aw_WorkloadID request) = Some (w_ID stored) \<and> w_DisabledAt stored = None
    \<and> accepted_key stored (trunc_second (now env)) key
    \<and> ed25519_verify L key (aw_Message request) (aw_Signature request)
    \<and> JWKThumbprint L key = Inr thumbprint
    \<and> w = stored\<lparr>w_AuthenticatedKeyThumbprint := thumbprint\<rparr>
    \<and> \<bar>trunc_second (now env) - aw_Timestamp request\<bar> \<le> uc_requestWindow u
    \<and> (\<forall>n. find (nonce_matches (w_ID stored) (sha256 L (aw_Nonce request))) (db_workload_nonces s) = Some n
         \<longrightarrow> n_expires_at n \<le> db_now env)
    \<and> (\<exists>nonces. s' = s\<lparr>db_workload_nonces := nonces\<rparr>
         \<and> find (nonce_matches (w_ID stored) (sha256 L (aw_Nonce request))) nonces
           = Some \<lparr>n_workload_id = w_ID stored, n_nonce_hash = sha256 L (aw_Nonce request),
               n_expires_at = pg_time (aw_Timestamp request + uc_requestWindow u)\<rparr>)"
  using assms(4)
proof (rule AuthenticateWorkload_Inr)
  fix stored thumbprint
  assume stored: "GetWorkloadByID L (aw_WorkloadID request) s = Inr stored" "w_DisabledAt stored = None"
    and auth: "authenticatedWorkloadKey L stored (aw_Message request) (aw_Signature request)
      (trunc_second (now env)) = Some thumbprint"
    and w: "w = stored\<lparr>w_AuthenticatedKeyThumbprint := thumbprint\<rparr>"
    and window: "- uc_requestWindow u \<le> time_sub (trunc_second (now env)) (aw_Timestamp request)"
      "time_sub (trunc_second (now env)) (aw_Timestamp request) \<le> uc_requestWindow u"
    and nonce: "ConsumeWorkloadNonce L (db_now env) (w_ID stored) (sha256 L (aw_Nonce request))
       (aw_Timestamp request + uc_requestWindow u) s = (Inr (), s')"
  obtain key where key: "accepted_key stored (trunc_second (now env)) key"
    "ed25519_verify L key (aw_Message request) (aw_Signature request)" "JWKThumbprint L key = Inr thumbprint"
    by (rule authenticatedWorkloadKey_Some [OF auth])
  have row: "parse_uuid L (aw_WorkloadID request) = Some (w_ID stored)" "stored \<in> set (db_workloads s)"
    using stored(1) GetWorkloadByID_Inr [OF assms(1)] by simp_all
  have "is_uuid L (w_ID stored)"
    using assms(1) row(2) by (auto simp: db_ok_def workloads_ok_def list_all_iff)
  have "\<bar>trunc_second (now env) - aw_Timestamp request\<bar> \<le> uc_requestWindow u"
    using window assms(2,3) time_sub_le_iff [of "uc_requestWindow u"] time_sub_ge_iff [of "- uc_requestWindow u"]
    by (simp add: duration_defs abs_le_iff)
  moreover obtain nonces where "s' = s\<lparr>db_workload_nonces := nonces\<rparr>"
    "find (nonce_matches (w_ID stored) (sha256 L (aw_Nonce request))) nonces
       = Some \<lparr>n_workload_id = w_ID stored, n_nonce_hash = sha256 L (aw_Nonce request),
           n_expires_at = pg_time (aw_Timestamp request + uc_requestWindow u)\<rparr>"
    "\<forall>n. find (nonce_matches (w_ID stored) (sha256 L (aw_Nonce request))) (db_workload_nonces s) = Some n
         \<longrightarrow> n_expires_at n \<le> db_now env"
    using nonce \<open>is_uuid L (w_ID stored)\<close>
    by (auto simp: ConsumeWorkloadNonce_def BeginFunc_Inr is_uuid_def elim!: consume_nonce_Inr)
  ultimately show ?thesis
    using row stored(2) key w by blast
qed

theorem AuthenticateWorkload_sound_witness:
  "\<exists>stored key. accepted_key stored minute key
     \<and> ed25519_verify example_lib key (aw_Message example_auth) (aw_Signature example_auth)"
  using AuthenticateWorkload_sound [OF _ _ _ example_first_request] example_store_ok
  by (auto simp: store_ok_def example_usecase_def duration_defs trunc_second_def example_env_def)

text \<open>The expiration of a lease is bounded. An accepted expiration is a whole second, later than
  now and at most \<open>MaxTTL\<close> later; it comes from exactly one of an explicit instant and a
  duration, rounded down by less than a second.\<close>

theorem lease_expiration_bounds:
  assumes "lease_expiration u at explicit ttl = Inr e"
  shows "second dvd e \<and> at < e \<and> e \<le> at + uc_maxTTL u
    \<and> (if is_zero_time explicit then 0 < ttl \<and> e \<le> at + ttl \<and> at + ttl < e + second
       else ttl = 0 \<and> e \<le> explicit \<and> explicit < e + second)"
  using assms trunc_second_le trunc_second_gt
  by (auto simp: lease_expiration_Inr split: if_splits)

theorem lease_expiration_bounds_witness:
  "\<exists>e. lease_expiration example_usecase 0 zero_time minute = Inr e \<and> second dvd e \<and> e \<le> minute"
proof -
  have "lease_expiration example_usecase 0 zero_time minute = Inr minute"
    by (simp add: lease_expiration_Inr is_zero_time_def example_usecase_def trunc_second_def duration_defs)
  then show ?thesis
    using lease_expiration_bounds [of example_usecase 0 zero_time minute minute]
    by (auto simp: is_zero_time_def)
qed

text \<open>The token of an issued lease is recognised. When \<open>issue\<close> succeeds for a lease with
  identifiers the database answers as given, the stored row and the claims that were signed
  match: presenting the token again, the checks \<open>parentTokenMatches\<close> makes of these claims against
  the row all pass.\<close>

theorem issued_token_matches:
  assumes "digest_size L" and "canonical_ids L lease" and "whole_seconds lease"
    and "Valid (unicode L) (l_Constraints lease)"
    and "issue L u env lease eventType actor s = (Inr il, s')"
  shows "\<exists>row. db_leases s' = db_leases s @ [row] \<and> l_ID row = l_ID (il_Lease il)
    \<and> parentTokenMatches L row (il_Token il) (lease_claims u lease)"
  using assms(5)
proof (rule issue_stored)
  fix token row e
  let ?hashed = "lease\<lparr>l_TokenHash := sha256 L token\<rparr>"
  assume il: "il = \<lparr>il_Lease = ?hashed, il_Token = token\<rparr>" and row: "lease_row L ?hashed = Some row"
    and s': "s' = log_event e (s\<lparr>db_leases := db_leases s @ [row]\<rparr>)"
  have "canonical_ids L ?hashed" "whole_seconds ?hashed"
    using assms(2,3) by (simp_all add: canonical_ids_def whole_seconds_def)
  note ids = canonical_row [OF this(1) row] and auth = stored_authority [OF row this(2)]
  have ctx: "l_Actions row = l_Actions lease" "l_Resources row = l_Resources lease"
    "l_Expiration row = l_Expiration lease" "l_Depth row = l_Depth lease" "l_MaxDepth row = l_MaxDepth lease"
    "l_MaxUses row = l_MaxUses lease" "l_Constraints row = l_Constraints lease"
    using auth(1) by (simp_all add: lease_context_def)
  have "NumericDate (l_Expiration lease) = l_Expiration lease"
    using assms(3) by (simp add: NumericDate_def whole_seconds_def trunc_second_id)
  moreover have "Equal (unicode L) (l_Constraints lease) (l_Constraints lease)"
    using assms(4) by (simp add: Equal_iff)
  moreover have "l_TokenHash row = sha256 L token" "l_ConfirmationThumbprint row = l_ConfirmationThumbprint lease"
    using lease_row_Some [OF row] by simp_all
  ultimately have "parentTokenMatches L row token (lease_claims u lease)"
    using ids ctx assms(1)
    by (simp add: parentTokenMatches_def Let_def lease_claims_def claimConfirmation_def parentID_def
        delegatedByID_def copyConstraints_def digest_size_def)
  then show ?thesis using il s' ids(1) by simp
qed

theorem issued_token_matches_witness:
  "\<exists>row. l_ID row = ''n'' \<and> parentTokenMatches signing_lib row (replicate 40 (CHR ''c''))
     (lease_claims example_usecase example_new_lease)"
proof -
  obtain il s' where issued: "issue signing_lib example_usecase (example_env 0) example_new_lease
      ''lease.delegated'' ''w1'' example_db = (Inr il, s')" "l_ID (il_Lease il) = ''n''"
    using example_issue [OF _ _ signing_lib_signs, of "''n''" "''tn''" 0 "replicate 32 (CHR ''c'')"]
    by auto
  have "il_Token il = replicate 40 (CHR ''c'')"
    using issue_Inr [OF issued(1)] example_signed [OF signing_lib_signs] by fastforce
  moreover have "canonical_ids signing_lib example_new_lease" "whole_seconds example_new_lease"
    "Valid (unicode signing_lib) (l_Constraints example_new_lease)"
    using example_valid_constraints
    by (simp_all add: canonical_ids_def is_uuid_def whole_seconds_def example_lease_named_def
        example_child_row_def duration_defs)
  ultimately show ?thesis
    using issued_token_matches [OF signing_lib_digest _ _ _ issued(1)] issued(2) by auto
qed

end
