(* ===== verification/System.thy ===== *)
theory System
  imports Issuance
begin

section \<open>The service as a whole\<close>

text \<open>
  A request of the service is one of \<open>service_op\<close>; \<open>serve\<close> runs it, in one piece, and says whether
  it succeeded. The service refines the store: every request is at most one operation of the
  repository, and a request that fails changes nothing. So it follows the contract
  \<open>guarded_store\<close> too.

  Requests do run at the same time. \<open>service_step\<close> splits the issuing of a lease at its reads:
  between the moment a grant or a parent was read and the moment the lease is stored any other
  request may run. The invariant of this system is the authority of every stored lease: a root
  lease stays within the grant of its workload, a delegated lease attenuates its parent.
\<close>

subsection \<open>Requests\<close>

datatype service_op =
    SRegister RegisterWorkloadRequest
  | SAuthenticate AuthenticateWorkloadRequest
  | SDisable bytes bytes
  | SRotate RotateWorkloadKeyRequest
  | SMint MintRootLeaseRequest
  | SDelegate DelegateLeaseRequest
  | SRevoke RevokeLeaseRequest
  | SConsume ConsumeLeaseRequest

fun serve :: "auth_lib \<Rightarrow> LeaseUsecase \<Rightarrow> call_env \<Rightarrow> service_op \<Rightarrow> db \<Rightarrow> bool \<times> db" where
  "serve L u env (SRegister r) s = apfst ok (RegisterWorkload L u env r s)"
| "serve L u env (SAuthenticate r) s = apfst ok (AuthenticateWorkload L u env r s)"
| "serve L u env (SDisable i actor) s = apfst ok (DisableWorkloadCase L env i actor s)"
| "serve L u env (SRotate r) s = apfst ok (RotateWorkloadKeyCase L env r s)"
| "serve L u env (SMint r) s = apfst ok (MintRootLease L u env r s)"
| "serve L u env (SDelegate r) s = apfst ok (DelegateLease L u env r s)"
| "serve L u env (SRevoke r) s = apfst ok (RevokeLease L env r s)"
| "serve L u env (SConsume r) s = apfst ok (ConsumeLease L u env r s)"

lemma BeginFunc_atomic: "\<not> ok (fst (BeginFunc f s)) \<Longrightarrow> snd (BeginFunc f s) = s"
  by (auto simp: BeginFunc_def split: sum.splits prod.splits)

definition refines :: "auth_lib \<Rightarrow> db \<Rightarrow> 'a result \<times> db \<Rightarrow> bool" where
  "refines L s r \<longleftrightarrow>
    (\<not> ok (fst r) \<longrightarrow> snd r = s)
    \<and> (\<exists>ops. list_all op_ok ops \<and> length ops \<le> 1 \<and> snd r = fold (run_op L) ops s)"

lemma refines_fail [intro]: "refines L s (Inl e, s)"
  by (auto simp: refines_def intro: exI [of _ "[]"])

lemma refines_op:
  assumes "op_ok op" "snd r = run_op L op s" "\<exists>f. r = BeginFunc f s"
  shows "refines L s r"
proof -
  obtain f where f: "r = BeginFunc f s" using assms(3) by blast
  have "\<not> ok (fst r) \<longrightarrow> snd r = s" unfolding f using BeginFunc_atomic by blast
  moreover have "list_all op_ok [op] \<and> length [op] \<le> 1 \<and> snd r = fold (run_op L) [op] s"
    using assms(1,2) by simp
  ultimately show ?thesis unfolding refines_def by blast
qed

lemma refines_result:
  "refines L s r \<Longrightarrow> r = (Inl e, t) \<Longrightarrow> refines L s (Inl e', t)"
  "refines L s r \<Longrightarrow> r = (Inr x, t) \<Longrightarrow> refines L s (Inr y, t)"
  unfolding refines_def by auto

lemma repo_refines:
  "refines L s (CreateWorkload L ctx w e s)" "refines L s (RotateWorkloadKey L ctx rk t s)"
  "refines L s (ConsumeWorkloadNonce L d i h x s)" "refines L s (DisableWorkload L ctx i actor t s)"
  "l_UsesConsumed l = 0 \<Longrightarrow> refines L s (CreateLease L ctx l e s)"
  "refines L s (ConsumeLeaseUse L i h key t s)" "refines L s (RevokeLeaseLineage L ctx i actor t s)"
proof -
  note op = refines_op
  show "refines L s (CreateWorkload L ctx w e s)"
    by (rule op [of "OpCreateWorkload ctx w e"]) (auto simp: op_ok_def CreateWorkload_def)
  show "refines L s (RotateWorkloadKey L ctx rk t s)"
    by (rule op [of "OpRotateWorkloadKey ctx rk t"]) (auto simp: op_ok_def RotateWorkloadKey_def)
  show "refines L s (ConsumeWorkloadNonce L d i h x s)"
    by (rule op [of "OpConsumeWorkloadNonce d i h x"]) (auto simp: op_ok_def ConsumeWorkloadNonce_def)
  show "refines L s (DisableWorkload L ctx i actor t s)"
    by (rule op [of "OpDisableWorkload ctx i actor t"]) (auto simp: op_ok_def DisableWorkload_def)
  show "refines L s (CreateLease L ctx l e s)" if "l_UsesConsumed l = 0"
    by (rule op [of "OpCreateLease ctx l e"]) (use that in \<open>auto simp: op_ok_def CreateLease_def\<close>)
  show "refines L s (ConsumeLeaseUse L i h key t s)"
    by (rule op [of "OpConsumeLeaseUse i h key t"]) (auto simp: op_ok_def ConsumeLeaseUse_def)
  show "refines L s (RevokeLeaseLineage L ctx i actor t s)"
    by (rule op [of "OpRevokeLeaseLineage ctx i actor t"]) (auto simp: op_ok_def RevokeLeaseLineage_def)
qed

lemma issue_refines:
  assumes "l_UsesConsumed lease = 0"
  shows "refines L s (issue L u env lease eventType actor s)"
proof (cases "SignLeaseClaims L (lease_claims u lease) (uc_privateKey u)")
  case (Inr token)
  let ?hashed = "lease\<lparr>l_TokenHash := sha256 L token\<rparr>"
  have "refines L s (CreateLease L (ctx_request_id env) ?hashed (issued_event ?hashed eventType actor) s)"
    using assms by (intro repo_refines) simp
  then show ?thesis
    by (auto simp: issue_def Let_def Inr split: prod.splits sum.splits intro: refines_result)
qed (auto simp: issue_def)

lemma MintRootLease_refines: "refines L s (MintRootLease L u env r s)"
  by (auto simp: MintRootLease_def split: sum.splits intro!: issue_refines elim!: prepare_root_Inr)

lemma DelegateLease_refines: "refines L s (DelegateLease L u env r s)"
  by (auto simp: DelegateLease_def split: sum.splits intro!: issue_refines elim!: prepare_delegated_Inr)

lemma RegisterWorkload_refines: "refines L s (RegisterWorkload L u env r s)"
  by (auto simp: RegisterWorkload_def Let_def split: prod.splits sum.splits
      intro: refines_result [OF repo_refines(1)])

lemma AuthenticateWorkload_refines: "refines L s (AuthenticateWorkload L u env r s)"
  by (auto simp: AuthenticateWorkload_def Let_def split: prod.splits sum.splits option.splits
      intro: refines_result [OF repo_refines(3)])

lemma ConsumeLease_refines: "refines L s (ConsumeLease L u env r s)"
  using repo_refines(6) by (auto simp: ConsumeLease_def Let_def split: sum.splits)

lemma serve_refines:
  "(\<not> fst (serve L u env op s) \<longrightarrow> snd (serve L u env op s) = s)
   \<and> (\<exists>ops. list_all op_ok ops \<and> length ops \<le> 1 \<and> snd (serve L u env op s) = fold (run_op L) ops s)"
proof -
  have fold_refines: "refines L s r \<Longrightarrow> (\<not> fst (apfst ok r) \<longrightarrow> snd (apfst ok r) = s)
     \<and> (\<exists>ops. list_all op_ok ops \<and> length ops \<le> 1 \<and> snd (apfst ok r) = fold (run_op L) ops s)"
    for r :: "'c result \<times> db"
    by (simp add: refines_def)
  show ?thesis
  proof (cases op)
    case (SRegister r)
    show ?thesis unfolding SRegister serve.simps by (rule fold_refines [OF RegisterWorkload_refines])
  next
    case (SAuthenticate r)
    show ?thesis unfolding SAuthenticate serve.simps by (rule fold_refines [OF AuthenticateWorkload_refines])
  next
    case (SDisable i actor)
    have "refines L s (DisableWorkloadCase L env i actor s)"
      by (auto simp: DisableWorkloadCase_def intro: repo_refines)
    then show ?thesis unfolding SDisable serve.simps by (rule fold_refines)
  next
    case (SRotate r)
    have "refines L s (RotateWorkloadKeyCase L env r s)"
      by (auto simp: RotateWorkloadKeyCase_def intro: repo_refines)
    then show ?thesis unfolding SRotate serve.simps by (rule fold_refines)
  next
    case (SMint r)
    show ?thesis unfolding SMint serve.simps by (rule fold_refines [OF MintRootLease_refines])
  next
    case (SDelegate r)
    show ?thesis unfolding SDelegate serve.simps by (rule fold_refines [OF DelegateLease_refines])
  next
    case (SRevoke r)
    have "refines L s (RevokeLease L env r s)"
      by (auto simp: RevokeLease_def intro: repo_refines)
    then show ?thesis unfolding SRevoke serve.simps by (rule fold_refines)
  next
    case (SConsume r)
    show ?thesis unfolding SConsume serve.simps by (rule fold_refines [OF ConsumeLease_refines])
  qed
qed

definition run_service :: "auth_lib \<Rightarrow> LeaseUsecase \<Rightarrow> call_env \<times> service_op \<Rightarrow> db \<Rightarrow> db" where
  "run_service L u eop s = snd (serve L u (fst eop) (snd eop) s)"

interpretation service: guarded_store "store_ok L" db_extends "\<lambda>_. True" "run_service L u" for L u
proof
  show "store_ok L (run_service L u eop s)" "db_extends s (run_service L u eop s)" if "store_ok L s" for s eop
  proof -
    obtain ops where "list_all op_ok ops" "run_service L u eop s = fold (run_op L) ops s"
      using serve_refines unfolding run_service_def by blast
    then show "store_ok L (run_service L u eop s)" "db_extends s (run_service L u eop s)"
      using that pg.fold_inv [of L s ops] pg.fold_extends [of L s ops] by simp_all
  qed
qed (auto intro: db_extends_trans)

subsection \<open>Authority of the stored leases\<close>

definition root_authority :: "auth_lib \<Rightarrow> Workload list \<Rightarrow> Lease \<Rightarrow> bool" where
  "root_authority L ws l \<longleftrightarrow>
    (\<exists>w \<in> set ws. w_ID w = l_WorkloadID l \<and> wf_grant (unicode L) (grant_context (w_Grant w))
      \<and> within_grant (unicode L) (grant_context (w_Grant w)) (l_Audience l) (lease_context l) (l_IssuedAt l))"

definition delegated_authority :: "auth_lib \<Rightarrow> Lease list \<Rightarrow> bytes \<Rightarrow> Lease \<Rightarrow> bool" where
  "delegated_authority L rows i l \<longleftrightarrow>
    (\<exists>p \<in> set rows. l_ID p = i \<and> l_Audience p = l_Audience l
      \<and> attenuates (unicode L) (lease_context p) (lease_context l))"

definition authorised :: "auth_lib \<Rightarrow> db \<Rightarrow> Lease \<Rightarrow> bool" where
  "authorised L s l \<longleftrightarrow>
    wf_context (unicode L) (lease_context l)
    \<and> (case l_ParentLeaseID l of
         None \<Rightarrow> root_authority L (db_workloads s) l
       | Some i \<Rightarrow> delegated_authority L (db_leases s) i l)"

definition authority_ok :: "auth_lib \<Rightarrow> db \<Rightarrow> bool" where
  "authority_ok L s \<longleftrightarrow> (\<forall>l \<in> set (db_leases s). authorised L s l)"

lemma authority_ok_unicode: "unicode L = unicode K \<Longrightarrow> authority_ok K s \<Longrightarrow> authority_ok L s"
proof -
  assume "unicode L = unicode K" "authority_ok K s"
  moreover from this(1) have "root_authority L = root_authority K" "delegated_authority L = delegated_authority K"
    by (simp_all add: fun_eq_iff root_authority_def delegated_authority_def)
  ultimately have "authorised L s l = authorised K s l" for l
    unfolding authorised_def by (simp split: option.split)
  then show "authority_ok L s" using \<open>authority_ok K s\<close> by (simp add: authority_ok_def)
qed

lemma authorised_later:
  assumes "authorised L s l" "db_extends s t" "same_identity l k"
  shows "authorised L t k"
proof -
  note ctx = lease_context_same [OF assms(3)]
  have id: "l_ParentLeaseID k = l_ParentLeaseID l" "l_WorkloadID k = l_WorkloadID l"
    "l_Audience k = l_Audience l" "l_IssuedAt k = l_IssuedAt l"
    using assms(3) by (simp_all add: same_identity_def)
  have "root_authority L (db_workloads t) k" if root: "root_authority L (db_workloads s) l"
  proof -
    obtain w where w: "w \<in> set (db_workloads s)" "w_ID w = l_WorkloadID l"
      "wf_grant (unicode L) (grant_context (w_Grant w))"
      "within_grant (unicode L) (grant_context (w_Grant w)) (l_Audience l) (lease_context l) (l_IssuedAt l)"
      using root by (auto simp: root_authority_def)
    obtain v where "v \<in> set (db_workloads t)" "workload_evolves w v"
      using db_extends_workload [OF assms(2) w(1)] .
    then show ?thesis
      using w(2-) id unfolding root_authority_def workload_evolves_def ctx by metis
  qed
  moreover have "delegated_authority L (db_leases t) i k" if deleg: "delegated_authority L (db_leases s) i l" for i
  proof -
    obtain p where p: "p \<in> set (db_leases s)" "l_ID p = i" "l_Audience p = l_Audience l"
      "attenuates (unicode L) (lease_context p) (lease_context l)"
      using deleg by (auto simp: delegated_authority_def)
    obtain q where q: "q \<in> set (db_leases t)" "lease_evolves p q"
      using db_extends_lease [OF assms(2) p(1)] .
    then have "same_identity p q" by (simp add: lease_evolves_def)
    then show ?thesis
      using p(2-) q(1) id(3) lease_context_same [of p q] unfolding delegated_authority_def ctx same_identity_def
      by metis
  qed
  ultimately show ?thesis
    using assms(1) id(1) ctx by (auto simp: authorised_def split: option.splits)
qed

text \<open>Only \<open>CreateLease\<close> adds rows to the table of leases.\<close>

lemma other_ops_leases:
  assumes "\<And>ctx l e. op \<noteq> OpCreateLease ctx l e"
  shows "length (db_leases (run_op L op s)) = length (db_leases s)"
proof -
  have ev: "insertAuditEvent L ctx e s1 = Inr (u, t) \<Longrightarrow> db_leases t = db_leases s1"
    for ctx e s1 u t by (elim insertAuditEvent_Inr) simp
  show ?thesis
  proof (cases op)
    case (OpCreateWorkload ctx w e)
    then show ?thesis
      by (auto simp: CreateWorkload_def BeginFunc_def create_workload_tx_def split: sum.splits
          elim!: insert_workload_Inr dest!: ev)
  next
    case (OpRotateWorkloadKey ctx r t)
    then show ?thesis
      by (auto simp: RotateWorkloadKey_def BeginFunc_def split: sum.splits
          elim!: rotate_workload_key_Inr dest!: ev)
  next
    case (OpConsumeWorkloadNonce d i h e)
    then show ?thesis
      by (auto simp: ConsumeWorkloadNonce_def BeginFunc_def split: sum.splits elim!: consume_nonce_Inr)
  next
    case (OpDisableWorkload ctx i actor t)
    then show ?thesis
      by (auto simp: DisableWorkload_def BeginFunc_def split: sum.splits
          elim!: disable_workload_Inr dest!: ev)
  next
    case (OpConsumeLeaseUse i h key t)
    then show ?thesis
      by (auto simp: ConsumeLeaseUse_def BeginFunc_def insert_consumption_Inr update_uses_def
          split: sum.splits elim!: consume_lease_use_Inr)
  next
    case (OpRevokeLeaseLineage ctx i actor t)
    then show ?thesis
      by (auto simp: RevokeLeaseLineage_def BeginFunc_def revoke_lease_lineage_tx_def Let_def
          revoke_rows_def split: sum.splits option.splits if_splits dest!: ev)
  qed (use assms in blast)
qed

lemma grows_same_length:
  assumes "grows R xs ys" "length ys = length xs" "y \<in> set ys"
  obtains x where "x \<in> set xs" "R x y"
proof -
  obtain zs new where zs: "ys = zs @ new" "list_all2 R xs zs" using assms(1) by (auto simp: grows_def)
  then have "length zs = length xs" by (simp add: list_all2_lengthD)
  then have "new = []" using zs(1) assms(2) by simp
  then have "list_all2 R xs ys" using zs by simp
  with assms(3) show thesis using that by (metis in_set_conv_nth list_all2_conv_all_nth)
qed

lemma same_leases_authority:
  assumes "authority_ok L s" "db_extends s t" "length (db_leases t) = length (db_leases s)"
  shows "authority_ok L t"
  unfolding authority_ok_def
proof
  fix k assume k: "k \<in> set (db_leases t)"
  have "grows lease_evolves (db_leases s) (db_leases t)" using assms(2) by (simp add: db_extends_def)
  then obtain l where "l \<in> set (db_leases s)" "lease_evolves l k"
    by (rule grows_same_length [OF _ assms(3) k])
  then show "authorised L t k"
    using assms(1) authorised_later [OF _ assms(2)] by (auto simp: authority_ok_def lease_evolves_def)
qed

lemma repo_lease_count [row_simps]:
  "length (db_leases (snd (CreateWorkload L ctx w e s))) = length (db_leases s)"
  "length (db_leases (snd (RotateWorkloadKey L ctx rk t s))) = length (db_leases s)"
  "length (db_leases (snd (ConsumeWorkloadNonce L d i h x s))) = length (db_leases s)"
  "length (db_leases (snd (DisableWorkload L ctx i actor t s))) = length (db_leases s)"
  "length (db_leases (snd (ConsumeLeaseUse L i h key t s))) = length (db_leases s)"
  "length (db_leases (snd (RevokeLeaseLineage L ctx i actor t s))) = length (db_leases s)"
  using other_ops_leases [of "OpCreateWorkload ctx w e"] other_ops_leases [of "OpRotateWorkloadKey ctx rk t"]
    other_ops_leases [of "OpConsumeWorkloadNonce d i h x"] other_ops_leases [of "OpDisableWorkload ctx i actor t"]
    other_ops_leases [of "OpConsumeLeaseUse i h key t"] other_ops_leases [of "OpRevokeLeaseLineage ctx i actor t"]
  by simp_all

subsection \<open>Preparing and storing a lease\<close>

text \<open>What was checked when a lease was prepared still holds when it is stored: grants and the
  authority of stored leases do not change.\<close>

lemma root_prepared_later:
  assumes "root_prepared L s lease" "db_extends s t"
  shows "root_prepared L t lease"
proof -
  obtain w where w: "w \<in> set (db_workloads s)" "parse_uuid L (l_WorkloadID lease) = Some (w_ID w)"
    "wf_grant (unicode L) (grant_context (w_Grant w))"
    "within_grant (unicode L) (grant_context (w_Grant w)) (l_Audience lease) (lease_context lease) (l_IssuedAt lease)"
    using assms(1) by (auto simp: root_prepared_def)
  obtain v where "v \<in> set (db_workloads t)" "workload_evolves w v"
    using db_extends_workload [OF assms(2) w(1)] .
  then show ?thesis
    using assms(1) w(2-) unfolding root_prepared_def workload_evolves_def by metis
qed

lemma delegation_prepared_later:
  assumes "delegation_prepared L s lease" "db_extends s t"
  shows "delegation_prepared L t lease"
proof -
  obtain p where p: "p \<in> set (db_leases s)" "l_ParentLeaseID lease = Some (l_ID p)"
    "l_Audience lease = l_Audience p" "attenuates (unicode L) (lease_context p) (lease_context lease)"
    using assms(1) by (auto simp: delegation_prepared_def)
  obtain q where q: "q \<in> set (db_leases t)" "lease_evolves p q"
    using db_extends_lease [OF assms(2) p(1)] .
  then have "same_identity p q" by (simp add: lease_evolves_def)
  then have "l_ID q = l_ID p" "l_Audience q = l_Audience p" "lease_context q = lease_context p"
    using lease_context_same by (simp_all add: same_identity_def)
  then show ?thesis
    using assms(1) p(2-) q(1) unfolding delegation_prepared_def by metis
qed

lemma issue_authority:
  assumes ok: "store_ok L s" and auth: "authority_ok L s"
    and prepared: "root_prepared L s lease \<or> delegation_prepared L s lease"
    and issued: "issue L u env lease eventType actor s = (Inr il, s')"
  shows "authority_ok L s'"
  using issued
proof (rule issue_stored)
  fix token row e
  let ?hashed = "lease\<lparr>l_TokenHash := sha256 L token\<rparr>"
  assume row: "lease_row L ?hashed = Some row"
    and s': "s' = log_event e (s\<lparr>db_leases := db_leases s @ [row]\<rparr>)"
  have whole: "whole_seconds ?hashed"
    using prepared by (auto simp: root_prepared_def delegation_prepared_def whole_seconds_def)
  note stored = stored_authority [OF row whole]
  have ctx: "lease_context row = lease_context lease" "l_Audience row = l_Audience lease"
    "l_IssuedAt row = l_IssuedAt lease"
    using stored by (simp_all add: lease_context_def)
  have "db_extends s s'"
    using issue_refines [of lease L s u env eventType actor] prepared issued ok pg.fold_extends [of L s]
    by (auto simp: refines_def root_prepared_def delegation_prepared_def)
  then have old: "authorised L s' l" if "l \<in> set (db_leases s)" for l
    using auth that authorised_later [of L s l s' l] by (auto simp: authority_ok_def)
  have "authorised L s' row"
    using prepared
  proof
    assume r: "root_prepared L s lease"
    then obtain w where w: "w \<in> set (db_workloads s)" "parse_uuid L (l_WorkloadID lease) = Some (w_ID w)"
      "wf_grant (unicode L) (grant_context (w_Grant w))"
      "within_grant (unicode L) (grant_context (w_Grant w)) (l_Audience lease) (lease_context lease) (l_IssuedAt lease)"
      by (auto simp: root_prepared_def)
    have "w_ID w = l_WorkloadID row" using lease_row_Some(3) [OF row] w(2) by simp
    then have "root_authority L (db_workloads s') row"
      unfolding root_authority_def ctx using w s' by auto
    moreover have "l_ParentLeaseID row = None" "wf_context (unicode L) (lease_context row)"
      using lease_row_Some(7) [OF row] r ctx(1) by (simp_all add: root_prepared_def)
    ultimately show ?thesis by (simp add: authorised_def)
  next
    assume d: "delegation_prepared L s lease"
    then obtain p where p: "p \<in> set (db_leases s)" "l_ParentLeaseID lease = Some (l_ID p)"
      "l_Audience lease = l_Audience p" "attenuates (unicode L) (lease_context p) (lease_context lease)"
      by (auto simp: delegation_prepared_def)
    have "is_uuid L (l_ID p)" using db_ok_row [of L s p] ok p(1) by (simp add: store_ok_def lease_row_ok_def)
    then have "l_ParentLeaseID row = Some (l_ID p)"
      using lease_row_Some(6) [OF row, of "l_ID p"] p(2) by (simp add: is_uuid_def)
    moreover have "delegated_authority L (db_leases s') (l_ID p) row"
      unfolding delegated_authority_def ctx using p s' by auto
    moreover have "wf_context (unicode L) (lease_context row)"
      using p(4) ctx(1) by (simp add: attenuates_def)
    ultimately show ?thesis by (simp add: authorised_def)
  qed
  then show ?thesis using old s' by (auto simp: authority_ok_def)
qed

subsection \<open>Requests that run at the same time\<close>

text \<open>
  The state of the running service: the database, the parents that delegations in progress have
  verified, and the leases that are prepared but not stored yet, each with its event type and
  actor. A prepared lease stays listed after it was stored; the database refuses it then.
\<close>

record system =
  sys_db :: db
  sys_checked :: "(call_env \<times> DelegateLeaseRequest \<times> Lease) list"
  sys_prepared :: "(Lease \<times> bytes \<times> bytes) list"

definition idle :: "db \<Rightarrow> system" where
  "idle s = \<lparr>sys_db = s, sys_checked = [], sys_prepared = []\<rparr>"

definition issuing :: "service_op \<Rightarrow> bool" where
  "issuing op \<longleftrightarrow> (case op of SMint _ \<Rightarrow> True | SDelegate _ \<Rightarrow> True | _ \<Rightarrow> False)"

inductive service_step :: "auth_lib \<Rightarrow> LeaseUsecase \<Rightarrow> system \<Rightarrow> system \<Rightarrow> bool" for L u where
  request: "\<not> issuing op \<Longrightarrow>
    service_step L u \<sigma> (\<sigma>\<lparr>sys_db := snd (serve L u env op (sys_db \<sigma>))\<rparr>)"
| mint: "prepare_root L u env r (sys_db \<sigma>) = Inr lease \<Longrightarrow>
    service_step L u \<sigma>
      (\<sigma>\<lparr>sys_prepared := (lease, ''lease.root_minted'', mr_WorkloadID r) # sys_prepared \<sigma>\<rparr>)"
| check: "check_delegation L u env d (sys_db \<sigma>) = Inr parent \<Longrightarrow>
    service_step L u \<sigma> (\<sigma>\<lparr>sys_checked := (env, d, parent) # sys_checked \<sigma>\<rparr>)"
| prepare: "(env, d, parent) \<in> set (sys_checked \<sigma>) \<Longrightarrow>
    prepare_delegated L u env d parent (sys_db \<sigma>) = Inr lease \<Longrightarrow>
    service_step L u \<sigma>
      (\<sigma>\<lparr>sys_prepared := (lease, ''lease.delegated'', l_WorkloadID parent) # sys_prepared \<sigma>\<rparr>)"
| issue: "(lease, eventType, actor) \<in> set (sys_prepared \<sigma>) \<Longrightarrow>
    service_step L u \<sigma> (\<sigma>\<lparr>sys_db := snd (issue L u env lease eventType actor (sys_db \<sigma>))\<rparr>)"

inductive_cases service_stepE: "service_step L u \<sigma> \<tau>"

definition prepared_ok :: "auth_lib \<Rightarrow> db \<Rightarrow> Lease \<Rightarrow> bool" where
  "prepared_ok L s lease \<longleftrightarrow> root_prepared L s lease \<or> delegation_prepared L s lease"

definition known_parent :: "db \<Rightarrow> Lease \<Rightarrow> bool" where
  "known_parent s p \<longleftrightarrow> (\<exists>k \<in> set (db_leases s). same_identity p k)"

definition system_ok :: "auth_lib \<Rightarrow> system \<Rightarrow> bool" where
  "system_ok L \<sigma> \<longleftrightarrow>
    store_ok L (sys_db \<sigma>) \<and> authority_ok L (sys_db \<sigma>)
    \<and> list_all (\<lambda>(_, _, parent). known_parent (sys_db \<sigma>) parent) (sys_checked \<sigma>)
    \<and> list_all (\<lambda>(lease, _, _). prepared_ok L (sys_db \<sigma>) lease) (sys_prepared \<sigma>)"

lemma prepared_later: "prepared_ok L s lease \<Longrightarrow> db_extends s t \<Longrightarrow> prepared_ok L t lease"
  using root_prepared_later delegation_prepared_later unfolding prepared_ok_def by blast

lemma known_parent_later: "known_parent s p \<Longrightarrow> db_extends s t \<Longrightarrow> known_parent t p"
  unfolding known_parent_def using db_extends_lease same_identity_trans
  by (metis lease_evolves_def)

lemma system_ok_db:
  assumes "system_ok L \<sigma>" "store_ok L t" "db_extends (sys_db \<sigma>) t" "authority_ok L t"
  shows "system_ok L (\<sigma>\<lparr>sys_db := t\<rparr>)"
  using assms prepared_later known_parent_later unfolding system_ok_def list_all_iff by fastforce

lemma refined_store:
  assumes "refines L s r" "store_ok L s"
  shows "store_ok L (snd r)" "db_extends s (snd r)"
  using assms pg.fold_inv [of L s] pg.fold_extends [of L s] by (auto simp: refines_def)

lemma request_lease_count:
  assumes "\<not> issuing op"
  shows "length (db_leases (snd (serve L u env op s))) = length (db_leases s)"
proof -
  have count: "CreateWorkload L ctx w e s = (r, t) \<Longrightarrow> length (db_leases t) = length (db_leases s)"
    "ConsumeWorkloadNonce L d i h x s = (r, t) \<Longrightarrow> length (db_leases t) = length (db_leases s)"
    for ctx w e d i h x r t
    using repo_lease_count(1) [of L ctx w e s] repo_lease_count(3) [of L d i h x s] by simp_all
  show ?thesis
  proof (cases op)
    case (SRegister r)
    then show ?thesis
      by (auto simp: RegisterWorkload_def Let_def split: sum.splits prod.splits
          dest: count)
  next
    case (SAuthenticate r)
    then show ?thesis
      by (auto simp: AuthenticateWorkload_def Let_def split: sum.splits prod.splits option.splits
          dest: count)
  next
    case (SConsume r)
    then show ?thesis
      by (auto simp: ConsumeLease_def Let_def repo_lease_count split: sum.splits)
  qed (use assms in \<open>auto simp: DisableWorkloadCase_def RotateWorkloadKeyCase_def RevokeLease_def
      repo_lease_count issuing_def\<close>)
qed

lemma serve_store:
  assumes "store_ok L s"
  shows "store_ok L (snd (serve L u env op s))" "db_extends s (snd (serve L u env op s))"
proof -
  have "store_ok L (run_service L u (env, op) s)" by (rule service.run_inv [OF assms TrueI])
  moreover have "db_extends s (run_service L u (env, op) s)" by (rule service.run_extends [OF assms TrueI])
  ultimately show "store_ok L (snd (serve L u env op s))" "db_extends s (snd (serve L u env op s))"
    by (simp_all add: run_service_def)
qed

lemma service_step_ok:
  assumes "service_step L u \<sigma> \<tau>" "system_ok L \<sigma>"
  shows "system_ok L \<tau> \<and> db_extends (sys_db \<sigma>) (sys_db \<tau>)"
  using assms
proof (induction rule: service_step.induct)
  case (request op \<sigma> env)
  then have store: "store_ok L (sys_db \<sigma>)" and auth: "authority_ok L (sys_db \<sigma>)"
    by (simp_all add: system_ok_def)
  have "authority_ok L (snd (serve L u env op (sys_db \<sigma>)))"
    by (rule same_leases_authority [OF auth serve_store(2) [OF store] request_lease_count [OF request(1)]])
  then show ?case
    using system_ok_db [OF request(2) serve_store [OF store]] serve_store(2) [OF store] by simp
next
  case (mint env r \<sigma> lease)
  then have "root_prepared L (sys_db \<sigma>) lease"
    by (auto simp: system_ok_def store_ok_def intro: prepare_root_prepared)
  then show ?case using mint by (simp add: system_ok_def prepared_ok_def)
next
  case (check env d \<sigma> parent)
  then have "parent \<in> set (db_leases (sys_db \<sigma>))"
    using GetLeaseByID_Inr [of L "sys_db \<sigma>"]
    by (auto simp: system_ok_def store_ok_def elim!: check_delegation_Inr)
  then have "known_parent (sys_db \<sigma>) parent"
    unfolding known_parent_def using same_identity_refl by blast
  then show ?case using check by (simp add: system_ok_def)
next
  case (prepare env d parent \<sigma> lease)
  then have "known_parent (sys_db \<sigma>) parent" by (auto simp: system_ok_def list_all_iff)
  then have "delegation_prepared L (sys_db \<sigma>) lease"
    using prepare_delegated_prepared [OF prepare(2)] by (auto simp: known_parent_def)
  then show ?case using prepare by (simp add: system_ok_def prepared_ok_def)
next
  case (issue lease eventType actor \<sigma> env)
  let ?s = "sys_db \<sigma>" and ?r = "issue L u env lease eventType actor (sys_db \<sigma>)"
  have ok: "store_ok L ?s" "authority_ok L ?s" using issue by (simp_all add: system_ok_def)
  have prepared: "root_prepared L ?s lease \<or> delegation_prepared L ?s lease"
    using issue by (auto simp: system_ok_def list_all_iff prepared_ok_def)
  then have "refines L ?s ?r"
    by (intro issue_refines) (auto simp: root_prepared_def delegation_prepared_def)
  then have store: "store_ok L (snd ?r)" "db_extends ?s (snd ?r)"
    using refined_store ok(1) by blast+
  have "authority_ok L (snd ?r)"
  proof (cases "ok (fst ?r)")
    case True
    then obtain il where "?r = (Inr il, snd ?r)" by (metis ok_def prod.collapse)
    then show ?thesis by (rule issue_authority [OF ok prepared])
  next
    case False
    then show ?thesis using \<open>refines L ?s ?r\<close> ok(2) by (simp add: refines_def)
  qed
  then show ?case using store issue by (auto intro: system_ok_db)
qed

lemma service_steps_ok:
  assumes "rtranclp (service_step L u) \<sigma> \<tau>" "system_ok L \<sigma>"
  shows "system_ok L \<tau> \<and> db_extends (sys_db \<sigma>) (sys_db \<tau>)"
  using assms
proof (induction rule: rtranclp_induct)
  case (step \<tau> \<upsilon>)
  then show ?case using service_step_ok db_extends_trans by blast
qed simp

lemma idle_ok: "store_ok L s \<Longrightarrow> authority_ok L s \<Longrightarrow> system_ok L (idle s)"
  by (simp add: system_ok_def idle_def)

text \<open>An empty database has every invariant.\<close>

definition empty_db :: db where
  "empty_db = \<lparr>db_workloads = [], db_leases = [], db_audit_events = [], db_workload_nonces = [],
     db_lease_consumptions = [], db_audit_seq = 0\<rparr>"

lemma empty_db_ok: "uuid_canonical L \<Longrightarrow> store_ok L empty_db \<and> authority_ok L empty_db"
  by (simp add: store_ok_def db_ok_def empty_db_def authority_ok_def lease_table_ok_def linked_def
      revoked_closed_def owners_ok_def workloads_ok_def consumptions_ok_def audit_ok_def)

subsection \<open>From a lease up to its grant\<close>

lemma authority_chain:
  assumes ok: "db_ok L s" and auth: "authority_ok L s"
  shows "l \<in> set (db_leases s) \<Longrightarrow>
    \<exists>root \<in> set (db_leases s). l_ParentLeaseID root = None \<and> l_RootLeaseID l = l_ID root
      \<and> l_RootWorkloadID l = l_WorkloadID root \<and> l_Audience l = l_Audience root
      \<and> narrows (unicode L) (lease_context root) (lease_context l)
      \<and> root_authority L (db_workloads s) root"
proof (induction "nat (sint (l_Depth l))" arbitrary: l rule: less_induct)
  case less
  have l: "authorised L s l" "lease_row_ok L l"
    using less.prems auth db_ok_row [OF ok] by (simp_all add: authority_ok_def)
  show ?case
  proof (cases "l_ParentLeaseID l")
    case None
    have "narrows (unicode L) (lease_context l) (lease_context l)"
      using l(1) by (intro authority_scope.covers_refl) (simp add: authorised_def)
    moreover have "root_authority L (db_workloads s) l" using l(1) None by (simp add: authorised_def)
    moreover have "l_RootLeaseID l = l_ID l" "l_RootWorkloadID l = l_WorkloadID l"
      using l(2) None by (simp_all add: lease_row_ok_def lease_checks_def)
    ultimately show ?thesis using less.prems None by blast
  next
    case (Some i)
    then obtain p where p: "p \<in> set (db_leases s)" "l_ID p = i" "l_Audience p = l_Audience l"
      "attenuates (unicode L) (lease_context p) (lease_context l)"
      using l(1) by (auto simp: authorised_def delegated_authority_def)
    obtain q where "q \<in> set (db_leases s)" "l_ID q = i" "lease_link q l"
      using db_ok_link [OF ok less.prems Some] by blast
    then have link: "lease_link p l"
      using forest_ID [OF db_ok_forest [OF ok], of p q] p by simp
    have "sint (l_Depth l) = sint (l_Depth p) + 1" "0 \<le> sint (l_Depth p)"
      using link lease_row_depth [OF db_ok_row [OF ok p(1)]] by (simp_all add: lease_link_def)
    then have "nat (sint (l_Depth p)) < nat (sint (l_Depth l))" by simp
    from less.hyps [OF this p(1)] obtain root where root: "root \<in> set (db_leases s)"
      "l_ParentLeaseID root = None" "l_RootLeaseID p = l_ID root" "l_RootWorkloadID p = l_WorkloadID root"
      "l_Audience p = l_Audience root" "narrows (unicode L) (lease_context root) (lease_context p)"
      "root_authority L (db_workloads s) root" by blast
    have "narrows (unicode L) (lease_context root) (lease_context l)"
      by (rule authority_scope.covers_trans [OF root(6) attenuates_narrows [OF p(4)]])
    moreover have "l_RootLeaseID l = l_RootLeaseID p" "l_RootWorkloadID l = l_RootWorkloadID p"
      using link unfolding lease_link_def by simp_all
    ultimately show ?thesis using root p(3) by auto
  qed
qed

text \<open>Every lease of a reachable state goes back to a root lease within the grant of its workload.\<close>

lemma reachable_authority:
  assumes "uuid_canonical L" and "db_ok L s" and "authority_ok L s"
    and "rtranclp (service_step L u) (idle s) \<sigma>" and "l \<in> set (db_leases (sys_db \<sigma>))"
  shows "\<exists>root \<in> set (db_leases (sys_db \<sigma>)). \<exists>w \<in> set (db_workloads (sys_db \<sigma>)).
    l_ParentLeaseID root = None \<and> l_RootLeaseID l = l_ID root
    \<and> l_RootWorkloadID l = w_ID w \<and> l_WorkloadID root = w_ID w
    \<and> l_Audience l = l_Audience root \<and> l_Audience l \<in> set (g_Audiences (w_Grant w))
    \<and> sint (l_Depth l) \<le> sint (g_MaxDelegationDepth (w_Grant w))
    \<and> l_Expiration l \<le> l_IssuedAt root + g_MaxTTL (w_Grant w)
    \<and> (\<forall>q. permits (unicode L) (lease_context l) q \<longrightarrow>
         permits (unicode L) (lease_context root) q
         \<and> grant_permits (unicode L) (grant_context (w_Grant w)) (l_IssuedAt root) q)"
proof -
  have "system_ok L \<sigma>"
    using service_steps_ok [OF assms(4) idle_ok] assms(1-3) by (simp add: store_ok_def)
  then have ok: "db_ok L (sys_db \<sigma>)" "authority_ok L (sys_db \<sigma>)"
    by (simp_all add: system_ok_def store_ok_def)
  obtain root where root: "root \<in> set (db_leases (sys_db \<sigma>))" "l_ParentLeaseID root = None"
    "l_RootLeaseID l = l_ID root" "l_RootWorkloadID l = l_WorkloadID root" "l_Audience l = l_Audience root"
    and narrow: "narrows (unicode L) (lease_context root) (lease_context l)"
    and auth: "root_authority L (db_workloads (sys_db \<sigma>)) root"
    using authority_chain [OF ok assms(5)] by blast
  obtain w where w: "w \<in> set (db_workloads (sys_db \<sigma>))" "w_ID w = l_WorkloadID root"
    and within: "within_grant (unicode L) (grant_context (w_Grant w)) (l_Audience root)
        (lease_context root) (l_IssuedAt root)"
    using auth by (auto simp: root_authority_def)
  have "permits (unicode L) (lease_context root) q
      \<and> grant_permits (unicode L) (grant_context (w_Grant w)) (l_IssuedAt root) q"
    if "permits (unicode L) (lease_context l) q" for q
    using narrows_permits [OF narrow that] within_grant_permits [OF within] by blast
  moreover have "l_Audience root \<in> set (g_Audiences (w_Grant w))"
    "sint (l_Depth l) \<le> sint (g_MaxDelegationDepth (w_Grant w))"
    "l_Expiration l \<le> l_IssuedAt root + g_MaxTTL (w_Grant w)"
    using within narrow by (auto simp: within_grant_def narrows_def wf_context_def grant_context_def)
  ultimately show ?thesis
    using root w by (intro bexI [of _ root] bexI [of _ w]) simp_all
qed

lemma reachable_context:
  assumes "uuid_canonical L" "db_ok L s" "authority_ok L s" "rtranclp (service_step L u) (idle s) \<sigma>"
    "l \<in> set (db_leases (sys_db \<sigma>))"
  shows "wf_context (unicode L) (lease_context l)"
proof -
  have "system_ok L \<sigma>"
    using service_steps_ok [OF assms(4) idle_ok] assms(1-3) by (simp add: store_ok_def)
  then show ?thesis using assms(5) by (simp add: system_ok_def authority_ok_def authorised_def)
qed

subsection \<open>A concrete database with its authority\<close>

lemma example_authority: "authority_ok example_lib example_db"
proof -
  have ctx: "wf_context ascii_lib (lease_context example_root_row)" "wf_context ascii_lib (lease_context example_child_row)"
    "wf_grant ascii_lib (grant_context example_authority)"
    by (simp_all add: wf_context_def wf_grant_def grant_context_def example_root_row_def
        example_child_row_def example_authority_def example_context_facts)
  have covers: "Covers ascii_lib ''customer/*'' ''customer/*''" "Covers ascii_lib ''customer/*'' ''customer/cus_123''"
    by (simp_all add: Covers_iff example_resources example_within)
  have "within_grant ascii_lib (grant_context example_authority) ''billing'' (lease_context example_root_row) 0"
    using covers(1) AtLeastAsStrong_refl [OF example_valid_constraints(1) [of ascii_lib]]
    by (simp add: within_grant_def grant_context_def example_authority_def example_root_row_def Subset_def
        duration_defs)
  moreover have "attenuates ascii_lib (lease_context example_root_row) (lease_context example_child_row)"
    using covers(2) ctx example_stronger [of ascii_lib]
    by (simp add: attenuates_def)
      (simp add: example_root_row_def example_child_row_def Subset_def same_authority_def duration_defs)
  moreover have "w_Grant (example_workload i n k) = example_authority" for i n k
    by (simp add: example_workload_def)
  moreover have "unicode example_lib = ascii_lib" by (simp add: example_lib_def)
  moreover have "l_Audience example_root_row = ''billing''" "l_IssuedAt example_root_row = 0"
    "l_Audience example_child_row = ''billing''"
    by (simp_all add: example_root_row_def example_child_row_def)
  ultimately show ?thesis
    using ctx by (simp add: authority_ok_def authorised_def root_authority_def delegated_authority_def)
qed

subsection \<open>Properties\<close>

text \<open>C5: authority never grows. In every state the service reaches, whatever requests run at the
  same time, each stored lease descends from a root lease of the same audience whose workload's
  grant names that audience; what the lease permits, its root permits and the grant permits for a
  lease issued when the root was; and the lease is no deeper than the grant's delegation depth.\<close>

theorem authority_never_grows:
  assumes "uuid_canonical L" and "db_ok L s" and "authority_ok L s"
    and "rtranclp (service_step L u) (idle s) \<sigma>" and "l \<in> set (db_leases (sys_db \<sigma>))"
  shows "\<exists>root \<in> set (db_leases (sys_db \<sigma>)). \<exists>w \<in> set (db_workloads (sys_db \<sigma>)).
    l_ParentLeaseID root = None \<and> l_RootLeaseID l = l_ID root
    \<and> l_RootWorkloadID l = w_ID w \<and> l_WorkloadID root = w_ID w
    \<and> l_Audience l = l_Audience root \<and> l_Audience l \<in> set (g_Audiences (w_Grant w))
    \<and> sint (l_Depth l) \<le> sint (g_MaxDelegationDepth (w_Grant w))
    \<and> l_Expiration l \<le> l_IssuedAt root + g_MaxTTL (w_Grant w)
    \<and> (\<forall>q. permits (unicode L) (lease_context l) q \<longrightarrow>
         permits (unicode L) (lease_context root) q
         \<and> grant_permits (unicode L) (grant_context (w_Grant w)) (l_IssuedAt root) q)"
  by (rule reachable_authority [OF assms])

theorem authority_never_grows_witness:
  "\<exists>w \<in> set (db_workloads example_db). grant_permits ascii_lib (grant_context (w_Grant w)) 0
     (''refund'', ''customer/cus_123'', prod_limits ''500'', 0)"
proof -
  have "permits ascii_lib (lease_context example_child_row) (''refund'', ''customer/cus_123'', prod_limits ''500'', 0)"
    using example_permits by (simp add: permits_def example_child_row_def example_child_def duration_defs)
  moreover have "unicode example_lib = ascii_lib" "sys_db (idle example_db) = example_db"
    by (simp_all add: example_lib_def idle_def)
  moreover have "l_IssuedAt r = 0" if "r \<in> set (db_leases example_db)" for r
    using that by (auto simp: example_root_row_def example_child_row_def)
  ultimately show ?thesis
    using authority_never_grows [where u = example_usecase and l = example_child_row,
        OF _ _ example_authority rtranclp.rtrancl_refl]
      example_store_ok by (auto simp: store_ok_def)
qed

text \<open>The service refines the repository's store. Run in one piece, every request has the effect
  of at most one repository operation, and a request that fails leaves the database as it was.\<close>

theorem service_refines_store:
  "(\<not> fst (serve L u env op s) \<longrightarrow> snd (serve L u env op s) = s)
   \<and> (\<exists>ops. list_all op_ok ops \<and> length ops \<le> 1 \<and> snd (serve L u env op s) = fold (run_op L) ops s)"
  by (rule serve_refines)

theorem service_refines_store_witness:
  "snd (serve example_lib example_usecase (example_env 0) (SDisable [] ''actor'') example_db) = example_db"
  using service_refines_store [of example_lib example_usecase "example_env 0" "SDisable [] ''actor''" example_db]
  by (simp add: DisableWorkloadCase_def)

end
