(* ===== verification/Http_Service.thy ===== *)
theory Http_Service
  imports Delivery System
begin

section \<open>What requests do to the database\<close>

text \<open>
  The HTTP interface over the use cases: a request runs at most two operations of the service, one
  to authenticate a workload and one to serve it. So the database follows the contract
  \<open>guarded_store\<close> under HTTP requests too. A request that is refused leaves the database as it was,
  but for the nonce of an authenticated one, and a request that changes it has shown the
  credential its route asks for.
\<close>

subsection \<open>Responses\<close>

lemma respond_status [simp]: "gx_Status (respond status b c) = status"
  by (simp add: respond_def)

lemma respondError_status [simp]: "gx_Status (respondError status code message c) = status"
  by (simp add: respondError_def)

lemma writeError_status: "gx_Status (writeError err c) \<in> {401, 403, 404, 409, 422, 500}"
  by (simp add: writeError_def)

lemma writeJSONError_status: "gx_Status (writeJSONError err c) \<in> {400, 413}"
  by (simp add: writeJSONError_def)

lemma error_statuses [simp]:
  "400 \<le> gx_Status (writeError err c)" "400 \<le> gx_Status (writeJSONError err c)"
  "400 \<le> gx_Status (unauthenticated c)"
  using writeError_status [of err c] writeJSONError_status [of err c]
  by (auto simp: unauthenticated_def)

lemma respond_simps [simp]:
  "gx_Body (respond status b c) = b" "gx_RequestID (respond status b c) = gx_RequestID c"
  by (simp_all add: respond_def)

subsection \<open>Operations of the service\<close>

lemma run_service_simps:
  "run_service L u (env, SRegister q1) s = snd (RegisterWorkload L u env q1 s)"
  "run_service L u (env, SAuthenticate q2) s = snd (AuthenticateWorkload L u env q2 s)"
  "run_service L u (env, SDisable i actor) s = snd (DisableWorkloadCase L env i actor s)"
  "run_service L u (env, SRotate q3) s = snd (RotateWorkloadKeyCase L env q3 s)"
  "run_service L u (env, SMint q4) s = snd (MintRootLease L u env q4 s)"
  "run_service L u (env, SDelegate q5) s = snd (DelegateLease L u env q5 s)"
  "run_service L u (env, SRevoke q6) s = snd (RevokeLease L env q6 s)"
  "run_service L u (env, SConsume q7) s = snd (ConsumeLease L u env q7 s)"
  by (simp_all add: run_service_def)

lemma failed_unchanged:
  "RegisterWorkload L u env q1 s = (Inl e, t) \<Longrightarrow> t = s"
  "AuthenticateWorkload L u env q2 s = (Inl e, t) \<Longrightarrow> t = s"
  "DisableWorkloadCase L env i actor s = (Inl e, t) \<Longrightarrow> t = s"
  "RotateWorkloadKeyCase L env q3 s = (Inl e, t) \<Longrightarrow> t = s"
  "MintRootLease L u env q4 s = (Inl e, t) \<Longrightarrow> t = s"
  "DelegateLease L u env q5 s = (Inl e, t) \<Longrightarrow> t = s"
  "RevokeLease L env q6 s = (Inl e, t) \<Longrightarrow> t = s"
  "ConsumeLease L u env q7 s = (Inl e, t) \<Longrightarrow> t = s"
proof -
  have same: "\<not> fst (serve L u env op s) \<Longrightarrow> snd (serve L u env op s) = s" for op
    using serve_refines [of L u env op s] by simp
  show "RegisterWorkload L u env q1 s = (Inl e, t) \<Longrightarrow> t = s"
    using same [of "SRegister q1"] by simp
  show "AuthenticateWorkload L u env q2 s = (Inl e, t) \<Longrightarrow> t = s"
    using same [of "SAuthenticate q2"] by simp
  show "DisableWorkloadCase L env i actor s = (Inl e, t) \<Longrightarrow> t = s"
    using same [of "SDisable i actor"] by simp
  show "RotateWorkloadKeyCase L env q3 s = (Inl e, t) \<Longrightarrow> t = s"
    using same [of "SRotate q3"] by simp
  show "MintRootLease L u env q4 s = (Inl e, t) \<Longrightarrow> t = s"
    using same [of "SMint q4"] by simp
  show "DelegateLease L u env q5 s = (Inl e, t) \<Longrightarrow> t = s"
    using same [of "SDelegate q5"] by simp
  show "RevokeLease L env q6 s = (Inl e, t) \<Longrightarrow> t = s"
    using same [of "SRevoke q6"] by simp
  show "ConsumeLease L u env q7 s = (Inl e, t) \<Longrightarrow> t = s"
    using same [of "SConsume q7"] by simp
qed

text \<open>
  The effect of a handler: at most one operation of the service, none when the response is an
  error.
\<close>

definition single_effect :: "auth_lib \<Rightarrow> LeaseUsecase \<Rightarrow> db \<Rightarrow> gin \<times> db \<Rightarrow> bool" where
  "single_effect L u s result \<longleftrightarrow>
    (400 \<le> gx_Status (fst result) \<longrightarrow> snd result = s)
    \<and> (snd result = s \<or> (\<exists>eop. snd result = run_service L u eop s))"

lemma single_effect_same [simp]: "single_effect L u s (c, s)"
  by (simp add: single_effect_def)

lemma single_effect_op:
  assumes "run_service L u eop s = t" "gx_Status c < 400"
  shows "single_effect L u s (c, t)"
  using assms by (cases eop) (auto simp: single_effect_def)

lemma admin_ops:
  "RegisterWorkload L u env q1 s = (x1, t) \<Longrightarrow> gx_Status c < 400 \<Longrightarrow> single_effect L u s (c, t)"
  "DisableWorkloadCase L env i actor s = (x2, t) \<Longrightarrow> gx_Status c < 400 \<Longrightarrow> single_effect L u s (c, t)"
  "RotateWorkloadKeyCase L env q3 s = (x3, t) \<Longrightarrow> gx_Status c < 400 \<Longrightarrow> single_effect L u s (c, t)"
  "RevokeLease L env q6 s = (x6, t) \<Longrightarrow> gx_Status c < 400 \<Longrightarrow> single_effect L u s (c, t)"
  "ConsumeLease L u env q7 s = (x7, t) \<Longrightarrow> gx_Status c < 400 \<Longrightarrow> single_effect L u s (c, t)"
  using single_effect_op [of L u "(env, SRegister q1)" s t c]
    single_effect_op [of L u "(env, SDisable i actor)" s t c]
    single_effect_op [of L u "(env, SRotate q3)" s t c]
    single_effect_op [of L u "(env, SRevoke q6)" s t c]
    single_effect_op [of L u "(env, SConsume q7)" s t c]
  by (simp_all add: run_service_simps)

lemma admin_effects:
  "single_effect (lib P) u s (registerWorkload P u env r c s)"
  "single_effect (lib P) u s (disableWorkload P env i c s)"
  "single_effect (lib P) u s (rotateWorkloadKey P env r i c s)"
  "single_effect (lib P) u s (revokeLease P env i c s)"
  "single_effect (lib P) u s (consumeLease P u env r i c s)"
proof -
  show "single_effect (lib P) u s (registerWorkload P u env r c s)"
    unfolding registerWorkload_def
    by (auto split: sum.split prod.split option.split dest: failed_unchanged(1) intro: admin_ops(1))
  show "single_effect (lib P) u s (disableWorkload P env i c s)"
    unfolding disableWorkload_def
    by (auto split: sum.split prod.split option.split dest: failed_unchanged(3) intro: admin_ops(2))
  show "single_effect (lib P) u s (rotateWorkloadKey P env r i c s)"
    unfolding rotateWorkloadKey_def
    by (auto split: sum.split prod.split option.split dest: failed_unchanged(4) intro: admin_ops(3))
  show "single_effect (lib P) u s (revokeLease P env i c s)"
    unfolding revokeLease_def
    by (auto split: sum.split prod.split option.split dest: failed_unchanged(7) intro: admin_ops(4))
  show "single_effect (lib P) u s (consumeLease P u env r i c s)"
    unfolding consumeLease_def Let_def
    by (auto split: sum.split prod.split option.split dest: failed_unchanged(8) intro: admin_ops(5))
qed

subsection \<open>Signed requests\<close>

text \<open>The request of the use case that a signed HTTP request stands for.\<close>

definition signed_request :: "http_lib \<Rightarrow> http_in \<Rightarrow> bytes \<Rightarrow> int \<Rightarrow> bytes \<Rightarrow> AuthenticateWorkloadRequest" where
  "signed_request P r body timestamp signature =
    \<lparr>aw_WorkloadID = in_header r ''X-Upsilon-Workload-ID'', aw_Timestamp = time_unix timestamp,
     aw_Nonce = in_header r ''X-Upsilon-Nonce'',
     aw_Message = signedRequestMessage (lib P) (in_Method r) (in_EscapedPath r)
       (in_header r ''X-Upsilon-Timestamp'') (in_header r ''X-Upsilon-Nonce'') body,
     aw_Signature = signature\<rparr>"

lemma authenticateWorkload_Inr:
  assumes "authenticateWorkload P u env r body s = (Inr w, s1)"
  obtains timestamp signature where "in_RawQuery r = []"
    "parse_int64 (in_header r ''X-Upsilon-Timestamp'') = Some timestamp"
    "raw_url_decode (in_header r ''X-Upsilon-Signature'') = Some signature"
    "AuthenticateWorkload (lib P) u env (signed_request P r body timestamp signature) s = (Inr w, s1)"
  using assms
  by (auto simp: authenticateWorkload_def signed_request_def Let_def split: if_splits option.splits)

lemma authenticateWorkload_Inl:
  "authenticateWorkload P u env r body s = (Inl e, s1) \<Longrightarrow> s1 = s"
  by (auto simp: authenticateWorkload_def Let_def split: if_splits option.splits dest: failed_unchanged(2))

definition asked_mint :: "leaseRequest \<Rightarrow> Workload \<Rightarrow> duration \<Rightarrow> MintRootLeaseRequest" where
  "asked_mint request workload ttl =
    \<lparr>mr_WorkloadID = w_ID workload, mr_Audience = lq_Audience request, mr_Actions = lq_Actions request,
     mr_Resources = lq_Resources request, mr_Expiration = lq_Expiration request, mr_TTL = ttl,
     mr_MaxDepth = lq_MaxDepth request, mr_ProofOfPossession = lq_ProofOfPossession request,
     mr_MaxUses = lq_MaxUses request, mr_Constraints = lq_Constraints request,
     mr_AuthenticatedKeyThumbprint = w_AuthenticatedKeyThumbprint workload\<rparr>"

definition asked_delegation ::
    "delegateRequest \<Rightarrow> bytes \<Rightarrow> bytes \<Rightarrow> Workload \<Rightarrow> duration \<Rightarrow> DelegateLeaseRequest" where
  "asked_delegation request parent_id parentToken workload ttl =
    \<lparr>dl_ParentLeaseID = parent_id, dl_ParentToken = parentToken, dl_DelegatingWorkloadID = w_ID workload,
     dl_DelegateToWorkloadID = dq_DelegateTo request, dl_Actions = dq_Actions request,
     dl_Resources = dq_Resources request, dl_Expiration = dq_Expiration request, dl_TTL = ttl,
     dl_ProofOfPossession = dq_ProofOfPossession request, dl_MaxUses = dq_MaxUses request,
     dl_Constraints = dq_Constraints request,
     dl_AuthenticatedKeyThumbprint = w_AuthenticatedKeyThumbprint workload\<rparr>"

lemma mintRootLease_cases:
  assumes "mintRootLease P u env r c s = (c', s')"
  obtains (refused) "400 \<le> gx_Status c'" "s' = s"
  | (authenticated) body request w where "readJSON (decode_lease P) r = Inr (body, request)"
      "authenticateWorkload P u (call_env_of c (he_auth env)) r body s = (Inr w, s')" "400 \<le> gx_Status c'"
  | (minted) body request w s1 ttl issued where "readJSON (decode_lease P) r = Inr (body, request)"
      "authenticateWorkload P u (call_env_of c (he_auth env)) r body s = (Inr w, s1)"
      "parseTTL (lq_TTL request) (lq_Expiration request) = Inr ttl"
      "MintRootLease (lib P) u (call_env_of c (he_call env)) (asked_mint request w ttl) s1 = (Inr issued, s')"
      "c' = respond 201 (LeaseBody (responseFromIssued issued)) c"
proof (cases "readJSON (decode_lease P) r")
  case (Inl err)
  then show thesis using assms refused by (auto simp: mintRootLease_def)
next
  case (Inr read)
  then obtain body request where read: "readJSON (decode_lease P) r = Inr (body, request)" by (cases read) simp
  obtain x s1 where auth: "authenticateWorkload P u (call_env_of c (he_auth env)) r body s = (x, s1)" by fastforce
  show thesis
  proof (cases x)
    case Inl
    with auth have "authenticateWorkload P u (call_env_of c (he_auth env)) r body s = (Inl (projl x), s1)" by simp
    from authenticateWorkload_Inl [OF this] show thesis
      using assms refused auth Inl by (auto simp: mintRootLease_def read)
  next
    case w: (Inr w)
    show thesis
    proof (cases "parseTTL (lq_TTL request) (lq_Expiration request)")
      case Inl
      then show thesis using assms authenticated read auth w by (auto simp: mintRootLease_def)
    next
      case (Inr ttl)
      obtain y s2 where op: "MintRootLease (lib P) u (call_env_of c (he_call env)) (asked_mint request w ttl) s1 = (y, s2)"
        by fastforce
      have all: "mintRootLease P u env r c s = (case y of Inl err \<Rightarrow> (writeError err c, s2)
          | Inr issued \<Rightarrow> (respond 201 (LeaseBody (responseFromIssued issued)) c, s2))"
        using op by (simp add: mintRootLease_def read auth w Inr asked_mint_def split: sum.split)
      show thesis
      proof (cases y)
        case (Inl err)
        then have "s2 = s1" using op failed_unchanged(5) by blast
        then show thesis using assms authenticated read auth w unfolding all Inl by auto
      next
        case (Inr issued)
        then show thesis
          using assms minted [OF read _ \<open>parseTTL _ _ = Inr ttl\<close>] auth w op unfolding all Inr by auto
      qed
    qed
  qed
qed

lemma delegateLease_cases:
  assumes "delegateLease P u env r i c s = (c', s')"
  obtains (refused) "400 \<le> gx_Status c'" "s' = s"
  | (authenticated) body request w where "readJSON (decode_delegate P) r = Inr (body, request)"
      "authenticateWorkload P u (call_env_of c (he_auth env)) r body s = (Inr w, s')" "400 \<le> gx_Status c'"
  | (delegated) token body request w s1 ttl issued where
      "bearerToken (unicode (lib P)) (in_header r ''Authorization'') = Some token"
      "readJSON (decode_delegate P) r = Inr (body, request)"
      "authenticateWorkload P u (call_env_of c (he_auth env)) r body s = (Inr w, s1)"
      "parseTTL (dq_TTL request) (dq_Expiration request) = Inr ttl"
      "DelegateLease (lib P) u (call_env_of c (he_call env)) (asked_delegation request i token w ttl) s1
        = (Inr issued, s')"
      "c' = respond 201 (LeaseBody (responseFromIssued issued)) c"
proof (cases "if i = [] then None else bearerToken (unicode (lib P)) (in_header r ''Authorization'')")
  case None
  then show thesis using assms refused by (auto simp: delegateLease_def simp del: if_split split del: if_split)
next
  case (Some token)
  then have token: "bearerToken (unicode (lib P)) (in_header r ''Authorization'') = Some token"
    by (simp split: if_splits)
  show thesis
  proof (cases "readJSON (decode_delegate P) r")
    case (Inl err)
    then show thesis using assms refused unfolding delegateLease_def Some by auto
  next
    case (Inr read)
    then obtain body request where read: "readJSON (decode_delegate P) r = Inr (body, request)" by (cases read) simp
    obtain x s1 where auth: "authenticateWorkload P u (call_env_of c (he_auth env)) r body s = (x, s1)" by fastforce
    show thesis
    proof (cases x)
      case Inl
      with auth have "authenticateWorkload P u (call_env_of c (he_auth env)) r body s = (Inl (projl x), s1)" by simp
      from authenticateWorkload_Inl [OF this] show thesis
        using assms refused auth Inl unfolding delegateLease_def Some by (auto simp: read)
    next
      case w: (Inr w)
      show thesis
      proof (cases "parseTTL (dq_TTL request) (dq_Expiration request)")
        case Inl
        then show thesis using assms authenticated read auth w unfolding delegateLease_def Some by auto
      next
        case (Inr ttl)
        obtain y s2 where op: "DelegateLease (lib P) u (call_env_of c (he_call env))
            (asked_delegation request i token w ttl) s1 = (y, s2)"
          by fastforce
        have all: "delegateLease P u env r i c s = (case y of Inl err \<Rightarrow> (writeError err c, s2)
            | Inr issued \<Rightarrow> (respond 201 (LeaseBody (responseFromIssued issued)) c, s2))"
          using op unfolding delegateLease_def Some
          by (simp add: read auth w Inr asked_delegation_def split: sum.split)
        show thesis
        proof (cases y)
          case (Inl err)
          then have "s2 = s1" using op failed_unchanged(6) by blast
          then show thesis using assms authenticated read auth w unfolding all Inl by auto
        next
          case (Inr issued)
          then show thesis
            using assms delegated [OF token read _ \<open>parseTTL _ _ = Inr ttl\<close>] auth w op unfolding all Inr by auto
        qed
      qed
    qed
  qed
qed

subsection \<open>Whole requests\<close>

text \<open>A request either stops before its handler, and keeps the database, or runs the handler.\<close>

lemma Router_cases:
  assumes "Router P h u env r route st = (c, st')"
  obtains (stopped) "hs_db st' = hs_db st" "400 \<le> gx_Status c"
  | (handled) c0 m where "route_guard P h r c0 route = None"
      "route_handler P h u m env r route c0 (hs_db st) = (c, hs_db st')"
proof (cases "requestContext env r")
  case None
  then show thesis using assms stopped by (auto simp: Router_def aborted_response_def)
next
  case (Some c1)
  let ?c = "securityHeaders h c1"
  obtain c2 st2 where chain: "serve_chain P h u env r route c1 st = (c2, st2)" by fastforce
  with assms Some have out: "c2 = c" "hs_db st' = hs_db st2" by (auto simp: Router_def)
  show thesis
  proof (cases "enforceTLS P h r ?c")
    case tls: (Some c3)
    then have "c2 = c3" "hs_db st2 = hs_db st" using chain by (simp_all add: serve_chain_def)
    moreover have "400 \<le> gx_Status c3" using tls by (auto simp: enforceTLS_def Let_def split: if_splits)
    ultimately show thesis using stopped out by simp
  next
    case tls: None
    obtain limited m where rate: "rateLimit env r ?c (hs_limiter st) = (limited, m)" by fastforce
    show thesis
    proof (cases limited)
      case (Some c3)
      then have "c2 = c3" "hs_db st2 = hs_db st" using chain tls rate by (auto simp: serve_chain_def)
      moreover have "400 \<le> gx_Status c3"
        using rate Some by (auto simp: rateLimit_def split: prod.splits if_splits)
      ultimately show thesis using stopped out by simp
    next
      case limit: None
      show thesis
      proof (cases "route_guard P h r ?c route")
        case (Some c3)
        then have "c2 = c3" "hs_db st2 = hs_db st" using chain tls rate limit by (auto simp: serve_chain_def)
        moreover have "400 \<le> gx_Status c3"
          using Some by (cases route) (auto simp: requireAdmin_def requireConsumer_def split: option.splits if_splits)
        ultimately show thesis using stopped out by simp
      next
        case None
        obtain c4 s4 where run: "route_handler P h u (hs_metrics st) env r route ?c (hs_db st) = (c4, s4)"
          by fastforce
        with chain tls rate limit None have "c2 = c4" "hs_db st2 = s4" by (auto simp: serve_chain_def)
        then show thesis using handled [OF None] run out by simp
      qed
    qed
  qed
qed

definition signed_route :: "route \<Rightarrow> bool" where
  "signed_route route \<longleftrightarrow> (case route of RMint \<Rightarrow> True | RDelegate _ \<Rightarrow> True | _ \<Rightarrow> False)"

text \<open>The handlers of the other routes are single effects.\<close>

lemma unsigned_effect:
  "\<not> signed_route route \<Longrightarrow> single_effect (lib P) u s (route_handler P h u m env r route c s)"
  by (cases route) (simp_all add: signed_route_def admin_effects)

text \<open>A request that is authenticated, as it was sent, with what it leaves.\<close>

definition authenticated_as ::
    "http_lib \<Rightarrow> LeaseUsecase \<Rightarrow> http_env \<Rightarrow> http_in \<Rightarrow> bytes \<Rightarrow> db \<Rightarrow> Workload \<Rightarrow> db \<Rightarrow> bool" where
  "authenticated_as P u env r body s w s1 \<longleftrightarrow>
    in_Body r = Some body
    \<and> (\<exists>i. authenticateWorkload P u ((he_auth env)\<lparr>ctx_request_id := i\<rparr>) r body s = (Inr w, s1))"

lemma readJSON_body: "readJSON decode r = Inr (body, request) \<Longrightarrow> in_Body r = Some body"
  by (auto simp: readJSON_def split: option.splits sum.splits if_splits)

lemma signed_handler:
  assumes "signed_route route" "route_handler P h u m env r route c s = (c', s')"
  shows "s' = s \<and> 400 \<le> gx_Status c'
    \<or> (\<exists>body w s1. authenticated_as P u env r body s w s1
         \<and> (s' = s1 \<or> gx_Status c' = 201 \<and> (\<exists>eop. s' = run_service (lib P) u eop s1)))"
proof (cases route)
  case RMint
  then have run: "mintRootLease P u env r c s = (c', s')" using assms(2) by simp
  from run show ?thesis
  proof (cases rule: mintRootLease_cases)
    case refused
    then show ?thesis by simp
  next
    case (authenticated body request w)
    then have "authenticated_as P u env r body s w s'"
      by (auto simp: authenticated_as_def call_env_of_def dest: readJSON_body)
    then show ?thesis by blast
  next
    case (minted body request w s1 ttl issued)
    have "s' = run_service (lib P) u (call_env_of c (he_call env), SMint (asked_mint request w ttl)) s1"
      using minted(4) by (simp add: run_service_simps)
    moreover have "authenticated_as P u env r body s w s1"
      using minted(1,2)
      by (auto simp: authenticated_as_def call_env_of_def dest: readJSON_body)
    moreover have "gx_Status c' = 201" using minted(5) by simp
    ultimately show ?thesis by blast
  qed
next
  case (RDelegate i)
  then have run: "delegateLease P u env r i c s = (c', s')" using assms(2) by simp
  from run show ?thesis
  proof (cases rule: delegateLease_cases)
    case refused
    then show ?thesis by simp
  next
    case (authenticated body request w)
    then have "authenticated_as P u env r body s w s'"
      by (auto simp: authenticated_as_def call_env_of_def dest: readJSON_body)
    then show ?thesis by blast
  next
    case (delegated token body request w s1 ttl issued)
    have "s' = run_service (lib P) u
        (call_env_of c (he_call env), SDelegate (asked_delegation request i token w ttl)) s1"
      using delegated(5) by (simp add: run_service_simps)
    moreover have "authenticated_as P u env r body s w s1"
      using delegated(2,3)
      by (auto simp: authenticated_as_def call_env_of_def dest: readJSON_body)
    moreover have "gx_Status c' = 201" using delegated(6) by simp
    ultimately show ?thesis by blast
  qed
qed (use assms in \<open>auto simp: signed_route_def\<close>)

text \<open>The store behind the interface moves by operations of the service.\<close>

lemma authenticated_step:
  "authenticated_as P u env r body s w s1 \<Longrightarrow> \<exists>eop. s1 = run_service (lib P) u eop s"
  by (auto simp: authenticated_as_def elim!: authenticateWorkload_Inr) (metis run_service_simps(2) snd_conv)

lemma Router_steps:
  assumes "Router P h u env r route st = (c, st')"
  shows "\<exists>eops. length eops \<le> 2 \<and> hs_db st' = fold (run_service (lib P) u) eops (hs_db st)"
proof -
  have none: "\<exists>eops. length eops \<le> 2 \<and> hs_db st = fold (run_service (lib P) u) eops (hs_db st)"
    by (rule exI [of _ "[]"]) simp
  have one: "\<exists>eops. length eops \<le> 2 \<and> run_service (lib P) u eop (hs_db st) = fold (run_service (lib P) u) eops (hs_db st)" for eop
    by (rule exI [of _ "[eop]"]) simp
  have two: "\<exists>eops. length eops \<le> 2 \<and> run_service (lib P) u e2 (run_service (lib P) u e1 (hs_db st))
      = fold (run_service (lib P) u) eops (hs_db st)" for e1 e2
    by (rule exI [of _ "[e1, e2]"]) simp
  from assms show ?thesis
  proof (cases rule: Router_cases)
    case stopped
    then show ?thesis using none by simp
  next
    case (handled c0 m)
    show ?thesis
    proof (cases "signed_route route")
      case True
      from signed_handler [OF True handled(2)] show ?thesis
        using none one two authenticated_step by metis
    next
      case False
      from unsigned_effect [OF this, of P u "hs_db st" h m env r c0] handled(2) show ?thesis
        using none one by (auto simp: single_effect_def)
    qed
  qed
qed

subsection \<open>Authority\<close>

lemma run_service_authority:
  assumes "store_ok L s" "authority_ok L s"
  shows "authority_ok L (run_service L u (env, op) s)"
proof (cases "issuing op")
  case False
  then show ?thesis
    using same_leases_authority [OF assms(2) serve_store(2) [OF assms(1)] request_lease_count]
    by (simp add: run_service_def)
next
  case True
  then consider (mint) r where "op = SMint r" | (delegate) d where "op = SDelegate d"
    by (auto simp: issuing_def split: service_op.splits)
  then show ?thesis
  proof cases
    case mint
    show ?thesis
    proof (cases "MintRootLease L u env r s")
      case (Pair x t)
      show ?thesis
      proof (cases x)
        case (Inl e)
        then have "t = s" using Pair failed_unchanged(5) by blast
        then show ?thesis using assms(2) Pair by (simp add: mint run_service_simps)
      next
        case (Inr issued)
        then obtain lease where lease: "prepare_root L u env r s = Inr lease"
            "issue L u env lease ''lease.root_minted'' (mr_WorkloadID r) s = (Inr issued, t)"
          using Pair by (auto simp: MintRootLease_def split: sum.splits)
        have "root_prepared L s lease"
          using prepare_root_prepared [OF _ lease(1)] assms(1) by (simp add: store_ok_def)
        then show ?thesis
          using issue_authority [OF assms _ lease(2)] Pair by (simp add: mint run_service_simps)
      qed
    qed
  next
    case delegate
    show ?thesis
    proof (cases "DelegateLease L u env d s")
      case (Pair x t)
      show ?thesis
      proof (cases x)
        case (Inl e)
        then have "t = s" using Pair failed_unchanged(6) by blast
        then show ?thesis using assms(2) Pair by (simp add: delegate run_service_simps)
      next
        case (Inr issued)
        then obtain p lease where lease: "check_delegation L u env d s = Inr p"
            "prepare_delegated L u env d p s = Inr lease"
            "issue L u env lease ''lease.delegated'' (l_WorkloadID p) s = (Inr issued, t)"
          using Pair by (auto simp: DelegateLease_def split: sum.splits)
        have "p \<in> set (db_leases s)"
          using check_delegation_Inr [OF lease(1)] GetLeaseByID_Inr [of L s] assms(1)
          by (metis store_ok_def)
        then have "delegation_prepared L s lease"
          by (rule prepare_delegated_prepared [OF lease(2)]) simp
        then show ?thesis
          using issue_authority [OF assms _ lease(3)] Pair by (simp add: delegate run_service_simps)
      qed
    qed
  qed
qed

lemma run_service_list_authority:
  assumes "store_ok L s" "authority_ok L s"
  shows "store_ok L (fold (run_service L u) eops s) \<and> authority_ok L (fold (run_service L u) eops s)"
  using assms
proof (induction eops arbitrary: s)
  case (Cons eop eops)
  have "store_ok L (run_service L u eop s)" by (rule service.run_inv [OF Cons.prems(1) TrueI])
  moreover have "authority_ok L (run_service L u eop s)"
    using run_service_authority [OF Cons.prems] by (cases eop) simp
  ultimately show ?case using Cons.IH by simp
qed simp

type_synonym http_call = "http_env \<times> http_in \<times> route"

definition run_http :: "http_lib \<Rightarrow> Handler \<Rightarrow> LeaseUsecase \<Rightarrow> http_call \<Rightarrow> http_state \<Rightarrow> http_state" where
  "run_http P h u call st = (case call of (env, r, route) \<Rightarrow> snd (Router P h u env r route st))"

definition service_ok :: "http_lib \<Rightarrow> http_state \<Rightarrow> bool" where
  "service_ok P st \<longleftrightarrow> store_ok (lib P) (hs_db st) \<and> authority_ok (lib P) (hs_db st)"

lemma run_http_steps:
  "\<exists>eops. length eops \<le> 2 \<and> hs_db (run_http P h u call st) = fold (run_service (lib P) u) eops (hs_db st)"
proof -
  obtain env r route where call: "call = (env, r, route)" by (cases call)
  obtain c st' where run: "Router P h u env r route st = (c, st')" by fastforce
  from Router_steps [OF run] show ?thesis by (simp add: run_http_def call run)
qed

interpretation http: guarded_store "service_ok P" "\<lambda>st st'. db_extends (hs_db st) (hs_db st')" "\<lambda>_. True"
  "run_http P h u" for P h u
proof
  fix st :: http_state and call
  assume ok: "service_ok P st"
  obtain eops where run: "hs_db (run_http P h u call st) = fold (run_service (lib P) u) eops (hs_db st)"
    using run_http_steps by blast
  show "service_ok P (run_http P h u call st)"
    using run_service_list_authority ok by (simp add: service_ok_def run)
  have "list_all (\<lambda>_. True) eops" by (simp add: list_all_iff)
  then show "db_extends (hs_db st) (hs_db (run_http P h u call st))"
    using service.fold_extends [of "lib P" "hs_db st" eops] ok by (simp add: service_ok_def run)
qed (auto intro: db_extends_trans)

end
