(* ===== verification/Http_Promises.thy ===== *)
theory Http_Promises
  imports Http_Service Identifiers
begin

section \<open>What the HTTP interface promises\<close>

subsection \<open>The signed text\<close>

lemma append_separator:
  "x \<notin> set a \<Longrightarrow> x \<notin> set a' \<Longrightarrow> a @ x # b = a' @ x # b' \<longleftrightarrow> a = a' \<and> b = b'"
proof (induction a arbitrary: a')
  case Nil
  then show ?case by (cases a') auto
next
  case (Cons y a)
  then show ?case by (cases a') auto
qed

lemma parse_int64_no_newline:
  assumes "parse_int64 s = Some n"
  shows "newline \<notin> set s"
proof -
  have "newline \<notin> set ds" if "list_all is_digit ds" for ds
    using that by (auto simp: list_all_iff newline_def is_digit_def)
  moreover have "list_all is_digit (snd (signed_digits s))"
    using assms by (auto simp: parse_int64_def Let_def split: prod.splits if_splits)
  moreover have "\<not> is_digit newline" by (simp add: is_digit_def newline_def)
  ultimately show ?thesis
    by (cases s) (auto simp: signed_digits_def newline_def split: if_splits)
qed

lemma validNonce_no_newline:
  assumes "validNonce nonce"
  shows "newline \<notin> set nonce"
proof -
  have safe: "list_all url_safe_rune (runes nonce)"
    using assms by (simp add: validNonce_def split: if_splits)
  then have "ascii nonce"
    by (rule runes_all_ascii) (auto simp: url_safe_rune_def)
  then have "list_all (\<lambda>c. url_safe_rune (byte c)) nonce"
    using safe by (simp add: ascii_runes list_all_iff)
  then show ?thesis by (auto simp: list_all_iff newline_def url_safe_rune_def)
qed

text \<open>C34: the text a workload signs names one request. Two texts are only equal when method, path,
  timestamp and nonce are, and the bodies are, up to a collision of SHA-256. So a signature made
  for one request serves for no other: not another route, not another body.\<close>
theorem signed_message_binds:
  assumes "newline \<notin> set verb" "newline \<notin> set verb'" "newline \<notin> set path" "newline \<notin> set path'"
    and "parse_int64 timestamp = Some t" "parse_int64 timestamp' = Some t'"
    and "validNonce nonce" "validNonce nonce'"
    and "signedRequestMessage L verb path timestamp nonce body
       = signedRequestMessage L verb' path' timestamp' nonce' body'"
  shows "verb = verb' \<and> path = path' \<and> timestamp = timestamp' \<and> nonce = nonce'
    \<and> (body = body' \<or> body \<noteq> body' \<and> sha256 L body = sha256 L body')"
proof -
  note plain = assms(1-4) parse_int64_no_newline [OF assms(5)] parse_int64_no_newline [OF assms(6)]
    validNonce_no_newline [OF assms(7)] validNonce_no_newline [OF assms(8)]
  from assms(9) have "verb = verb' \<and> path = path' \<and> timestamp = timestamp' \<and> nonce = nonce'
      \<and> sha256 L body = sha256 L body'"
    unfolding signedRequestMessage_def by (simp only: append_separator plain hex_encode_inj simp_thms not_False_eq_True)
  then show ?thesis by blast
qed

lemma example_timestamp: "parse_int64 ''60'' = Some 60"
  by (simp add: parse_int64_def signed_digits_def decimal_value_def is_digit_def digit_value_def)

lemma signed_message_binds_witness:
  "signedRequestMessage example_lib ''POST'' ''/v1/leases'' ''60'' (replicate 32 (CHR ''n'')) ''{}''
   \<noteq> signedRequestMessage example_lib ''POST'' ''/v1/leases/r/delegate'' ''60'' (replicate 32 (CHR ''n'')) ''{}''"
proof
  note t = example_timestamp
  have n: "newline \<notin> set ''POST''" "newline \<notin> set ''/v1/leases''" "newline \<notin> set ''/v1/leases/r/delegate''"
    by (simp_all add: newline_def)
  assume "signedRequestMessage example_lib ''POST'' ''/v1/leases'' ''60'' (replicate 32 (CHR ''n'')) ''{}''
    = signedRequestMessage example_lib ''POST'' ''/v1/leases/r/delegate'' ''60'' (replicate 32 (CHR ''n'')) ''{}''"
  from signed_message_binds [OF n(1) n(1) n(2) n(3) t t example_nonce example_nonce this]
  show False by simp
qed

subsection \<open>A concrete interface\<close>

definition example_lease_request :: leaseRequest where
  "example_lease_request = \<lparr>lq_Audience = ''billing'', lq_Actions = [''read''], lq_Resources = [''customer/*''],
     lq_Expiration = zero_time, lq_TTL = [], lq_MaxDepth = 0, lq_ProofOfPossession = False, lq_MaxUses = 0,
     lq_Constraints = fmempty\<rparr>"

definition example_http :: http_lib where
  "example_http = \<lparr>lib = example_lib, parse_ip = (\<lambda>_. None), parse_cidr = (\<lambda>_. None),
     decode_lease = (\<lambda>_. Some example_lease_request), decode_delegate = (\<lambda>_. None),
     decode_workload = (\<lambda>_. None), decode_rotate = (\<lambda>_. None)\<rparr>"

definition example_handler :: Handler where
  "example_handler = \<lparr>dh_publicKeys = [replicate 32 (CHR ''p'')], dh_adminTokenHash = replicate 32 (CHR ''A''),
     dh_consumptionTokenHash = replicate 32 (CHR ''C''), dh_requireTLS = False, dh_trustForwardedProto = False,
     dh_trustedProxies = [], dh_trustedProxyNets = [], dh_hasReadiness = False\<rparr>"

definition example_header :: "bytes \<Rightarrow> bytes" where
  "example_header name =
    (if name = ''X-Upsilon-Workload-ID'' then ''w1''
     else if name = ''X-Upsilon-Timestamp'' then ''60''
     else if name = ''X-Upsilon-Nonce'' then replicate 32 (CHR ''n'')
     else if name = ''X-Upsilon-Signature'' then raw_url_encode (replicate 64 (CHR ''s''))
     else [])"

definition example_post :: http_in where
  "example_post = \<lparr>in_Method = ''POST'', in_EscapedPath = ''/v1/leases'', in_RawQuery = [], in_query = (\<lambda>_. []),
     in_header = example_header, in_Body = Some ''{}'', in_TLS = False, in_RemoteAddr = [], in_ClientIP = ''a''\<rparr>"

definition example_http_env :: http_env where
  "example_http_env = \<lparr>he_random_id = Some (replicate 18 (CHR ''r'')), he_started = 0, he_finished = 0,
     he_limit_now = 5, he_generated = 0, he_ready = Inr (), he_auth = example_env minute,
     he_call = example_env minute\<rparr>"

definition example_metrics :: metricsState where
  "example_metrics = \<lparr>ms_requests = 0, ms_denials = 0, ms_issued = 0, ms_delegated = 0, ms_revocations = 0,
     ms_latencyMicros = 0\<rparr>"

definition example_http_state :: http_state where
  "example_http_state = \<lparr>hs_db = example_db, hs_limiter = example_limiter, hs_metrics = example_metrics\<rparr>"

text \<open>A signed request without a lifetime: it is authenticated, and refused.\<close>

lemma example_http_auth:
  "authenticateWorkload example_http example_usecase ((example_env minute)\<lparr>ctx_request_id := i\<rparr>) example_post
     ''{}'' example_db
   = (Inr ((example_workload ''w1'' ''worker-one'' (CHR ''k''))
         \<lparr>w_AuthenticatedKeyThumbprint := example_thumbprint (CHR ''k'')\<rparr>),
      example_db\<lparr>db_workload_nonces := example_nonce_rows\<rparr>)"
proof -
  define message where "message = signedRequestMessage example_lib ''POST'' ''/v1/leases'' ''60''
    (replicate 32 (CHR ''n'')) ''{}''"
  have "length message \<noteq> 0" by (simp add: message_def signedRequestMessage_def)
  moreover have "time_unix 60 = minute" "minute \<noteq> zero_time" "trunc_second minute = minute"
    by (simp_all add: time_unix_def duration_defs zero_time_def trunc_second_def)
  moreover have "authenticatedWorkloadKey example_lib (example_workload ''w1'' ''worker-one'' (CHR ''k'')) m
      (replicate 64 (CHR ''s'')) y = Some (example_thumbprint (CHR ''k''))" for m y
    by (simp add: authenticatedWorkloadKey_def PublicKeySize_def) (simp add: example_lib_def)
  moreover have "GetWorkloadByID example_lib ''w1'' example_db
      = Inr (example_workload ''w1'' ''worker-one'' (CHR ''k''))"
    by (simp add: GetWorkloadByID_def select_workload_def find_workload_def)
  moreover have "time_sub minute minute = 0" "\<not> 0 < - minute" "\<not> minute < (0 :: int)" "minute + minute = 2 * minute"
    by (simp_all add: time_sub_def duration_defs)
  ultimately show ?thesis
    using example_nonce example_consumed [of minute]
    by (simp add: authenticateWorkload_def example_post_def example_header_def example_timestamp example_http_def
        message_def [symmetric] AuthenticateWorkload_def example_env_def example_usecase_def
        is_zero_time_def SignatureSize_def)
qed

lemma example_read: "readJSON (decode_lease example_http) example_post = Inr (''{}'', example_lease_request)"
proof -
  have "json_unmarshal ''{}'' = Some (JObject [])" by code_simp
  then show ?thesis
    by (simp add: readJSON_def example_post_def maxRequestBodyBytes_def rejectDuplicateBodyKeys_def example_http_def)
qed

lemma example_allowed: "fst (allow ''a'' 5 example_limiter)"
  by code_simp

lemma example_refused:
  "\<exists>c st'. Router example_http example_handler example_usecase example_http_env example_post RMint
       example_http_state = (c, st')
     \<and> gx_Status c = 400 \<and> hs_db st' = example_db\<lparr>db_workload_nonces := example_nonce_rows\<rparr>"
proof -
  have i: "validRequestID [] = False" by (simp add: validRequestID_def)
  obtain c1 where c1: "requestContext example_http_env example_post = Some c1"
    by (simp add: requestContext_def example_post_def example_header_def i example_http_env_def)
  let ?c = "securityHeaders example_handler c1"
  obtain m where m: "allow ''a'' 5 example_limiter = (True, m)"
    using example_allowed by (metis prod.collapse)
  have tls: "enforceTLS example_http example_handler example_post ?c = None"
    by (simp add: enforceTLS_def example_handler_def)
  have rate: "rateLimit example_http_env example_post ?c example_limiter = (None, m)"
    by (simp add: rateLimit_def example_http_env_def example_post_def m)
  have "mintRootLease example_http example_usecase example_http_env example_post ?c example_db
    = (respondError 400 ''INVALID_TTL'' ''invalid ttl'' ?c, example_db\<lparr>db_workload_nonces := example_nonce_rows\<rparr>)"
    using example_http_auth
    by (simp add: mintRootLease_def example_read example_http_env_def call_env_of_def parseTTL_def
        example_lease_request_def is_zero_time_def)
  then show ?thesis
    by (simp add: Router_def c1 serve_chain_def tls rate example_http_state_def)
qed

subsection \<open>Credentials\<close>

definition admin_change :: "route \<Rightarrow> bool" where
  "admin_change route \<longleftrightarrow>
    (case route of RRegisterWorkload \<Rightarrow> True | RDisableWorkload _ \<Rightarrow> True | RRotateWorkloadKey _ \<Rightarrow> True
     | RRevoke _ \<Rightarrow> True | _ \<Rightarrow> False)"

text \<open>The bearer token of a request has a digest.\<close>

definition bearer_digest :: "http_lib \<Rightarrow> http_in \<Rightarrow> bytes \<Rightarrow> bool" where
  "bearer_digest P r digest \<longleftrightarrow>
    (\<exists>token. bearerToken (unicode (lib P)) (in_header r ''Authorization'') = Some token
       \<and> sha256 (lib P) token = digest)"

lemma requireAdmin_None: "requireAdmin P h r c = None \<longleftrightarrow> bearer_digest P r (dh_adminTokenHash h)"
  by (auto simp: requireAdmin_def bearer_digest_def split: option.splits)

lemma requireConsumer_None: "requireConsumer P h r c = None \<longleftrightarrow> bearer_digest P r (dh_consumptionTokenHash h)"
  by (auto simp: requireConsumer_def bearer_digest_def split: option.splits)

text \<open>A signature over this very request, by an accepted key of an enabled workload.\<close>

definition signed_by :: "http_lib \<Rightarrow> http_env \<Rightarrow> http_in \<Rightarrow> db \<Rightarrow> Workload \<Rightarrow> bool" where
  "signed_by P env r s w \<longleftrightarrow>
    (\<exists>body key signature.
       in_Body r = Some body \<and> in_RawQuery r = []
       \<and> GetWorkloadByID (lib P) (in_header r ''X-Upsilon-Workload-ID'') s = Inr w \<and> w_DisabledAt w = None
       \<and> accepted_key w (trunc_second (now (he_auth env))) key
       \<and> raw_url_decode (in_header r ''X-Upsilon-Signature'') = Some signature
       \<and> ed25519_verify (lib P) key
           (signedRequestMessage (lib P) (in_Method r) (in_EscapedPath r)
             (in_header r ''X-Upsilon-Timestamp'') (in_header r ''X-Upsilon-Nonce'') body) signature)"

lemma authenticated_signed:
  assumes "authenticated_as P u env r body s w s1"
  obtains stored thumbprint ns where "signed_by P env r s stored"
    "w = stored\<lparr>w_AuthenticatedKeyThumbprint := thumbprint\<rparr>" "s1 = s\<lparr>db_workload_nonces := ns\<rparr>"
proof -
  obtain i where body: "in_Body r = Some body"
    and auth: "authenticateWorkload P u ((he_auth env)\<lparr>ctx_request_id := i\<rparr>) r body s = (Inr w, s1)"
    using assms by (auto simp: authenticated_as_def)
  from auth obtain timestamp signature where sig: "in_RawQuery r = []"
      "raw_url_decode (in_header r ''X-Upsilon-Signature'') = Some signature"
      "AuthenticateWorkload (lib P) u ((he_auth env)\<lparr>ctx_request_id := i\<rparr>)
         (signed_request P r body timestamp signature) s = (Inr w, s1)"
    by (rule authenticateWorkload_Inr)
  from sig(3) obtain stored thumbprint where stored:
      "GetWorkloadByID (lib P) (in_header r ''X-Upsilon-Workload-ID'') s = Inr stored" "w_DisabledAt stored = None"
      "authenticatedWorkloadKey (lib P) stored
         (signedRequestMessage (lib P) (in_Method r) (in_EscapedPath r)
           (in_header r ''X-Upsilon-Timestamp'') (in_header r ''X-Upsilon-Nonce'') body) signature
         (trunc_second (now (he_auth env))) = Some thumbprint"
      "w = stored\<lparr>w_AuthenticatedKeyThumbprint := thumbprint\<rparr>"
    by (rule AuthenticateWorkload_Inr) (simp add: signed_request_def)
  have consumed: "\<exists>d i h e. ConsumeWorkloadNonce (lib P) d i h e s = (Inr (), s1)"
    by (rule AuthenticateWorkload_Inr [OF sig(3)]) blast
  from stored(3) obtain key where "accepted_key stored (trunc_second (now (he_auth env))) key"
      "ed25519_verify (lib P) key
         (signedRequestMessage (lib P) (in_Method r) (in_EscapedPath r)
           (in_header r ''X-Upsilon-Timestamp'') (in_header r ''X-Upsilon-Nonce'') body) signature"
    by (rule authenticatedWorkloadKey_Some)
  then have "signed_by P env r s stored"
    using body sig stored unfolding signed_by_def by blast
  moreover obtain ns where "s1 = s\<lparr>db_workload_nonces := ns\<rparr>"
    using consumed by (auto simp: ConsumeWorkloadNonce_def BeginFunc_Inr elim: consume_nonce_Inr)
  ultimately show thesis using that stored(4) by blast
qed

lemma unsigned_change:
  assumes "\<not> signed_route route" "route_guard P h r c0 route = None"
    and "route_handler P h u m env r route c0 s = (c, s')" "s' \<noteq> s"
  shows "admin_change route \<and> bearer_digest P r (dh_adminTokenHash h)
    \<or> (\<exists>i. route = RConsume i) \<and> bearer_digest P r (dh_consumptionTokenHash h)"
  using assms
  by (cases route) (simp_all add: admin_change_def requireAdmin_None requireConsumer_None signed_route_def)

text \<open>C2: no request changes the database without its credential. When a request changes it, then it
  is an administrative one whose bearer token has the digest of the administration token; or the
  consumption of a lease, with the digest of the consumption token; or the minting or delegation
  of a lease, and a workload that is not disabled has signed this very method, path, timestamp,
  nonce and body with a key it is accepted with.\<close>
theorem changes_are_authenticated:
  assumes "Router P h u env r route st = (c, st')" and "hs_db st' \<noteq> hs_db st"
  shows "admin_change route \<and> bearer_digest P r (dh_adminTokenHash h)
    \<or> (\<exists>i. route = RConsume i) \<and> bearer_digest P r (dh_consumptionTokenHash h)
    \<or> (route = RMint \<or> (\<exists>i. route = RDelegate i)) \<and> (\<exists>w. signed_by P env r (hs_db st) w)"
  using assms(1)
proof (cases rule: Router_cases)
  case stopped
  then show ?thesis using assms(2) by simp
next
  case (handled c0 m)
  show ?thesis
  proof (cases "signed_route route")
    case True
    then obtain body w s1 where "authenticated_as P u env r body (hs_db st) w s1"
      using signed_handler [OF True handled(2)] assms(2) by blast
    then obtain stored where "signed_by P env r (hs_db st) stored" by (rule authenticated_signed)
    moreover have "route = RMint \<or> (\<exists>i. route = RDelegate i)"
      using True by (cases route) (simp_all add: signed_route_def)
    ultimately show ?thesis by blast
  next
    case False
    then show ?thesis using unsigned_change [OF False handled assms(2)] by blast
  qed
qed

lemma changes_are_authenticated_witness:
  "\<exists>w. signed_by example_http example_http_env example_post example_db w"
proof -
  obtain c st' where run: "Router example_http example_handler example_usecase example_http_env example_post RMint
      example_http_state = (c, st')" "hs_db st' = example_db\<lparr>db_workload_nonces := example_nonce_rows\<rparr>"
    using example_refused by blast
  moreover have "example_db\<lparr>db_workload_nonces := example_nonce_rows\<rparr> \<noteq> example_db"
    by (simp add: example_db_def example_nonce_rows_def)
  ultimately have "hs_db st' \<noteq> hs_db example_http_state" by (simp add: example_http_state_def)
  from changes_are_authenticated [OF run(1) this] show ?thesis
    by (simp add: admin_change_def example_http_state_def)
qed

subsection \<open>Refusals\<close>

text \<open>C35: a refused request changes nothing. When the answer is an error, the database is as it was;
  except that a mint or delegation that was authenticated has consumed its nonce, so that the
  database is the one the authentication left.\<close>
theorem refused_changes_nothing:
  assumes "Router P h u env r route st = (c, st')" and "400 \<le> gx_Status c"
  shows "hs_db st' = hs_db st
    \<or> (route = RMint \<or> (\<exists>i. route = RDelegate i))
      \<and> (\<exists>body w. authenticated_as P u env r body (hs_db st) w (hs_db st'))"
  using assms(1)
proof (cases rule: Router_cases)
  case stopped
  then show ?thesis by simp
next
  case (handled c0 m)
  show ?thesis
  proof (cases "signed_route route")
    case True
    then have "hs_db st' = hs_db st \<or> (\<exists>body w. authenticated_as P u env r body (hs_db st) w (hs_db st'))"
      using signed_handler [OF True handled(2)] assms(2) by force
    moreover have "route = RMint \<or> (\<exists>i. route = RDelegate i)"
      using True by (cases route) (simp_all add: signed_route_def)
    ultimately show ?thesis by blast
  next
    case False
    then show ?thesis
      using unsigned_effect [OF False, of P u "hs_db st" h m env r c0] handled(2) assms(2)
      by (simp add: single_effect_def)
  qed
qed

lemma refused_changes_nothing_witness:
  "\<exists>s' body w. authenticated_as example_http example_usecase example_http_env example_post body example_db w s'
     \<and> s' \<noteq> example_db"
proof -
  obtain c st' where run: "Router example_http example_handler example_usecase example_http_env example_post RMint
      example_http_state = (c, st')" "hs_db st' = example_db\<lparr>db_workload_nonces := example_nonce_rows\<rparr>"
      "400 \<le> gx_Status c"
    using example_refused by force
  moreover have "example_db\<lparr>db_workload_nonces := example_nonce_rows\<rparr> \<noteq> example_db"
    by (simp add: example_db_def example_nonce_rows_def)
  moreover have "hs_db example_http_state = example_db" by (simp add: example_http_state_def)
  ultimately have changed: "hs_db st' \<noteq> hs_db example_http_state" "hs_db example_http_state = example_db" by simp_all
  then obtain body w where "authenticated_as example_http example_usecase example_http_env example_post body
      example_db w (hs_db st')"
    using refused_changes_nothing [OF run(1,3)] by auto
  then show ?thesis using changed by auto
qed

subsection \<open>Refinement\<close>

text \<open>C36: the interface refines the use cases. Whatever requests come in, each runs at most two
  operations of the service, so the database stays in a state the service reaches: the integrity
  of its tables and the authority of every lease are kept, and it only moves forward.\<close>
theorem http_refines_service:
  assumes "store_ok (lib P) (hs_db st)" "authority_ok (lib P) (hs_db st)"
    and "st' = fold (run_http P h u) calls st"
  shows "(\<exists>eops. length eops \<le> 2 * length calls \<and> hs_db st' = fold (run_service (lib P) u) eops (hs_db st))
    \<and> store_ok (lib P) (hs_db st') \<and> authority_ok (lib P) (hs_db st') \<and> db_extends (hs_db st) (hs_db st')"
proof -
  have all: "list_all (\<lambda>_. True) calls" by (simp add: list_all_iff)
  have start: "service_ok P st" using assms(1,2) by (simp add: service_ok_def)
  have "\<exists>eops. length eops \<le> 2 * length calls
      \<and> hs_db (fold (run_http P h u) calls st) = fold (run_service (lib P) u) eops (hs_db st)"
  proof (induction calls arbitrary: st)
    case (Cons call calls)
    obtain eops where first: "length eops \<le> 2" "hs_db (run_http P h u call st) = fold (run_service (lib P) u) eops (hs_db st)"
      using run_http_steps by blast
    obtain rest where "length rest \<le> 2 * length calls" "hs_db (fold (run_http P h u) calls (run_http P h u call st))
        = fold (run_service (lib P) u) rest (hs_db (run_http P h u call st))"
      using Cons.IH by blast
    then show ?case using first by (intro exI [of _ "eops @ rest"]) simp
  qed (simp add: exI [of _ "[]"])
  then show ?thesis
    using http.fold_inv [OF start all, of h u] http.fold_extends [OF start all, of h u] assms(3)
    by (simp add: service_ok_def)
qed

lemma http_refines_service_witness:
  "store_ok example_lib (hs_db (run_http example_http example_handler example_usecase
      (example_http_env, example_post, RMint) example_http_state))"
proof -
  have "lib example_http = example_lib" "hs_db example_http_state = example_db"
    by (simp_all add: example_http_def example_http_state_def)
  then have "store_ok (lib example_http) (hs_db example_http_state)"
    "authority_ok (lib example_http) (hs_db example_http_state)"
    using example_store_ok example_authority by simp_all
  from http_refines_service [OF this refl, of "[(example_http_env, example_post, RMint)]" example_handler
      example_usecase]
  show ?thesis using \<open>lib example_http = example_lib\<close> by simp
qed

end
