(* ===== verification/Middleware.thy ===== *)
theory Middleware
  imports Pop
begin

section \<open>Authorization at a resource server\<close>

text \<open>
  \<open>sdk/go/middleware/middleware.go\<close>: the verifier a resource server keeps. Its state are the cached
  keys, the cached snapshot of revocations and the replay cache of proofs; \<open>Authorize\<close> decides one
  request. What one call reads from outside is an argument: the readings of the clock, the
  answers of the two metadata endpoints, and the consumer of limited-use leases.

  The decoding of the metadata documents into their structs (\<open>json.Decoder\<close> with unknown fields
  refused, then the end of the input) is an argument of the model, with the libraries of proofs
  and tokens. Each step holds a lock of the verifier while it reads or writes the state it
  changes, so a request is a sequence of such steps.
\<close>

subsection \<open>Data\<close>

definition maxMetadataBytes :: nat where
  "maxMetadataBytes = 1024 * 1024"

definition RevocationStrict :: bytes where
  "RevocationStrict = ''STRICT''"

definition RevocationBoundedStale :: bytes where
  "RevocationBoundedStale = ''BOUNDED_STALE''"

definition RevocationExpiryOnly :: bytes where
  "RevocationExpiryOnly = ''EXPIRY_ONLY''"

datatype ErrorCode =
    CodeTokenExpired
  | CodeInvalidAudience
  | CodeInsufficientAction
  | CodeResourceOutOfScope
  | CodeLeaseRevoked
  | CodeMaxUsesExceeded
  | CodeInvalidSignature
  | CodeProofRequired
  | CodeConstraintNotSatisfied
  | CodeAuthorizationUnavailable

record AuthorizationError =
  ae_Code :: ErrorCode
  ae_Status :: int
  ae_Cause :: "go_error option"

text \<open>What the verifier reads of a request. \<open>rq_header\<close> answers a header, empty when absent.\<close>

record http_request =
  rq_Method :: bytes
  rq_Host :: bytes
  rq_TLS :: bool
  rq_EscapedPath :: bytes
  rq_header :: "bytes \<Rightarrow> bytes"

text \<open>
  An answer of a metadata endpoint: the scheme and the host of the request that was answered, when
  known; the status; the body, when it can be read; the \<open>ETag\<close>. No answer is \<open>None\<close>.
\<close>

record http_response =
  rs_origin :: "(bytes \<times> bytes) option"
  rs_StatusCode :: int
  rs_Body :: "bytes option"
  rs_ETag :: bytes

type_synonym lease_consumer = "bytes \<Rightarrow> bytes \<Rightarrow> bytes \<Rightarrow> unit result"

record VerifierConfig =
  vc_JWKSURL :: bytes
  vc_RevocationsURL :: bytes
  vc_Issuer :: bytes
  vc_Audience :: bytes
  vc_CacheTTL :: duration
  vc_RevocationCacheTTL :: duration
  vc_RevocationMode :: bytes
  vc_MaxRevocationStaleness :: duration
  vc_ClockSkew :: duration
  vc_AllowInsecureHTTP :: bool
  vc_RequireProofOfPossession :: bool
  vc_ProofWindow :: duration
  vc_ExternalURL :: "(http_request \<Rightarrow> bytes result) option"
  vc_ConsumeLease :: "lease_consumer option"
  vc_ConstraintValues :: "(http_request \<Rightarrow> (bytes, bytes) fmap) option"

record Verifier =
  vf_jwksURL :: url
  vf_revocationsURL :: "url option"
  vf_cacheTTL :: duration
  vf_revocationCacheTTL :: duration
  vf_revocationMode :: bytes
  vf_maxStaleness :: duration
  vf_clockSkew :: duration
  vf_audience :: bytes
  vf_issuer :: bytes
  vf_requireProof :: bool
  vf_proofWindow :: duration
  vf_externalURL :: "(http_request \<Rightarrow> bytes result) option"
  vf_consumeLease :: "lease_consumer option"
  vf_constraintValues :: "(http_request \<Rightarrow> (bytes, bytes) fmap) option"
  vf_proofReplay :: "(bytes, instant) fmap"
  vf_keys :: "(bytes, bytes) fmap"
  vf_keysExpire :: instant
  vf_revoked :: "bytes fset"
  vf_revocationsExpire :: instant
  vf_revocationsFetched :: instant
  vf_revocationsETag :: bytes

record webKey =
  wk_KeyType :: bytes
  wk_Use :: bytes
  wk_Algorithm :: bytes
  wk_KeyID :: bytes
  wk_Curve :: bytes
  wk_X :: bytes

record revocationSet =
  rv_Revoked :: "bytes list"
  rv_GeneratedAt :: instant

record sdk_lib =
  web :: web_lib
  decode_key_set :: "bytes \<Rightarrow> webKey list option"
  decode_revocation_set :: "bytes \<Rightarrow> revocationSet option"

abbreviation auth_of :: "sdk_lib \<Rightarrow> auth_lib" where
  "auth_of S \<equiv> auth (web S)"

abbreviation unicode_of :: "sdk_lib \<Rightarrow> unicode_lib" where
  "unicode_of S \<equiv> unicode (auth_of S)"

subsection \<open>Making a verifier\<close>

definition parseMetadataURL :: "web_lib \<Rightarrow> bytes \<Rightarrow> bool \<Rightarrow> url result" where
  "parseMetadataURL W value allowInsecure =
    (case parse_request_uri W value of
       None \<Rightarrow> Inl (SdkE ErrInvalidConfig)
     | Some parsed \<Rightarrow>
         if u_Host parsed = [] \<or> u_User parsed \<noteq> None \<or> u_Fragment parsed \<noteq> [] then Inl (SdkE ErrInvalidConfig)
         else if u_Scheme parsed \<noteq> ''https'' \<and> (\<not> allowInsecure \<or> u_Scheme parsed \<noteq> ''http'')
         then Inl (SdkE ErrInvalidConfig)
         else Inr parsed)"

definition revocations_url :: "web_lib \<Rightarrow> VerifierConfig \<Rightarrow> url \<Rightarrow> bytes \<Rightarrow> url option result" where
  "revocations_url W config jwksURL mode =
    (if mode = RevocationExpiryOnly then Inr None
     else
       let revocationsValue =
         (if vc_RevocationsURL config = []
          then url_string W (jwksURL\<lparr>u_Path := ''/.well-known/revocations.json'', u_RawQuery := [], u_Fragment := []\<rparr>)
          else vc_RevocationsURL config)
       in case parseMetadataURL W revocationsValue (vc_AllowInsecureHTTP config) of
         Inl _ \<Rightarrow> Inl (SdkE ErrInvalidConfig)
       | Inr revocationsURL \<Rightarrow> Inr (Some revocationsURL))"

definition or_default :: "duration \<Rightarrow> duration \<Rightarrow> duration" where
  "or_default value standard = (if value = 0 then standard else value)"

definition New :: "web_lib \<Rightarrow> VerifierConfig \<Rightarrow> Verifier result" where
  "New W config =
    (case parseMetadataURL W (vc_JWKSURL config) (vc_AllowInsecureHTTP config) of
       Inl _ \<Rightarrow> Inl (SdkE ErrInvalidConfig)
     | Inr jwksURL \<Rightarrow>
     if trim_space (vc_Issuer config) = [] \<or> trim_space (vc_Audience config) = [] then Inl (SdkE ErrInvalidConfig)
     else
       let mode = (if vc_RevocationMode config = [] then RevocationStrict else vc_RevocationMode config);
           cacheTTL = or_default (vc_CacheTTL config) (5 * minute);
           revocationCacheTTL = or_default (vc_RevocationCacheTTL config) (30 * second);
           maxStaleness = (if mode = RevocationBoundedStale then or_default (vc_MaxRevocationStaleness config) (5 * minute)
             else vc_MaxRevocationStaleness config);
           proofWindow = or_default (vc_ProofWindow config) (30 * second)
       in
       if mode \<noteq> RevocationStrict \<and> mode \<noteq> RevocationBoundedStale \<and> mode \<noteq> RevocationExpiryOnly
       then Inl (SdkE ErrInvalidConfig)
       else case revocations_url W config jwksURL mode of
         Inl err \<Rightarrow> Inl err
       | Inr revocationsURL \<Rightarrow>
       if cacheTTL < second \<or> cacheTTL > 15 * minute then Inl (SdkE ErrInvalidConfig)
       else if revocationCacheTTL < 100 * 1000000 \<or> revocationCacheTTL > 15 * minute then Inl (SdkE ErrInvalidConfig)
       else if (if mode = RevocationBoundedStale then maxStaleness < revocationCacheTTL \<or> maxStaleness > hour
                else maxStaleness \<noteq> 0)
       then Inl (SdkE ErrInvalidConfig)
       else if vc_ClockSkew config < 0 \<or> vc_ClockSkew config > minute then Inl (SdkE ErrInvalidConfig)
       else if proofWindow < second \<or> proofWindow > minute then Inl (SdkE ErrInvalidConfig)
       else Inr
         \<lparr>vf_jwksURL = jwksURL, vf_revocationsURL = revocationsURL, vf_cacheTTL = cacheTTL,
          vf_revocationCacheTTL = revocationCacheTTL, vf_revocationMode = mode, vf_maxStaleness = maxStaleness,
          vf_clockSkew = vc_ClockSkew config, vf_audience = vc_Audience config, vf_issuer = vc_Issuer config,
          vf_requireProof = vc_RequireProofOfPossession config, vf_proofWindow = proofWindow,
          vf_externalURL = vc_ExternalURL config, vf_consumeLease = vc_ConsumeLease config,
          vf_constraintValues = vc_ConstraintValues config, vf_proofReplay = fmempty, vf_keys = fmempty,
          vf_keysExpire = zero_time, vf_revoked = {||}, vf_revocationsExpire = zero_time,
          vf_revocationsFetched = zero_time, vf_revocationsETag = []\<rparr>)"

text \<open>The redirect policy of the client \<open>New\<close> makes when none is given.\<close>

definition sameOriginRedirect :: "unicode_lib \<Rightarrow> url option list \<Rightarrow> url \<Rightarrow> unit result" where
  "sameOriginRedirect U allowed target =
    (if list_ex (\<lambda>candidate. case candidate of None \<Rightarrow> False
         | Some c \<Rightarrow> u_Scheme target = u_Scheme c \<and> equal_fold U (u_Host target) (u_Host c)) allowed
     then Inr () else Inl (Opaque ''metadata redirect changed origin''))"

subsection \<open>Metadata\<close>

text \<open>An answer is only used when it comes from the scheme and host that were asked.\<close>

definition same_origin :: "unicode_lib \<Rightarrow> http_response \<Rightarrow> url \<Rightarrow> bool" where
  "same_origin U response target =
    (case rs_origin response of
       None \<Rightarrow> False
     | Some (scheme, host) \<Rightarrow> scheme = u_Scheme target \<and> equal_fold U host (u_Host target))"

text \<open>\<open>io.ReadAll\<close> of the body, limited to one byte more than the size allowed.\<close>

definition read_body :: "http_response \<Rightarrow> bytes option" where
  "read_body response = map_option (take (maxMetadataBytes + 1)) (rs_Body response)"

text \<open>The package's own \<open>rejectDuplicateJSONKeys\<close>.\<close>

definition rejectDuplicateMetadataKeys :: "bytes \<Rightarrow> unit result" where
  "rejectDuplicateMetadataKeys data =
    (case json_unmarshal data of
       None \<Rightarrow> Inl (Opaque ''trailing JSON data'')
     | Some value \<Rightarrow> if distinct_keys value then Inr () else Inl (Opaque ''duplicate JSON key''))"

definition fetchJSON :: "sdk_lib \<Rightarrow> url \<Rightarrow> (bytes \<Rightarrow> 'a option) \<Rightarrow> http_response option \<Rightarrow> 'a result" where
  "fetchJSON S target decode answer =
    (case answer of
       None \<Rightarrow> Inl (Opaque ''fetch metadata'')
     | Some response \<Rightarrow>
     if \<not> same_origin (unicode_of S) response target then Inl (Opaque ''metadata redirect changed origin'')
     else if rs_StatusCode response \<noteq> 200 then Inl (Opaque ''fetch metadata: status'')
     else case read_body response of
       None \<Rightarrow> Inl (Opaque ''read metadata'')
     | Some body \<Rightarrow>
     if length body > maxMetadataBytes then Inl (Opaque ''metadata response too large'')
     else if \<not> ok (rejectDuplicateMetadataKeys body) then Inl (Opaque ''metadata response contains duplicate keys'')
     else case decode body of
       None \<Rightarrow> Inl (Opaque ''decode metadata'')
     | Some destination \<Rightarrow> Inr destination)"

text \<open>Keys of another kind, and keys that are not 32 bytes, are passed over.\<close>

fun fetch_keys_loop :: "auth_lib \<Rightarrow> (bytes, bytes) fmap \<Rightarrow> webKey list \<Rightarrow> (bytes, bytes) fmap result" where
  "fetch_keys_loop L keys [] = Inr keys"
| "fetch_keys_loop L keys (key # rest) =
    (if wk_KeyType key \<noteq> ''OKP'' \<or> wk_Curve key \<noteq> ''Ed25519'' \<or> wk_Algorithm key \<noteq> ''EdDSA''
        \<or> wk_Use key \<noteq> ''sig'' \<or> wk_KeyID key = []
     then fetch_keys_loop L keys rest
     else case raw_url_decode (wk_X key) of
       None \<Rightarrow> fetch_keys_loop L keys rest
     | Some decoded \<Rightarrow>
     if length decoded \<noteq> PublicKeySize then fetch_keys_loop L keys rest
     else if fmlookup keys (wk_KeyID key) \<noteq> None then Inl (SdkE ErrInvalidJWKS)
     else case PublicKeyID L decoded of
       Inl _ \<Rightarrow> Inl (SdkE ErrInvalidJWKS)
     | Inr expectedID \<Rightarrow>
     if wk_KeyID key \<noteq> expectedID then Inl (SdkE ErrInvalidJWKS)
     else fetch_keys_loop L (fmupd (wk_KeyID key) decoded keys) rest)"

definition fetchKeys :: "sdk_lib \<Rightarrow> Verifier \<Rightarrow> http_response option \<Rightarrow> (bytes, bytes) fmap result" where
  "fetchKeys S v answer =
    (case fetchJSON S (vf_jwksURL v) (decode_key_set S) answer of
       Inl err \<Rightarrow> Inl err
     | Inr published \<Rightarrow>
     (case fetch_keys_loop (auth_of S) fmempty published of
       Inl err \<Rightarrow> Inl err
     | Inr keys \<Rightarrow> if fmlen keys = 0 then Inl (SdkE ErrInvalidJWKS) else Inr keys))"

definition cachedKey :: "Verifier \<Rightarrow> instant \<Rightarrow> bytes \<Rightarrow> bytes option" where
  "cachedKey v now kid = (if \<not> now < vf_keysExpire v then None else fmlookup (vf_keys v) kid)"

text \<open>The method \<open>key\<close> reads the clock at both looks into the cache and after a fetch.\<close>

definition verifier_key ::
    "sdk_lib \<Rightarrow> (nat \<Rightarrow> instant) \<Rightarrow> http_response option \<Rightarrow> bytes \<Rightarrow> Verifier \<Rightarrow> bytes result \<times> Verifier" where
  "verifier_key S clock answer kid v =
    (case cachedKey v (clock 0) kid of
       Some k \<Rightarrow> (Inr k, v)
     | None \<Rightarrow>
     (case cachedKey v (clock 1) kid of
       Some k \<Rightarrow> (Inr k, v)
     | None \<Rightarrow>
     (case fetchKeys S v answer of
       Inl err \<Rightarrow> (Inl err, v)
     | Inr keys \<Rightarrow>
       let v' = v\<lparr>vf_keys := keys, vf_keysExpire := clock 2 + vf_cacheTTL v\<rparr>
       in case fmlookup keys kid of
         None \<Rightarrow> (Inl (SdkE ErrInvalidJWKS), v')
       | Some k \<Rightarrow> (Inr k, v'))))"

subsection \<open>Revocations\<close>

definition fetchRevocations ::
    "sdk_lib \<Rightarrow> Verifier \<Rightarrow> http_response option \<Rightarrow> (revocationSet option \<times> bytes) result" where
  "fetchRevocations S v answer =
    (case (vf_revocationsURL v, answer) of
       (Some target, Some response) \<Rightarrow>
         if \<not> same_origin (unicode_of S) response target then Inl (Opaque ''revocation redirect changed origin'')
         else if rs_StatusCode response = 304
         then (if is_zero_time (vf_revocationsFetched v)
               then Inl (Opaque ''revocation endpoint returned 304 without a cached snapshot'')
               else Inr (None, rs_ETag response))
         else if rs_StatusCode response \<noteq> 200 then Inl (Opaque ''fetch revocations: status'')
         else (case read_body response of
           None \<Rightarrow> Inl (Opaque ''invalid revocation response'')
         | Some body \<Rightarrow>
           if length body > maxMetadataBytes \<or> \<not> ok (rejectDuplicateMetadataKeys body)
           then Inl (Opaque ''invalid revocation response'')
           else case decode_revocation_set S body of
             None \<Rightarrow> Inl (Opaque ''decode revocations'')
           | Some published \<Rightarrow> Inr (Some published, rs_ETag response))
     | _ \<Rightarrow> Inl (Opaque ''fetch revocations''))"

definition cachedRevocation :: "Verifier \<Rightarrow> instant \<Rightarrow> bytes \<Rightarrow> bool option" where
  "cachedRevocation v now leaseID =
    (if \<not> now < vf_revocationsExpire v then None else Some (leaseID |\<in>| vf_revoked v))"

definition staleRevocation :: "Verifier \<Rightarrow> instant \<Rightarrow> bytes \<Rightarrow> bool option" where
  "staleRevocation v now leaseID =
    (if is_zero_time (vf_revocationsFetched v) \<or> time_sub now (vf_revocationsFetched v) > vf_maxStaleness v
     then None else Some (leaseID |\<in>| vf_revoked v))"

definition stored_snapshot :: "Verifier \<Rightarrow> bytes list \<Rightarrow> instant \<Rightarrow> bytes \<Rightarrow> Verifier" where
  "stored_snapshot v ids now etag =
    v\<lparr>vf_revoked := fset_of_list ids, vf_revocationsExpire := now + vf_revocationCacheTTL v,
      vf_revocationsFetched := now, vf_revocationsETag := etag\<rparr>"

text \<open>
  The clock is read at both looks into the cache, then once after the fetch (for a stale answer, a
  confirmed snapshot, or the time of a new one) and once when a new snapshot is stored.
\<close>

definition isRevoked ::
    "sdk_lib \<Rightarrow> (nat \<Rightarrow> instant) \<Rightarrow> http_response option \<Rightarrow> bytes \<Rightarrow> Verifier \<Rightarrow> bool result \<times> Verifier" where
  "isRevoked S clock answer leaseID v =
    (if vf_revocationMode v = RevocationExpiryOnly then (Inr False, v)
     else case cachedRevocation v (clock 0) leaseID of
       Some revoked \<Rightarrow> (Inr revoked, v)
     | None \<Rightarrow>
     (case cachedRevocation v (clock 1) leaseID of
       Some revoked \<Rightarrow> (Inr revoked, v)
     | None \<Rightarrow>
     (case fetchRevocations S v answer of
       Inl err \<Rightarrow>
         (if vf_revocationMode v = RevocationBoundedStale
          then (case staleRevocation v (clock 2) leaseID of
                  Some revoked \<Rightarrow> (Inr revoked, v)
                | None \<Rightarrow> (Inl err, v))
          else (Inl err, v))
     | Inr (None, etag) \<Rightarrow>
         (Inr (leaseID |\<in>| vf_revoked v),
          v\<lparr>vf_revocationsExpire := clock 2 + vf_revocationCacheTTL v, vf_revocationsFetched := clock 2\<rparr>)
     | Inr (Some published, etag) \<Rightarrow>
         if is_zero_time (rv_GeneratedAt published) \<or> rv_GeneratedAt published > clock 2 + vf_clockSkew v
         then (Inl (Opaque ''invalid revocation snapshot time''), v)
         else if [] \<in> set (rv_Revoked published) then (Inl (Opaque ''invalid revocation set''), v)
         else (Inr (leaseID \<in> set (rv_Revoked published)),
               stored_snapshot v (rv_Revoked published) (clock 3) etag))))"

subsection \<open>Proofs\<close>

definition proofTarget :: "Verifier \<Rightarrow> http_request \<Rightarrow> bytes result" where
  "proofTarget v request =
    (case vf_externalURL v of
       Some externalURL \<Rightarrow> externalURL request
     | None \<Rightarrow>
         if rq_Host request = [] then Inl (SdkE ErrInvalidProof)
         else Inr ((if rq_TLS request then ''https'' else ''http'') @ ''://'' @ rq_Host request @ rq_EscapedPath request))"

definition max_replay_entries :: nat where
  "max_replay_entries = 10000"

definition drop_expired :: "instant \<Rightarrow> (bytes, instant) fmap \<Rightarrow> (bytes, instant) fmap" where
  "drop_expired now m = fmfilter (\<lambda>candidate. \<not> now > the (fmlookup m candidate)) m"

definition store_proof :: "bytes \<Rightarrow> instant \<Rightarrow> instant \<Rightarrow> Verifier \<Rightarrow> bool \<times> Verifier" where
  "store_proof marker expiresAt now v =
    (if fmlen (vf_proofReplay v) \<ge> max_replay_entries
     then let kept = drop_expired now (vf_proofReplay v)
          in if fmlen kept \<ge> max_replay_entries then (False, v\<lparr>vf_proofReplay := kept\<rparr>)
             else (True, v\<lparr>vf_proofReplay := fmupd marker expiresAt kept\<rparr>)
     else (True, v\<lparr>vf_proofReplay := fmupd marker expiresAt (vf_proofReplay v)\<rparr>))"

definition consumeProof :: "bytes \<Rightarrow> instant \<Rightarrow> instant \<Rightarrow> Verifier \<Rightarrow> bool \<times> Verifier" where
  "consumeProof marker expiresAt now v =
    (case fmlookup (vf_proofReplay v) marker of
       Some existing \<Rightarrow>
         if \<not> now > existing then (False, v)
         else store_proof marker expiresAt now v
     | None \<Rightarrow> store_proof marker expiresAt now v)"

definition verifyProof ::
    "sdk_lib \<Rightarrow> instant \<Rightarrow> instant \<Rightarrow> http_request \<Rightarrow> bytes \<Rightarrow> LeaseClaims \<Rightarrow> Verifier \<Rightarrow> unit result \<times> Verifier" where
  "verifyProof S now jwt_now request accessToken claims v =
    (case c_Confirmation claims of
       None \<Rightarrow> (if vf_requireProof v then Inl (SdkE ErrInvalidProof) else Inr (), v)
     | Some confirmation \<Rightarrow>
       let proofValue = rq_header request ''DPoP''
       in if proofValue = [] then (Inl (SdkE ErrInvalidProof), v)
       else case proofTarget v request of
         Inl _ \<Rightarrow> (Inl (SdkE ErrInvalidProof), v)
       | Inr target \<Rightarrow>
       (case Verify (web S) jwt_now proofValue (rq_Method request) target accessToken (jkt confirmation)
           now (vf_proofWindow v) of
         Inl err \<Rightarrow> (Inl err, v)
       | Inr verified \<Rightarrow>
         (case consumeProof (vp_Thumbprint verified @ '':'' @ vp_ID verified) (vp_ReplayExpiry verified) now v of
            (False, v') \<Rightarrow> (Inl (SdkE ErrInvalidProof), v')
          | (True, v') \<Rightarrow> (Inr (), v'))))"

subsection \<open>Authorization\<close>

text \<open>What one call of \<open>Authorize\<close> reads from outside the verifier.\<close>

record authorize_env =
  en_key_clock :: "nat \<Rightarrow> instant"
  en_key_answer :: "http_response option"
  en_jwt_now :: instant
  en_proof_now :: instant
  en_proof_jwt_now :: instant
  en_revocation_clock :: "nat \<Rightarrow> instant"
  en_revocation_answer :: "http_response option"

definition authorizationError :: "ErrorCode \<Rightarrow> int \<Rightarrow> go_error option \<Rightarrow> AuthorizationError" where
  "authorizationError code status cause = \<lparr>ae_Code = code, ae_Status = status, ae_Cause = cause\<rparr>"

definition token_error :: "go_error \<Rightarrow> AuthorizationError" where
  "token_error err =
    (if errors_is err (CryptoE ErrTokenExpired) then authorizationError CodeTokenExpired 401 (Some err)
     else if errors_is err (CryptoE ErrInvalidAudience) then authorizationError CodeInvalidAudience 401 (Some err)
     else authorizationError CodeInvalidSignature 401 (Some err))"

definition resourceAllowed :: "unicode_lib \<Rightarrow> bytes list \<Rightarrow> bytes \<Rightarrow> bool" where
  "resourceAllowed U resources required =
    (if \<not> ok (CanonicalizeValue U required) then False
     else list_ex (\<lambda>pattern. Allows U pattern required) resources)"

text \<open>The method of the request is never taken from \<open>ConstraintValues\<close>.\<close>

definition constraintsSatisfied :: "unicode_lib \<Rightarrow> http_request \<Rightarrow> constraints \<Rightarrow> Verifier \<Rightarrow> bool" where
  "constraintsSatisfied U request required v =
    (let own = (case vf_constraintValues v of None \<Rightarrow> fmempty | Some f \<Rightarrow> f request)
     in Satisfied U required (fmupd ''http_method'' (to_upper U (rq_Method request)) own))"

definition consume_use ::
    "http_request \<Rightarrow> bytes \<Rightarrow> LeaseClaims \<Rightarrow> Verifier \<Rightarrow> AuthorizationError option" where
  "consume_use request tokenString claims v =
    (if sint (ups_MaxUses (c_UPS claims)) > 0 then
       (let idempotencyKey = rq_header request ''Idempotency-Key''
        in case vf_consumeLease v of
          None \<Rightarrow> Some (authorizationError CodeAuthorizationUnavailable 503 None)
        | Some consumeLease \<Rightarrow>
          if idempotencyKey = [] then Some (authorizationError CodeAuthorizationUnavailable 503 None)
          else (case consumeLease (ups_LeaseID (c_UPS claims)) tokenString idempotencyKey of
            Inr _ \<Rightarrow> None
          | Inl err \<Rightarrow>
              if errors_is err (DomainE ErrMaxUsesExceeded) \<or> errors_is err (SdkE ErrUsesExhausted)
              then Some (authorizationError CodeMaxUsesExceeded 403 (Some err))
              else Some (authorizationError CodeAuthorizationUnavailable 503 (Some err))))
     else None)"

text \<open>The checks on the capability of a verified, unrevoked token, in the order of the code.\<close>

definition check_capability ::
    "sdk_lib \<Rightarrow> http_request \<Rightarrow> bytes \<Rightarrow> LeaseClaims \<Rightarrow> bytes \<Rightarrow> bytes \<Rightarrow> Verifier \<Rightarrow> AuthorizationError + LeaseClaims" where
  "check_capability S request tokenString claims action requiredResource v =
    (if action \<notin> set (ups_Actions (c_UPS claims))
     then Inl (authorizationError CodeInsufficientAction 403 None)
     else if \<not> resourceAllowed (unicode_of S) (ups_Resources (c_UPS claims)) requiredResource
     then Inl (authorizationError CodeResourceOutOfScope 403 None)
     else if \<not> constraintsSatisfied (unicode_of S) request
          (case ups_Constraints (c_UPS claims) of None \<Rightarrow> fmempty | Some m \<Rightarrow> m) v
     then Inl (authorizationError CodeConstraintNotSatisfied 403 None)
     else case consume_use request tokenString claims v of
       Some err \<Rightarrow> Inl err
     | None \<Rightarrow> Inr claims)"

definition Authorize ::
    "sdk_lib \<Rightarrow> authorize_env \<Rightarrow> http_request option \<Rightarrow> bytes \<Rightarrow> bytes \<Rightarrow> bytes \<Rightarrow> Verifier
      \<Rightarrow> (AuthorizationError + LeaseClaims) \<times> Verifier" where
  "Authorize S env given tokenString action requiredResource v =
    (case given of
       None \<Rightarrow> (Inl (authorizationError CodeInvalidSignature 401 None), v)
     | Some request \<Rightarrow>
     if action = [] \<or> requiredResource = [] \<or> length tokenString = 0 \<or> length tokenString > MaxLeaseTokenBytes
     then (Inl (authorizationError CodeInvalidSignature 401 None), v)
     else case TokenKeyID tokenString of
       Inl err \<Rightarrow> (Inl (authorizationError CodeInvalidSignature 401 (Some err)), v)
     | Inr kid \<Rightarrow>
     (case verifier_key S (en_key_clock env) (en_key_answer env) kid v of
       (Inl err, v1) \<Rightarrow> (Inl (authorizationError CodeAuthorizationUnavailable 503 (Some err)), v1)
     | (Inr publicKey, v1) \<Rightarrow>
     (case VerifyLeaseToken (auth_of S) (en_jwt_now env) tokenString (fmupd kid publicKey fmempty)
         (vf_issuer v1) (vf_audience v1) (vf_clockSkew v1) of
       Inl err \<Rightarrow> (Inl (token_error err), v1)
     | Inr claims \<Rightarrow>
     (case verifyProof S (en_proof_now env) (en_proof_jwt_now env) request tokenString claims v1 of
       (Inl err, v2) \<Rightarrow> (Inl (authorizationError CodeProofRequired 401 (Some err)), v2)
     | (Inr _, v2) \<Rightarrow>
     (case isRevoked S (en_revocation_clock env) (en_revocation_answer env) (ups_LeaseID (c_UPS claims)) v2 of
       (Inl err, v3) \<Rightarrow> (Inl (authorizationError CodeAuthorizationUnavailable 503 (Some err)), v3)
     | (Inr revoked, v3) \<Rightarrow>
       if revoked then (Inl (authorizationError CodeLeaseRevoked 401 (Some (DomainE ErrLeaseRevoked))), v3)
       else (check_capability S request tokenString claims action requiredResource v3, v3))))))"

subsection \<open>The handler\<close>

definition bearerToken :: "unicode_lib \<Rightarrow> bytes \<Rightarrow> bytes option" where
  "bearerToken U header =
    (case string_fields header of
       [scheme, token] \<Rightarrow> if \<not> equal_fold U scheme ''Bearer'' \<or> token = [] then None else Some token
     | _ \<Rightarrow> None)"

text \<open>The resource a route requires: a constant, a function of the request, or something else.\<close>

datatype resource_resolver =
    ResourceText bytes
  | ResourceFunction "http_request \<Rightarrow> bytes"
  | ResourceOther

definition resolveResource :: "http_request \<Rightarrow> resource_resolver \<Rightarrow> bytes \<times> bool" where
  "resolveResource request resolver =
    (case resolver of
       ResourceText value \<Rightarrow> (value, value \<noteq> [])
     | ResourceFunction f \<Rightarrow> (f request, True)
     | ResourceOther \<Rightarrow> ([], False))"

text \<open>What the handler does with a request: it answers a status with an error, perhaps asking for a
  bearer token, or passes the request on with its claims.\<close>

datatype gate =
    Aborted int "ErrorCode option" bool
  | Passed LeaseClaims

definition writeAuthorizationError :: "AuthorizationError \<Rightarrow> gate" where
  "writeAuthorizationError err = Aborted (ae_Status err) (Some (ae_Code err)) (ae_Status err = 401)"

definition Require ::
    "sdk_lib \<Rightarrow> authorize_env \<Rightarrow> bytes \<Rightarrow> resource_resolver \<Rightarrow> http_request \<Rightarrow> Verifier \<Rightarrow> gate \<times> Verifier" where
  "Require S env action resolver request v =
    (let (requiredResource, resolved) = resolveResource request resolver
     in if action = [] \<or> \<not> resolved \<or> requiredResource = [] then (Aborted 500 None False, v)
     else case bearerToken (unicode_of S) (rq_header request ''Authorization'') of
       None \<Rightarrow> (writeAuthorizationError (authorizationError CodeInvalidSignature 401 None), v)
     | Some tokenString \<Rightarrow>
     (case Authorize S env (Some request) tokenString action requiredResource v of
       (Inl err, v') \<Rightarrow> (writeAuthorizationError err, v')
     | (Inr claims, v') \<Rightarrow> (Passed claims, v')))"

end
