(* ===== verification/Token_Text.thy ===== *)
theory Token_Text
  imports Token Json_Text
begin

section \<open>Lease tokens that parse back\<close>

text \<open>
  The text of a lease token: the members the JWT library writes for a header and for claims, in the
  order and with the omissions of the struct tags of \<open>internal/crypto/ed25519.go\<close>. What
  \<open>SignLeaseClaims\<close> signs, \<open>TokenKeyID\<close> and \<open>VerifyLeaseToken\<close> read back.
\<close>

subsection \<open>The text of a token\<close>

definition lease_header :: "bytes \<Rightarrow> json" where
  "lease_header kid = JObject
     [(''alg'', JString ''EdDSA''), (''kid'', JString kid), (''typ'', JString LeaseTokenType)]"

definition optional_text :: "bytes \<Rightarrow> bytes \<Rightarrow> (bytes \<times> json) list" where
  "optional_text name value = (if value = [] then [] else [(name, JString value)])"

definition capability_members :: "CapabilityClaims \<Rightarrow> (int \<Rightarrow> bytes) \<Rightarrow> (bytes \<times> json) list \<Rightarrow> (bytes \<times> json) list" where
  "capability_members ups decimal limits =
    [(''version'', JNumber (decimal (sint (ups_Version ups)))), (''lease_id'', JString (ups_LeaseID ups)),
     (''root_lease_id'', JString (ups_RootLeaseID ups)),
     (''root_workload_id'', JString (ups_RootWorkloadID ups)), (''workload_id'', JString (ups_WorkloadID ups))]
    @ optional_text ''delegated_by_workload_id'' (ups_DelegatedByWorkloadID ups)
    @ [(''actions'', JArray (map JString (ups_Actions ups))), (''resources'', JArray (map JString (ups_Resources ups))),
       (''depth'', JNumber (decimal (sint (ups_Depth ups)))), (''max_depth'', JNumber (decimal (sint (ups_MaxDepth ups))))]
    @ optional_text ''parent_lease_id'' (ups_ParentLeaseID ups)
    @ [(''max_uses'', JNumber (decimal (sint (ups_MaxUses ups)))), (''constraints'', JObject limits)]"

definition claims_members ::
    "LeaseClaims \<Rightarrow> (int \<Rightarrow> bytes) \<Rightarrow> (bytes \<times> json) list \<Rightarrow> (bytes \<times> json) list \<Rightarrow> (bytes \<times> json) list" where
  "claims_members claims decimal limits registered =
    (''ups'', JObject (capability_members (c_UPS claims) decimal limits))
    # (case c_Confirmation claims of None \<Rightarrow> [] | Some cnf \<Rightarrow> [(''cnf'', JObject [(''jkt'', JString (jkt cnf))])])
    @ registered"

text \<open>
  A text encodes a header and claims when its parts decode to these members; the registered claims
  are some of the seven members the library names, each at most once.
\<close>

definition encodes_token :: "bytes \<Rightarrow> bytes \<Rightarrow> LeaseClaims \<Rightarrow> bool" where
  "encodes_token raw kid claims \<longleftrightarrow>
    (\<exists>part0 part1 part2 headerBytes payloadBytes decimal limits registered.
      split_on CHR ''.'' raw = [part0, part1, part2] \<and> part0 \<noteq> [] \<and> part1 \<noteq> [] \<and> part2 \<noteq> []
      \<and> raw_url_decode part0 = Some headerBytes \<and> raw_url_decode part1 = Some payloadBytes
      \<and> json_unmarshal headerBytes = Some (lease_header kid)
      \<and> json_unmarshal payloadBytes = Some (JObject (claims_members claims decimal limits registered))
      \<and> distinct (map fst limits) \<and> list_all (\<lambda>m. \<exists>v. snd m = JString v) limits
      \<and> distinct (map fst registered) \<and> list_all (\<lambda>m. distinct_keys (snd m)) registered
      \<and> fst ` set registered \<subseteq> {''iss'', ''sub'', ''aud'', ''exp'', ''nbf'', ''iat'', ''jti''})"

subsection \<open>Reading the key identifier back\<close>

lemma optional_text_names: "fst ` set (optional_text name value) \<subseteq> {name}"
  by (simp add: optional_text_def)

lemma capability_names:
  "fst ` set (capability_members ups decimal limits) \<subseteq> set allowedCapability"
  "set requiredCapability \<subseteq> fst ` set (capability_members ups decimal limits)"
  "distinct (map fst (capability_members ups decimal limits))"
  by (auto simp: capability_members_def optional_text_def allowedCapability_def requiredCapability_def)

lemma capability_distinct_keys:
  assumes "distinct (map fst limits)" "list_all (\<lambda>m. \<exists>v. snd m = JString v) limits"
  shows "distinct_keys (JObject (capability_members ups decimal limits))"
proof -
  have "list_all (\<lambda>m. distinct_keys (snd m)) limits"
    using assms(2) by (auto simp: list_all_iff)
  then show ?thesis
    using assms(1) capability_names(3) [of ups decimal limits]
    by (auto simp: capability_members_def optional_text_def list_all_iff)
qed

lemma members_lookup:
  assumes "distinct (map fst ms)"
  shows "fmlookup (fmap_of_list (rev ms)) name = map_of ms name"
proof -
  have "distinct (map fst (rev ms))" using assms by (simp flip: rev_map)
  then have "map_of (rev ms) name = Some v \<longleftrightarrow> map_of ms name = Some v" for v
    using assms by (simp add: map_of_eq_Some_iff)
  then have "map_of (rev ms) name = map_of ms name" by (metis not_None_eq)
  then show ?thesis by (simp add: fmlookup_of_list)
qed

lemma members_names:
  "fmpred (\<lambda>name _. name \<in> N) (fmap_of_list (rev ms)) \<longleftrightarrow> fst ` set ms \<subseteq> N"
proof -
  have "dom (map_of (rev ms)) = fst ` set ms" by (simp add: dom_map_of_conv_image_fst)
  then show ?thesis by (auto simp: fmpred_iff fmlookup_of_list)
qed

lemma claims_names:
  assumes "fst ` set registered \<subseteq> {''iss'', ''sub'', ''aud'', ''exp'', ''nbf'', ''iat'', ''jti''}"
    and "distinct (map fst registered)"
  shows "fst ` set (claims_members claims decimal limits registered) \<subseteq> set allowedClaims"
    "distinct (map fst (claims_members claims decimal limits registered))"
  using assms by (auto simp: claims_members_def allowedClaims_def split: option.splits)

lemma check_payload_encoded:
  assumes "fst ` set registered \<subseteq> {''iss'', ''sub'', ''aud'', ''exp'', ''nbf'', ''iat'', ''jti''}"
    and "distinct (map fst registered)"
  shows "check_payload (fmap_of_list (rev (claims_members claims decimal limits registered))) = Inr ()"
proof -
  let ?ms = "claims_members claims decimal limits registered" and ?cap = "capability_members (c_UPS claims) decimal limits"
  note names = claims_names [OF assms, of claims decimal limits]
  note look = members_lookup [OF names(2)]
  have ups: "map_of ?ms ''ups'' = Some (JObject ?cap)" by (simp add: claims_members_def)
  have cnf: "map_of ?ms ''cnf'' = map_option (\<lambda>c. JObject [(''jkt'', JString (jkt c))]) (c_Confirmation claims)"
  proof -
    have "map_of registered ''cnf'' = None"
      using assms(1) by (auto simp: map_of_eq_None_iff)
    then show ?thesis by (cases "c_Confirmation claims") (simp_all add: claims_members_def)
  qed
  have "fmlookup (fmap_of_list (rev ?cap)) name \<noteq> None" if "name \<in> set requiredCapability" for name
    using that capability_names(2) [of "c_UPS claims" decimal limits]
    by (auto simp: members_lookup [OF capability_names(3)] map_of_eq_None_iff)
  then have required: "\<not> list_ex (\<lambda>name. fmlookup (fmap_of_list (rev ?cap)) name = None) requiredCapability"
    by (auto simp: list_ex_iff)
  have "check_confirmation (fmap_of_list (rev ?ms)) = Inr ()"
    by (cases "c_Confirmation claims") (simp_all add: check_confirmation_def look cnf)
  then show ?thesis
    using names(1) capability_names(1) [of "c_UPS claims" decimal limits] required
    by (simp add: check_payload_def members_names member_object_def look ups)
qed

lemma TokenKeyID_encoded:
  assumes "encodes_token raw kid claims" "kid \<noteq> []" "length raw \<le> MaxLeaseTokenBytes"
  shows "TokenKeyID raw = Inr kid"
proof -
  obtain part0 part1 part2 hb pb decimal limits registered where
    parts: "split_on CHR ''.'' raw = [part0, part1, part2]" "part0 \<noteq> []" "part1 \<noteq> []" "part2 \<noteq> []"
      "raw_url_decode part0 = Some hb" "raw_url_decode part1 = Some pb"
    and json: "json_unmarshal hb = Some (lease_header kid)"
      "json_unmarshal pb = Some (JObject (claims_members claims decimal limits registered))"
    and limits: "distinct (map fst limits)" "list_all (\<lambda>m. \<exists>v. snd m = JString v) limits"
    and reg: "distinct (map fst registered)" "list_all (\<lambda>m. distinct_keys (snd m)) registered"
      "fst ` set registered \<subseteq> {''iss'', ''sub'', ''aud'', ''exp'', ''nbf'', ''iat'', ''jti''}"
    using assms(1) unfolding encodes_token_def by (elim exE conjE) (rule that; assumption)
  let ?ms = "claims_members claims decimal limits registered"
  have "distinct_keys (lease_header kid)" by (simp add: lease_header_def)
  moreover have "distinct_keys (JObject ?ms)"
    using claims_names(2) [OF reg(3,1)] capability_distinct_keys [OF limits] reg(2)
    by (auto simp: claims_members_def list_all_iff split: option.splits)
  ultimately have dup: "rejectDuplicateJSONKeys hb = Inr ()" "rejectDuplicateJSONKeys pb = Inr ()"
    by (simp_all add: rejectDuplicateJSONKeys_def json)
  let ?header = "fmap_of_list (rev [(''alg'', JString ''EdDSA''), (''kid'', JString kid), (''typ'', JString LeaseTokenType)])"
  have objects: "unmarshal_object hb = Some ?header" "unmarshal_object pb = Some (fmap_of_list (rev ?ms))"
    by (simp_all add: unmarshal_object_def json lease_header_def)
  have "raw \<noteq> []" using parts(1) by auto
  then have "strictTokenParts raw = Inr (?header, fmap_of_list (rev ?ms))"
    using parts dup objects assms(3) check_payload_encoded [OF reg(3,1)]
    by (simp add: strictTokenParts_def)
  moreover have "fmlen ?header = 3" by (simp add: fmlen_fmap_of_list)
  ultimately show ?thesis
    using assms(2) by (simp add: TokenKeyID_def member_string_def)
qed

subsection \<open>Signing, then verifying\<close>

text \<open>
  Claims that JSON carries without loss: valid UTF-8, lists and a map that are not nil, and times in
  whole seconds that a float64 holds exactly, for \<open>NumericDate\<close> goes through one.
\<close>

definition exact_second :: "instant \<Rightarrow> bool" where
  "exact_second t \<longleftrightarrow> second dvd t \<and> \<bar>t\<bar> \<le> 2 ^ 53 * second"

definition text_claims :: "LeaseClaims \<Rightarrow> bool" where
  "text_claims claims \<longleftrightarrow>
    (let ups = c_UPS claims
     in list_all valid_string
        ([ups_LeaseID ups, ups_RootLeaseID ups, ups_RootWorkloadID ups, ups_WorkloadID ups,
          ups_DelegatedByWorkloadID ups, ups_ParentLeaseID ups, c_Issuer claims, c_Subject claims, c_ID claims]
         @ ups_Actions ups @ ups_Resources ups @ c_Audience claims)
      \<and> ups_Actions ups \<noteq> [] \<and> ups_Resources ups \<noteq> [] \<and> c_Audience claims \<noteq> []
      \<and> (\<exists>m. ups_Constraints ups = Some m \<and> fmpred (\<lambda>k v. valid_string k \<and> valid_string v) m)
      \<and> (\<forall>cnf. c_Confirmation claims = Some cnf \<longrightarrow> valid_string (jkt cnf)))
      \<and> (\<forall>t \<in> set_option (c_ExpiresAt claims) \<union> set_option (c_NotBefore claims) \<union> set_option (c_IssuedAt claims).
           exact_second t)"

text \<open>A private key whose second half is the public key of its seed.\<close>

definition key_pair :: "auth_lib \<Rightarrow> bytes \<Rightarrow> bool" where
  "key_pair L privateKey \<longleftrightarrow> ed25519_from_seed L (Seed privateKey) = privateKey"

text \<open>
  What \<open>SignedString\<close> and \<open>ParseWithClaims\<close> document together: the text that a key pair signs for a
  header in UTF-8 and such claims encodes them, and parses back to the claims when the key function
  answers the public half of the signing key, the options name an issuer and an audience, and the
  registered claims pass the validations.
\<close>

definition tokens_documented :: "auth_lib \<Rightarrow> bool" where
  "tokens_documented L \<longleftrightarrow>
    (\<forall>kid claims privateKey raw.
      jwt_sign L \<lparr>h_typ = Some LeaseTokenType, h_kid = Some kid\<rparr> claims privateKey = Inr raw
      \<and> valid_string kid \<and> text_claims claims \<and> key_pair L privateKey \<longrightarrow>
      encodes_token raw kid claims
      \<and> (\<forall>opts now kf. kf \<lparr>h_typ = Some LeaseTokenType, h_kid = Some kid\<rparr> = Inr (Public privateKey)
           \<and> ''EdDSA'' \<in> set (o_ValidMethods opts) \<and> o_Issuer opts \<noteq> [] \<and> o_Audience opts \<noteq> []
           \<and> claims_checked opts now claims \<longrightarrow>
           jwt_parse L opts now raw kf = Inr claims))"

lemma documented_text:
  assumes "tokens_documented L" "text_claims claims" "valid_string kid" "key_pair L privateKey"
    and "jwt_sign L \<lparr>h_typ = Some LeaseTokenType, h_kid = Some kid\<rparr> claims privateKey = Inr raw"
  shows "encodes_token raw kid claims"
  by (rule assms(1) [unfolded tokens_documented_def, THEN spec, THEN spec, THEN spec, THEN spec, THEN mp,
      OF conjI [OF assms(5) conjI [OF assms(3) conjI [OF assms(2,4)]]], THEN conjunct1])

lemma documented_parse:
  assumes "tokens_documented L" "text_claims claims" "valid_string kid" "key_pair L privateKey"
    and "jwt_sign L \<lparr>h_typ = Some LeaseTokenType, h_kid = Some kid\<rparr> claims privateKey = Inr raw"
    and "kf \<lparr>h_typ = Some LeaseTokenType, h_kid = Some kid\<rparr> = Inr (Public privateKey)"
     "''EdDSA'' \<in> set (o_ValidMethods opts)" "o_Issuer opts \<noteq> []" "o_Audience opts \<noteq> []" "claims_checked opts now claims"
  shows "jwt_parse L opts now raw kf = Inr claims"
proof -
  note doc = assms(1) [unfolded tokens_documented_def, THEN spec, THEN spec, THEN spec, THEN spec, THEN mp,
      OF conjI [OF assms(5) conjI [OF assms(3) conjI [OF assms(2,4)]]]]
  note parsed = doc [THEN conjunct2, THEN spec, of opts, THEN spec, of now, THEN spec, of kf]
  have checks: "kf \<lparr>h_typ = Some LeaseTokenType, h_kid = Some kid\<rparr> = Inr (Public privateKey)
      \<and> ''EdDSA'' \<in> set (o_ValidMethods opts) \<and> o_Issuer opts \<noteq> [] \<and> o_Audience opts \<noteq> []
      \<and> claims_checked opts now claims"
    by (intro conjI assms)
  show ?thesis by (rule parsed [THEN mp, OF checks])
qed

lemma keyID_valid: "valid_string (keyID L k)"
proof -
  have "set (raw_url_encode s) \<subseteq> set url_alphabet" for s
    using set_b64_encode [OF url_alphabet_facts(2)] by (simp add: raw_url_encode_def)
  moreover have "list_all (\<lambda>c. byte c < 0x80) url_alphabet" by (simp add: url_alphabet_def)
  ultimately have "ascii (keyID L k)" by (auto simp: keyID_def ascii_def list_all_iff)
  then show ?thesis by (rule ascii_valid_string)
qed

lemma VerifyLeaseToken_signed:
  assumes "tokens_documented L" "digest_size L" "text_claims claims"
    and "SignLeaseClaims L claims privateKey = Inr raw" "length raw \<le> MaxLeaseTokenBytes"
    and "check_claims (unicode L) claims = Inr claims"
    and "fmlookup keys (keyID L (Public privateKey)) = Some (Public privateKey)"
    and "issuer \<noteq> []" "audience \<noteq> []" "0 \<le> leeway"
    and "claims_checked (parse_options issuer audience leeway) now claims" and "key_pair L privateKey"
  shows "VerifyLeaseToken L now raw keys issuer audience leeway = Inr claims"
proof -
  let ?kid = "keyID L (Public privateKey)"
  have "length (sha256 L (Public privateKey)) = 32" using assms(2) by (simp add: digest_size_def)
  then have "sha256 L (Public privateKey) \<noteq> []" by force
  then have kid: "?kid \<noteq> []" by (simp add: keyID_def)
  have signed_text: "jwt_sign L \<lparr>h_typ = Some LeaseTokenType, h_kid = Some ?kid\<rparr> claims privateKey = Inr raw"
    using assms(4) by (simp add: SignLeaseClaims_def split: if_splits sum.splits)
  then have "encodes_token raw ?kid claims"
    by (rule documented_text [OF assms(1,3) keyID_valid assms(12)])
  then have TokenKeyID: "TokenKeyID raw = Inr ?kid"
    using kid assms(5) by (rule TokenKeyID_encoded)
  have "key_function keys \<lparr>h_typ = Some LeaseTokenType, h_kid = Some ?kid\<rparr> = Inr (Public privateKey)"
    using kid assms(7) by (simp add: key_function_def)
  moreover have "''EdDSA'' \<in> set (o_ValidMethods (parse_options issuer audience leeway))"
    "o_Issuer (parse_options issuer audience leeway) \<noteq> []" "o_Audience (parse_options issuer audience leeway) \<noteq> []"
    using assms(8,9) by (simp_all add: parse_options_def)
  ultimately have "jwt_parse L (parse_options issuer audience leeway) now raw (key_function keys) = Inr claims"
    using assms(11) by (rule documented_parse [OF assms(1,3) keyID_valid assms(12) signed_text])
  moreover have "fmlen keys \<noteq> 0"
    using assms(7) by (auto simp: fmlen_def dest!: fmdomI)
  moreover have "raw \<noteq> []" using TokenKeyID by (auto simp: TokenKeyID_def strictTokenParts_def)
  ultimately show ?thesis
    using assms(5-10) TokenKeyID by (simp add: VerifyLeaseToken_def)
qed

end
