(* ===== verification/One_Token.thy ===== *)
theory One_Token
  imports Token_Text
begin

section \<open>A library that signs one token\<close>

text \<open>
  An instance of the parameters for concrete examples: a JWT library that signs one set of claims
  under one key as a real text, and parses that text back. It behaves as the hypotheses on the
  library say, so the theorems under these hypotheses apply to it.
\<close>

definition token_text :: "bytes \<Rightarrow> LeaseClaims \<Rightarrow> bytes" where
  "token_text kid claims =
    raw_url_encode (json_text (lease_header kid))
    @ CHR ''.'' # raw_url_encode (json_text (JObject (claims_members claims (\<lambda>_. ''0'') [] [])))
    @ CHR ''.'' # raw_url_encode ''sig''"

text \<open>The hash of the token is chosen, that of other texts as in \<open>example_lib\<close>.\<close>

definition one_token_lib :: "bytes \<Rightarrow> bytes \<Rightarrow> LeaseClaims \<Rightarrow> bytes \<Rightarrow> auth_lib" where
  "one_token_lib digest kid claims privateKey = example_lib\<lparr>
     sha256 := (\<lambda>m. if m = token_text kid claims then digest else sha256 example_lib m),
     jwt_sign := (\<lambda>header c key. if header = \<lparr>h_typ = Some LeaseTokenType, h_kid = Some kid\<rparr>
         \<and> c = claims \<and> key = privateKey then Inr (token_text kid claims) else Inl (Opaque ''jwt'')),
     jwt_parse := example_parse (token_text kid claims) claims\<rparr>"

lemma token_text_dot: "CHR ''.'' \<in> set (token_text kid claims)"
  by (simp add: token_text_def)

lemma one_token_lib_simps [simp]:
  "unicode (one_token_lib digest kid claims key) = ascii_lib" "parse_uuid (one_token_lib digest kid claims key) = Some"
  "sha256 (one_token_lib digest kid claims key) (token_text kid claims) = digest"
  "CHR ''.'' \<notin> set m \<Longrightarrow> sha256 (one_token_lib digest kid claims key) m = sha256 example_lib m"
  "CHR ''.'' \<notin> set k \<Longrightarrow> keyID (one_token_lib digest kid claims key) k = keyID example_lib k"
  "JWKThumbprint (one_token_lib digest kid claims key) = JWKThumbprint example_lib"
  "jwt_parse (one_token_lib digest kid claims key) = example_parse (token_text kid claims) claims"
proof -
  show same: "sha256 (one_token_lib digest kid claims key) m = sha256 example_lib m" if "CHR ''.'' \<notin> set m" for m
    using that token_text_dot [of kid claims] by (auto simp: one_token_lib_def)
  then show "keyID (one_token_lib digest kid claims key) k = keyID example_lib k" if "CHR ''.'' \<notin> set k"
    using that by (simp add: keyID_def)
  have "CHR ''.'' \<notin> set (canonical_jwk k)" for k
    using dot_not_encoded by (simp add: canonical_jwk_def)
  then show "JWKThumbprint (one_token_lib digest kid claims key) = JWKThumbprint example_lib"
    using same by (simp add: fun_eq_iff JWKThumbprint_def)
qed (simp_all add: one_token_lib_def example_lib_def)

lemma one_token_parse:
  assumes "jwt_parse (one_token_lib digest kid claims key) opts at raw kf = Inr c"
  shows "raw = token_text kid claims" "c = claims"
  using assms by (simp_all add: example_parse_def split: sum.splits if_splits)

text \<open>Texts that need no escapes.\<close>

definition plain_claims :: "bytes \<Rightarrow> LeaseClaims \<Rightarrow> bool" where
  "plain_claims kid claims \<longleftrightarrow>
    (let ups = c_UPS claims
     in list_all plain_text
        ([kid, ups_LeaseID ups, ups_RootLeaseID ups, ups_RootWorkloadID ups, ups_WorkloadID ups,
          ups_DelegatedByWorkloadID ups, ups_ParentLeaseID ups] @ ups_Actions ups @ ups_Resources ups
         @ (case c_Confirmation claims of None \<Rightarrow> [] | Some cnf \<Rightarrow> [jkt cnf])))
    \<and> c_ExpiresAt claims \<noteq> None \<and> c_NotBefore claims \<noteq> None"

lemma plain_names:
  "list_all plain_text [''alg'', ''kid'', ''typ'', ''EdDSA'', LeaseTokenType, ''ups'', ''cnf'', ''jkt'']"
  "list_all plain_text allowedCapability"
  by (simp_all add: plain_text_char_def LeaseTokenType_def allowedCapability_def)

lemma one_token_json:
  assumes "plain_claims kid claims"
  shows "json_unmarshal (json_text (lease_header kid)) = Some (lease_header kid)"
    "json_unmarshal (json_text (JObject (claims_members claims (\<lambda>_. ''0'') [] [])))
     = Some (JObject (claims_members claims (\<lambda>_. ''0'') [] []))"
proof -
  have depth: "max_nesting_depth = Suc (Suc (Suc (max_nesting_depth - 3)))" by (simp add: max_nesting_depth_def)
  have "plain_json max_nesting_depth (lease_header kid)"
    using assms plain_names(1) by (subst depth) (simp add: lease_header_def plain_claims_def Let_def)
  then show "json_unmarshal (json_text (lease_header kid)) = Some (lease_header kid)"
    by (rule json_unmarshal_text)
  have cap: "list_all (\<lambda>m. plain_text (fst m) \<and> plain_json (Suc d) (snd m))
      (capability_members (c_UPS claims) (\<lambda>_. ''0'') [])" for d
    using assms plain_names(2)
    by (simp add: capability_members_def optional_text_def plain_claims_def Let_def allowedCapability_def
        plain_number_def list.pred_map comp_def)
  have "plain_json max_nesting_depth (JObject (claims_members claims (\<lambda>_. ''0'') [] []))"
    using assms plain_names(1) cap
    by (subst depth) (cases "c_Confirmation claims"; simp add: claims_members_def plain_claims_def Let_def)
  then show "json_unmarshal (json_text (JObject (claims_members claims (\<lambda>_. ''0'') [] [])))
     = Some (JObject (claims_members claims (\<lambda>_. ''0'') [] []))"
    by (rule json_unmarshal_text)
qed

lemma one_token_split:
  "split_on CHR ''.'' (token_text kid claims) = [raw_url_encode (json_text (lease_header kid)),
     raw_url_encode (json_text (JObject (claims_members claims (\<lambda>_. ''0'') [] []))), raw_url_encode ''sig'']"
  unfolding token_text_def append.simps split_on_append_sep
  using dot_not_encoded by (simp add: split_on_single split_on_append_sep)

lemma one_token_encodes:
  assumes "plain_claims kid claims"
  shows "encodes_token (token_text kid claims) kid claims"
proof -
  have "json_text (lease_header kid) \<noteq> []" "json_text (JObject (claims_members claims (\<lambda>_. ''0'') [] [])) \<noteq> []"
    by (simp_all add: lease_header_def)
  then show ?thesis
    unfolding encodes_token_def one_token_split
    using one_token_json [OF assms]
    by (intro exI [of _ "raw_url_encode (json_text (lease_header kid))"]
        exI [of _ "raw_url_encode (json_text (JObject (claims_members claims (\<lambda>_. ''0'') [] [])))"]
        exI [of _ "raw_url_encode ''sig''"] exI [of _ "json_text (lease_header kid)"]
        exI [of _ "json_text (JObject (claims_members claims (\<lambda>_. ''0'') [] []))"] exI [of _ "\<lambda>_. ''0''"]
        exI [of _ "[]"]) simp
qed

lemma one_token_header:
  assumes "plain_claims kid claims"
  shows "header_of (hd (split_on CHR ''.'' (token_text kid claims))) = \<lparr>h_typ = Some LeaseTokenType, h_kid = Some kid\<rparr>"
proof -
  have "unmarshal_object (json_text (lease_header kid))
      = Some (fmap_of_list (rev [(''alg'', JString ''EdDSA''), (''kid'', JString kid), (''typ'', JString LeaseTokenType)]))"
    using one_token_json(1) [OF assms] by (simp add: unmarshal_object_def lease_header_def)
  then show ?thesis by (simp add: one_token_split header_of_def string_field_def)
qed

lemma one_token_documented:
  assumes "plain_claims kid claims" "length digest = 32"
  shows "tokens_documented (one_token_lib digest kid claims key)" "parse_sound (one_token_lib digest kid claims key)"
    "digest_size (one_token_lib digest kid claims key)"
proof -
  let ?L = "one_token_lib digest kid claims key"
  note header = one_token_header [OF assms(1)]
  show "digest_size ?L" using assms(2) by (auto simp: digest_size_def one_token_lib_def example_lib_def)
  show "tokens_documented ?L"
    unfolding tokens_documented_def
  proof (intro allI impI, elim conjE)
    fix kid' c k raw
    assume "jwt_sign ?L \<lparr>h_typ = Some LeaseTokenType, h_kid = Some kid'\<rparr> c k = Inr raw"
    then have same: "raw = token_text kid claims" "kid' = kid" "c = claims"
      by (simp_all add: one_token_lib_def split: if_splits)
    have "jwt_parse ?L opts now raw kf = Inr claims"
      if "kf \<lparr>h_typ = Some LeaseTokenType, h_kid = Some kid\<rparr> = Inr (Public k)" "claims_checked opts now claims" for opts now kf
      using that unfolding same(1) by (simp add: example_parse_def header claims_checked_def)
    then show "encodes_token raw kid' c \<and> (\<forall>opts now kf. kf \<lparr>h_typ = Some LeaseTokenType, h_kid = Some kid'\<rparr> = Inr (Public k)
        \<and> ''EdDSA'' \<in> set (o_ValidMethods opts) \<and> o_Issuer opts \<noteq> [] \<and> o_Audience opts \<noteq> []
        \<and> claims_checked opts now c \<longrightarrow> jwt_parse ?L opts now raw kf = Inr c)"
      using one_token_encodes [OF assms(1)] unfolding same by blast
  qed
  have signed_ok: "token_signed ?L (token_text kid claims) \<lparr>h_typ = Some LeaseTokenType, h_kid = Some kid\<rparr> k" for k
    unfolding token_signed_def one_token_split using header
    by (simp add: one_token_split) (simp add: one_token_lib_def example_lib_def)
  have times: "c_ExpiresAt claims \<noteq> None" "c_NotBefore claims \<noteq> None"
    using assms(1) by (simp_all add: plain_claims_def)
  show "parse_sound ?L"
    unfolding parse_sound_def
  proof (intro allI impI)
    fix opts now raw kf c
    assume parsed: "jwt_parse ?L opts now raw kf = Inr c"
    then obtain k where k: "kf \<lparr>h_typ = Some LeaseTokenType, h_kid = Some kid\<rparr> = Inr k"
      by (auto simp: example_parse_def header split: sum.splits)
    with parsed have "c = claims" by (simp add: example_parse_def header split: if_splits)
    with parsed k have "raw = token_text kid claims" "claims_checked opts now c"
      using times by (simp_all add: example_parse_def header claims_checked_def split: if_splits)
    with k show "(\<exists>h k. kf h = Inr k \<and> token_signed ?L raw h k) \<and> claims_checked opts now c"
      using signed_ok by blast
  qed
qed

end
