(* ===== verification/Authorization.thy ===== *)
theory Authorization
  imports Middleware Interfaces One_Token
begin

section \<open>What a verifier guarantees\<close>

text \<open>
  The invariant of a verifier, the steps of its concurrent requests, and what an authorized
  request went through. Every step keeps the invariant and the configuration, and the markers of
  proofs that have not expired by then: the verifier follows the contract of \<open>guarded_store\<close>.
\<close>

subsection \<open>Invariant\<close>

text \<open>How old the snapshot of revocations may be when a request is decided on it.\<close>

definition allowed_staleness :: "Verifier \<Rightarrow> duration" where
  "allowed_staleness v =
    (if vf_revocationMode v = RevocationBoundedStale then vf_maxStaleness v else vf_revocationCacheTTL v)"

definition keys_named :: "auth_lib \<Rightarrow> (bytes, bytes) fmap \<Rightarrow> bool" where
  "keys_named L keys \<longleftrightarrow> (\<forall>kid k. fmlookup keys kid = Some k \<longrightarrow> length k = 32 \<and> kid = keyID L k)"

definition config_ok :: "Verifier \<Rightarrow> bool" where
  "config_ok v \<longleftrightarrow> 0 < vf_revocationCacheTTL v \<and> vf_revocationCacheTTL v \<le> allowed_staleness v
    \<and> allowed_staleness v \<le> hour \<and> second \<le> vf_proofWindow v \<and> vf_proofWindow v \<le> minute"

definition verifier_ok :: "sdk_lib \<Rightarrow> Verifier \<Rightarrow> bool" where
  "verifier_ok S v \<longleftrightarrow>
    config_ok v \<and> keys_named (auth_of S) (vf_keys v) \<and> fmlen (vf_proofReplay v) \<le> max_replay_entries
    \<and> vf_revocationsExpire v \<le> vf_revocationsFetched v + vf_revocationCacheTTL v"

definition same_config :: "Verifier \<Rightarrow> Verifier \<Rightarrow> bool" where
  "same_config v w \<longleftrightarrow>
    w = v\<lparr>vf_keys := vf_keys w, vf_keysExpire := vf_keysExpire w, vf_revoked := vf_revoked w,
      vf_revocationsExpire := vf_revocationsExpire w, vf_revocationsFetched := vf_revocationsFetched w,
      vf_revocationsETag := vf_revocationsETag w, vf_proofReplay := vf_proofReplay w\<rparr>"

text \<open>What a step may do to a verifier by the instant \<open>T\<close>.\<close>

definition keeps_markers :: "instant \<Rightarrow> Verifier \<Rightarrow> Verifier \<Rightarrow> bool" where
  "keeps_markers T v w \<longleftrightarrow> same_config v w
    \<and> (\<forall>marker e. fmlookup (vf_proofReplay v) marker = Some e \<and> T \<le> e \<longrightarrow>
         fmlookup (vf_proofReplay w) marker = Some e)"

subsection \<open>Steps\<close>

datatype verifier_step =
    StepKey "nat \<Rightarrow> instant" "http_response option" bytes
  | StepProof instant instant http_request bytes LeaseClaims
  | StepRevoked "nat \<Rightarrow> instant" "http_response option" bytes

definition run_step :: "sdk_lib \<Rightarrow> verifier_step \<Rightarrow> Verifier \<Rightarrow> Verifier" where
  "run_step S step v =
    (case step of
       StepKey clock answer kid \<Rightarrow> snd (verifier_key S clock answer kid v)
     | StepProof now jwt_now request token claims \<Rightarrow> snd (verifyProof S now jwt_now request token claims v)
     | StepRevoked clock answer leaseID \<Rightarrow> snd (isRevoked S clock answer leaseID v))"

text \<open>A step that checks a proof read the clock no later than \<open>T\<close>.\<close>

definition step_before :: "instant \<Rightarrow> verifier_step \<Rightarrow> bool" where
  "step_before T step \<longleftrightarrow> (case step of StepProof now _ _ _ _ \<Rightarrow> now \<le> T | _ \<Rightarrow> True)"

subsection \<open>Lemmas\<close>

lemma same_config_refl [simp]: "same_config v v"
  by (simp add: same_config_def)

lemma same_config_trans: "same_config u v \<Longrightarrow> same_config v w \<Longrightarrow> same_config u w"
  by (cases u, cases v, cases w) (simp add: same_config_def)

lemma same_config_fields:
  assumes "same_config v w"
  shows "vf_proofWindow w = vf_proofWindow v" "vf_revocationMode w = vf_revocationMode v"
    "vf_revocationCacheTTL w = vf_revocationCacheTTL v" "vf_maxStaleness w = vf_maxStaleness v"
    "vf_issuer w = vf_issuer v" "vf_audience w = vf_audience v" "vf_clockSkew w = vf_clockSkew v"
    "vf_requireProof w = vf_requireProof v" "vf_consumeLease w = vf_consumeLease v"
    "vf_constraintValues w = vf_constraintValues v" "vf_externalURL w = vf_externalURL v"
    "allowed_staleness w = allowed_staleness v"
  using assms by (cases v, cases w, simp add: same_config_def allowed_staleness_def)+

lemma config_ok_same: "same_config v w \<Longrightarrow> config_ok w = config_ok v"
  by (simp add: config_ok_def same_config_fields)

lemma same_config_updates:
  "same_config v (v\<lparr>vf_keys := keys, vf_keysExpire := e\<rparr>)"
  "same_config v (v\<lparr>vf_proofReplay := m\<rparr>)"
  "same_config v (v\<lparr>vf_revoked := ids, vf_revocationsExpire := e, vf_revocationsFetched := f,
     vf_revocationsETag := etag\<rparr>)"
  by (cases v, simp add: same_config_def)+

lemma keeps_markers_refl: "keeps_markers T v v"
  by (simp add: keeps_markers_def)

lemma keeps_markers_trans: "keeps_markers T u v \<Longrightarrow> keeps_markers T v w \<Longrightarrow> keeps_markers T u w"
  unfolding keeps_markers_def using same_config_trans by blast

lemma keys_named_empty [simp]: "keys_named L fmempty"
  by (simp add: keys_named_def)

lemma keys_named_upd:
  "keys_named L keys \<Longrightarrow> length k = 32 \<Longrightarrow> keys_named L (fmupd (keyID L k) k keys)"
  by (simp add: keys_named_def)

lemma fetch_keys_named:
  assumes "fetch_keys_loop L keys published = Inr keys'" "keys_named L keys"
  shows "keys_named L keys'"
  using assms
proof (induction published arbitrary: keys)
  case (Cons key rest)
  from Cons.prems(1) consider "fetch_keys_loop L keys rest = Inr keys'"
    | k where "length k = 32" "fetch_keys_loop L (fmupd (keyID L k) k keys) rest = Inr keys'"
    by (auto simp: PublicKeyID_def PublicKeySize_def split: if_splits option.splits sum.splits)
  then show ?case
    using Cons.IH Cons.prems(2) keys_named_upd by cases blast+
qed simp

lemma fetchKeys_named: "fetchKeys S v answer = Inr keys \<Longrightarrow> keys_named (auth_of S) keys"
  using fetch_keys_named [of "auth_of S" fmempty]
  by (auto simp: fetchKeys_def split: sum.splits if_splits)

lemma cachedKey_Some: "cachedKey v at kid = Some k \<Longrightarrow> fmlookup (vf_keys v) kid = Some k"
  by (simp add: cachedKey_def split: if_splits)

lemma verifier_key_run:
  "verifier_key S clock answer kid v = (r, w) \<Longrightarrow>
   w = v \<and> (\<forall>k. r = Inr k \<longrightarrow> fmlookup (vf_keys v) kid = Some k)
   \<or> (\<exists>keys expire. fetchKeys S v answer = Inr keys \<and> w = v\<lparr>vf_keys := keys, vf_keysExpire := expire\<rparr>
        \<and> (\<forall>k. r = Inr k \<longrightarrow> fmlookup keys kid = Some k))"
  unfolding verifier_key_def Let_def
  by (simp split: option.splits sum.splits) (auto dest: cachedKey_Some)

lemma verifier_key_cases:
  assumes "verifier_key S clock answer kid v = (r, w)" "keys_named (auth_of S) (vf_keys v)"
  obtains keys expire where "w = v\<lparr>vf_keys := keys, vf_keysExpire := expire\<rparr>" "keys_named (auth_of S) keys"
    "\<And>k. r = Inr k \<Longrightarrow> fmlookup keys kid = Some k"
proof -
  have "v = v\<lparr>vf_keys := vf_keys v, vf_keysExpire := vf_keysExpire v\<rparr>" by simp
  then show thesis
    using verifier_key_run [OF assms(1)] assms(2) fetchKeys_named that by blast
qed

text \<open>What a decision on revocation rests on: the snapshot kept afterwards, fetched recently enough.\<close>

lemma isRevoked_run:
  assumes "isRevoked S clock answer leaseID v = (r, w)" "vf_revocationMode v \<noteq> RevocationExpiryOnly"
  obtains (kept) "w = v" "\<And>b. r = Inr b \<Longrightarrow> b \<longleftrightarrow> leaseID |\<in>| vf_revoked v"
      "\<And>b. r = Inr b \<Longrightarrow> (\<exists>n<3. clock n < vf_revocationsExpire v
         \<or> vf_revocationMode v = RevocationBoundedStale \<and> time_sub (clock n) (vf_revocationsFetched v) \<le> vf_maxStaleness v)"
    | (stored) ids n etag where "n < 4"
      "w = v\<lparr>vf_revoked := ids, vf_revocationsExpire := clock n + vf_revocationCacheTTL v,
         vf_revocationsFetched := clock n, vf_revocationsETag := etag\<rparr>"
      "r = Inr (leaseID |\<in>| ids)"
proof -
  consider (c0) b where "cachedRevocation v (clock 0) leaseID = Some b"
    | (c1) b where "cachedRevocation v (clock 0) leaseID = None" "cachedRevocation v (clock 1) leaseID = Some b"
    | (err) e where "cachedRevocation v (clock 0) leaseID = None" "cachedRevocation v (clock 1) leaseID = None"
      "fetchRevocations S v answer = Inl e"
    | (same) etag where "cachedRevocation v (clock 0) leaseID = None" "cachedRevocation v (clock 1) leaseID = None"
      "fetchRevocations S v answer = Inr (None, etag)"
    | (new) p etag where "cachedRevocation v (clock 0) leaseID = None" "cachedRevocation v (clock 1) leaseID = None"
      "fetchRevocations S v answer = Inr (Some p, etag)"
    by (cases "cachedRevocation v (clock 0) leaseID"; cases "cachedRevocation v (clock 1) leaseID";
        cases "fetchRevocations S v answer") (auto, metis option.exhaust)
  then show thesis
  proof cases
    case c0
    then show ?thesis
      using assms
      by (intro kept) (auto simp: isRevoked_def cachedRevocation_def split: if_splits intro!: exI [of _ "0 :: nat"])
  next
    case c1
    then show ?thesis
      using assms
      by (intro kept) (auto simp: isRevoked_def cachedRevocation_def split: if_splits intro!: exI [of _ "1 :: nat"])
  next
    case err
    then show ?thesis
      using assms
      by (intro kept) (auto simp: isRevoked_def staleRevocation_def split: if_splits intro!: exI [of _ "2 :: nat"])
  next
    case same
    then show ?thesis
      using assms by (intro stored [where n = 2 and ids = "vf_revoked v" and etag = "vf_revocationsETag v"]) (auto simp: isRevoked_def)
  next
    case new
    then consider "w = v" "\<exists>e. r = Inl e"
      | "r = Inr (leaseID \<in> set (rv_Revoked p))" "w = stored_snapshot v (rv_Revoked p) (clock 3) etag"
      using assms by (auto simp: isRevoked_def split: if_splits)
    then show ?thesis
    proof cases
      case 1
      then show ?thesis by (intro kept) auto
    next
      case 2
      then show ?thesis
        by (intro stored [where n = 3 and ids = "fset_of_list (rv_Revoked p)" and etag = etag])
          (auto simp: stored_snapshot_def fset_of_list_elem)
    qed
  qed
qed

lemma isRevoked_expiry_only:
  "vf_revocationMode v = RevocationExpiryOnly \<Longrightarrow> isRevoked S clock answer leaseID v = (Inr False, v)"
  by (simp add: isRevoked_def)

lemma drop_expired_keeps:
  "fmlookup m k = Some e \<Longrightarrow> now \<le> e \<Longrightarrow> fmlookup (drop_expired now m) k = Some e"
  by (simp add: drop_expired_def)

lemma fmlen_drop_expired: "fmlen (drop_expired now m) \<le> fmlen m"
  unfolding fmlen_def drop_expired_def by (auto intro!: fcard_mono)

text \<open>The entries kept when a marker is stored: all of them, or those that have not expired when the
  cache is full.\<close>

definition kept_proofs :: "instant \<Rightarrow> (bytes, instant) fmap \<Rightarrow> (bytes, instant) fmap" where
  "kept_proofs now m = (if fmlen m \<ge> max_replay_entries then drop_expired now m else m)"

lemma kept_proofs_facts:
  "fmlookup m k = Some e \<Longrightarrow> now \<le> e \<Longrightarrow> fmlookup (kept_proofs now m) k = Some e"
  "fmlen m \<le> max_replay_entries \<Longrightarrow> fmlen (kept_proofs now m) \<le> max_replay_entries"
  using drop_expired_keeps fmlen_drop_expired [of now m] by (auto simp: kept_proofs_def)

lemma isRevoked_frame:
  assumes "isRevoked S clock answer leaseID v = (r, w)"
  shows "same_config v w \<and> vf_keys w = vf_keys v"
proof (cases "vf_revocationMode v = RevocationExpiryOnly")
  case True
  then show ?thesis using assms by (simp add: isRevoked_expiry_only)
next
  case False
  show ?thesis using assms False by (cases rule: isRevoked_run) (simp_all add: same_config_updates)
qed

lemma store_proof_kept:
  "store_proof marker e now v =
    (if fmlen (kept_proofs now (vf_proofReplay v)) \<ge> max_replay_entries
     then (False, v\<lparr>vf_proofReplay := kept_proofs now (vf_proofReplay v)\<rparr>)
     else (True, v\<lparr>vf_proofReplay := fmupd marker e (kept_proofs now (vf_proofReplay v))\<rparr>))"
  by (simp add: store_proof_def kept_proofs_def Let_def)

lemma fmlen_fmupd_le: "fmlen m < n \<Longrightarrow> fmlen (fmupd k v m) \<le> n"
  by simp

lemma consumeProof_run:
  assumes "consumeProof marker e now v = (accepted, w)" "fmlen (vf_proofReplay v) \<le> max_replay_entries"
  obtains m where "w = v\<lparr>vf_proofReplay := m\<rparr>" "fmlen m \<le> max_replay_entries"
    "accepted \<Longrightarrow> fmlookup m marker = Some e"
    "\<And>e'. accepted \<Longrightarrow> fmlookup (vf_proofReplay v) marker = Some e' \<Longrightarrow> e' < now"
    "\<And>k e'. fmlookup (vf_proofReplay v) k = Some e' \<Longrightarrow> now \<le> e' \<Longrightarrow> fmlookup m k = Some e'"
proof (cases "\<exists>e'. fmlookup (vf_proofReplay v) marker = Some e' \<and> now \<le> e'")
  case True
  then have "w = v" "\<not> accepted" using assms(1) by (auto simp: consumeProof_def not_less)
  then show thesis using that [of "vf_proofReplay v"] assms(2) by simp
next
  case False
  let ?kept = "kept_proofs now (vf_proofReplay v)"
  have run: "store_proof marker e now v = (accepted, w)"
    using False assms(1) by (auto simp: consumeProof_def not_less split: option.splits if_splits)
  note kept = kept_proofs_facts(1) [of "vf_proofReplay v"] kept_proofs_facts(2) [OF assms(2), of now]
  show thesis
  proof (cases "fmlen ?kept \<ge> max_replay_entries")
    case True
    then have "w = v\<lparr>vf_proofReplay := ?kept\<rparr>" "\<not> accepted" using run by (simp_all add: store_proof_kept)
    then show thesis using that [of ?kept] kept by blast
  next
    case small: False
    then have w: "w = v\<lparr>vf_proofReplay := fmupd marker e ?kept\<rparr>" "accepted"
      using run by (simp_all add: store_proof_kept)
    moreover have "fmlen (fmupd marker e ?kept) \<le> max_replay_entries"
      using small by (intro fmlen_fmupd_le) simp
    moreover have "fmlookup (fmupd marker e ?kept) k = Some e'"
      if "fmlookup (vf_proofReplay v) k = Some e'" "now \<le> e'" for k e'
      using kept(1) [OF that] that False by auto
    moreover have "e' < now" if "fmlookup (vf_proofReplay v) marker = Some e'" for e'
      using False that by (meson not_less)
    ultimately show thesis using that [of "fmupd marker e ?kept"] by simp
  qed
qed

text \<open>What an accepted proof leaves: its marker, with an expiry after every instant at which the same
  text could verify again.\<close>

lemma verifyProof_run:
  assumes "verifyProof S now jwt_now request token claims v = (r, w)"
    and "fmlen (vf_proofReplay v) \<le> max_replay_entries"
  obtains m where "w = v\<lparr>vf_proofReplay := m\<rparr>" "fmlen m \<le> max_replay_entries"
    "\<And>k e. fmlookup (vf_proofReplay v) k = Some e \<Longrightarrow> now \<le> e \<Longrightarrow> fmlookup m k = Some e"
    "\<And>cnf. r = Inr () \<Longrightarrow> c_Confirmation claims = Some cnf \<Longrightarrow>
       \<exists>target p. proofTarget v request = Inr target
         \<and> Verify (web S) jwt_now (rq_header request ''DPoP'') (rq_Method request) target token (jkt cnf) now
             (vf_proofWindow v) = Inr p
         \<and> fmlookup m (vp_Thumbprint p @ '':'' @ vp_ID p) = Some (vp_ReplayExpiry p)
         \<and> (\<forall>e. fmlookup (vf_proofReplay v) (vp_Thumbprint p @ '':'' @ vp_ID p) = Some e \<longrightarrow> e < now)"
    "r = Inr () \<Longrightarrow> c_Confirmation claims = None \<Longrightarrow> \<not> vf_requireProof v"
proof (cases "c_Confirmation claims")
  case None
  then show thesis
    using assms that [of "vf_proofReplay v"] by (auto simp: verifyProof_def split: if_splits)
next
  case (Some cnf)
  consider (refused) err where "r = Inl err" "w = v"
    | (checked) target p accepted where "proofTarget v request = Inr target"
      "Verify (web S) jwt_now (rq_header request ''DPoP'') (rq_Method request) target token (jkt cnf) now
         (vf_proofWindow v) = Inr p"
      "consumeProof (vp_Thumbprint p @ '':'' @ vp_ID p) (vp_ReplayExpiry p) now v = (accepted, w)"
      "r = Inr () \<longrightarrow> accepted"
    using assms(1) Some
    by (simp add: verifyProof_def Let_def split: if_splits sum.splits prod.splits bool.splits) blast+
  then show thesis
  proof cases
    case refused
    then show ?thesis using assms(2) that [of "vf_proofReplay v"] by simp
  next
    case checked
    obtain m where m: "w = v\<lparr>vf_proofReplay := m\<rparr>" "fmlen m \<le> max_replay_entries"
      "accepted \<Longrightarrow> fmlookup m (vp_Thumbprint p @ '':'' @ vp_ID p) = Some (vp_ReplayExpiry p)"
      "\<And>e'. accepted \<Longrightarrow> fmlookup (vf_proofReplay v) (vp_Thumbprint p @ '':'' @ vp_ID p) = Some e' \<Longrightarrow> e' < now"
      "\<And>k e'. fmlookup (vf_proofReplay v) k = Some e' \<Longrightarrow> now \<le> e' \<Longrightarrow> fmlookup m k = Some e'"
      using consumeProof_run [OF checked(3) assms(2)] by metis
    show ?thesis
      by (rule that [of m]) (use m checked Some in auto)
  qed
qed

subsection \<open>Steps keep the invariant\<close>

lemma run_step_key:
  assumes "verifier_ok S v" "verifier_key S clock answer kid v = (r, w)"
  shows "verifier_ok S w" "keeps_markers T v w"
proof -
  obtain keys expire where w: "w = v\<lparr>vf_keys := keys, vf_keysExpire := expire\<rparr>" "keys_named (auth_of S) keys"
    using verifier_key_cases [OF assms(2)] assms(1) unfolding verifier_ok_def by metis
  then have "same_config v w" by (simp add: same_config_updates)
  then show "verifier_ok S w" "keeps_markers T v w"
    using assms(1) w config_ok_same by (simp_all add: verifier_ok_def keeps_markers_def)
qed

lemma run_step_proof:
  assumes "verifier_ok S v" "verifyProof S now jwt_now request token claims v = (r, w)"
  shows "verifier_ok S w" "now \<le> T \<Longrightarrow> keeps_markers T v w"
proof -
  obtain m where w: "w = v\<lparr>vf_proofReplay := m\<rparr>" "fmlen m \<le> max_replay_entries"
    "\<And>k e. fmlookup (vf_proofReplay v) k = Some e \<Longrightarrow> now \<le> e \<Longrightarrow> fmlookup m k = Some e"
    using verifyProof_run [OF assms(2)] assms(1) unfolding verifier_ok_def by metis
  then have "same_config v w" by (simp add: same_config_updates)
  then show "verifier_ok S w" "now \<le> T \<Longrightarrow> keeps_markers T v w"
    using assms(1) w config_ok_same by (simp_all add: verifier_ok_def keeps_markers_def)
qed

lemma run_step_revoked:
  assumes "verifier_ok S v" "isRevoked S clock answer leaseID v = (r, w)"
  shows "verifier_ok S w" "keeps_markers T v w"
proof -
  have "verifier_ok S w \<and> keeps_markers T v w"
  proof (cases "vf_revocationMode v = RevocationExpiryOnly")
    case True
    then show ?thesis using assms by (simp add: isRevoked_expiry_only keeps_markers_refl)
  next
    case False
    show ?thesis
      using assms(2) False
    proof (cases rule: isRevoked_run)
      case kept
      then show ?thesis using assms(1) keeps_markers_refl by simp
    next
      case (stored ids n etag)
      then have "same_config v w" by (simp add: same_config_updates)
      then show ?thesis
        using assms(1) stored config_ok_same by (simp add: verifier_ok_def keeps_markers_def)
    qed
  qed
  then show "verifier_ok S w" "keeps_markers T v w" by simp_all
qed

lemma run_step_ok:
  assumes "verifier_ok S v" "step_before T step"
  shows "verifier_ok S (run_step S step v)" "keeps_markers T v (run_step S step v)"
proof -
  have "verifier_ok S (run_step S step v) \<and> keeps_markers T v (run_step S step v)"
  proof (cases step)
    case (StepKey clock answer kid)
    then show ?thesis
      using run_step_key [OF assms(1) surjective_pairing] by (simp add: run_step_def)
  next
    case (StepProof now jwt_now request token claims)
    then show ?thesis
      using run_step_proof [OF assms(1) surjective_pairing] assms(2)
      by (simp add: run_step_def step_before_def)
  next
    case (StepRevoked clock answer leaseID)
    then show ?thesis
      using run_step_revoked [OF assms(1) surjective_pairing] by (simp add: run_step_def)
  qed
  then show "verifier_ok S (run_step S step v)" "keeps_markers T v (run_step S step v)" by simp_all
qed

interpretation verifier: guarded_store "verifier_ok S" "keeps_markers T" "step_before T" "run_step S" for S T
  by unfold_locales (auto intro: run_step_ok keeps_markers_refl keeps_markers_trans)

text \<open>A verifier that \<open>New\<close> makes satisfies the invariant.\<close>

lemma New_ok: "New W config = Inr v \<Longrightarrow> web S = W \<Longrightarrow> verifier_ok S v \<and> vf_proofReplay v = fmempty"
  by (simp add: New_def Let_def verifier_ok_def config_ok_def allowed_staleness_def not_less not_le
      split: sum.splits if_splits) (auto simp: duration_defs)

subsection \<open>Authorized requests\<close>

lemma check_capability_Inr:
  "check_capability S request token claims action resource v = Inr c \<longleftrightarrow>
   c = claims \<and> action \<in> set (ups_Actions (c_UPS claims))
   \<and> resourceAllowed (unicode_of S) (ups_Resources (c_UPS claims)) resource
   \<and> constraintsSatisfied (unicode_of S) request
        (case ups_Constraints (c_UPS claims) of None \<Rightarrow> fmempty | Some m \<Rightarrow> m) v
   \<and> consume_use request token claims v = None"
  by (auto simp: check_capability_def split: option.splits)

lemma Authorize_Inr:
  assumes "Authorize S env (Some request) token action resource v = (Inr claims, w)"
  obtains kid k v1 v2 where "TokenKeyID token = Inr kid"
    "verifier_key S (en_key_clock env) (en_key_answer env) kid v = (Inr k, v1)"
    "VerifyLeaseToken (auth_of S) (en_jwt_now env) token (fmupd kid k fmempty)
       (vf_issuer v1) (vf_audience v1) (vf_clockSkew v1) = Inr claims"
    "verifyProof S (en_proof_now env) (en_proof_jwt_now env) request token claims v1 = (Inr (), v2)"
    "isRevoked S (en_revocation_clock env) (en_revocation_answer env) (ups_LeaseID (c_UPS claims)) v2 = (Inr False, w)"
    "check_capability S request token claims action resource w = Inr claims"
  using assms unfolding Authorize_def
  by (auto split: if_splits sum.splits prod.splits bool.splits simp: check_capability_Inr)

lemma Authorize_verified:
  assumes "Authorize S env (Some request) token action resource v = (Inr claims, w)"
  obtains keys issuer audience where
    "VerifyLeaseToken (auth_of S) (en_jwt_now env) token keys issuer audience (vf_clockSkew v) = Inr claims"
proof (rule Authorize_Inr [OF assms])
  fix kid k v1
  assume "verifier_key S (en_key_clock env) (en_key_answer env) kid v = (Inr k, v1)"
    and verified: "VerifyLeaseToken (auth_of S) (en_jwt_now env) token (fmupd kid k fmempty)
       (vf_issuer v1) (vf_audience v1) (vf_clockSkew v1) = Inr claims"
  then have "vf_clockSkew v1 = vf_clockSkew v"
    by (auto simp: verifier_key_def Let_def split: option.splits sum.splits)
  with verified show thesis using that by metis
qed

lemma consume_use_None:
  "consume_use request token claims v = None \<longleftrightarrow>
   (0 < sint (ups_MaxUses (c_UPS claims)) \<longrightarrow>
     (\<exists>f. vf_consumeLease v = Some f \<and> rq_header request ''Idempotency-Key'' \<noteq> []
       \<and> f (ups_LeaseID (c_UPS claims)) token (rq_header request ''Idempotency-Key'') = Inr ()))"
  by (auto simp: consume_use_def Let_def split: option.splits sum.splits if_splits)

lemma resourceAllowed_iff:
  "resourceAllowed U patterns resource \<longleftrightarrow>
   ok (CanonicalizeValue U resource) \<and> list_ex (\<lambda>p. Allows U p resource) patterns"
  by (simp add: resourceAllowed_def)

lemma isRevoked_decision:
  assumes "isRevoked S clock answer leaseID v = (Inr b, w)" "verifier_ok S v"
    "vf_revocationMode v \<noteq> RevocationExpiryOnly"
  shows "b \<longleftrightarrow> leaseID |\<in>| vf_revoked w"
    "\<exists>n<4. clock n \<le> vf_revocationsFetched w + allowed_staleness w"
proof -
  have "(b \<longleftrightarrow> leaseID |\<in>| vf_revoked w) \<and> (\<exists>n<4. clock n \<le> vf_revocationsFetched w + allowed_staleness w)"
    using assms(1,3)
  proof (cases rule: isRevoked_run)
    case kept
    have ok: "config_ok v" "vf_revocationsExpire v \<le> vf_revocationsFetched v + vf_revocationCacheTTL v"
      using assms(2) by (simp_all add: verifier_ok_def)
    obtain n where n: "n < 3" "clock n < vf_revocationsExpire v
       \<or> vf_revocationMode v = RevocationBoundedStale \<and> time_sub (clock n) (vf_revocationsFetched v) \<le> vf_maxStaleness v"
      using kept(3) by blast
    have "clock n \<le> vf_revocationsFetched v + allowed_staleness v"
      using n(2)
    proof
      assume "clock n < vf_revocationsExpire v"
      then show ?thesis using ok by (simp add: config_ok_def)
    next
      assume stale: "vf_revocationMode v = RevocationBoundedStale
        \<and> time_sub (clock n) (vf_revocationsFetched v) \<le> vf_maxStaleness v"
      then have "0 < vf_maxStaleness v" "vf_maxStaleness v \<le> hour"
        using ok(1) by (simp_all add: config_ok_def allowed_staleness_def)
      then show ?thesis
        using stale time_sub_le_iff [of "vf_maxStaleness v" "clock n" "vf_revocationsFetched v"]
        by (simp add: allowed_staleness_def duration_defs)
    qed
    then show ?thesis using kept(1,2) n(1) by (intro conjI exI [of _ n]) auto
  next
    case (stored ids n etag)
    have "0 \<le> allowed_staleness w"
      using assms(2) stored(2) by (simp add: verifier_ok_def config_ok_def allowed_staleness_def split: if_splits)
    then show ?thesis using stored by (intro conjI exI [of _ n]) auto
  qed
  then show "b \<longleftrightarrow> leaseID |\<in>| vf_revoked w"
    "\<exists>n<4. clock n \<le> vf_revocationsFetched w + allowed_staleness w" by simp_all
qed

lemma verified_thumbprint:
  assumes "Verify W jwt_now raw method target token expected now window = Inr p"
  shows "\<exists>header payload k. strictParts raw = Inr (header, payload) \<and> header_key header = Some k
    \<and> JWKThumbprint (auth W) k = Inr expected" "vp_Thumbprint p = expected"
  using assms
  by (auto simp: Verify_def check_proof_Inr split: if_splits sum.splits prod.splits option.splits)

text \<open>What one accepted request was checked against, collected over the steps of \<open>Authorize\<close>.\<close>

lemma authorized_checks:
  assumes "parse_sound (auth_of S)" and "verifier_ok S v"
    and "Authorize S env (Some request) token action resource v = (Inr claims, w)"
  shows "(\<exists>k header. token_signed (auth_of S) token header k \<and> h_kid header = Some (keyID (auth_of S) k)
      \<and> fmlookup (vf_keys w) (keyID (auth_of S) k) = Some k \<and> length k = 32)
    \<and> c_Issuer claims = vf_issuer v \<and> c_Audience claims = [vf_audience v]
    \<and> (\<exists>iat nbf exp. c_IssuedAt claims = Some iat \<and> c_NotBefore claims = Some nbf \<and> c_ExpiresAt claims = Some exp
        \<and> iat \<le> nbf \<and> iat < exp \<and> nbf \<le> en_jwt_now env + vf_clockSkew v \<and> en_jwt_now env < exp + vf_clockSkew v)
    \<and> (case c_Confirmation claims of
        None \<Rightarrow> \<not> vf_requireProof v
      | Some cnf \<Rightarrow> \<exists>target p. proofTarget v request = Inr target
          \<and> Verify (web S) (en_proof_jwt_now env) (rq_header request ''DPoP'') (rq_Method request) target token
              (jkt cnf) (en_proof_now env) (vf_proofWindow v) = Inr p)
    \<and> (vf_revocationMode v = RevocationExpiryOnly
       \<or> ups_LeaseID (c_UPS claims) |\<notin>| vf_revoked w
         \<and> (\<exists>n<4. en_revocation_clock env n \<le> vf_revocationsFetched w + allowed_staleness v))
    \<and> action \<in> set (ups_Actions (c_UPS claims))
    \<and> list_ex (\<lambda>p. Allows (unicode_of S) p resource) (ups_Resources (c_UPS claims))
    \<and> (\<exists>m. ups_Constraints (c_UPS claims) = Some m
        \<and> Satisfied (unicode_of S) m (fmupd ''http_method'' (to_upper (unicode_of S) (rq_Method request))
            (case vf_constraintValues v of None \<Rightarrow> fmempty | Some f \<Rightarrow> f request)))
    \<and> (0 < sint (ups_MaxUses (c_UPS claims)) \<longrightarrow>
        (\<exists>f. vf_consumeLease v = Some f
          \<and> f (ups_LeaseID (c_UPS claims)) token (rq_header request ''Idempotency-Key'') = Inr ()))"
proof -
  obtain kid k v1 v2 where steps: "TokenKeyID token = Inr kid"
    "verifier_key S (en_key_clock env) (en_key_answer env) kid v = (Inr k, v1)"
    "VerifyLeaseToken (auth_of S) (en_jwt_now env) token (fmupd kid k fmempty)
       (vf_issuer v1) (vf_audience v1) (vf_clockSkew v1) = Inr claims"
    "verifyProof S (en_proof_now env) (en_proof_jwt_now env) request token claims v1 = (Inr (), v2)"
    "isRevoked S (en_revocation_clock env) (en_revocation_answer env) (ups_LeaseID (c_UPS claims)) v2 = (Inr False, w)"
    "check_capability S request token claims action resource w = Inr claims"
    using assms(3) by (rule Authorize_Inr)
  have named: "keys_named (auth_of S) (vf_keys v)" using assms(2) by (simp add: verifier_ok_def)
  obtain keys expire where v1: "v1 = v\<lparr>vf_keys := keys, vf_keysExpire := expire\<rparr>"
    "keys_named (auth_of S) keys" "fmlookup keys kid = Some k"
    using verifier_key_cases [OF steps(2) named] by metis
  have ok1: "verifier_ok S v1" by (rule run_step_key(1) [OF assms(2) steps(2)])
  then have small: "fmlen (vf_proofReplay v1) \<le> max_replay_entries" by (simp add: verifier_ok_def)
  obtain m where v2: "v2 = v1\<lparr>vf_proofReplay := m\<rparr>"
    "\<And>cnf. c_Confirmation claims = Some cnf \<Longrightarrow>
       \<exists>target p. proofTarget v1 request = Inr target
         \<and> Verify (web S) (en_proof_jwt_now env) (rq_header request ''DPoP'') (rq_Method request) target token
             (jkt cnf) (en_proof_now env) (vf_proofWindow v1) = Inr p"
    "c_Confirmation claims = None \<Longrightarrow> \<not> vf_requireProof v1"
    using verifyProof_run [OF steps(4) small] by metis
  have ok2: "verifier_ok S v2" by (rule run_step_proof(1) [OF ok1 steps(4)])
  have same: "same_config v v1" "same_config v1 v2" using v1(1) v2(1) by (simp_all add: same_config_updates)
  have w: "same_config v2 w" "vf_keys w = keys"
    using isRevoked_frame [OF steps(5)] v1(1) v2(1) by simp_all
  then have config: "same_config v w" "same_config v v2"
    using same same_config_trans by blast+
  obtain header iat nbf exp where token: "h_kid header = Some kid" "token_signed (auth_of S) token header k"
    "c_Issuer claims = vf_issuer v" "c_Audience claims = [vf_audience v]" "c_IssuedAt claims = Some iat"
    "c_NotBefore claims = Some nbf" "c_ExpiresAt claims = Some exp" "iat \<le> nbf" "iat < exp"
    "nbf \<le> en_jwt_now env + vf_clockSkew v" "en_jwt_now env < exp + vf_clockSkew v"
  proof (rule verified_authentic [OF assms(1) steps(3)])
    fix kid' key header iat nbf exp
    assume "TokenKeyID token = Inr kid'" "fmlookup (fmupd kid k fmempty) kid' = Some key" "h_kid header = Some kid'"
      "token_signed (auth_of S) token header key" "c_Issuer claims = vf_issuer v1" "c_Audience claims = [vf_audience v1]"
      "c_IssuedAt claims = Some iat" "c_NotBefore claims = Some nbf" "c_ExpiresAt claims = Some exp" "iat \<le> nbf" "iat < exp"
      "nbf \<le> en_jwt_now env + vf_clockSkew v1" "en_jwt_now env < exp + vf_clockSkew v1"
    then show thesis
      using that [of header iat nbf exp] steps(1) same_config_fields [OF same(1)] by simp
  qed
  have kid: "kid = keyID (auth_of S) k" "length k = 32"
    using v1(2,3) by (simp_all add: keys_named_def)
  have proof_ok: "case c_Confirmation claims of None \<Rightarrow> \<not> vf_requireProof v
      | Some cnf \<Rightarrow> \<exists>target p. proofTarget v request = Inr target
          \<and> Verify (web S) (en_proof_jwt_now env) (rq_header request ''DPoP'') (rq_Method request) target token
              (jkt cnf) (en_proof_now env) (vf_proofWindow v) = Inr p"
    using v2(2,3) same_config_fields [OF same(1)]
    by (cases "c_Confirmation claims") (simp_all add: proofTarget_def)
  have revoked: "vf_revocationMode v = RevocationExpiryOnly
       \<or> ups_LeaseID (c_UPS claims) |\<notin>| vf_revoked w
         \<and> (\<exists>n<4. en_revocation_clock env n \<le> vf_revocationsFetched w + allowed_staleness v)"
    using isRevoked_decision [OF steps(5) ok2] same_config_fields [OF config(1)] same_config_fields [OF config(2)]
    by auto
  obtain m where m: "ups_Constraints (c_UPS claims) = Some m"
  proof (rule VerifyLeaseToken_Inr [OF steps(3)])
    assume "check_claims (unicode_of S) claims = Inr claims"
    then show thesis using check_claims_Inr(2) that by (auto simp: capability_claims_def)
  qed
  have capability: "action \<in> set (ups_Actions (c_UPS claims))"
    "list_ex (\<lambda>p. Allows (unicode_of S) p resource) (ups_Resources (c_UPS claims))"
    "Satisfied (unicode_of S) m (fmupd ''http_method'' (to_upper (unicode_of S) (rq_Method request))
       (case vf_constraintValues v of None \<Rightarrow> fmempty | Some f \<Rightarrow> f request))"
    "0 < sint (ups_MaxUses (c_UPS claims)) \<longrightarrow>
        (\<exists>f. vf_consumeLease v = Some f
          \<and> f (ups_LeaseID (c_UPS claims)) token (rq_header request ''Idempotency-Key'') = Inr ())"
    using steps(6) m same_config_fields(9,10) [OF config(1)]
    by (auto simp: check_capability_Inr consume_use_None resourceAllowed_iff constraintsSatisfied_def Let_def)
  show ?thesis
    using token kid v1(3) w(2) proof_ok revoked m capability by blast
qed

subsection \<open>A concrete verifier\<close>

text \<open>A verifier that has cached one key and an empty snapshot of revocations, and the libraries of
  the example token and the example proof.\<close>

abbreviation example_key :: bytes where
  "example_key \<equiv> replicate 32 (CHR ''k'')"

abbreviation example_kid :: bytes where
  "example_kid \<equiv> keyID example_lib example_key"

abbreviation example_token :: bytes where
  "example_token \<equiv> token_text example_kid example_claims"

definition example_sdk :: sdk_lib where
  "example_sdk = \<lparr>web = example_web\<lparr>auth := one_token_lib (replicate 32 (CHR ''d'')) example_kid example_claims example_seed\<rparr>,
     decode_key_set = (\<lambda>_. None), decode_revocation_set = (\<lambda>_. None)\<rparr>"

definition example_verifier :: Verifier where
  "example_verifier =
    \<lparr>vf_jwksURL = example_url, vf_revocationsURL = Some example_url, vf_cacheTTL = minute,
     vf_revocationCacheTTL = minute, vf_revocationMode = RevocationStrict, vf_maxStaleness = 0,
     vf_clockSkew = 0, vf_audience = ''billing'', vf_issuer = ''i'', vf_requireProof = False,
     vf_proofWindow = minute, vf_externalURL = None, vf_consumeLease = None, vf_constraintValues = None,
     vf_proofReplay = fmempty, vf_keys = fmap_of_list [(example_kid, example_key)], vf_keysExpire = minute,
     vf_revoked = {||}, vf_revocationsExpire = minute, vf_revocationsFetched = 0, vf_revocationsETag = []\<rparr>"

definition example_request :: http_request where
  "example_request = \<lparr>rq_Method = ''get'', rq_Host = ''h'', rq_TLS = True, rq_EscapedPath = ''/p'',
     rq_header = (\<lambda>name. if name = ''DPoP'' then example_proof else [])\<rparr>"

definition example_authorize_env :: authorize_env where
  "example_authorize_env = \<lparr>en_key_clock = (\<lambda>_. 0), en_key_answer = None, en_jwt_now = 0, en_proof_now = 0,
     en_proof_jwt_now = 0, en_revocation_clock = (\<lambda>_. 0), en_revocation_answer = None\<rparr>"

lemma example_sdk_simps [simp]:
  "auth (web example_sdk) = one_token_lib (replicate 32 (CHR ''d'')) example_kid example_claims example_seed"
  by (simp add: example_sdk_def)

lemma example_plain_claims: "plain_claims example_kid example_claims"
  by (simp add: plain_claims_def example_claims_def Let_def keyID_def plain_text_char_def)

lemma example_verifier_ok: "verifier_ok example_sdk example_verifier"
  by (simp add: verifier_ok_def config_ok_def allowed_staleness_def keys_named_def example_verifier_def
      fmlookup_of_list RevocationStrict_def RevocationBoundedStale_def duration_defs)

lemma example_token_length: "length example_token \<le> MaxLeaseTokenBytes" "example_token \<noteq> []"
  by (simp_all add: token_text_def lease_header_def claims_members_def capability_members_def optional_text_def
      example_claims_def LeaseTokenType_def MaxLeaseTokenBytes_def raw_url_encode_def length_b64_encode keyID_def example_lib_def)

lemma example_key_pair: "key_pair (one_token_lib digest kid claims key) example_seed"
  by (simp add: key_pair_def example_seed_def Seed_def)
    (simp add: one_token_lib_def example_lib_def flip: replicate_add)

lemma example_token_verified:
  "VerifyLeaseToken (auth (web example_sdk)) 0 example_token (fmupd example_kid example_key fmempty) ''i'' ''billing'' 0
   = Inr example_claims"
proof -
  have "check_claims ascii_lib example_claims = Inr example_claims"
    using example_check_claims by (simp add: example_lib_def)
  moreover have "SignLeaseClaims (auth (web example_sdk)) example_claims example_seed = Inr example_token"
    by (simp add: SignLeaseClaims_def example_public) (simp add: one_token_lib_def example_seed_def PrivateKeySize_def)
  moreover have "key_pair (auth (web example_sdk)) example_seed" by (simp add: example_key_pair)
  moreover have "text_claims example_claims"
    by (simp add: exact_second_def text_claims_def example_claims_def Let_def duration_defs)
  moreover have "claims_checked (parse_options ''i'' ''billing'' 0) 0 example_claims"
    by (simp add: claims_checked_def parse_options_def example_claims_def duration_defs)
  ultimately show ?thesis
    using one_token_documented(1,3) [OF example_plain_claims] example_token_length(1)
    by (intro VerifyLeaseToken_signed [where privateKey = example_seed]) (simp_all add: example_public)
qed

lemma example_authorized:
  "fst (Authorize example_sdk example_authorize_env (Some example_request) example_token ''read'' ''customer/cus_123''
     example_verifier) = Inr example_claims"
proof -
  have "TokenKeyID example_token = Inr example_kid"
    using one_token_encodes [OF example_plain_claims] example_token_length(1)
    by (intro TokenKeyID_encoded) (simp_all add: keyID_def example_lib_def)
  moreover have "verifier_key example_sdk (\<lambda>_. 0) None example_kid example_verifier = (Inr example_key, example_verifier)"
    by (simp add: verifier_key_def cachedKey_def example_verifier_def duration_defs)
  moreover have "verifyProof example_sdk 0 0 example_request example_token example_claims example_verifier
      = (Inr (), example_verifier)"
    by (simp add: verifyProof_def example_claims_def example_verifier_def)
  moreover have "isRevoked example_sdk (\<lambda>_. 0) None l example_verifier = (Inr False, example_verifier)" for l
    by (simp add: isRevoked_def cachedRevocation_def example_verifier_def RevocationStrict_def
        RevocationExpiryOnly_def duration_defs)
  moreover have "check_capability example_sdk example_request example_token example_claims ''read'' ''customer/cus_123''
      example_verifier = Inr example_claims"
  proof -
    have "resourceAllowed ascii_lib [''customer/*''] ''customer/cus_123''"
      by (simp add: resourceAllowed_def Allows_iff CanonicalizeValue_Inr ok_def example_resources example_within)
    moreover have "Valid ascii_lib fmempty" using example_valid_constraints by simp
    ultimately show ?thesis
      by (simp add: check_capability_Inr constraintsSatisfied_def Satisfied_def consume_use_def)
        (simp add: example_claims_def)
  qed
  ultimately show ?thesis
    using example_token_length example_token_verified
    by (simp add: Authorize_def example_authorize_env_def not_less) (simp add: example_verifier_def)
qed

text \<open>The claims of a token bound to that key, and the acceptance of the example proof.\<close>

definition example_bound_claims :: LeaseClaims where
  "example_bound_claims = example_claims\<lparr>c_Confirmation :=
     Some \<lparr>jkt = raw_url_encode (sha256 example_lib (canonical_jwk example_key))\<rparr>\<rparr>"

lemma example_sdk_sound: "proofs_sound (web example_sdk)" "parse_sound (auth_of example_sdk)"
proof -
  show "parse_sound (auth_of example_sdk)"
    using one_token_documented(2) [OF example_plain_claims] by simp
  have "proof_signed (auth_of example_sdk) raw key = proof_signed (auth example_web) raw key" for raw key
    by (simp add: proof_signed_def) (simp add: one_token_lib_def example_web_def)
  then show "proofs_sound (web example_sdk)"
    using example_web_sound(2) by (simp add: proofs_sound_def) (simp add: example_sdk_def)
qed

lemma example_proof_accepted:
  "\<exists>v1. verifyProof example_sdk 0 0 example_request ''t'' example_bound_claims example_verifier = (Inr (), v1)"
proof -
  have lib: "unicode (auth example_web) = ascii_lib" "sha256 (auth example_web) = sha256 example_lib"
    "JWKThumbprint (auth example_web) = JWKThumbprint example_lib" "proof_parse (web example_sdk) = proof_parse example_web"
    "url_string (web example_sdk) = url_string example_web"
    "parse_request_uri (web example_sdk) = parse_request_uri example_web"
    by (simp_all add: example_web_def example_lib_def example_sdk_def)
  have uri: "canonicalURI (web example_sdk) target = canonicalURI example_web target" for target
    unfolding canonicalURI_def example_sdk_simps one_token_lib_simps(1,6) lib ..
  have same: "access_hash (auth_of example_sdk) ''t'' = access_hash (auth example_web) ''t''"
    "unicode_of example_sdk = unicode (auth example_web)"
    by (simp_all add: access_hash_def lib)
  have proofs: "check_proof (web example_sdk) c m target ''t'' = check_proof example_web c m target ''t''" for c m target
    unfolding fun_eq_iff check_proof_def uri same by simp
  have "Verify (web example_sdk) jwt_now raw m target ''t'' th at window
      = Verify example_web jwt_now raw m target ''t'' th at window" for jwt_now raw m target th at window
    unfolding Verify_def proofs example_sdk_simps one_token_lib_simps(1,6) lib ..
  moreover have "proofTarget example_verifier example_request = Inr proof_target"
    by (simp add: proofTarget_def example_verifier_def example_request_def proof_target_def)
  moreover have "example_proof \<noteq> []" by (simp add: example_proof_def)
  ultimately show ?thesis
    using example_verified_proof
    by (simp add: verifyProof_def example_bound_claims_def)
      (simp add: example_request_def example_verifier_def consumeProof_def store_proof_def max_replay_entries_def)
qed

subsection \<open>Properties\<close>

text \<open>C7: a proof of possession is accepted at most once. After a verifier accepted the proof of a
  request, it accepts the same text for no request, whatever the other requests do in between and
  however their steps interleave, as long as their clocks read no later time: while the text
  would still verify its marker is neither expired nor dropped.\<close>

theorem proof_accepted_once:
  assumes "proofs_sound (web S)" and "verifier_ok S v"
    and "verifyProof S now1 jwt1 request1 token1 claims1 v = (Inr (), v1)" and "c_Confirmation claims1 \<noteq> None"
    and "list_all (step_before now2) steps"
    and "rq_header request2 ''DPoP'' = rq_header request1 ''DPoP''" and "c_Confirmation claims2 \<noteq> None"
  shows "fst (verifyProof S now2 jwt2 request2 token2 claims2 (fold (run_step S) steps v1)) \<noteq> Inr ()"
proof
  let ?v2 = "fold (run_step S) steps v1" and ?raw = "rq_header request1 ''DPoP''"
  assume accepted: "fst (verifyProof S now2 jwt2 request2 token2 claims2 ?v2) = Inr ()"
  obtain cnf1 cnf2 where cnf: "c_Confirmation claims1 = Some cnf1" "c_Confirmation claims2 = Some cnf2"
    using assms(4,7) by blast
  have ok1: "verifier_ok S v1" by (rule run_step_proof(1) [OF assms(2,3)])
  have kept: "keeps_markers now2 v1 ?v2" by (rule verifier.fold_extends [OF ok1 assms(5)])
  have ok2: "verifier_ok S ?v2" by (rule verifier.fold_inv [OF ok1 assms(5)])
  have small: "fmlen (vf_proofReplay v) \<le> max_replay_entries" "fmlen (vf_proofReplay ?v2) \<le> max_replay_entries"
    using assms(2) ok2 by (simp_all add: verifier_ok_def)
  obtain m target1 p1 where first: "v1 = v\<lparr>vf_proofReplay := m\<rparr>"
    "Verify (web S) jwt1 ?raw (rq_Method request1) target1 token1 (jkt cnf1) now1 (vf_proofWindow v) = Inr p1"
    "fmlookup m (vp_Thumbprint p1 @ '':'' @ vp_ID p1) = Some (vp_ReplayExpiry p1)"
    using verifyProof_run [OF assms(3) small(1)] cnf(1) by metis
  obtain w where "verifyProof S now2 jwt2 request2 token2 claims2 ?v2 = (Inr (), w)"
    using accepted by (metis prod.collapse)
  then obtain target2 p2 where second:
    "Verify (web S) jwt2 ?raw (rq_Method request2) target2 token2 (jkt cnf2) now2 (vf_proofWindow ?v2) = Inr p2"
    "\<And>e. fmlookup (vf_proofReplay ?v2) (vp_Thumbprint p2 @ '':'' @ vp_ID p2) = Some e \<Longrightarrow> e < now2"
    using verifyProof_run [OF _ small(2)] cnf(2) assms(6) by metis
  have "vf_proofWindow ?v2 = vf_proofWindow v1"
    using kept by (intro same_config_fields(1)) (simp add: keeps_markers_def)
  then have "vf_proofWindow ?v2 = vf_proofWindow v" using first(1) by simp
  moreover have "jkt cnf1 = jkt cnf2"
    using verified_thumbprint(1) [OF first(2)] verified_thumbprint(1) [OF second(1)] by auto
  ultimately have again: "now2 + second \<le> vp_ReplayExpiry p1" "vp_ID p1 = vp_ID p2"
    using verified_before_expiry [OF assms(1) first(2)] second(1) by simp_all
  have "vp_Thumbprint p1 = vp_Thumbprint p2"
    using verified_thumbprint(2) first(2) second(1) \<open>jkt cnf1 = jkt cnf2\<close> by simp
  then have "fmlookup (vf_proofReplay v1) (vp_Thumbprint p2 @ '':'' @ vp_ID p2) = Some (vp_ReplayExpiry p1)"
    using first(1,3) again(2) by simp
  moreover have "now2 \<le> vp_ReplayExpiry p1" using again(1) second_pos by linarith
  ultimately have "fmlookup (vf_proofReplay ?v2) (vp_Thumbprint p2 @ '':'' @ vp_ID p2) = Some (vp_ReplayExpiry p1)"
    using kept unfolding keeps_markers_def by blast
  then have "vp_ReplayExpiry p1 < now2" by (rule second(2))
  then show False using again(1) second_pos by linarith
qed

theorem proof_accepted_once_witness:
  "\<exists>v1. fst (verifyProof example_sdk 0 0 example_request ''t'' example_bound_claims (fold (run_step example_sdk)
      [StepKey (\<lambda>_. 0) None example_kid] v1)) \<noteq> Inr ()
    \<and> verifyProof example_sdk 0 0 example_request ''t'' example_bound_claims example_verifier = (Inr (), v1)"
proof -
  obtain v1 where first: "verifyProof example_sdk 0 0 example_request ''t'' example_bound_claims example_verifier = (Inr (), v1)"
    using example_proof_accepted by blast
  have "c_Confirmation example_bound_claims \<noteq> None" "list_all (step_before 0) [StepKey (\<lambda>_. 0) None example_kid]"
    by (simp_all add: example_bound_claims_def step_before_def)
  with proof_accepted_once [OF example_sdk_sound(1) example_verifier_ok first, of 0
      "[StepKey (\<lambda>_. 0) None example_kid]" example_request example_bound_claims 0 "''t''"] first
  show ?thesis by blast
qed

text \<open>C6: what an authorized request went through. When \<open>Authorize\<close> accepts, the token is signed under
  the cached key that its header names and that hashes to that name, for the issuer and the
  audience of the verifier, and the clock lies between its \<open>nbf\<close>, which is no earlier than its
  \<open>iat\<close>, and its \<open>exp\<close>, each by the skew the verifier allows; a bound token came with a proof that
  verified for the request under its key, and no other token is accepted where proofs are
  required; outside the mode \<open>EXPIRY_ONLY\<close> the lease is not in a snapshot of revocations that is
  recent enough; the action and the resource are within the capability; its constraints hold of
  what the verifier's \<open>ConstraintValues\<close> reads from the request and of the method of the request;
  and a use was consumed when uses are limited.\<close>

theorem Authorize_sound:
  assumes "parse_sound (auth_of S)" and "verifier_ok S v"
    and "Authorize S env (Some request) token action resource v = (Inr claims, w)"
  shows "(\<exists>k header. token_signed (auth_of S) token header k \<and> h_kid header = Some (keyID (auth_of S) k)
      \<and> fmlookup (vf_keys w) (keyID (auth_of S) k) = Some k \<and> length k = 32)
    \<and> c_Issuer claims = vf_issuer v \<and> c_Audience claims = [vf_audience v]
    \<and> (\<exists>iat nbf exp. c_IssuedAt claims = Some iat \<and> c_NotBefore claims = Some nbf \<and> c_ExpiresAt claims = Some exp
        \<and> iat \<le> nbf \<and> iat < exp \<and> nbf \<le> en_jwt_now env + vf_clockSkew v \<and> en_jwt_now env < exp + vf_clockSkew v)
    \<and> (case c_Confirmation claims of
        None \<Rightarrow> \<not> vf_requireProof v
      | Some cnf \<Rightarrow> \<exists>target p. proofTarget v request = Inr target
          \<and> Verify (web S) (en_proof_jwt_now env) (rq_header request ''DPoP'') (rq_Method request) target token
              (jkt cnf) (en_proof_now env) (vf_proofWindow v) = Inr p)
    \<and> (vf_revocationMode v = RevocationExpiryOnly
       \<or> ups_LeaseID (c_UPS claims) |\<notin>| vf_revoked w
         \<and> (\<exists>n<4. en_revocation_clock env n \<le> vf_revocationsFetched w + allowed_staleness v))
    \<and> action \<in> set (ups_Actions (c_UPS claims))
    \<and> list_ex (\<lambda>p. Allows (unicode_of S) p resource) (ups_Resources (c_UPS claims))
    \<and> (\<exists>m. ups_Constraints (c_UPS claims) = Some m
        \<and> Satisfied (unicode_of S) m (fmupd ''http_method'' (to_upper (unicode_of S) (rq_Method request))
            (case vf_constraintValues v of None \<Rightarrow> fmempty | Some f \<Rightarrow> f request)))
    \<and> (0 < sint (ups_MaxUses (c_UPS claims)) \<longrightarrow>
        (\<exists>f. vf_consumeLease v = Some f
          \<and> f (ups_LeaseID (c_UPS claims)) token (rq_header request ''Idempotency-Key'') = Inr ()))"
  by (rule authorized_checks [OF assms])

theorem Authorize_sound_witness:
  "\<exists>k header. token_signed (auth_of example_sdk) example_token header k \<and> length k = 32
    \<and> list_ex (\<lambda>p. Allows ascii_lib p ''customer/cus_123'') (ups_Resources (c_UPS example_claims))"
proof -
  obtain w where "Authorize example_sdk example_authorize_env (Some example_request) example_token ''read''
      ''customer/cus_123'' example_verifier = (Inr example_claims, w)"
    using example_authorized by (metis prod.collapse)
  from Authorize_sound [OF example_sdk_sound(2) example_verifier_ok this]
  show ?thesis by auto
qed

end
