(* ===== verification/Client_Service.thy ===== *)
theory Client_Service
  imports Client Http_Promises Authorization
begin

section \<open>The client SDK and the service\<close>

text \<open>
  What a client of the SDK sends, and what the service makes of it: a signed request is
  authenticated, and a use that a resource server was told is consumed has been counted.
\<close>

subsection \<open>Texts\<close>

lemma decimal_value_append: "decimal_value (s @ [c]) = decimal_value s * 10 + digit_value c"
  by (simp add: decimal_value_def)

lemma format_uint_value: "decimal_value (format_uint n) = n \<and> list_all is_digit (format_uint n)"
proof (induction n rule: format_uint.induct)
  case (1 n)
  have eq: "format_uint n = (if n < 10 then [digit_char n] else format_uint (n div 10) @ [digit_char (n mod 10)])"
    by (rule format_uint.simps)
  have "decimal_value [digit_char n] = n" if "n < 10" using that by (simp add: decimal_value_def)
  then show ?case unfolding eq using 1 by (simp add: decimal_value_append)
qed

lemma parse_format_int:
  assumes "0 \<le> n" "n < 2 ^ 63"
  shows "parse_int64 (format_int n) = Some n"
proof -
  obtain c ds where f: "format_uint (nat n) = c # ds" using format_uint_nonempty [of "nat n"] by (cases "format_uint (nat n)") auto
  have digits: "list_all is_digit (c # ds)" "decimal_value (c # ds) = nat n"
    using format_uint_value [of "nat n"] f by simp_all
  then have "c \<noteq> CHR ''-''" "c \<noteq> CHR ''+''" by (auto simp: is_digit_def)
  then have "signed_digits (format_int n) = (False, c # ds)"
    using assms(1) f by (simp add: format_int_def signed_digits_def)
  then show ?thesis
    using assms digits by (simp add: parse_int64_def Let_def)
qed

lemma nonce_text:
  assumes "length s = 24"
  shows "validNonce (raw_url_encode s)"
proof -
  have chars: "set (raw_url_encode s) \<subseteq> set url_alphabet"
    using set_b64_encode [OF url_alphabet_facts(2)] by (simp add: raw_url_encode_def)
  have "list_all (\<lambda>c. byte c < 0x80 \<and> url_safe_rune (byte c)) url_alphabet"
    by (simp add: url_alphabet_def url_safe_rune_def)
  then have "ascii (raw_url_encode s)" "list_all (\<lambda>c. url_safe_rune (byte c)) (raw_url_encode s)"
    using chars by (auto simp: ascii_def list_all_iff)
  moreover have "length (raw_url_encode s) = 32"
    using assms by (simp add: raw_url_encode_def length_b64_encode)
  ultimately show ?thesis by (simp add: validNonce_def ascii_runes list_all_iff)
qed

subsection \<open>Requests on the wire\<close>

text \<open>
  The server reads what the client wrote: the method, the address, the body, and each header the
  client set. \<open>net/http\<close> writes the path \<open>/\<close> for none, trims blanks at the ends of a header's value,
  and adds headers of its own, of which nothing is said.
\<close>

definition blank :: "char \<Rightarrow> bool" where
  "blank c \<longleftrightarrow> c = CHR '' '' \<or> byte c = 9"

definition header_value :: "bytes \<Rightarrow> bool" where
  "header_value v \<longleftrightarrow> v = [] \<or> \<not> blank (hd v) \<and> \<not> blank (last v)"

definition written_path :: "client_lib \<Rightarrow> client_request \<Rightarrow> bytes" where
  "written_path C q = (if escaped_path C (cq_URL q) = [] then ''/'' else escaped_path C (cq_URL q))"

definition received :: "client_lib \<Rightarrow> client_request \<Rightarrow> http_in \<Rightarrow> bool" where
  "received C q r \<longleftrightarrow>
    in_Method r = cq_Method q \<and> in_EscapedPath r = written_path C q
    \<and> in_RawQuery r = u_RawQuery (cq_URL q) \<and> in_Body r = Some (cq_Body q)
    \<and> (\<forall>name v. fmlookup (cq_Header q) name = Some v \<and> header_value v \<longrightarrow> in_header r name = v)"

lemma received_header: "received C q r \<Longrightarrow> request_header q name = v \<Longrightarrow> v \<noteq> [] \<Longrightarrow> header_value v \<Longrightarrow> in_header r name = v"
  by (auto simp: received_def request_header_def split: option.splits)

lemma header_value_chars: "list_all (\<lambda>c. \<not> blank c) v \<Longrightarrow> header_value v"
  by (cases "v = []") (auto simp: header_value_def list_all_iff)

lemma encoded_header_value: "header_value (raw_url_encode s)"
proof -
  have "set (raw_url_encode s) \<subseteq> set url_alphabet"
    using set_b64_encode [OF url_alphabet_facts(2)] by (simp add: raw_url_encode_def)
  moreover have "list_all (\<lambda>c. \<not> blank c) url_alphabet" by (simp add: url_alphabet_def blank_def)
  ultimately show ?thesis by (intro header_value_chars) (auto simp: list_all_iff)
qed

lemma number_header_value: "header_value (format_int n)"
proof -
  have "list_all is_digit s \<Longrightarrow> list_all (\<lambda>c. \<not> blank c) s" for s
    by (induction s) (auto simp: is_digit_def blank_def)
  then show ?thesis using format_uint_value by (intro header_value_chars) (simp add: format_int_def blank_def)
qed

text \<open>
  What Ed25519 documents of a key made from its seed: a signature has 64 bytes and verifies under the
  public half of the key.
\<close>

definition signs_with :: "client_lib \<Rightarrow> bytes \<Rightarrow> bool" where
  "signs_with C privateKey \<longleftrightarrow>
    ed25519_from_seed (auth (net C)) (Seed privateKey) = privateKey \<and>
    (\<forall>m. length (ed25519_sign C privateKey m) = SignatureSize
       \<and> ed25519_verify (auth (net C)) (Public privateKey) m (ed25519_sign C privateKey m))"

lemma NewJSONRequest_Inr:
  assumes "NewJSONRequest C signer (Some random) t verb target body = Inr q" "verb \<noteq> []"
  obtains request where "u_RawQuery (cq_URL q) = []" "cq_Method q = verb" "cq_Body q = body" "cq_URL q = cq_URL request"
    "request_header q ''X-Upsilon-Workload-ID'' = sg_workloadID signer"
    "request_header q ''X-Upsilon-Timestamp'' = format_int (t div second)"
    "request_header q ''X-Upsilon-Nonce'' = raw_url_encode random"
    "request_header q ''X-Upsilon-Signature'' = raw_url_encode (ed25519_sign C (sg_privateKey signer)
       (request_message C verb request (format_int (t div second)) (raw_url_encode random) body))"
proof -
  obtain request where request: "new_request C verb target body = Inr request"
    using assms by (auto simp: NewJSONRequest_def split: sum.splits)
  then have new: "cq_Method request = verb" "cq_Body request = body"
    using assms(2) by (auto simp: new_request_def Let_def split: if_splits option.splits)
  show thesis
    by (rule that [of request])
      (use assms(1) request new in \<open>auto simp: NewJSONRequest_def Let_def set_request_header_def request_header_def split: if_splits\<close>)
qed

lemma accepted_key_authenticates:
  assumes "accepted_key w instant key" "length key = PublicKeySize" "ed25519_verify L key message signature"
  shows "\<exists>thumbprint. authenticatedWorkloadKey L w message signature instant = Some thumbprint"
proof (cases "length (w_PublicKey w) = PublicKeySize \<and> ed25519_verify L (w_PublicKey w) message signature")
  case True
  then show ?thesis by (simp add: authenticatedWorkloadKey_def JWKThumbprint_def)
next
  case False
  then have "w_PreviousPublicKey w = Some key" "\<exists>e. w_PreviousKeyExpiresAt w = Some e \<and> instant < e"
    using assms by (auto simp: accepted_key_def split: option.splits)
  then show ?thesis
    using False assms(2,3) by (auto simp: authenticatedWorkloadKey_def JWKThumbprint_def)
qed

lemma fresh_nonce_consumed:
  assumes "parse_uuid L i = Some i" "find_workload s i \<noteq> None" "length h = 32"
    and "\<forall>n \<in> set (db_workload_nonces s). nonce_matches i h n \<longrightarrow> n_expires_at n \<le> t"
  obtains s' where "ConsumeWorkloadNonce L t i h e s = (Inr (), s')"
  using assms
  by (cases "find (nonce_matches i h) (db_workload_nonces s)")
    (auto simp: ConsumeWorkloadNonce_def consume_workload_nonce_tx_def BeginFunc_def find_Some_iff)

text \<open>The converse of the checks of \<open>AuthenticateWorkload\<close>: a request that passes them is authenticated.\<close>

lemma AuthenticateWorkload_complete:
  assumes "db_ok L s" "digest_size L" "w \<in> set (db_workloads s)" "parse_uuid L (aw_WorkloadID request) = Some (w_ID w)"
    and "w_DisabledAt w = None" "aw_WorkloadID request \<noteq> []" "\<not> is_zero_time (aw_Timestamp request)"
    and "validNonce (aw_Nonce request)" "aw_Message request \<noteq> []" "length (aw_Signature request) = SignatureSize"
    and "\<bar>time_sub (trunc_second (now env)) (aw_Timestamp request)\<bar> \<le> uc_requestWindow u"
    and "accepted_key w (trunc_second (now env)) key" "length key = PublicKeySize"
    and "ed25519_verify L key (aw_Message request) (aw_Signature request)"
    and "\<forall>n \<in> set (db_workload_nonces s).
      nonce_matches (w_ID w) (sha256 L (aw_Nonce request)) n \<longrightarrow> n_expires_at n \<le> db_now env"
  shows "\<exists>thumbprint s'. AuthenticateWorkload L u env request s
    = (Inr (w\<lparr>w_AuthenticatedKeyThumbprint := thumbprint\<rparr>), s')"
proof -
  obtain thumbprint where auth: "authenticatedWorkloadKey L w (aw_Message request) (aw_Signature request)
      (trunc_second (now env)) = Some thumbprint"
    using accepted_key_authenticates [OF assms(12-14)] by blast
  have stored: "GetWorkloadByID L (aw_WorkloadID request) s = Inr w"
    using GetWorkloadByID_Inr [OF assms(1)] assms(3,4) by simp
  have "is_uuid L (w_ID w)" using assms(1,3) by (auto simp: db_ok_def workloads_ok_def list_all_iff)
  moreover have "find_workload s (w_ID w) \<noteq> None" using find_workload_iff [OF assms(1)] assms(3) by blast
  moreover have "length (sha256 L (aw_Nonce request)) = 32" using assms(2) by (simp add: digest_size_def)
  ultimately obtain s' where "ConsumeWorkloadNonce L (db_now env) (w_ID w) (sha256 L (aw_Nonce request))
      (aw_Timestamp request + uc_requestWindow u) s = (Inr (), s')"
    using fresh_nonce_consumed [OF _ _ _ assms(15)] by (auto simp: is_uuid_def)
  then show ?thesis
    using assms(5-11) stored auth by (simp add: AuthenticateWorkload_def abs_le_iff not_less) blast
qed

text \<open>C10: a request the SDK signs is authenticated. When a workload signs a request with a key the
  service accepts for it, a method that is not empty, an address with a path and 24 random bytes for
  the nonce, and the service reads the request within the window, then it authenticates the workload,
  provided the nonce has not been used or its record has expired: the two sides agree on the signed
  text, the encodings and the form of nonce and timestamp, whatever headers the HTTP libraries add.\<close>
theorem signed_request_accepted:
  assumes "store_ok (lib P) s" and "auth (net C) = lib P" and "digest_size (lib P)" and "signs_with C privateKey"
    and "NewSigner workloadID privateKey = Inr signer"
    and "NewJSONRequest C signer (Some random) t verb target body = Inr q" and "verb \<noteq> []" and "length random = 24"
    and "received C q r"
    and "w \<in> set (db_workloads s)" and "parse_uuid (lib P) workloadID = Some (w_ID w)" and "w_DisabledAt w = None"
    and "accepted_key w (trunc_second (now env)) (Public privateKey)"
    and "0 \<le> t" and "t < 2 ^ 62 * second"
    and "\<bar>time_sub (trunc_second (now env)) (time_unix (t div second))\<bar> \<le> uc_requestWindow u"
    and "\<forall>n \<in> set (db_workload_nonces s).
      nonce_matches (w_ID w) (sha256 (lib P) (raw_url_encode random)) n \<longrightarrow> n_expires_at n \<le> db_now env"
    and "header_value workloadID" and "escaped_path C (cq_URL q) \<noteq> []"
  shows "\<exists>thumbprint s'. authenticateWorkload P u env r body s = (Inr (w\<lparr>w_AuthenticatedKeyThumbprint := thumbprint\<rparr>), s')"
proof -
  have signer: "workloadID \<noteq> []" "length privateKey = 64" "sg_workloadID signer = workloadID"
    "sg_privateKey signer = privateKey"
    using assms(5) by (auto simp: NewSigner_def PrivateKeySize_def split: if_splits)
  obtain request where q: "u_RawQuery (cq_URL q) = []" "cq_Method q = verb" "cq_Body q = body" "cq_URL q = cq_URL request"
    "request_header q ''X-Upsilon-Workload-ID'' = workloadID"
    "request_header q ''X-Upsilon-Timestamp'' = format_int (t div second)"
    "request_header q ''X-Upsilon-Nonce'' = raw_url_encode random"
    "request_header q ''X-Upsilon-Signature'' = raw_url_encode (ed25519_sign C privateKey
       (request_message C verb request (format_int (t div second)) (raw_url_encode random) body))"
    using NewJSONRequest_Inr [OF assms(6,7)] signer(3,4) by metis
  define message where "message = request_message C verb request (format_int (t div second)) (raw_url_encode random) body"
  have unix: "0 \<le> t div second" "t div second < 2 ^ 63"
    using assms(14,15) by (auto simp: duration_defs)
  have nonce: "raw_url_encode random \<noteq> []" using assms(8) by auto
  have digits: "format_int (t div second) \<noteq> []"
    using unix format_uint_nonempty by (simp add: format_int_def)
  have signature: "length (ed25519_sign C privateKey m) = SignatureSize"
    "ed25519_verify (lib P) (Public privateKey) m (ed25519_sign C privateKey m)" for m
    using assms(2,4) by (simp_all add: signs_with_def)
  have "ed25519_sign C privateKey message \<noteq> []" using signature(1) [of message] by (auto simp: SignatureSize_def)
  then have headers: "in_header r ''X-Upsilon-Workload-ID'' = workloadID"
    "in_header r ''X-Upsilon-Timestamp'' = format_int (t div second)" "in_header r ''X-Upsilon-Nonce'' = raw_url_encode random"
    "in_header r ''X-Upsilon-Signature'' = raw_url_encode (ed25519_sign C privateKey message)"
    using received_header [OF assms(9) q(5) signer(1) assms(18)] received_header [OF assms(9) q(6) digits number_header_value]
      received_header [OF assms(9) q(7) nonce encoded_header_value] received_header [OF assms(9) q(8) _ encoded_header_value]
    by (simp_all add: message_def)
  have message: "signedRequestMessage (lib P) (in_Method r) (in_EscapedPath r) (in_header r ''X-Upsilon-Timestamp'')
      (in_header r ''X-Upsilon-Nonce'') body = message" "message \<noteq> []"
    unfolding headers using assms(9,19) q assms(2)
    by (simp_all add: received_def written_path_def message_def request_message_def signedRequestMessage_def)
  have key: "length (Public privateKey) = PublicKeySize"
    using signer(2) by (simp add: Public_def PublicKeySize_def)
  have ok: "db_ok (lib P) s" using assms(1) by (simp add: store_ok_def)
  have past: "\<not> is_zero_time (time_unix (t div second))"
    using unix by (simp add: is_zero_time_def zero_time_def time_unix_def duration_defs)
  define request where "request = \<lparr>aw_WorkloadID = workloadID, aw_Timestamp = time_unix (t div second),
    aw_Nonce = raw_url_encode random, aw_Message = message, aw_Signature = ed25519_sign C privateKey message\<rparr>"
  have "\<exists>thumbprint s'. AuthenticateWorkload (lib P) u env request s
    = (Inr (w\<lparr>w_AuthenticatedKeyThumbprint := thumbprint\<rparr>), s')"
    by (rule AuthenticateWorkload_complete [OF ok assms(3,10) _ assms(12) _ _ _ _ _ _ assms(13) key])
      (use assms(8,11,16,17) in \<open>simp_all add: request_def past signer(1) nonce_text message(2) signature\<close>)
  then obtain thumbprint s' where "AuthenticateWorkload (lib P) u env request s
      = (Inr (w\<lparr>w_AuthenticatedKeyThumbprint := thumbprint\<rparr>), s')" by blast
  then have "authenticateWorkload P u env r body s = (Inr (w\<lparr>w_AuthenticatedKeyThumbprint := thumbprint\<rparr>), s')"
    using q assms(9) message(1) parse_format_int [OF unix]
    by (simp add: authenticateWorkload_def received_def headers request_def)
  then show ?thesis by blast
qed

text \<open>A client of the example service, with a key made from its seed.\<close>

definition example_client :: client_lib where
  "example_client = \<lparr>net = example_web, url_parse = (\<lambda>_. Some example_url), escaped_path = u_Path,
     ed25519_sign = (\<lambda>_ _. replicate 64 (CHR ''s'')), marshal_lease = (\<lambda>_. Inr ''{}''),
     marshal_delegation = (\<lambda>_. Inr ''{}''), marshal_registration = (\<lambda>_. Inr ''{}''),
     decode_issued = (\<lambda>_. Inl (Opaque ''json'')), decode_registered = (\<lambda>_. Inl (Opaque ''json'')),
     decode_revoked = (\<lambda>_. Inl (Opaque ''json'')), decode_inspection = (\<lambda>_. Inl (Opaque ''json'')),
     decode_lineage = (\<lambda>_. Inl (Opaque ''json'')), decode_error = (\<lambda>_. ([], [], []))\<rparr>"

definition trim_blanks :: "bytes \<Rightarrow> bytes" where
  "trim_blanks v = rev (dropWhile blank (rev (dropWhile blank v)))"

definition on_wire :: "client_lib \<Rightarrow> client_request \<Rightarrow> http_in" where
  "on_wire C q = \<lparr>in_Method = cq_Method q, in_EscapedPath = written_path C q,
     in_RawQuery = u_RawQuery (cq_URL q), in_query = (\<lambda>_. []),
     in_header = (\<lambda>name. case fmlookup (cq_Header q) name of
         Some v \<Rightarrow> trim_blanks v
       | None \<Rightarrow> if name = ''User-Agent'' then ''Go-http-client/1.1''
           else if name = ''Accept-Encoding'' then ''gzip'' else []),
     in_Body = Some (cq_Body q), in_TLS = True, in_RemoteAddr = [], in_ClientIP = ''a''\<rparr>"

lemma trim_blanks_value:
  assumes "header_value v"
  shows "trim_blanks v = v"
proof -
  have "dropWhile blank v = v"
    using assms by (cases v) (simp_all add: header_value_def)
  moreover have "dropWhile blank (rev v) = rev v"
    using assms by (cases v rule: rev_cases) (simp_all add: header_value_def)
  ultimately show ?thesis by (simp add: trim_blanks_def)
qed

lemma on_wire_received: "received C q (on_wire C q)"
  by (simp add: received_def on_wire_def trim_blanks_value)

lemma example_client_simps [simp]: "auth (net example_client) = example_lib" "lib example_http = example_lib"
  by (simp_all add: example_client_def example_web_def example_http_def)

lemma signed_request_accepted_witness:
  "\<exists>q thumbprint s'. NewJSONRequest example_client \<lparr>sg_workloadID = ''w1'', sg_privateKey = example_seed\<rparr>
      (Some (replicate 24 (CHR ''z''))) minute ''POST'' ''https://h/p'' ''{}'' = Inr q
    \<and> authenticateWorkload example_http example_usecase (example_env minute) (on_wire example_client q) ''{}'' example_db
      = (Inr ((example_workload ''w1'' ''worker-one'' (CHR ''k''))\<lparr>w_AuthenticatedKeyThumbprint := thumbprint\<rparr>), s')"
proof -
  let ?signer = "\<lparr>sg_workloadID = ''w1'', sg_privateKey = example_seed\<rparr>"
  let ?w = "example_workload ''w1'' ''worker-one'' (CHR ''k'')"
  have "\<exists>q. NewJSONRequest example_client ?signer (Some (replicate 24 (CHR ''z''))) minute ''POST'' ''https://h/p'' ''{}'' = Inr q"
    by (simp add: NewJSONRequest_def new_request_def token_char_def Let_def)
      (simp add: example_client_def example_url_def)
  then obtain q where q: "NewJSONRequest example_client ?signer (Some (replicate 24 (CHR ''z''))) minute ''POST''
      ''https://h/p'' ''{}'' = Inr q" by blast
  have "Seed example_seed = replicate 32 (CHR ''k'')" "Public example_seed = replicate 32 (CHR ''k'')"
    by (simp_all add: Seed_def Public_def example_seed_def)
  moreover have "replicate 32 (CHR ''k'') @ replicate 32 (CHR ''k'') = example_seed"
    by (simp add: example_seed_def replicate_add [symmetric])
  ultimately have "signs_with example_client example_seed" "accepted_key ?w t (Public example_seed)" for t
    by (simp_all add: signs_with_def accepted_key_def)
      (simp_all add: example_lib_def example_client_def SignatureSize_def)
  moreover have "NewSigner ''w1'' example_seed = Inr ?signer"
    by (simp add: NewSigner_def example_seed_def PrivateKeySize_def)
  moreover have "\<bar>time_sub (trunc_second (now (example_env minute))) (time_unix (minute div second))\<bar>
      \<le> uc_requestWindow example_usecase"
    by (simp add: example_env_def example_usecase_def trunc_second_def time_sub_def time_unix_def duration_defs)
  moreover have "store_ok (lib example_http) example_db" "digest_size (lib example_http)" "db_workload_nonces example_db = []"
    using example_store_ok example_digest by (simp_all add: example_db_def)
  moreover have "?w \<in> set (db_workloads example_db)" "0 \<le> minute" "minute < 2 ^ 62 * second"
    by (simp, simp_all add: duration_defs)
  moreover have "header_value ''w1''" by (simp add: header_value_def blank_def)
  moreover have "escaped_path example_client (cq_URL q) \<noteq> []"
    using q by (auto simp: NewJSONRequest_def new_request_def Let_def example_client_def example_url_def
        set_request_header_def split: if_splits)
  ultimately have "\<exists>thumbprint s'. authenticateWorkload example_http example_usecase (example_env minute)
      (on_wire example_client q) ''{}'' example_db = (Inr (?w\<lparr>w_AuthenticatedKeyThumbprint := thumbprint\<rparr>), s')"
    using q on_wire_received [of example_client q]
    by (intro signed_request_accepted [where C = example_client and privateKey = example_seed and workloadID = "''w1''"
        and verb = "''POST''" and random = "replicate 24 (CHR ''z'')" and signer = ?signer and t = minute and q = q])
      simp_all
  with q show ?thesis by blast
qed

subsection \<open>Uses that were counted\<close>

lemma ConsumeLease_counted:
  assumes "db_ok L s" "ConsumeLease L u env request s = (Inr consumption, s')"
  obtains l row where "l \<in> set (db_leases s)" "parse_uuid L (cl_LeaseID request) = Some (l_ID l)"
    "l_TokenHash l = sha256 L (cl_Token request)" "l_RevokedAt l = None"
    "row \<in> set (db_lease_consumptions s')" "u_lease_id row = l_ID l" "u_idempotency_key row = cl_IdempotencyKey request"
    "0 < sint (l_MaxUses l)"
proof -
  obtain l claims where l: "GetLeaseByID L (cl_LeaseID request) s = Inr l"
    "parentTokenMatches L l (cl_Token request) claims"
    "ConsumeLeaseUse L (l_ID l) (sha256 L (cl_Token request)) (cl_IdempotencyKey request) (trunc_second (now env)) s
      = (Inr consumption, s')"
    using assms(2) by (auto simp: ConsumeLease_def split: if_splits sum.splits)
  then have stored: "parse_uuid L (cl_LeaseID request) = Some (l_ID l)" "l \<in> set (db_leases s)"
    using GetLeaseByID_Inr [OF assms(1)] by simp_all
  have uuid: "parse_uuid L (l_ID l) = Some (l_ID l)"
    using db_ok_row [OF assms(1) stored(2)] by (simp add: lease_row_ok_def is_uuid_def)
  have hash: "l_TokenHash l = sha256 L (cl_Token request)"
    using l(2) by (simp add: parentTokenMatches_def Let_def split: if_splits)
  have find: "find_lease s (l_ID l) = Some l" using find_lease_iff [OF assms(1)] stored(2) by blast
  from l(3) have "consume_lease_use_tx L (l_ID l) (sha256 L (cl_Token request)) (cl_IdempotencyKey request)
      (trunc_second (now env)) s = Inr (consumption, s')"
    by (simp add: ConsumeLeaseUse_def BeginFunc_Inr)
  then show thesis
  proof (cases rule: consume_lease_use_Inr)
    case (replay i lease w row)
    then have "lease = l" "i = l_ID l" using uuid find by simp_all
    moreover have "row \<in> set (db_lease_consumptions s)" "consumption_matches i (cl_IdempotencyKey request) row"
      using replay by (auto simp: find_Some_iff)
    ultimately show thesis
      using that [OF stored(2,1) hash] replay by (simp add: consumption_matches_def)
  next
    case (fresh i lease w s1)
    then have same: "lease = l" "i = l_ID l" using uuid find by simp_all
    have "0 < sint (l_MaxUses l)"
      using active_uses(3) [OF assms(1) stored(2)] fresh(10) same(1) by simp
    moreover have "\<lparr>u_lease_id = l_ID l, u_idempotency_key = cl_IdempotencyKey request,
        u_use_number = l_UsesConsumed lease + 1, u_consumed_at = pg_time (trunc_second (now env))\<rparr>
        \<in> set (db_lease_consumptions s')" (is "?row \<in> _")
      using fresh(11,12) same(2) by (simp add: insert_consumption_Inr update_uses_def)
    ultimately show thesis using that [OF stored(2,1) hash, of ?row] fresh(6) same(1) by simp
  qed
qed

lemma refused_status: "gx_Status (writeError err c) \<noteq> 200"
  using writeError_status [of err c] by auto

lemma consumed_over_http:
  assumes "store_ok (lib P) (hs_db st)" "Router P h u env r (RConsume i) st = (c, st')" "gx_Status c = 200"
  obtains l row where "l \<in> set (db_leases (hs_db st))" "parse_uuid (lib P) i = Some (l_ID l)"
    "l_TokenHash l = sha256 (lib P) (in_header r ''Upsilon-Capability'')" "l_RevokedAt l = None"
    "row \<in> set (db_lease_consumptions (hs_db st'))" "u_lease_id row = l_ID l"
    "u_idempotency_key row = in_header r ''Idempotency-Key''" "0 < sint (l_MaxUses l)"
    "bearer_digest P r (dh_consumptionTokenHash h)"
  using assms(2)
proof (cases rule: Router_cases)
  case stopped
  then show thesis using assms(3) by simp
next
  case (handled c0 m)
  have run: "consumeLease P u env r i c0 (hs_db st) = (c, hs_db st')" using handled(2) by simp
  let ?request = "\<lparr>cl_LeaseID = i, cl_Token = in_header r ''Upsilon-Capability'',
     cl_IdempotencyKey = in_header r ''Idempotency-Key''\<rparr>"
  obtain consumption where "ConsumeLease (lib P) u (call_env_of c0 (he_call env)) ?request (hs_db st)
      = (Inr consumption, hs_db st')"
    using run assms(3) refused_status
    by (auto simp: consumeLease_def Let_def split: if_splits prod.splits sum.splits)
  moreover have "db_ok (lib P) (hs_db st)" using assms(1) by (simp add: store_ok_def)
  moreover have "bearer_digest P r (dh_consumptionTokenHash h)"
    using handled(1) by (simp add: requireConsumer_None)
  ultimately show thesis
    using that ConsumeLease_counted [where request = ?request] by (metis ConsumeLeaseRequest.select_convs)
qed

text \<open>The request of \<open>Consume\<close>, as the service reads it.\<close>

lemma consume_request_Inr:
  assumes "consume_request C consumer i token key = Inr q" "received C q r"
  shows "header_value token \<Longrightarrow> in_header r ''Upsilon-Capability'' = token"
    "header_value key \<Longrightarrow> in_header r ''Idempotency-Key'' = key"
    "header_value (''Bearer '' @ cn_consumerToken consumer) \<Longrightarrow>
       in_header r ''Authorization'' = ''Bearer '' @ cn_consumerToken consumer"
    "in_Method r = ''POST''" "in_Body r = Some []"
  using assms
  by (auto simp: consume_request_def new_request_def received_def set_request_header_def Let_def
      split: sum.splits if_splits option.splits)

lemma Consume_Inr:
  assumes "Consume C send consumer i token key = Inr ()"
  obtains q response where "consume_request C consumer i token key = Inr q" "send q = Some response"
    "cp_StatusCode response = 200"
  using assms by (auto simp: Consume_def split: if_splits sum.splits option.splits)

end
