(* ===== verification/Delegation.thy ===== *)
theory Delegation
  imports System
begin

section \<open>Delegating a lease, end to end\<close>

text \<open>
  What a successful \<open>DelegateLease\<close> of \<open>internal/usecase/usecase.go\<close> says: the checks of the handler,
  of the token and of the transaction that stores the child, in one statement; and a concrete
  delegation in the example database.
\<close>

subsection \<open>A concrete delegation\<close>

text \<open>A library that signs one token, accepts the token of the example root lease, and whose hash of
  that token is the stored one.\<close>

definition delegation_lib :: auth_lib where
  "delegation_lib = example_lib\<lparr>
     sha256 := (\<lambda>m. if m = example_raw then replicate 32 (CHR ''a'') else sha256 example_lib m),
     jwt_sign := (\<lambda>_ _ _. Inr (replicate 40 (CHR ''c''))),
     jwt_parse := example_parse example_raw (lease_claims example_usecase example_root_row)\<rparr>"

definition example_delegation :: DelegateLeaseRequest where
  "example_delegation = \<lparr>dl_ParentLeaseID = ''r'', dl_ParentToken = example_raw,
     dl_DelegatingWorkloadID = ''w1'', dl_DelegateToWorkloadID = ''w2'', dl_Actions = [''refund''],
     dl_Resources = [''customer/cus_123''], dl_Expiration = zero_time, dl_TTL = minute,
     dl_ProofOfPossession = False, dl_MaxUses = 5, dl_Constraints = prod_limits ''500'',
     dl_AuthenticatedKeyThumbprint = example_thumbprint (CHR ''k'')\<rparr>"

lemma example_raw_tokens: "replicate 40 (CHR ''c'') \<noteq> example_raw" "canonical_jwk k \<noteq> example_raw"
proof -
  have "CHR ''.'' \<in> set example_raw" by (simp add: example_raw_def)
  moreover have "CHR ''.'' \<notin> set (canonical_jwk k)" "CHR ''.'' \<notin> set (replicate 40 (CHR ''c''))"
    using dot_not_encoded by (simp_all add: canonical_jwk_def)
  ultimately show "replicate 40 (CHR ''c'') \<noteq> example_raw" "canonical_jwk k \<noteq> example_raw" by metis+
qed

lemma delegation_lib_simps [simp]:
  "unicode delegation_lib = ascii_lib" "parse_uuid delegation_lib = Some"
  "sha256 delegation_lib example_raw = replicate 32 (CHR ''a'')"
  "sha256 delegation_lib (replicate 40 (CHR ''c'')) = replicate 32 (CHR ''c'')"
  "JWKThumbprint delegation_lib k = JWKThumbprint example_lib k"
  using example_raw_tokens
  by (simp_all add: delegation_lib_def example_lib_def JWKThumbprint_def)

lemma example_root_claims:
  "check_claims ascii_lib (lease_claims example_usecase example_root_row)
    = Inr (lease_claims example_usecase example_root_row)"
proof -
  let ?claims = "lease_claims example_usecase example_root_row"
  have "\<not> invalid_capability ascii_lib ?claims"
    unfolding valid_capability_iff
    by (simp add: capability_claims_def lease_claims_def example_root_row_def parentID_def
        delegatedByID_def copyConstraints_def example_context_facts LeaseTokenVersion_def)
  moreover have "\<not> missing_claims ?claims" "\<not> invalid_root_claims ?claims" "\<not> invalid_times ?claims"
    "c_Confirmation ?claims = None" "ups_Depth (c_UPS ?claims) = 0"
    by (simp_all add: lease_claims_def example_root_row_def missing_claims_def invalid_root_claims_def
        invalid_times_def parentID_def delegatedByID_def NumericDate_def trunc_second_def duration_defs)
  ultimately show ?thesis by (simp add: check_claims_def)
qed

lemma example_root_verified:
  "VerifyLeaseToken delegation_lib 0 example_raw (uc_verificationKeys example_usecase)
     (uc_issuer example_usecase) ''billing'' (uc_clockSkew example_usecase)
   = Inr (lease_claims example_usecase example_root_row)"
proof -
  have "header_of (raw_url_encode example_header) = \<lparr>h_typ = Some LeaseTokenType, h_kid = Some ''k''\<rparr>"
    using TokenKeyID_Inr [OF example_key_id] by (simp add: example_split)
  then have "jwt_parse delegation_lib (parse_options ''i'' ''billing'' 0) 0 example_raw
      (key_function (uc_verificationKeys example_usecase)) = Inr (lease_claims example_usecase example_root_row)"
    by (simp add: delegation_lib_def example_parse_def example_split key_function_def parse_options_def
        lease_claims_def example_usecase_def example_root_row_def NumericDate_def trunc_second_def duration_defs)
  moreover note example_root_claims
  ultimately show ?thesis
    using example_encodings example_key_id
    by (simp add: VerifyLeaseToken_def not_less example_usecase_def)
qed

lemma example_checked:
  "check_delegation delegation_lib example_usecase (example_env 0) example_delegation example_db
   = Inr example_root_row"
proof -
  have "GetLeaseByID delegation_lib ''r'' example_db = Inr example_root_row"
    by (simp add: GetLeaseByID_def select_lease_def)
  moreover have "parentTokenMatches delegation_lib example_root_row example_raw
      (lease_claims example_usecase example_root_row)"
    by (simp add: parentTokenMatches_def Let_def lease_claims_def claimConfirmation_def parentID_def
        delegatedByID_def copyConstraints_def Equal_iff example_root_row_def NumericDate_def trunc_second_def
        example_context_facts)
  moreover have "example_raw \<noteq> []" using example_encodings(3) by simp
  ultimately show ?thesis
    using example_root_verified
    by (simp add: check_delegation_def example_delegation_def example_env_def)
      (simp add: example_root_row_def trunc_second_def duration_defs)
qed

lemma example_prepared:
  obtains i t where "i \<notin> {''r'', ''c'', []}" "t \<notin> {''tr'', ''tc'', []}"
    "prepare_delegated delegation_lib example_usecase (example_env 0) example_delegation example_root_row example_db
     = Inr (example_lease_named i t\<lparr>l_TokenHash := []\<rparr>)"
proof -
  have length: "length i = 36" if "newID (Some v) = Inr i" "length v = 16" for v i
    using that dashed_back(2) [of "hex_encode (stamp_version v)"] hex_encode_digits [of "stamp_version v"]
      stamp_version_nth(1) [of v] by (auto simp: newID_dashed)
  obtain i t where ids: "newID (random1 (example_env 0)) = Inr i" "newID (random2 (example_env 0)) = Inr t"
    by (simp add: newID_dashed example_env_def)
  then have "length i = 36" "length t = 36" using length by (simp_all add: example_env_def)
  then have "i \<notin> {''r'', ''c'', []}" "t \<notin> {''tr'', ''tc'', []}" by auto
  moreover have "lease_expiration example_usecase 0 zero_time minute = Inr minute"
    by (simp add: lease_expiration_Inr is_zero_time_def example_usecase_def trunc_second_def duration_defs)
  moreover have "Validate ascii_lib (lease_context example_root_row) example_child = Inr ()"
    using example_attenuates
    by (simp add: Validate_ok lease_context_def example_root_row_def example_root_def)
  moreover have "GetWorkloadByID delegation_lib ''w2'' example_db
      = Inr (example_workload ''w2'' ''worker-two'' (CHR ''j''))"
    by (simp add: GetWorkloadByID_def select_workload_def find_workload_def)
  moreover have "example_child = \<lparr>ac_Actions = dl_Actions example_delegation,
      ac_Resources = dl_Resources example_delegation, ac_Expiration = minute,
      ac_Depth = l_Depth example_root_row + 1, ac_MaxDepth = child_max_depth example_delegation example_root_row,
      ac_MaxUses = dl_MaxUses example_delegation, ac_Constraints = dl_Constraints example_delegation\<rparr>"
    by (simp add: example_child_def example_delegation_def example_root_row_def child_max_depth_def)
  moreover have "dl_Expiration example_delegation = zero_time" "dl_TTL example_delegation = minute"
    "dl_DelegateToWorkloadID example_delegation = ''w2''" "\<not> dl_ProofOfPossession example_delegation"
    "l_ConfirmationThumbprint example_root_row = []" "trunc_second (now (example_env 0)) = 0"
    by (simp_all add: example_delegation_def example_root_row_def example_env_def trunc_second_def)
  ultimately show thesis
    using ids
    by (intro that [of i t])
      (simp_all add: prepare_delegated_def Let_def,
       simp add: example_delegation_def child_max_depth_def example_root_row_def
         copyConstraints_def example_lease_named_def example_child_row_def)
qed

lemma example_delegated:
  "\<exists>il s'. DelegateLease delegation_lib example_usecase (example_env 0) example_delegation example_db = (Inr il, s')"
proof (rule example_prepared)
  fix i t
  assume ids: "i \<notin> {''r'', ''c'', []}" "t \<notin> {''tr'', ''tc'', []}"
    and prepared: "prepare_delegated delegation_lib example_usecase (example_env 0) example_delegation
      example_root_row example_db = Inr (example_lease_named i t\<lparr>l_TokenHash := []\<rparr>)"
  have "jwt_sign delegation_lib = (\<lambda>_ _ _. Inr (replicate 40 (CHR ''c'')))"
    by (simp add: delegation_lib_def)
  from example_issue [OF _ _ this _ ids]
  have "\<exists>il s'. issue delegation_lib example_usecase (example_env 0) (example_lease_named i t\<lparr>l_TokenHash := []\<rparr>)
     ''lease.delegated'' ''w1'' example_db = (Inr il, s')" by fastforce
  then show ?thesis using example_checked prepared by (simp add: DelegateLease_def)
qed

subsection \<open>Properties\<close>

text \<open>C11: a delegation is checked end to end. When \<open>DelegateLease\<close> succeeds, the parent is stored, not
  revoked, and not expired; the presented token verifies under a trusted key and matches the
  parent; the caller holds the parent and, when the parent is bound to a key, authenticated with
  that key; and the row stored attenuates the parent and belongs to an enabled recipient.\<close>

theorem DelegateLease_sound:
  assumes "db_ok L s" and "DelegateLease L u env request s = (Inr il, s')"
  shows "\<exists>p row w claims. p \<in> set (db_leases s) \<and> parse_uuid L (dl_ParentLeaseID request) = Some (l_ID p)
    \<and> l_RevokedAt p = None \<and> trunc_second (now env) < l_Expiration p
    \<and> dl_DelegatingWorkloadID request = l_WorkloadID p
    \<and> VerifyLeaseToken L (jwt_now env) (dl_ParentToken request) (uc_verificationKeys u) (uc_issuer u)
        (l_Audience p) (uc_clockSkew u) = Inr claims
    \<and> parentTokenMatches L p (dl_ParentToken request) claims
    \<and> (l_ConfirmationThumbprint p = [] \<or> l_ConfirmationThumbprint p = dl_AuthenticatedKeyThumbprint request)
    \<and> db_leases s' = db_leases s @ [row] \<and> l_ParentLeaseID row = Some (l_ID p)
    \<and> attenuates (unicode L) (lease_context p) (lease_context row)
    \<and> w \<in> set (db_workloads s) \<and> w_ID w = l_WorkloadID row \<and> w_DisabledAt w = None"
proof -
  obtain p where chk: "check_delegation L u env request s = Inr p"
    using assms(2) by (auto simp: DelegateLease_def split: sum.splits)
  then obtain lease where prep: "prepare_delegated L u env request p s = Inr lease"
    using assms(2) by (auto simp: DelegateLease_def split: sum.splits)
  then have issued: "issue L u env lease ''lease.delegated'' (l_WorkloadID p) s = (Inr il, s')"
    using assms(2) chk by (simp add: DelegateLease_def)
  obtain claims where c: "GetLeaseByID L (dl_ParentLeaseID request) s = Inr p" "l_RevokedAt p = None"
    "dl_DelegatingWorkloadID request = l_WorkloadID p" "trunc_second (now env) < l_Expiration p"
    "VerifyLeaseToken L (jwt_now env) (dl_ParentToken request) (uc_verificationKeys u) (uc_issuer u)
       (l_Audience p) (uc_clockSkew u) = Inr claims"
    "parentTokenMatches L p (dl_ParentToken request) claims"
    "l_ConfirmationThumbprint p \<noteq> [] \<Longrightarrow>
       l_ConfirmationThumbprint p = dl_AuthenticatedKeyThumbprint request"
    by (rule check_delegation_Inr [OF chk]) blast
  have p: "p \<in> set (db_leases s)" "parse_uuid L (dl_ParentLeaseID request) = Some (l_ID p)"
    using c(1) GetLeaseByID_Inr [OF assms(1)] by simp_all
  have prepared: "delegation_prepared L s lease"
    using prepare_delegated_prepared [OF prep p(1)] by simp
  obtain token row e where row: "lease_row L (lease\<lparr>l_TokenHash := sha256 L token\<rparr>) = Some row"
    "s' = log_event e (s\<lparr>db_leases := db_leases s @ [row]\<rparr>)"
    by (rule issue_stored [OF issued])
  obtain w i where w: "GetWorkloadByID L (dl_DelegateToWorkloadID request) s = Inr w" "w_DisabledAt w = None"
    and lease: "l_WorkloadID lease = w_ID w" "l_ParentLeaseID lease = Some (l_ID p)"
      "attenuates (unicode L) (lease_context p) (lease_context lease)"
    by (rule prepare_delegated_Inr [OF prep]) (simp add: Validate_ok)
  have "whole_seconds (lease\<lparr>l_TokenHash := sha256 L token\<rparr>)"
    using prepared by (simp add: delegation_prepared_def whole_seconds_def)
  note stored = stored_authority [OF row(1) this]
  have "w \<in> set (db_workloads s)" using w(1) GetWorkloadByID_Inr [OF assms(1)] by simp
  then have "is_uuid L (w_ID w)"
    using assms(1) by (auto simp: db_ok_def workloads_ok_def list_all_iff)
  then have "l_WorkloadID row = w_ID w"
    using lease_row_Some(3) [OF row(1)] lease(1) by (simp add: is_uuid_def)
  moreover have "is_uuid L (l_ID p)" using db_ok_row [OF assms(1) p(1)] by (simp add: lease_row_ok_def)
  then have "l_ParentLeaseID row = Some (l_ID p)"
    using lease_row_Some(6) [OF row(1), of "l_ID p"] lease(2) by (simp add: is_uuid_def)
  moreover have "lease_context row = lease_context lease"
    using stored(1) by (simp add: lease_context_def)
  moreover have "l_ConfirmationThumbprint p = [] \<or> l_ConfirmationThumbprint p = dl_AuthenticatedKeyThumbprint request"
    using c(7) by blast
  ultimately show ?thesis
    using p c(2-6) w(2) row(2) lease(3) \<open>w \<in> set (db_workloads s)\<close>
    by (intro exI [of _ p] exI [of _ row] exI [of _ w] exI [of _ claims]) simp
qed

theorem DelegateLease_sound_witness:
  "\<exists>p row. p \<in> set (db_leases example_db) \<and> l_ID p = ''r'' \<and> l_ParentLeaseID row = Some ''r''
     \<and> attenuates ascii_lib (lease_context p) (lease_context row)"
proof -
  obtain il s' where "DelegateLease delegation_lib example_usecase (example_env 0) example_delegation example_db
      = (Inr il, s')"
    using example_delegated by blast
  moreover have "is_uuid delegation_lib = is_uuid example_lib"
    by (simp add: is_uuid_def fun_eq_iff)
  then have "db_ok delegation_lib example_db"
    using example_store_ok
    by (simp add: store_ok_def db_ok_def workloads_ok_def lease_table_ok_def lease_row_ok_def)
  ultimately show ?thesis
    using DelegateLease_sound by (fastforce simp: example_delegation_def)
qed

end
