(* ===== verification/Lifecycle.thy ===== *)
theory Lifecycle
  imports Delegation Authorization
begin

section \<open>The life of a token\<close>

text \<open>
  The token of an issued lease, root or delegated, is accepted by \<open>VerifyLeaseToken\<close> while it is
  valid: the checks of \<open>internal/usecase/usecase.go\<close> before a lease is signed and the constraints of
  the database imply those of \<open>internal/crypto/ed25519.go\<close> on the claims.
\<close>

subsection \<open>Texts of the database\<close>

text \<open>What the \<open>uuid\<close> type of the database answers is the ASCII text of a UUID.\<close>

definition uuid_texts :: "auth_lib \<Rightarrow> bool" where
  "uuid_texts L \<longleftrightarrow> (\<forall>given i. parse_uuid L given = Some i \<longrightarrow> ascii i \<and> i \<noteq> [])"

lemma uuid_text_valid:
  assumes "uuid_texts L" "parse_uuid L given = Some i"
  shows "valid_string i" "i \<noteq> []"
  using assms ascii_valid_string by (auto simp: uuid_texts_def)

lemma hex_text_ascii: "set s \<subseteq> set ''0123456789abcdef-'' \<Longrightarrow> ascii s"
proof -
  have "list_all (\<lambda>c. byte c < 0x80) ''0123456789abcdef-''" by simp
  then show "set s \<subseteq> set ''0123456789abcdef-'' \<Longrightarrow> ascii s"
    unfolding ascii_def list_all_iff by blast
qed

lemma newID_text:
  assumes "newID random = Inr i"
  shows "i \<noteq> []" "valid_string i"
proof -
  obtain v where i: "i = dashed (hex_encode (stamp_version v))"
    using assms by (rule newID_Inr)
  have part: "set (slice h a b) \<subseteq> set h" for h a b
    by (auto simp: slice_def dest: in_set_takeD in_set_dropD)
  have "set i \<subseteq> insert (CHR ''-'') (set (hex_encode (stamp_version v)))"
    using part [of "hex_encode (stamp_version v)"] unfolding i dashed_def set_append by auto
  also have "\<dots> \<subseteq> insert (CHR ''-'') (set ''0123456789abcdef'')"
    by (rule insert_mono [OF hex_encode_digits])
  also have "\<dots> \<subseteq> set ''0123456789abcdef-''" by simp
  finally have "set i \<subseteq> set ''0123456789abcdef-''" .
  then show "valid_string i" by (intro ascii_valid_string hex_text_ascii)
  show "i \<noteq> []" by (simp add: i dashed_def)
qed

subsection \<open>Leases whose tokens verify\<close>

text \<open>What is checked of a lease before its token is signed, beyond the constraints of the database.\<close>

definition issuable :: "auth_lib \<Rightarrow> Lease \<Rightarrow> bool" where
  "issuable L lease \<longleftrightarrow>
    wf_context (unicode L) (lease_context lease) \<and> whole_seconds lease
    \<and> list_all (\<lambda>a. length a \<le> 256) (l_Actions lease)
    \<and> list_all (\<lambda>i. valid_string i \<and> i \<noteq> [])
        ([l_ID lease, l_TokenID lease, l_WorkloadID lease, l_RootLeaseID lease, l_RootWorkloadID lease]
         @ (case l_ParentLeaseID lease of None \<Rightarrow> [] | Some i \<Rightarrow> [i])
         @ (case l_DelegatedByWorkloadID lease of None \<Rightarrow> [] | Some i \<Rightarrow> [i]))
    \<and> (if l_Depth lease = 0
       then l_ParentLeaseID lease = None \<and> l_DelegatedByWorkloadID lease = None
         \<and> l_RootLeaseID lease = l_ID lease \<and> l_RootWorkloadID lease = l_WorkloadID lease
       else l_ParentLeaseID lease \<noteq> None \<and> l_DelegatedByWorkloadID lease \<noteq> None)
    \<and> (l_ConfirmationThumbprint lease = [] \<or> length (l_ConfirmationThumbprint lease) = 43)"

lemma NumericDate_seconds: "whole_seconds lease \<Longrightarrow> NumericDate (l_Expiration lease) = l_Expiration lease
    \<and> NumericDate (l_IssuedAt lease) = l_IssuedAt lease"
  by (simp add: NumericDate_def whole_seconds_def trunc_second_id)

lemma stored_claims:
  assumes "lease_row L lease = Some row" "lease_checks row" "whole_seconds lease"
  shows "list_all valid_string (l_Actions lease @ l_Resources lease @ [l_Audience lease, l_ConfirmationThumbprint lease])"
    "fmpred (\<lambda>k v. valid_string k \<and> valid_string v) (l_Constraints lease)"
    "l_Actions lease \<noteq> []" "length (l_Actions lease) \<le> 64"
    "l_Resources lease \<noteq> []" "length (l_Resources lease) \<le> 64" "l_Audience lease \<noteq> []"
    "l_IssuedAt lease < l_Expiration lease" "sint (l_MaxDepth lease) \<le> 16"
proof -
  note row = lease_row_Some [OF assms(1)]
  have checks: "lease_checks row \<Longrightarrow> list_all pg_text (l_Actions row) \<and> list_all pg_text (l_Resources row)
      \<and> pg_text_map (l_Constraints row) \<and> pg_text (l_Audience row) \<and> pg_text (l_ConfirmationThumbprint row)
      \<and> l_IssuedAt row < l_Expiration row \<and> sint (l_MaxDepth row) \<le> 16
      \<and> 1 \<le> length (l_Actions row) \<and> length (l_Actions row) \<le> 64
      \<and> 1 \<le> length (l_Resources row) \<and> length (l_Resources row) \<le> 64 \<and> 1 \<le> char_length (l_Audience row)"
    by (simp add: lease_checks_def)
  note facts = checks [OF assms(2)]
  show "list_all valid_string (l_Actions lease @ l_Resources lease @ [l_Audience lease, l_ConfirmationThumbprint lease])"
    using facts by (auto simp: row list_all_iff pg_text_def)
  show "fmpred (\<lambda>k v. valid_string k \<and> valid_string v) (l_Constraints lease)"
    using facts by (simp add: row pg_text_map_def pg_text_def fmpred_iff)
  show "l_Actions lease \<noteq> []" "length (l_Actions lease) \<le> 64" "l_Resources lease \<noteq> []"
    "length (l_Resources lease) \<le> 64" "sint (l_MaxDepth lease) \<le> 16"
    using facts by (auto simp: row)
  show "l_Audience lease \<noteq> []" using facts by (auto simp: row char_length_def)
  show "l_IssuedAt lease < l_Expiration lease"
    using facts assms(3) by (simp add: row whole_seconds_def pg_time_seconds)
qed

lemma check_claims_lease:
  assumes "issuable L lease" "lease_row L lease = Some row" "lease_checks row"
  shows "check_claims (unicode L) (lease_claims u lease) = Inr (lease_claims u lease)"
proof -
  let ?c = "lease_claims u lease"
  have wf: "wf_context (unicode L) (lease_context lease)" "whole_seconds lease"
    using assms(1) by (simp_all add: issuable_def)
  note stored = stored_claims [OF assms(2,3) wf(2)]
  have ids: "l_ID lease \<noteq> []" "l_TokenID lease \<noteq> []" "l_WorkloadID lease \<noteq> []" "l_RootLeaseID lease \<noteq> []"
    "l_RootWorkloadID lease \<noteq> []"
    using assms(1) by (simp_all add: issuable_def)
  have "\<not> missing_claims ?c" using ids by (simp add: missing_claims_def lease_claims_def)
  moreover have "\<not> invalid_capability (unicode L) ?c"
  proof -
    have "capability_claims (unicode L) (c_UPS ?c)"
      using stored(3-6,9) wf(1) ids
      by (simp add: capability_claims_def lease_claims_def copyConstraints_def wf_context_def LeaseTokenVersion_def)
    moreover have "list_all (\<lambda>v. length v \<le> 256) (l_Actions lease)"
      using assms(1) by (simp add: issuable_def)
    moreover have "list_all (\<lambda>v. length v \<le> 256) (l_Resources lease)"
      using wf(1) by (auto simp: wf_context_def list_all_iff valid_pattern_def canonicalize_Inr_iff)
    ultimately show ?thesis by (simp add: valid_capability_iff lease_claims_def)
  qed
  moreover have "\<not> (case c_Confirmation ?c of None \<Rightarrow> False | Some cnf \<Rightarrow> length (jkt cnf) \<noteq> 43)"
    using assms(1) by (auto simp: lease_claims_def issuable_def)
  moreover have "l_Depth lease = 0 \<Longrightarrow> \<not> invalid_root_claims ?c"
    using assms(1) by (simp add: issuable_def invalid_root_claims_def lease_claims_def parentID_def delegatedByID_def)
  moreover have "l_Depth lease \<noteq> 0 \<Longrightarrow> \<not> invalid_delegated_claims ?c"
    using assms(1) by (auto simp: issuable_def invalid_delegated_claims_def lease_claims_def parentID_def delegatedByID_def)
  moreover have "\<not> invalid_times ?c"
    using stored(8) NumericDate_seconds [OF wf(2)] by (simp add: invalid_times_def lease_claims_def)
  moreover have "ups_Depth (c_UPS ?c) = l_Depth lease" by (simp add: lease_claims_def)
  ultimately show ?thesis by (auto simp: check_claims_def)
qed

text \<open>The times of a lease are far from the bound on what a float64 holds exactly: about 285 million years.\<close>

definition exact_times :: "Lease \<Rightarrow> bool" where
  "exact_times lease \<longleftrightarrow> \<bar>l_IssuedAt lease\<bar> \<le> 2 ^ 53 * second \<and> \<bar>l_Expiration lease\<bar> \<le> 2 ^ 53 * second"

lemma text_claims_lease:
  assumes "issuable L lease" "lease_row L lease = Some row" "lease_checks row" "valid_string (uc_issuer u)"
    and "exact_times lease"
  shows "text_claims (lease_claims u lease)"
proof -
  have seconds: "whole_seconds lease" using assms(1) by (simp add: issuable_def)
  note stored = stored_claims(1,2,3,5) [OF assms(2,3) seconds]
  have "list_all valid_string [l_ID lease, l_TokenID lease, l_WorkloadID lease, l_RootLeaseID lease,
      l_RootWorkloadID lease, parentID lease, delegatedByID lease]"
    using assms(1) by (auto simp: issuable_def parentID_def delegatedByID_def split: option.splits)
  moreover have "exact_second (l_Expiration lease)" "exact_second (l_IssuedAt lease)"
    using seconds assms(5) by (simp_all add: whole_seconds_def exact_second_def exact_times_def)
  ultimately show ?thesis
    using stored assms(4) NumericDate_seconds [OF seconds]
    by (auto simp: text_claims_def lease_claims_def copyConstraints_def)
qed

text \<open>A lease that is stored with its token is accepted by every reader of the token.\<close>

lemma issued_verifies:
  assumes "tokens_documented L" "digest_size L" "NewLeaseUsecase config = Inr u" "valid_string (uc_issuer u)"
    and "fmlookup keys (keyID L (Public (uc_privateKey u))) = Some (Public (uc_privateKey u))"
    and "issuable L lease" "issue L u env lease eventType actor s = (Inr il, s')"
    and "length (il_Token il) \<le> MaxLeaseTokenBytes" "0 \<le> skew"
    and "l_IssuedAt lease - skew \<le> at" "at < l_Expiration lease + skew"
    and "key_pair L (uc_privateKey u)" "exact_times lease"
  shows "VerifyLeaseToken L at (il_Token il) keys (uc_issuer u) (l_Audience lease) skew = Inr (lease_claims u lease)"
  using assms(7)
proof (rule issue_Inr)
  fix token
  let ?hashed = "lease\<lparr>l_TokenHash := sha256 L token\<rparr>"
  assume token: "SignLeaseClaims L (lease_claims u lease) (uc_privateKey u) = Inr token"
    and il: "il = \<lparr>il_Lease = ?hashed, il_Token = token\<rparr>"
    and created: "CreateLease L (ctx_request_id env) ?hashed (issued_event ?hashed eventType actor) s = (Inr (), s')"
  obtain row where row: "lease_row L ?hashed = Some row" "lease_checks row"
    using CreateLease_Inr [OF created] by metis
  have hashed: "issuable L ?hashed" "lease_claims u ?hashed = lease_claims u lease"
    using assms(6)
    by (simp_all add: issuable_def whole_seconds_def lease_context_def lease_claims_def parentID_def delegatedByID_def)
  have exact: "exact_times ?hashed" using assms(13) by (simp add: exact_times_def)
  have seconds: "whole_seconds lease" using assms(6) by (simp add: issuable_def)
  note check = check_claims_lease [OF hashed(1) row, of u, unfolded hashed(2)]
  have "l_Audience lease \<noteq> []"
    using stored_claims(7) [OF row] seconds by (simp add: whole_seconds_def)
  moreover have "uc_issuer u \<noteq> []"
    using assms(3) by (auto simp: NewLeaseUsecase_def trim_space_Nil split: if_splits)
  moreover have "claims_checked (parse_options (uc_issuer u) (l_Audience lease) skew) at (lease_claims u lease)"
    using assms(10,11) NumericDate_seconds [OF seconds]
    by (simp add: claims_checked_def parse_options_def lease_claims_def)
  moreover have "length token \<le> MaxLeaseTokenBytes" using assms(8) by (simp add: il)
  ultimately show ?thesis
    using VerifyLeaseToken_signed [OF assms(1,2) text_claims_lease [OF hashed(1) row assms(4) exact, unfolded hashed(2)]
        token _ check assms(5)] assms(9,12)
    by (simp add: il)
qed

subsection \<open>What the use cases issue\<close>

lemma prepare_root_values:
  assumes "prepare_root L u env request s = Inr lease"
  shows "validateValues (unicode L) (l_Actions lease) (l_Resources lease) = Inr ()" "mr_WorkloadID request \<noteq> []"
    "l_ConfirmationThumbprint lease = [] \<or> (\<exists>k. JWKThumbprint L k = Inr (l_ConfirmationThumbprint lease))"
proof -
  have "validateValues (unicode L) (l_Actions lease) (l_Resources lease) = Inr () \<and> mr_WorkloadID request \<noteq> []
    \<and> (l_ConfirmationThumbprint lease = [] \<or> (\<exists>k. JWKThumbprint L k = Inr (l_ConfirmationThumbprint lease)))"
    using assms unfolding prepare_root_def Let_def case_error_Inr guard_Inr
    by (elim exE conjE) (auto split: if_splits)
  then show "validateValues (unicode L) (l_Actions lease) (l_Resources lease) = Inr ()" "mr_WorkloadID request \<noteq> []"
    "l_ConfirmationThumbprint lease = [] \<or> (\<exists>k. JWKThumbprint L k = Inr (l_ConfirmationThumbprint lease))"
    by simp_all
qed

lemma prepare_delegated_values:
  assumes "prepare_delegated L u env request p s = Inr lease"
  shows "l_ConfirmationThumbprint lease = [] \<or> (\<exists>k. JWKThumbprint L k = Inr (l_ConfirmationThumbprint lease))"
  using assms unfolding prepare_delegated_def Let_def case_error_Inr guard_Inr
  by (elim exE conjE) (auto split: if_splits)

lemma validateValues_lengths:
  "validateValues U actions resources = Inr () \<Longrightarrow> list_all (\<lambda>a. length a \<le> 256) actions"
  by (auto simp: validateValues_def maxCapabilityValueLength_def list_ex_iff list_all_iff not_less split: if_splits)

lemma confirmation_length:
  "digest_size L \<Longrightarrow> JWKThumbprint L k = Inr c \<Longrightarrow> length c = 43"
  by (auto simp: JWKThumbprint_Inr digest_size_def length_raw_url_encode_32)

lemma prepare_root_issuable:
  assumes "db_ok L s" "digest_size L" "valid_string (mr_WorkloadID request)"
    and "prepare_root L u env request s = Inr lease"
  shows "issuable L lease"
proof -
  note vals = prepare_root_values [OF assms(4)]
  obtain i t where ids: "newID (random1 env) = Inr i" "newID (random2 env) = Inr t"
    and lease: "l_ID lease = i" "l_TokenID lease = t" "l_WorkloadID lease = mr_WorkloadID request"
      "l_RootWorkloadID lease = mr_WorkloadID request" "l_RootLeaseID lease = i" "l_Depth lease = 0"
      "l_ParentLeaseID lease = None" "l_DelegatedByWorkloadID lease = None"
    by (rule prepare_root_Inr [OF assms(4)]) simp
  have "wf_context (unicode L) (lease_context lease)" "whole_seconds lease"
    using prepare_root_prepared [OF assms(1,4)] by (simp_all add: root_prepared_def)
  moreover have "list_all (\<lambda>a. length a \<le> 256) (l_Actions lease)"
    by (rule validateValues_lengths [OF vals(1)])
  moreover have "l_ConfirmationThumbprint lease = [] \<or> length (l_ConfirmationThumbprint lease) = 43"
    using vals(3) confirmation_length [OF assms(2)] by blast
  ultimately show ?thesis
    using newID_text [OF ids(1)] newID_text [OF ids(2)] vals(2) assms(3)
    by (simp add: issuable_def lease)
qed

lemma prepare_delegated_issuable:
  assumes "db_ok L s" "digest_size L" "uuid_texts L" "p \<in> set (db_leases s)"
    and "list_all (\<lambda>a. length a \<le> 256) (l_Actions p)" "prepare_delegated L u env request p s = Inr lease"
  shows "issuable L lease"
  using assms(6)
proof (rule prepare_delegated_Inr)
  fix w e i t c
  assume w: "GetWorkloadByID L (dl_DelegateToWorkloadID request) s = Inr w"
    and e: "lease_expiration u (trunc_second (now env)) (dl_Expiration request) (dl_TTL request) = Inr e"
    and ids: "newID (random1 env) = Inr i" "newID (random2 env) = Inr t"
    and lease: "lease = \<lparr>l_ID = i, l_TokenID = t, l_WorkloadID = w_ID w,
           l_RootWorkloadID = l_RootWorkloadID p, l_Audience = l_Audience p,
           l_ParentLeaseID = Some (l_ID p), l_RootLeaseID = l_RootLeaseID p,
           l_DelegatedByWorkloadID = Some (l_WorkloadID p), l_Actions = dl_Actions request,
           l_Resources = dl_Resources request, l_Expiration = e,
           l_Depth = l_Depth p + 1, l_MaxDepth = child_max_depth request p,
           l_TokenHash = [], l_IssuedAt = trunc_second (now env), l_RevokedAt = None,
           l_GrantVersion = l_GrantVersion p, l_ConfirmationThumbprint = c,
           l_MaxUses = dl_MaxUses request, l_UsesConsumed = 0,
           l_Constraints = dl_Constraints request,
           l_AuthenticatedKeyThumbprint = dl_AuthenticatedKeyThumbprint request\<rparr>"
    and v: "Validate (unicode L) (lease_context p) (lease_context lease) = Inr ()"
  have att: "attenuates (unicode L) (lease_context p) (lease_context lease)"
    using v by (simp add: Validate_ok)
  then have ctx: "wf_context (unicode L) (lease_context lease)" "set (l_Actions lease) \<subseteq> set (l_Actions p)"
    and depth: "sint (l_Depth lease) = sint (l_Depth p) + 1" "0 \<le> sint (l_Depth p)"
    by (simp_all add: attenuates_def wf_context_def)
  have "l_Depth lease \<noteq> 0" using depth by auto
  moreover have "whole_seconds lease"
    using prepare_delegated_prepared [OF assms(6,4)] by (simp add: delegation_prepared_def same_identity_def)
  moreover have "list_all (\<lambda>a. length a \<le> 256) (l_Actions lease)"
    using assms(5) ctx(2) by (auto simp: list_all_iff)
  moreover have "is_uuid L (l_ID p)" "is_uuid L (l_WorkloadID p)" "is_uuid L (l_RootWorkloadID p)" "is_uuid L (l_RootLeaseID p)"
    using db_ok_row [OF assms(1,4)] by (simp_all add: lease_row_ok_def)
  moreover have "parse_uuid L (dl_DelegateToWorkloadID request) = Some (w_ID w)"
    using w GetWorkloadByID_Inr [OF assms(1)] by simp
  moreover have "l_ConfirmationThumbprint lease = [] \<or> length (l_ConfirmationThumbprint lease) = 43"
    using prepare_delegated_values [OF assms(6)] confirmation_length [OF assms(2)] by blast
  ultimately show ?thesis
    using newID_text [OF ids(1)] newID_text [OF ids(2)] uuid_text_valid [OF assms(3)] ctx(1)
    by (simp add: issuable_def lease is_uuid_def)
qed

lemma lease_claims_hash [simp]: "lease_claims u (lease\<lparr>l_TokenHash := h\<rparr>) = lease_claims u lease"
  by (simp add: lease_claims_def parentID_def delegatedByID_def)

lemma matched_action_lengths:
  assumes "VerifyLeaseToken L at raw keys issuer audience skew = Inr claims" "parentTokenMatches L p raw claims"
  shows "list_all (\<lambda>a. length a \<le> 256) (l_Actions p)"
proof -
  obtain "check_claims (unicode L) claims = Inr claims" by (rule VerifyLeaseToken_Inr [OF assms(1)])
  then have "\<not> invalid_capability (unicode L) claims" by (auto simp: check_claims_def split: if_splits)
  then have "list_all (\<lambda>a. length a \<le> 256) (ups_Actions (c_UPS claims))" by (simp add: valid_capability_iff)
  moreover have "sameStrings (ups_Actions (c_UPS claims)) (l_Actions p)"
    using assms(2) by (auto simp: parentTokenMatches_def Let_def split: if_splits)
  then have "set (l_Actions p) \<subseteq> set (ups_Actions (c_UPS claims))"
    by (auto simp: sameStrings_def list_all_iff fset_of_list_elem split: if_splits)
  ultimately show ?thesis by (auto simp: list_all_iff)
qed

text \<open>A delegated token is good for its lifetime, under the same conditions: a token that
  \<open>DelegateLease\<close> answers is accepted for the audience of the parent lease until it expires, with the
  claims of the delegated lease, whose actions and resources are those asked for.\<close>

theorem delegated_token_verifies:
  assumes "tokens_documented L" and "digest_size L" and "uuid_texts L" and "db_ok L s"
    and "NewLeaseUsecase config = Inr u" and "valid_string (uc_issuer u)"
    and "fmlookup keys (keyID L (Public (uc_privateKey u))) = Some (Public (uc_privateKey u))"
    and "DelegateLease L u env request s = (Inr il, s')" and "length (il_Token il) \<le> MaxLeaseTokenBytes"
    and "0 \<le> skew" and "l_IssuedAt (il_Lease il) - skew \<le> at" and "at < l_Expiration (il_Lease il) + skew"
    and "key_pair L (uc_privateKey u)" and "exact_times (il_Lease il)"
  shows "VerifyLeaseToken L at (il_Token il) keys (uc_issuer u) (l_Audience (il_Lease il)) skew
      = Inr (lease_claims u (il_Lease il))
    \<and> l_Actions (il_Lease il) = dl_Actions request \<and> l_Resources (il_Lease il) = dl_Resources request"
proof -
  obtain p lease where p: "check_delegation L u env request s = Inr p"
    and lease: "prepare_delegated L u env request p s = Inr lease"
    and issued: "issue L u env lease ''lease.delegated'' (l_WorkloadID p) s = (Inr il, s')"
    using assms(8) by (auto simp: DelegateLease_def split: sum.splits)
  obtain h where il: "il_Lease il = lease\<lparr>l_TokenHash := h\<rparr>"
    by (rule issue_Inr [OF issued]) simp
  obtain claims where stored: "GetLeaseByID L (dl_ParentLeaseID request) s = Inr p"
    and claims: "VerifyLeaseToken L (jwt_now env) (dl_ParentToken request) (uc_verificationKeys u) (uc_issuer u)
       (l_Audience p) (uc_clockSkew u) = Inr claims" "parentTokenMatches L p (dl_ParentToken request) claims"
    by (rule check_delegation_Inr [OF p])
  have row: "p \<in> set (db_leases s)" using stored GetLeaseByID_Inr [OF assms(4)] by simp
  note ok = prepare_delegated_issuable [OF assms(4,2,3) row matched_action_lengths [OF claims] lease]
  have "l_Actions lease = dl_Actions request" "l_Resources lease = dl_Resources request"
    by (rule prepare_delegated_Inr [OF lease]; simp)+
  moreover have "l_IssuedAt lease - skew \<le> at" "at < l_Expiration lease + skew"
    "lease_claims u (il_Lease il) = lease_claims u lease" "l_Audience (il_Lease il) = l_Audience lease"
    "l_Actions (il_Lease il) = l_Actions lease" "l_Resources (il_Lease il) = l_Resources lease"
    using assms(11,12) by (simp_all add: il)
  moreover have "exact_times lease" using assms(14) by (simp add: exact_times_def il)
  ultimately show ?thesis
    using issued_verifies [OF assms(1,2,5,6,7) ok issued assms(9,10) _ _ assms(13)] by simp
qed

subsection \<open>A concrete service\<close>

definition example_config :: Config where
  "example_config = \<lparr>cf_HasRepository = True, cf_PrivateKey = example_seed,
     cf_VerificationKeys = fmap_of_list [(example_kid, example_key)], cf_Issuer = ''i'', cf_MaxTTL = 24 * hour,
     cf_ClockSkew = 0, cf_RequestWindow = minute\<rparr>"

definition example_service :: LeaseUsecase where
  "example_service = \<lparr>uc_privateKey = example_seed, uc_verificationKeys = fmap_of_list [(example_kid, example_key)],
     uc_issuer = ''i'', uc_maxTTL = 24 * hour, uc_clockSkew = 0, uc_requestWindow = minute\<rparr>"

definition mint_request :: MintRootLeaseRequest where
  "mint_request = \<lparr>mr_WorkloadID = ''w1'', mr_Audience = ''billing'', mr_Actions = [''refund'', ''read''],
     mr_Resources = [''customer/*''], mr_Expiration = zero_time, mr_TTL = hour, mr_MaxDepth = 2,
     mr_ProofOfPossession = True, mr_MaxUses = 0, mr_Constraints = prod_limits ''1000'',
     mr_AuthenticatedKeyThumbprint = example_thumbprint (CHR ''k'')\<rparr>"

definition minted_lease :: Lease where
  "minted_lease = \<lparr>l_ID = ''72727272-7272-4272-b272-727272727272'',
     l_TokenID = ''73737373-7373-4373-b373-737373737373'', l_WorkloadID = ''w1'', l_RootWorkloadID = ''w1'',
     l_Audience = ''billing'', l_ParentLeaseID = None, l_RootLeaseID = ''72727272-7272-4272-b272-727272727272'',
     l_DelegatedByWorkloadID = None, l_Actions = [''refund'', ''read''], l_Resources = [''customer/*''],
     l_Expiration = hour, l_Depth = 0, l_MaxDepth = 2, l_TokenHash = [], l_IssuedAt = 0, l_RevokedAt = None,
     l_GrantVersion = 1, l_ConfirmationThumbprint = example_thumbprint (CHR ''k''), l_MaxUses = 0,
     l_UsesConsumed = 0, l_Constraints = prod_limits ''1000'',
     l_AuthenticatedKeyThumbprint = example_thumbprint (CHR ''k'')\<rparr>"

definition service_lib :: auth_lib where
  "service_lib = one_token_lib (replicate 32 (CHR ''d'')) example_kid (lease_claims example_service minted_lease) example_seed"

abbreviation minted_token :: bytes where
  "minted_token \<equiv> token_text example_kid (lease_claims example_service minted_lease)"

lemma service_lib_simps [simp]:
  "unicode service_lib = ascii_lib" "parse_uuid service_lib = Some" "JWKThumbprint service_lib = JWKThumbprint example_lib"
  "keyID service_lib example_key = example_kid" "sha256 service_lib minted_token = replicate 32 (CHR ''d'')"
  by (simp_all add: service_lib_def)

lemma example_kid_length: "length example_kid = 43"
  by (simp add: keyID_def length_raw_url_encode_32 example_lib_def)

lemma example_service_made: "NewLeaseUsecase example_config = Inr example_service"
proof -
  have "trim_space ''i'' = ''i''" by (rule trim_space_ascii_id) (simp_all add: is_space_def)
  moreover have "example_kid \<noteq> []" using example_kid_length by (metis list.size(3) zero_neq_numeral)
  ultimately show ?thesis
    by (simp add: NewLeaseUsecase_def example_config_def example_service_def example_seed_def PrivateKeySize_def
        PublicKeySize_def fmlen_fmap_of_list fmpred_upd duration_defs)
qed

lemma minted_ids:
  "newID (Some (replicate 16 (CHR ''r''))) = Inr ''72727272-7272-4272-b272-727272727272''"
  "newID (Some (replicate 16 (CHR ''s''))) = Inr ''73737373-7373-4373-b373-737373737373''"
  by code_simp+

lemma minted_plain: "plain_claims example_kid (lease_claims example_service minted_lease)"
  by (simp add: plain_claims_def lease_claims_def minted_lease_def example_service_def Let_def keyID_def
      parentID_def delegatedByID_def example_thumbprint_def plain_text_char_def)

lemma mint_values: "validateValues ascii_lib [''refund'', ''read''] [''customer/*''] = Inr ()"
proof -
  define ctx where "ctx = \<lparr>ac_Actions = [''refund'', ''read''], ac_Resources = [''customer/*''],
    ac_Expiration = time_unix 1, ac_Depth = 0, ac_MaxDepth = 1, ac_MaxUses = 0, ac_Constraints = fmempty\<rparr>"
  have "attenuates ascii_lib ctx (ctx\<lparr>ac_Depth := 1, ac_Expiration := time_unix 0\<rparr>)"
  proof -
    have "Covers ascii_lib ''customer/*'' ''customer/*''" by (simp add: Covers_iff example_resources)
    then show ?thesis
      using AtLeastAsStrong_refl [of ascii_lib fmempty]
      by (simp add: attenuates_def wf_context_def ctx_def example_context_facts Subset_def same_authority_def
          time_unix_def)
  qed
  then have "Validate ascii_lib ctx (ctx\<lparr>ac_Depth := 1, ac_Expiration := time_unix 0\<rparr>) = Inr ()"
    by (simp add: Validate_ok)
  moreover have "CanonicalizePatterns ascii_lib [''customer/*''] = Inr [''customer/*'']"
    by (simp add: CanonicalizePatterns_Inr example_resources)
  ultimately show ?thesis
    by (simp add: validateValues_def maxCapabilityValues_def maxCapabilityValueLength_def ctx_def)
qed

lemma mint_root_valid:
  "ValidateRoot ascii_lib (grant_context example_authority) ''billing'' example_root 0 = Inr ()"
proof -
  have "grant_context example_authority = example_grant"
    by (simp add: grant_context_def example_authority_def example_grant_def)
  then show ?thesis
    using example_wf example_within_grant by (simp add: ValidateRoot_ok zero_time_def duration_defs)
qed

lemma mint_prepared:
  "prepare_root service_lib example_service (example_env 0) mint_request example_db = Inr minted_lease"
proof -
  have "GetWorkloadByID service_lib ''w1'' example_db = Inr (example_workload ''w1'' ''worker-one'' (CHR ''k''))"
    by (simp add: GetWorkloadByID_def select_workload_def)
  moreover have "workloadAcceptsThumbprint service_lib (example_workload ''w1'' ''worker-one'' (CHR ''k''))
      (example_thumbprint (CHR ''k'')) 0"
    by (simp add: workloadAcceptsThumbprint_def)
  moreover have "lease_expiration example_service 0 zero_time hour = Inr hour"
    by (simp add: lease_expiration_Inr is_zero_time_def example_service_def trunc_second_def duration_defs)
  moreover have "trim_space ''billing'' = ''billing''" by (rule trim_space_ascii_id) (simp_all add: is_space_def)
  moreover have "w_Grant (example_workload i n k) = example_authority" for i n k by (simp add: example_workload_def)
  moreover have "trunc_second 0 = 0" by (simp add: trunc_second_def)
  ultimately show ?thesis
    using mint_values mint_root_valid [unfolded example_root_def]
    by (simp add: prepare_root_def mint_request_def example_env_def minted_ids maxDelegationDepth_def)
      (simp add: minted_lease_def copyConstraints_def example_authority_def)
qed

lemma example_thumbprint_text: "pg_text (example_thumbprint c)" "char_length (example_thumbprint c) = 43"
proof -
  have "ascii s \<and> CHR 0x00 \<notin> set s" if "plain_text s" for s
    using that by (induction s) (auto simp: ascii_def plain_text_char_def)
  then have "ascii (example_thumbprint c)" "CHR 0x00 \<notin> set (example_thumbprint c)"
    by (simp_all add: example_thumbprint_def)
  then show "pg_text (example_thumbprint c)" "char_length (example_thumbprint c) = 43"
    by (simp_all add: pg_text_def ascii_valid_string char_length_def ascii_runes)
qed

abbreviation minted_hash :: bytes where
  "minted_hash \<equiv> replicate 32 (CHR ''d'')"

abbreviation hashed_lease :: Lease where
  "hashed_lease \<equiv> minted_lease\<lparr>l_TokenHash := minted_hash\<rparr>"

abbreviation minted_row :: Lease where
  "minted_row \<equiv> hashed_lease\<lparr>l_AuthenticatedKeyThumbprint := []\<rparr>"

lemma minted_row: "lease_row service_lib hashed_lease = Some minted_row" "lease_checks minted_row"
proof -
  show "lease_row service_lib hashed_lease = Some minted_row"
    by (simp add: lease_row_def) (simp add: minted_lease_def pg_time_def duration_defs)
  show "lease_checks minted_row"
    using example_texts example_lengths example_thumbprint_text
    by (simp add: lease_checks_def) (simp add: minted_lease_def duration_defs)
qed

text \<open>The examples run on the example database, with any nonces, and any identifier of a request.\<close>

abbreviation nonce_db :: "nonce_row list \<Rightarrow> db" where
  "nonce_db xs \<equiv> example_db\<lparr>db_workload_nonces := xs\<rparr>"

lemma nonce_db_Nil [simp]: "nonce_db [] = example_db"
  by (simp add: example_db_def)

definition request_id_ok :: "bytes \<Rightarrow> bool" where
  "request_id_ok ctx \<longleftrightarrow> ctx = [] \<or> 16 \<le> length ctx \<and> length ctx \<le> 64 \<and> list_all url_safe_char ctx"

lemma minted_inserted:
  "insert_lease service_lib hashed_lease (nonce_db xs)
   = Inr ((), (nonce_db xs)\<lparr>db_leases := [example_root_row, example_child_row, minted_row]\<rparr>)"
proof -
  have "\<not> lease_conflict minted_row example_root_row" "\<not> lease_conflict minted_row example_child_row"
    by (simp_all add: lease_conflict_def example_root_row_def example_child_row_def) (simp_all add: minted_lease_def)
  moreover have "lease_references (nonce_db xs) minted_row"
    by (simp add: lease_references_def find_workload_def find_lease_def) (simp add: minted_lease_def)
  ultimately show ?thesis
    using minted_row by (simp add: insert_lease_def)
qed

lemma mint_stored:
  assumes "e_WorkloadID event = Some ''w1''" "e_LeaseID event = Some (l_ID minted_lease)" "e_EventType event \<noteq> []"
    "pg_text (e_EventType event)" "e_Actor event = ''w1''" "e_RequestID event = []" "request_id_ok ctx"
  shows "\<exists>s'. CreateLease service_lib ctx hashed_lease event (nonce_db xs) = (Inr (), s')"
proof -
  have "check_lineage service_lib hashed_lease (nonce_db xs) = Inr ()"
    by (simp add: check_lineage_def) (simp add: minted_lease_def)
  moreover have "\<exists>s'. insertAuditEvent service_lib ctx event
      ((nonce_db xs)\<lparr>db_leases := [example_root_row, example_child_row, minted_row]\<rparr>) = Inr ((), s')"
    using assms
    by (cases event) (auto simp: insertAuditEvent_def accepts_optional_uuid_def audit_checks_def
        find_workload_def find_lease_def pg_text_def Let_def request_id_ok_def)
  moreover have "acceptedWorkloadKey service_lib (replicate 32 (CHR ''k'')) None None (example_thumbprint (CHR ''k'')) 0"
    by (simp add: acceptedWorkloadKey_def)
  ultimately show ?thesis
    using minted_inserted [of xs]
    by (simp add: CreateLease_def create_lease_tx_def BeginFunc_def select_workload_def find_workload_def)
      (auto simp: minted_lease_def example_workload_def example_authority_def)
qed

lemma mint_event:
  assumes "request_id_ok ctx"
  shows "\<exists>s'. CreateLease service_lib ctx hashed_lease (issued_event hashed_lease ''lease.root_minted'' ''w1'') (nonce_db xs)
    = (Inr (), s')"
proof (rule mint_stored [OF _ _ _ _ _ _ assms])
  show "pg_text (e_EventType (issued_event hashed_lease ''lease.root_minted'' ''w1''))"
    by (simp add: issued_event_def pg_text_def)
qed (simp_all add: issued_event_def, simp_all add: minted_lease_def)

lemma mint_prepared_nonces:
  "prepare_root service_lib example_service ((example_env 0)\<lparr>ctx_request_id := ctx\<rparr>) mint_request (nonce_db xs)
   = Inr minted_lease"
proof -
  have reads: "GetWorkloadByID service_lib i (nonce_db xs) = GetWorkloadByID service_lib i example_db"
    "now (e\<lparr>ctx_request_id := ctx\<rparr>) = now e" "random1 (e\<lparr>ctx_request_id := ctx\<rparr>) = random1 e"
    "random2 (e\<lparr>ctx_request_id := ctx\<rparr>) = random2 e" for i e
    by (simp_all add: GetWorkloadByID_def select_workload_def find_workload_def)
  have "prepare_root service_lib example_service ((example_env 0)\<lparr>ctx_request_id := ctx\<rparr>) q (nonce_db xs)
      = prepare_root service_lib example_service (example_env 0) q example_db" for q
    unfolding prepare_root_def reads ..
  then show ?thesis by (simp only: mint_prepared)
qed

lemma mint_issued_nonces:
  assumes "request_id_ok ctx"
  shows "\<exists>il s'. MintRootLease service_lib example_service ((example_env 0)\<lparr>ctx_request_id := ctx\<rparr>) mint_request
       (nonce_db xs) = (Inr il, s')
     \<and> il_Token il = minted_token \<and> il_Lease il = hashed_lease"
proof -
  have "SignLeaseClaims service_lib (lease_claims example_service minted_lease) (uc_privateKey example_service)
      = Inr minted_token"
    by (simp add: SignLeaseClaims_def example_service_def example_public)
      (simp add: service_lib_def one_token_lib_def example_seed_def PrivateKeySize_def example_service_def)
  moreover obtain s' where "CreateLease service_lib ctx hashed_lease
      (issued_event hashed_lease ''lease.root_minted'' ''w1'') (nonce_db xs) = (Inr (), s')"
    using mint_event [OF assms] by blast
  moreover have "l_TokenID minted_lease \<noteq> []" "l_RootLeaseID minted_lease \<noteq> []" "l_RootWorkloadID minted_lease \<noteq> []"
    "mr_WorkloadID mint_request = ''w1''"
    by (simp_all add: minted_lease_def mint_request_def)
  ultimately show ?thesis
    by (simp add: MintRootLease_def mint_prepared_nonces issue_def Let_def)
qed

lemma mint_issued:
  "\<exists>il s'. MintRootLease service_lib example_service (example_env 0) mint_request example_db = (Inr il, s')
     \<and> il_Token il = minted_token \<and> il_Lease il = hashed_lease"
proof -
  have "(example_env 0)\<lparr>ctx_request_id := []\<rparr> = example_env 0" by (simp add: example_env_def)
  then show ?thesis
    using mint_issued_nonces [of "[]" "[]"] by (simp add: request_id_ok_def)
qed

lemma short_token:
  assumes "length h \<le> 200" "length p \<le> 2000"
  shows "length (raw_url_encode h @ CHR ''.'' # raw_url_encode p @ CHR ''.'' # raw_url_encode ''sig'') \<le> MaxLeaseTokenBytes"
  using assms by (simp add: raw_url_encode_def length_b64_encode MaxLeaseTokenBytes_def)

lemma minted_token_length: "length minted_token \<le> MaxLeaseTokenBytes"
  unfolding token_text_def
proof (rule short_token)
  show "length (json_text (lease_header example_kid)) \<le> 200"
    using example_kid_length by (simp add: lease_header_def LeaseTokenType_def)
  show "length (json_text (JObject (claims_members (lease_claims example_service minted_lease) (\<lambda>_. ''0'') [] []))) \<le> 2000"
    using example_thumbprint(2) [of "CHR ''k''"]
    by (simp add: claims_members_def capability_members_def optional_text_def lease_claims_def minted_lease_def
        parentID_def delegatedByID_def)
qed

lemma minted_verifies:
  assumes "tokens_documented L" and "digest_size L" and "db_ok L s"
    and "NewLeaseUsecase config = Inr u" and "valid_string (uc_issuer u)" and "valid_string (mr_WorkloadID request)"
    and "fmlookup keys (keyID L (Public (uc_privateKey u))) = Some (Public (uc_privateKey u))"
    and "MintRootLease L u env request s = (Inr il, s')" and "length (il_Token il) \<le> MaxLeaseTokenBytes"
    and "0 \<le> skew" and "l_IssuedAt (il_Lease il) - skew \<le> at" and "at < l_Expiration (il_Lease il) + skew"
    and "key_pair L (uc_privateKey u)" and "exact_times (il_Lease il)"
  shows "VerifyLeaseToken L at (il_Token il) keys (uc_issuer u) (mr_Audience request) skew
      = Inr (lease_claims u (il_Lease il))
    \<and> l_Actions (il_Lease il) = mr_Actions request \<and> l_Resources (il_Lease il) = mr_Resources request"
proof -
  obtain lease where lease: "prepare_root L u env request s = Inr lease"
    and issued: "issue L u env lease ''lease.root_minted'' (mr_WorkloadID request) s = (Inr il, s')"
    using assms(8) by (auto simp: MintRootLease_def split: sum.splits)
  obtain h where il: "il_Lease il = lease\<lparr>l_TokenHash := h\<rparr>"
    by (rule issue_Inr [OF issued]) simp
  have "l_Audience lease = mr_Audience request" "l_Actions lease = mr_Actions request"
    "l_Resources lease = mr_Resources request"
    by (rule prepare_root_Inr [OF lease]; simp)+
  moreover have "l_IssuedAt lease - skew \<le> at" "at < l_Expiration lease + skew"
    "lease_claims u (il_Lease il) = lease_claims u lease"
    "l_Actions (il_Lease il) = l_Actions lease" "l_Resources (il_Lease il) = l_Resources lease"
    using assms(11,12) by (simp_all add: il)
  moreover have "exact_times lease" using assms(14) by (simp add: exact_times_def il)
  ultimately show ?thesis
    using issued_verifies [OF assms(1,2,4,5,7) prepare_root_issuable [OF assms(3,2,6) lease] issued assms(9,10) _ _ assms(13)]
    by simp
qed

lemma service_db_ok: "db_ok service_lib example_db"
proof -
  have "is_uuid service_lib = is_uuid example_lib" by (simp add: is_uuid_def fun_eq_iff)
  then show ?thesis
    using example_store_ok
    by (simp add: store_ok_def db_ok_def workloads_ok_def lease_table_ok_def lease_row_ok_def)
qed

lemma service_key_pair: "key_pair service_lib example_seed"
  by (simp add: service_lib_def example_key_pair)

subsection \<open>Properties\<close>

text \<open>C18: a minted token is good for its lifetime. If a service with a valid key pair mints a token that is
  no longer than 16 KiB, the limit that readers put on it and that \<open>issue\<close> does not check, then every
  reader that has the service's public key under its identifier and knows its issuer name accepts the
  token for the audience asked for, at any time from its issue until its expiration, give or take the
  reader's clock skew; what it reads are the claims of the issued lease, with the actions and
  resources asked for. The issuer's name and the workload's identifier are valid UTF-8.\<close>

theorem minted_token_verifies:
  assumes "tokens_documented L" and "digest_size L" and "db_ok L s"
    and "NewLeaseUsecase config = Inr u" and "valid_string (uc_issuer u)" and "valid_string (mr_WorkloadID request)"
    and "fmlookup keys (keyID L (Public (uc_privateKey u))) = Some (Public (uc_privateKey u))"
    and "MintRootLease L u env request s = (Inr il, s')" and "length (il_Token il) \<le> MaxLeaseTokenBytes"
    and "0 \<le> skew" and "l_IssuedAt (il_Lease il) - skew \<le> at" and "at < l_Expiration (il_Lease il) + skew"
    and "key_pair L (uc_privateKey u)" and "exact_times (il_Lease il)"
  shows "VerifyLeaseToken L at (il_Token il) keys (uc_issuer u) (mr_Audience request) skew
      = Inr (lease_claims u (il_Lease il))
    \<and> l_Actions (il_Lease il) = mr_Actions request \<and> l_Resources (il_Lease il) = mr_Resources request"
  by (rule minted_verifies [OF assms])

theorem minted_token_verifies_witness:
  "\<exists>claims. VerifyLeaseToken service_lib 0 minted_token (uc_verificationKeys example_service) ''i'' ''billing'' 0 = Inr claims
     \<and> c_Subject claims = ''w1''"
proof -
  obtain il s' where il: "MintRootLease service_lib example_service (example_env 0) mint_request example_db = (Inr il, s')"
    "il_Token il = minted_token" "il_Lease il = hashed_lease"
    using mint_issued by blast
  note service_db_ok
  moreover have "valid_string (uc_issuer example_service)" "uc_issuer example_service = ''i''"
    "uc_privateKey example_service = example_seed" "mr_Audience mint_request = ''billing''"
    "fmlookup (uc_verificationKeys example_service) example_kid = Some example_key"
    "valid_string (mr_WorkloadID mint_request)"
    by (simp_all add: example_service_def mint_request_def)
  moreover have "l_IssuedAt hashed_lease = 0" "0 < l_Expiration hashed_lease" "exact_times hashed_lease"
    by (simp_all add: exact_times_def minted_lease_def duration_defs)
  moreover have "key_pair service_lib example_seed" by (rule service_key_pair)
  ultimately have "VerifyLeaseToken service_lib 0 minted_token (uc_verificationKeys example_service) ''i'' ''billing'' 0
      = Inr (lease_claims example_service hashed_lease)"
    using minted_token_verifies [OF one_token_documented(1,3) [OF minted_plain, of minted_hash example_seed, folded service_lib_def]
        _ example_service_made _ _ _ il(1), of "uc_verificationKeys example_service" 0 0] minted_token_length il(2,3)
    by (simp add: example_public)
  then show ?thesis by (simp add: lease_claims_def minted_lease_def)
qed

end
