(* ===== verification/Grant_Path.thy ===== *)
theory Grant_Path
  imports Lifecycle
begin

section \<open>From the grant to the protected resource\<close>

text \<open>
  Where the service and the resource servers meet: what a verifier authorizes with a token of the
  service lies within the grant of a registered workload. The invariant of the service (\<open>System\<close>),
  the token of a lease (\<open>Issuance\<close>) and the checks of \<open>Authorize\<close> (\<open>Authorization\<close>) put together.
\<close>

subsection \<open>From an authorized request back to a grant\<close>

text \<open>
  Signatures cannot be forged: a token that verifies under one of the trusted keys is the token of
  a stored lease. \<open>issued_token_matches\<close> shows that a stored lease and the claims signed for it match.
\<close>

definition token_of :: "auth_lib \<Rightarrow> Lease \<Rightarrow> bytes \<Rightarrow> LeaseClaims \<Rightarrow> bool" where
  "token_of L l raw claims \<longleftrightarrow> parentTokenMatches L l raw claims \<and> c_Audience claims = [l_Audience l]"

definition unforged :: "auth_lib \<Rightarrow> bytes set \<Rightarrow> Lease list \<Rightarrow> bool" where
  "unforged L trusted leases \<longleftrightarrow>
    (\<forall>raw header k opts at kf claims. k \<in> trusted \<and> token_signed L raw header k
       \<and> jwt_parse L opts at raw kf = Inr claims \<longrightarrow> (\<exists>l \<in> set leases. token_of L l raw claims))"

lemma sameStrings_set:
  assumes "sameStrings xs ys" "distinct ys"
  shows "set xs = set ys"
proof -
  have "length xs = length ys" "set ys \<subseteq> set xs"
    using assms(1) by (auto simp: sameStrings_def list_all_iff fset_of_list_elem split: if_splits)
  then show ?thesis
    using assms(2) card_length [of xs] distinct_card [of ys] card_subset_eq [of "set xs" "set ys"]
      card_mono [of "set xs" "set ys"] by auto
qed

lemma token_of_context:
  assumes "token_of L l raw claims" "wf_context (unicode L) (lease_context l)"
  shows "set (ups_Actions (c_UPS claims)) = set (l_Actions l)" "set (ups_Resources (c_UPS claims)) = set (l_Resources l)"
    "c_ExpiresAt claims = Some (l_Expiration l)" "c_Subject claims = l_WorkloadID l"
    "\<And>m. ups_Constraints (c_UPS claims) = Some m \<Longrightarrow> m = l_Constraints l"
proof -
  have m: "parentTokenMatches L l raw claims" using assms(1) by (simp add: token_of_def)
  have "distinct (l_Actions l)" "distinct (l_Resources l)"
    using assms(2) by (simp_all add: wf_context_def trimmed_names_def)
  then show "set (ups_Actions (c_UPS claims)) = set (l_Actions l)" "set (ups_Resources (c_UPS claims)) = set (l_Resources l)"
    using m sameStrings_set by (auto simp: parentTokenMatches_def Let_def split: if_splits)
  show "c_ExpiresAt claims = Some (l_Expiration l)" "c_Subject claims = l_WorkloadID l"
    "\<And>m. ups_Constraints (c_UPS claims) = Some m \<Longrightarrow> m = l_Constraints l"
    using m by (auto simp: parentTokenMatches_def Let_def Equal_iff split: if_splits)
qed

subsection \<open>A concrete path\<close>

text \<open>The verifier of the example key authorizes a request with a token of the example root lease, whose
  hash is the stored one.\<close>

abbreviation root_claims :: LeaseClaims where
  "root_claims \<equiv> lease_claims example_usecase example_root_row"

abbreviation root_token :: bytes where
  "root_token \<equiv> token_text example_kid root_claims"

definition path_sdk :: sdk_lib where
  "path_sdk = example_sdk\<lparr>web := example_web\<lparr>auth := one_token_lib (replicate 32 (CHR ''a'')) example_kid
     root_claims example_seed\<rparr>\<rparr>"

definition path_verifier :: Verifier where
  "path_verifier = example_verifier\<lparr>vf_constraintValues := Some (\<lambda>_. prod_limits ''1000'')\<rparr>"

lemma path_sdk_simps [simp]:
  "auth (web path_sdk) = one_token_lib (replicate 32 (CHR ''a'')) example_kid root_claims example_seed"
  by (simp add: path_sdk_def)

lemma path_plain: "plain_claims example_kid root_claims"
  by (simp add: plain_claims_def lease_claims_def example_root_row_def Let_def keyID_def
      parentID_def delegatedByID_def plain_text_char_def)

lemma path_token: "length root_token \<le> MaxLeaseTokenBytes" "root_token \<noteq> []"
proof -
  show "length root_token \<le> MaxLeaseTokenBytes"
    unfolding token_text_def
  proof (rule short_token)
    show "length (json_text (lease_header example_kid)) \<le> 200"
      using example_kid_length by (simp add: lease_header_def LeaseTokenType_def)
    show "length (json_text (JObject (claims_members root_claims (\<lambda>_. ''0'') [] []))) \<le> 2000"
      by (simp add: claims_members_def capability_members_def optional_text_def lease_claims_def example_root_row_def
          parentID_def delegatedByID_def)
  qed
  show "root_token \<noteq> []" by (simp add: token_text_def)
qed

text \<open>A verifier with the example key in its cache accepts the one token of such a library.\<close>

lemma cached_key_verifies:
  assumes "plain_claims example_kid claims" "length digest = 32" "length (token_text example_kid claims) \<le> MaxLeaseTokenBytes"
    and "text_claims claims" "check_claims ascii_lib claims = Inr claims"
    and "claims_checked (parse_options ''i'' ''billing'' 0) 0 claims"
  shows "VerifyLeaseToken (one_token_lib digest example_kid claims example_seed) 0 (token_text example_kid claims)
     (fmupd example_kid example_key fmempty) ''i'' ''billing'' 0 = Inr claims"
proof -
  have "SignLeaseClaims (one_token_lib digest example_kid claims example_seed) claims example_seed
      = Inr (token_text example_kid claims)"
    by (simp add: SignLeaseClaims_def example_public) (simp add: one_token_lib_def example_seed_def PrivateKeySize_def)
  then show ?thesis
    using one_token_documented(1,3) [OF assms(1,2)] assms(3-6)
    by (intro VerifyLeaseToken_signed [where privateKey = example_seed]) (simp_all add: example_public example_key_pair)
qed

lemma cached_key_authorizes:
  assumes "auth (web S) = one_token_lib digest example_kid claims example_seed" "plain_claims example_kid claims"
    and "length (token_text example_kid claims) \<le> MaxLeaseTokenBytes"
    and "VerifyLeaseToken (one_token_lib digest example_kid claims example_seed) 0 (token_text example_kid claims)
     (fmupd example_kid example_key fmempty) ''i'' ''billing'' 0 = Inr claims"
    and "c_Confirmation claims = None" "v = example_verifier\<lparr>vf_consumeLease := consume, vf_constraintValues := values_of\<rparr>"
    and "check_capability S request (token_text example_kid claims) claims action resource v = Inr claims"
    and "action \<noteq> []" "resource \<noteq> []"
  shows "Authorize S example_authorize_env (Some request) (token_text example_kid claims) action resource v = (Inr claims, v)"
proof -
  have "TokenKeyID (token_text example_kid claims) = Inr example_kid"
    using one_token_encodes [OF assms(2)] assms(3) example_kid_length by (intro TokenKeyID_encoded) auto
  moreover have "verifier_key S (\<lambda>_. 0) None example_kid v = (Inr example_key, v)"
    by (simp add: verifier_key_def cachedKey_def assms(6) example_verifier_def duration_defs)
  moreover have "verifyProof S 0 0 request (token_text example_kid claims) claims v = (Inr (), v)"
    by (simp add: verifyProof_def assms(5,6) example_verifier_def)
  moreover have "isRevoked S (\<lambda>_. 0) None l v = (Inr False, v)" for l
    by (simp add: isRevoked_def cachedRevocation_def assms(6) example_verifier_def RevocationStrict_def
        RevocationExpiryOnly_def duration_defs)
  moreover have "vf_issuer v = ''i''" "vf_audience v = ''billing''" "vf_clockSkew v = 0"
    by (simp_all add: assms(6) example_verifier_def)
  moreover have "token_text example_kid claims \<noteq> []" by (simp add: token_text_def)
  ultimately show ?thesis
    using assms(1,3,4,7-9) by (simp add: Authorize_def example_authorize_env_def not_less)
qed

lemma path_verified:
  "VerifyLeaseToken (auth (web path_sdk)) 0 root_token (fmupd example_kid example_key fmempty) ''i'' ''billing'' 0
   = Inr root_claims"
proof -
  have "text_claims root_claims"
    using example_texts(1)
    by (simp add: text_claims_def exact_second_def lease_claims_def example_root_row_def example_usecase_def Let_def parentID_def
        delegatedByID_def copyConstraints_def NumericDate_def trunc_second_def duration_defs pg_text_map_def
        pg_text_def fmpred_iff)
  moreover have "claims_checked (parse_options ''i'' ''billing'' 0) 0 root_claims"
    by (simp add: claims_checked_def parse_options_def lease_claims_def example_root_row_def example_usecase_def
        NumericDate_def trunc_second_def duration_defs)
  ultimately show ?thesis
    using cached_key_verifies [OF path_plain _ path_token(1) _ example_root_claims] by simp
qed

lemma path_verifier_ok: "verifier_ok path_sdk path_verifier"
  by (simp add: verifier_ok_def config_ok_def allowed_staleness_def keys_named_def example_verifier_def path_verifier_def
      fmlookup_of_list RevocationStrict_def RevocationBoundedStale_def duration_defs)

lemma path_authorized:
  "Authorize path_sdk example_authorize_env (Some example_request) root_token ''refund'' ''customer/cus_123''
     path_verifier = (Inr root_claims, path_verifier)"
proof -
  have "check_capability path_sdk example_request root_token root_claims ''refund'' ''customer/cus_123''
      path_verifier = Inr root_claims"
  proof -
    have "resourceAllowed ascii_lib [''customer/*''] ''customer/cus_123''"
      by (simp add: resourceAllowed_def Allows_iff CanonicalizeValue_Inr ok_def example_resources example_within)
    moreover have "Satisfied ascii_lib (prod_limits ''1000'') (fmupd ''http_method'' m (prod_limits ''1000''))" for m
      using Satisfied_self [OF example_valid_constraints(1) [of ascii_lib]]
      by (auto simp: Satisfied_def fmpred_iff satisfied_entry_def prod_limits_def split: if_splits)
    ultimately show ?thesis
      by (simp add: check_capability_Inr constraintsSatisfied_def consume_use_def path_verifier_def)
        (simp add: lease_claims_def example_root_row_def copyConstraints_def)
  qed
  moreover have "c_Confirmation root_claims = None" by (simp add: lease_claims_def example_root_row_def)
  moreover have "path_verifier = example_verifier\<lparr>vf_consumeLease := None,
      vf_constraintValues := Some (\<lambda>_. prod_limits ''1000'')\<rparr>"
    by (simp add: path_verifier_def example_verifier_def)
  ultimately show ?thesis
    using path_verified by (intro cached_key_authorizes [OF path_sdk_simps path_plain path_token(1)]) simp_all
qed

lemma path_unforged: "unforged (auth (web path_sdk)) {example_key} (db_leases example_db)"
proof -
  have "parentTokenMatches L example_root_row raw root_claims"
    if "sha256 L raw = replicate 32 (CHR ''a'')" "unicode L = ascii_lib" for L raw
    using that
    by (simp add: parentTokenMatches_def Let_def lease_claims_def claimConfirmation_def parentID_def
        delegatedByID_def copyConstraints_def Equal_iff example_root_row_def NumericDate_def trunc_second_def
        example_context_facts)
  then have "parentTokenMatches (auth (web path_sdk)) example_root_row root_token root_claims" by simp
  moreover have "c_Audience root_claims = [l_Audience example_root_row]" by (simp add: lease_claims_def)
  ultimately have matched: "token_of (auth (web path_sdk)) example_root_row root_token root_claims"
    by (simp add: token_of_def)
  show ?thesis
    unfolding unforged_def path_sdk_simps
  proof (intro allI impI, elim conjE)
    fix raw opts at kf claims
    assume "jwt_parse (one_token_lib (replicate 32 (CHR ''a'')) example_kid root_claims example_seed) opts at raw kf = Inr claims"
    then have "raw = root_token" "claims = root_claims" by (rule one_token_parse)+
    with matched show "\<exists>l \<in> set (db_leases example_db).
        token_of (one_token_lib (replicate 32 (CHR ''a'')) example_kid root_claims example_seed) l raw claims"
      by (intro bexI [of _ example_root_row]) simp_all
  qed
qed

subsection \<open>Properties\<close>

text \<open>C1: the whole path, from the grant to the protected resource. If tokens cannot be forged, a request
  that a verifier authorizes uses a lease the service stored, and what was authorized lies within
  the grant of the workload at the root of that lease's lineage: its audiences, its actions, its
  resources, its constraints, judged on what the verifier's \<open>ConstraintValues\<close> reads from the
  request and on the method of the request, and its lifetime, up to the verifier's clock skew,
  however many delegations lie between and whatever other requests ran.\<close>

theorem authorized_within_grant:
  assumes "uuid_canonical (auth_of S)" and "db_ok (auth_of S) s" and "authority_ok (auth_of S) s"
    and "rtranclp (service_step (auth_of S) u) (idle s) \<sigma>" and "parse_sound (auth_of S)" and "verifier_ok S v"
    and "Authorize S env (Some request) token action resource v = (Inr claims, w)"
    and "\<forall>kid k. fmlookup (vf_keys w) kid = Some k \<longrightarrow> k \<in> trusted"
    and "unforged (auth_of S) trusted (db_leases (sys_db \<sigma>))"
  shows "\<exists>l \<in> set (db_leases (sys_db \<sigma>)). \<exists>root \<in> set (db_leases (sys_db \<sigma>)). \<exists>wl \<in> set (db_workloads (sys_db \<sigma>)).
    l_WorkloadID l = c_Subject claims \<and> l_RootLeaseID l = l_ID root \<and> l_WorkloadID root = w_ID wl
    \<and> vf_audience v \<in> set (g_Audiences (w_Grant wl))
    \<and> grant_permits (unicode_of S) (grant_context (w_Grant wl)) (l_IssuedAt root)
        (action, resource, fmupd ''http_method'' (to_upper (unicode_of S) (rq_Method request))
            (case vf_constraintValues v of None \<Rightarrow> fmempty | Some f \<Rightarrow> f request),
         en_jwt_now env - vf_clockSkew v)"
proof -
  let ?own = "case vf_constraintValues v of None \<Rightarrow> fmempty | Some f \<Rightarrow> f request"
  note checks = authorized_checks [OF assms(5,6,7)]
  obtain k header where k: "k \<in> trusted" "token_signed (auth_of S) token header k"
    using checks assms(8) by blast
  obtain keys issuer audience where "VerifyLeaseToken (auth_of S) (en_jwt_now env) token keys issuer audience
      (vf_clockSkew v) = Inr claims" by (rule Authorize_verified [OF assms(7)])
  then obtain opts kf where "jwt_parse (auth_of S) opts (en_jwt_now env) token kf = Inr claims"
    using VerifyLeaseToken_Inr by metis
  with k obtain l where l: "l \<in> set (db_leases (sys_db \<sigma>))" "token_of (auth_of S) l token claims"
    using assms(9) unfolding unforged_def by blast
  obtain root wl where root: "root \<in> set (db_leases (sys_db \<sigma>))" "wl \<in> set (db_workloads (sys_db \<sigma>))"
    "l_RootLeaseID l = l_ID root" "l_WorkloadID root = w_ID wl" "l_Audience l \<in> set (g_Audiences (w_Grant wl))"
    and within: "\<And>q. permits (unicode_of S) (lease_context l) q \<Longrightarrow>
      grant_permits (unicode_of S) (grant_context (w_Grant wl)) (l_IssuedAt root) q"
    using reachable_authority [OF assms(1-4) l(1)] by blast
  have "wf_context (unicode_of S) (lease_context l)"
    using reachable_context [OF assms(1-4) l(1)] .
  note same = token_of_context [OF l(2) this]
  obtain m where "ups_Constraints (c_UPS claims) = Some m"
    "Satisfied (unicode_of S) m (fmupd ''http_method'' (to_upper (unicode_of S) (rq_Method request)) ?own)"
    using checks by blast
  then have "permits (unicode_of S) (lease_context l)
      (action, resource, fmupd ''http_method'' (to_upper (unicode_of S) (rq_Method request)) ?own,
       en_jwt_now env - vf_clockSkew v)"
    using checks same by (auto simp: permits_def list_ex_iff)
  moreover have "vf_audience v \<in> set (g_Audiences (w_Grant wl))"
    using checks l(2) root(5) by (simp add: token_of_def)
  ultimately show ?thesis using l(1) root within same(4) by metis
qed

theorem authorized_within_grant_witness:
  "\<exists>wl \<in> set (db_workloads example_db). \<exists>at. grant_permits ascii_lib (grant_context (w_Grant wl)) at
     (''refund'', ''customer/cus_123'', fmupd ''http_method'' (to_upper ascii_lib ''get'') (prod_limits ''1000''), 0)"
proof -
  have is_uuid: "is_uuid (auth (web path_sdk)) = is_uuid example_lib" by (simp add: is_uuid_def fun_eq_iff)
  have "db_ok (auth (web path_sdk)) example_db" "uuid_canonical (auth (web path_sdk))"
    using example_store_ok is_uuid
    by (simp_all add: store_ok_def db_ok_def workloads_ok_def lease_table_ok_def lease_row_ok_def uuid_canonical_def)
  moreover have "authority_ok (auth (web path_sdk)) example_db"
    by (rule authority_ok_unicode [OF _ example_authority]) (simp add: example_lib_def)
  moreover have "\<forall>kid k. fmlookup (vf_keys path_verifier) kid = Some k \<longrightarrow> k \<in> {example_key}"
    by (simp add: path_verifier_def example_verifier_def fmlookup_of_list)
  moreover have "sys_db (idle example_db) = example_db" by (simp add: idle_def)
  ultimately show ?thesis
    using authorized_within_grant [OF _ _ _ rtranclp.rtrancl_refl _ path_verifier_ok path_authorized, of example_db "{example_key}"]
      path_unforged one_token_documented(2) [OF path_plain, of "replicate 32 (CHR ''a'')" example_seed]
    by (auto simp: path_verifier_def example_verifier_def example_authorize_env_def example_request_def)
qed

end
