(* ===== verification/Routes.thy ===== *)
theory Routes
  imports Delivery
begin

section \<open>The routes of the service\<close>

text \<open>
  The table that \<open>Router\<close> of \<open>internal/delivery/delivery.go\<close> hands to Gin, and the route a request
  takes: the one whose verb is that of the request and whose pattern matches the decoded path. How
  Gin matches is a parameter of the model; \<open>gin_documented\<close> is what its documentation says of the
  patterns used here. A request without a route gets no handler.
\<close>

text \<open>\<open>net/url\<close>: the path of an address is its escaped path without the escapes.\<close>

fun path_unescape :: "bytes \<Rightarrow> bytes option" where
  "path_unescape [] = Some []"
| "path_unescape (c # s) =
    (if c = CHR ''%'' then
       (case s of
          a # b # rest \<Rightarrow>
            (case (hex_value a, hex_value b) of
               (Some x, Some y) \<Rightarrow> map_option ((#) (char_of (x * 16 + y))) (path_unescape rest)
             | _ \<Rightarrow> None)
        | _ \<Rightarrow> None)
     else map_option ((#) c) (path_unescape s))"

definition route_table :: "(bytes \<times> bytes \<times> (bytes \<Rightarrow> route)) list" where
  "route_table =
    [(''GET'', ''/healthz'', \<lambda>_. RHealth),
     (''GET'', ''/readyz'', \<lambda>_. RReady),
     (''GET'', ''/metrics'', \<lambda>_. RMetrics),
     (''GET'', ''/.well-known/jwks.json'', \<lambda>_. RJwks),
     (''GET'', ''/.well-known/revocations.json'', \<lambda>_. RRevocations),
     (''POST'', ''/v1/workloads'', \<lambda>_. RRegisterWorkload),
     (''GET'', ''/v1/workloads/:id'', RGetWorkload),
     (''POST'', ''/v1/workloads/:id/disable'', RDisableWorkload),
     (''POST'', ''/v1/workloads/:id/rotate-key'', RRotateWorkloadKey),
     (''POST'', ''/v1/leases'', \<lambda>_. RMint),
     (''GET'', ''/v1/leases/:id'', RGetLease),
     (''GET'', ''/v1/leases/:id/trace'', RTraceLease),
     (''POST'', ''/v1/leases/:id/delegate'', RDelegate),
     (''POST'', ''/v1/leases/:id/consume'', RConsume),
     (''POST'', ''/v1/leases/:id/revoke'', RRevoke),
     (''GET'', ''/v1/audit-events'', \<lambda>_. RAuditEvents)]"

text \<open>\<open>matches pattern path\<close> is the value of the parameter when Gin matches the path.\<close>

definition route_of :: "(bytes \<Rightarrow> bytes \<Rightarrow> bytes option) \<Rightarrow> bytes \<Rightarrow> bytes \<Rightarrow> route" where
  "route_of matches verb path =
    (case find (\<lambda>(v, pattern, _). v = verb \<and> matches pattern path \<noteq> None) route_table of
       None \<Rightarrow> RNone
     | Some (_, pattern, target) \<Rightarrow> target (the (matches pattern path)))"

text \<open>Segment by segment, a parameter stands for any one segment and everything else for itself.\<close>

fun match_segments :: "bytes list \<Rightarrow> bytes list \<Rightarrow> bytes option" where
  "match_segments [] [] = Some []"
| "match_segments (p # ps) (s # ss) =
    (if p = '':id'' then map_option (\<lambda>_. s) (match_segments ps ss)
     else if p = s then match_segments ps ss
     else None)"
| "match_segments _ _ = None"

definition gin_documented :: "(bytes \<Rightarrow> bytes \<Rightarrow> bytes option) \<Rightarrow> bool" where
  "gin_documented matches \<longleftrightarrow>
    (\<forall>(_, pattern, _) \<in> set route_table. \<forall>segments. list_all (\<lambda>s. s \<noteq> [] \<and> CHR ''/'' \<notin> set s) segments \<longrightarrow>
      matches pattern (concat (map ((#) CHR ''/'') segments))
        = match_segments (tl (split_on CHR ''/'' pattern)) segments)"

subsection \<open>Lemmas\<close>

text \<open>The pattern of a route is the one that the metrics report for it.\<close>

lemma route_table_paths: "(v, pattern, target) \<in> set route_table \<Longrightarrow> full_path (target i) = pattern"
  by (auto simp: route_table_def)

lemma route_of_cases:
  "route_of matches verb path \<noteq> RNone \<Longrightarrow>
   \<exists>i. matches (full_path (route_of matches verb path)) path = Some i"
proof -
  assume "route_of matches verb path \<noteq> RNone"
  then obtain v pattern target where found:
    "find (\<lambda>(v, pattern, _). v = verb \<and> matches pattern path \<noteq> None) route_table = Some (v, pattern, target)"
    by (auto simp: route_of_def split: option.splits)
  then have "(v, pattern, target) \<in> set route_table" "matches pattern path \<noteq> None"
    by (auto dest: find_Some_iff_key)
  then show ?thesis using route_table_paths found by (auto simp: route_of_def)
qed

lemma path_unescape_plain: "CHR ''%'' \<notin> set s \<Longrightarrow> path_unescape s = Some s"
  by (induction s) auto

lemma split_on_joined:
  assumes "\<forall>s \<in> set segments. CHR ''/'' \<notin> set s"
  shows "split_on CHR ''/'' (concat (map ((#) CHR ''/'') segments)) = [] # segments"
  using assms
proof (induction segments rule: rev_induct)
  case Nil
  then show ?case by simp
next
  case (snoc s segments)
  then show ?case by (simp add: split_on_append_sep split_on_single)
qed

lemma matches_segments:
  assumes "gin_documented matches" "(v, pattern, target) \<in> set route_table"
    and "list_all (\<lambda>s. s \<noteq> [] \<and> CHR ''/'' \<notin> set s) segments"
  shows "matches pattern (concat (map ((#) CHR ''/'') segments))
    = match_segments (tl (split_on CHR ''/'' pattern)) segments"
  using assms by (auto simp: gin_documented_def)

lemma route_of_consume:
  assumes "gin_documented matches" "i \<noteq> []" "CHR ''/'' \<notin> set i"
  shows "route_of matches ''POST'' (''/v1/leases/'' @ i @ ''/consume'') = RConsume i"
proof -
  define segments where "segments = [''v1'', ''leases'', i, ''consume'']"
  have path: "''/v1/leases/'' @ i @ ''/consume'' = concat (map ((#) CHR ''/'') segments)"
    by (simp add: segments_def)
  have "list_all (\<lambda>s. s \<noteq> [] \<and> CHR ''/'' \<notin> set s) segments" using assms(2,3) by (simp add: segments_def)
  then have known: "(v, pattern, target) \<in> set route_table \<Longrightarrow>
      matches pattern (concat (map ((#) CHR ''/'') segments)) = match_segments (tl (split_on CHR ''/'' pattern)) segments"
    for v pattern target using matches_segments [OF assms(1)] by blast
  have "find (\<lambda>(v, pattern, _). v = ''POST'' \<and> matches pattern (concat (map ((#) CHR ''/'') segments)) \<noteq> None) route_table
      = find (\<lambda>(v, pattern, _). v = ''POST'' \<and> match_segments (tl (split_on CHR ''/'' pattern)) segments \<noteq> None) route_table"
    using known by (intro find_cong) auto
  also have "\<dots> = Some (''POST'', ''/v1/leases/:id/consume'', RConsume)"
    by (simp add: route_table_def segments_def)
  finally have "route_of matches ''POST'' (concat (map ((#) CHR ''/'') segments))
      = RConsume (the (matches ''/v1/leases/:id/consume'' (concat (map ((#) CHR ''/'') segments))))"
    by (simp add: route_of_def)
  moreover have "matches ''/v1/leases/:id/consume'' (concat (map ((#) CHR ''/'') segments)) = Some i"
  proof -
    have "(''POST'', ''/v1/leases/:id/consume'', RConsume) \<in> set route_table" by (simp add: route_table_def)
    from known [OF this] show ?thesis by (simp add: segments_def)
  qed
  ultimately show ?thesis unfolding path by simp
qed

end
