(* ===== verification/Use_Path.thy ===== *)
theory Use_Path
  imports Client_Service Grant_Path Routes
begin

section \<open>Limited uses, from the resource server to the database\<close>

text \<open>
  A verifier that consumes uses with the client of the SDK: what it authorizes on a lease with a
  limited number of uses has been counted by the service.
\<close>

subsection \<open>The address of a use\<close>

text \<open>An address with a path of plain characters, and a base address without a path.\<close>

definition plain_url :: "url \<Rightarrow> bool" where
  "plain_url u \<longleftrightarrow>
    u_Scheme u \<in> {''http'', ''https''} \<and> u_Opaque u = [] \<and> u_User u = None \<and> u_Host u \<noteq> [] \<and> u_RawPath u = []
    \<and> u_RawQuery u = [] \<and> u_Fragment u = []
    \<and> (u_Path u = [] \<or> hd (u_Path u) = CHR ''/'') \<and> list_all (\<lambda>c. path_segment_char c \<or> c = CHR ''/'') (u_Path u)"

text \<open>What \<open>net/url\<close> documents of such an address: read back from its text, it has the same path,
  which needs no escapes, and no query; the host plays no part in the path.\<close>

definition plain_addresses :: "client_lib \<Rightarrow> bool" where
  "plain_addresses C \<longleftrightarrow>
    (\<forall>u u' host. plain_url u \<and> url_parse C (url_string (net C) u) = Some u' \<longrightarrow>
      escaped_path C (u'\<lparr>u_Host := host\<rparr>) = u_Path u \<and> u_RawQuery u' = [])"

lemma path_escape_plain: "list_all path_segment_char s \<Longrightarrow> path_escape s = s"
  by (induction s) simp_all

lemma path_segment_char_plain: "path_segment_char c \<Longrightarrow> c \<noteq> CHR ''/'' \<and> c \<noteq> CHR ''%''"
  by (auto simp: path_segment_char_def is_digit_def)

text \<open>The path that the request of \<open>Consume\<close> arrives under, for a service without a path of its own.\<close>

lemma consume_path:
  assumes "plain_addresses C" "plain_url (cn_baseURL consumer)" "u_Path (cn_baseURL consumer) = []"
    and "list_all path_segment_char i" "consume_request C consumer i token key = Inr q" "received C q r"
  shows "in_EscapedPath r = ''/v1/leases/'' @ i @ ''/consume''"
proof -
  let ?u = "consume_target consumer i"
  have path: "u_Path ?u = ''/v1/leases/'' @ i @ ''/consume''"
    using assms(3,4) by (simp add: consume_target_def trim_right_slashes_def path_escape_plain)
  have "list_all (\<lambda>c. path_segment_char c \<or> c = CHR ''/'') (''/v1/leases/'' @ i @ ''/consume'')"
    using assms(4) by (auto simp: list_all_iff) (auto simp: path_segment_char_def is_digit_def)
  then have "plain_url ?u"
    using assms(2) unfolding plain_url_def path by (simp add: consume_target_def)
  moreover obtain u' where "url_parse C (url_string (net C) ?u) = Some u'"
      "cq_URL q = u'\<lparr>u_Host := trim_suffix (u_Host u') '':''\<rparr>"
    using assms(5) by (auto simp: consume_request_def new_request_def set_request_header_def Let_def
        split: sum.splits if_splits option.splits)
  ultimately have "escaped_path C (cq_URL q) = u_Path ?u"
    using assms(1) unfolding plain_addresses_def by metis
  then show ?thesis using assms(6) path by (simp add: received_def written_path_def)
qed

lemma plain_path_decodes:
  "list_all path_segment_char i \<Longrightarrow>
   path_unescape (''/v1/leases/'' @ i @ ''/consume'') = Some (''/v1/leases/'' @ i @ ''/consume'')"
  using path_segment_char_plain by (intro path_unescape_plain) (auto simp: list_all_iff)

text \<open>The transport delivers a request to the service, which takes the route of its method and its path
  and answers with the status of the response. The database of the service is \<open>s\<close> afterwards.\<close>

definition delivers ::
    "client_lib \<Rightarrow> (bytes \<Rightarrow> bytes \<Rightarrow> bytes option) \<Rightarrow> transport \<Rightarrow> http_lib \<Rightarrow> Handler \<Rightarrow> LeaseUsecase \<Rightarrow> http_env
      \<Rightarrow> http_state \<Rightarrow> db \<Rightarrow> bool" where
  "delivers C matches send P h u env st s \<longleftrightarrow>
    (\<forall>q response. send q = Some response \<longrightarrow>
      (\<exists>r path c st'. received C q r \<and> path_unescape (in_EscapedPath r) = Some path
         \<and> Router P h u env r (route_of matches (in_Method r) path) st = (c, st')
         \<and> cp_StatusCode response = gx_Status c \<and> hs_db st' = s))"

text \<open>C3: a limited use that is authorized has been counted. A resource server that consumes uses
  with the client of the SDK, configured with the address of the service, authorizes a request on a
  lease with limited uses only after the service has stored a use of that same lease under the
  idempotency key of the request: the method and the path that the client builds take the route that
  consumes the lease of the token. The lease is stored, has a limit, is not revoked, and its token is
  the one presented. Token and key begin and end with no blank, and the lease's identifier is made of
  characters that a path carries as they are, as the service's UUIDs are.\<close>
theorem authorized_use_counted:
  assumes "store_ok (lib P) (hs_db st)"
    and "Authorize S env (Some request) token action resource v = (Inr claims, w)"
    and "0 < sint (ups_MaxUses (c_UPS claims))" and "vf_consumeLease w = Some (Consume C send consumer)"
    and "delivers C matches send P h u henv st s" and "gin_documented matches" and "plain_addresses C"
    and "plain_url (cn_baseURL consumer)" and "u_Path (cn_baseURL consumer) = []"
    and "list_all path_segment_char (ups_LeaseID (c_UPS claims))"
    and "header_value token" and "header_value (rq_header request ''Idempotency-Key'')"
  shows "\<exists>l \<in> set (db_leases (hs_db st)). \<exists>row \<in> set (db_lease_consumptions s).
    parse_uuid (lib P) (ups_LeaseID (c_UPS claims)) = Some (l_ID l) \<and> l_TokenHash l = sha256 (lib P) token
    \<and> 0 < sint (l_MaxUses l) \<and> l_RevokedAt l = None
    \<and> u_lease_id row = l_ID l \<and> u_idempotency_key row = rq_header request ''Idempotency-Key''"
proof -
  let ?i = "ups_LeaseID (c_UPS claims)"
  have "consume_use request token claims w = None"
    using Authorize_Inr [OF assms(2)] by (metis check_capability_Inr)
  then have used: "Consume C send consumer ?i token (rq_header request ''Idempotency-Key'') = Inr ()"
    using assms(3,4) by (auto simp: consume_use_None)
  then obtain q response where q: "consume_request C consumer ?i token (rq_header request ''Idempotency-Key'') = Inr q"
      "send q = Some response" "cp_StatusCode response = 200"
    by (rule Consume_Inr)
  then obtain r path c st' where run: "received C q r" "path_unescape (in_EscapedPath r) = Some path"
      "Router P h u henv r (route_of matches (in_Method r) path) st = (c, st')" "gx_Status c = 200" "hs_db st' = s"
    using assms(5) unfolding delivers_def by metis
  note sent = consume_request_Inr(1,2,4) [OF q(1) run(1)]
  have "path = ''/v1/leases/'' @ ?i @ ''/consume''"
    using run(2) plain_path_decodes [OF assms(10)] unfolding consume_path [OF assms(7-10) q(1) run(1)] by simp
  moreover have "?i \<noteq> []" using used by (auto simp: Consume_def)
  moreover have "CHR ''/'' \<notin> set ?i" using assms(10) path_segment_char_plain by (auto simp: list_all_iff)
  ultimately have "route_of matches (in_Method r) path = RConsume ?i"
    using route_of_consume [OF assms(6)] sent(3) by simp
  then have handled: "Router P h u henv r (RConsume ?i) st = (c, st')" using run(3) by simp
  show ?thesis
    by (rule consumed_over_http [OF assms(1) handled run(4)]) (use sent(1,2) assms(11,12) run(5) in auto)
qed

subsection \<open>A concrete use\<close>

abbreviation child_claims :: LeaseClaims where
  "child_claims \<equiv> lease_claims example_usecase example_child_row"

abbreviation child_token :: bytes where
  "child_token \<equiv> token_text example_kid child_claims"

abbreviation use_lib :: auth_lib where
  "use_lib \<equiv> one_token_lib (replicate 32 (CHR ''b'')) example_kid child_claims example_seed"

definition use_http :: http_lib where
  "use_http = example_http\<lparr>lib := use_lib\<rparr>"

definition use_service :: LeaseUsecase where
  "use_service = example_usecase\<lparr>uc_verificationKeys := fmupd example_kid example_key fmempty\<rparr>"

definition use_handler :: Handler where
  "use_handler = example_handler\<lparr>dh_consumptionTokenHash := sha256 example_lib ''consumer''\<rparr>"

definition use_env :: http_env where
  "use_env = example_http_env\<lparr>he_call := example_env 0\<rparr>"

definition use_consumer :: Consumer where
  "use_consumer = \<lparr>cn_baseURL = example_url\<lparr>u_Path := []\<rparr>, cn_consumerToken = ''consumer''\<rparr>"

text \<open>A client whose addresses are written as their paths, and a matching that is the documented one.\<close>

definition use_client :: client_lib where
  "use_client = example_client\<lparr>net := example_web\<lparr>auth := use_lib, url_string := u_Path\<rparr>,
     url_parse := (\<lambda>path. Some (example_url\<lparr>u_Path := path\<rparr>))\<rparr>"

definition use_matches :: "bytes \<Rightarrow> bytes \<Rightarrow> bytes option" where
  "use_matches pattern path = match_segments (tl (split_on CHR ''/'' pattern)) (tl (split_on CHR ''/'' path))"

text \<open>A transport that delivers one request.\<close>

definition use_transport :: transport where
  "use_transport q =
    (if consume_request use_client use_consumer ''c'' child_token ''sixteen-byte-key'' = Inr q
     then Some \<lparr>cp_StatusCode = gx_Status (fst (Router use_http use_handler use_service use_env
       (on_wire use_client q) (route_of use_matches ''POST'' ''/v1/leases/c/consume'') example_http_state)), cp_Body = Some [], cp_Closed = True\<rparr>
     else None)"

definition use_sdk :: sdk_lib where
  "use_sdk = example_sdk\<lparr>web := example_web\<lparr>auth := use_lib\<rparr>\<rparr>"

definition use_verifier :: Verifier where
  "use_verifier = example_verifier\<lparr>vf_consumeLease := Some (Consume use_client use_transport use_consumer),
     vf_constraintValues := Some (\<lambda>_. prod_limits ''500'')\<rparr>"

definition use_request :: http_request where
  "use_request = \<lparr>rq_Method = ''get'', rq_Host = ''h'', rq_TLS = True, rq_EscapedPath = ''/p'',
     rq_header = (\<lambda>name. if name = ''Idempotency-Key'' then ''sixteen-byte-key'' else [])\<rparr>"

lemma child_issuable: "issuable example_lib example_child_row" "lease_row example_lib example_child_row = Some example_child_row"
proof -
  have "example_child_row = example_child_row\<lparr>l_AuthenticatedKeyThumbprint := []\<rparr>" by (simp add: example_child_row_def)
  then show "lease_row example_lib example_child_row = Some example_child_row"
    by (simp add: lease_row_def) (simp add: example_child_row_def pg_time_def duration_defs)
  have "wf_context ascii_lib (lease_context example_child_row)"
    by (simp add: wf_context_def lease_context_def example_child_row_def example_context_facts)
  moreover have "unicode example_lib = ascii_lib" by (simp add: example_lib_def)
  ultimately show "issuable example_lib example_child_row"
    by (simp add: issuable_def whole_seconds_def)
      (simp add: example_child_row_def duration_defs valid_string_ascii_Cons)
qed

lemma child_plain: "plain_claims example_kid child_claims"
  by (simp add: plain_claims_def lease_claims_def example_child_row_def Let_def keyID_def
      parentID_def delegatedByID_def plain_text_char_def)

lemma child_token_length: "length child_token \<le> MaxLeaseTokenBytes"
  unfolding token_text_def
proof (rule short_token)
  show "length (json_text (lease_header example_kid)) \<le> 200"
    using example_kid_length by (simp add: lease_header_def LeaseTokenType_def)
  show "length (json_text (JObject (claims_members child_claims (\<lambda>_. ''0'') [] []))) \<le> 2000"
    by (simp add: claims_members_def capability_members_def optional_text_def lease_claims_def example_child_row_def
        parentID_def delegatedByID_def)
qed

lemma child_verified:
  "VerifyLeaseToken use_lib 0 child_token (fmupd example_kid example_key fmempty) ''i'' ''billing'' 0 = Inr child_claims"
proof (rule cached_key_verifies [OF child_plain _ child_token_length])
  have "unicode example_lib = ascii_lib" by (simp add: example_lib_def)
  then show "check_claims ascii_lib child_claims = Inr child_claims"
    using check_claims_lease [OF child_issuable example_checks(2), of example_usecase] by simp
  show "text_claims child_claims"
    by (rule text_claims_lease [OF child_issuable example_checks(2)]) (simp_all add: example_usecase_def valid_string_ascii_Cons exact_times_def, simp add: example_child_row_def duration_defs)
  show "claims_checked (parse_options ''i'' ''billing'' 0) 0 child_claims"
    by (simp add: claims_checked_def parse_options_def lease_claims_def example_child_row_def example_usecase_def
        NumericDate_def trunc_second_def duration_defs)
qed simp

lemma child_matches: "parentTokenMatches use_lib example_child_row child_token child_claims"
  by (simp add: parentTokenMatches_def Let_def lease_claims_def claimConfirmation_def parentID_def
      delegatedByID_def copyConstraints_def Equal_iff NumericDate_def trunc_second_def)
    (simp add: example_child_row_def example_context_facts)

text \<open>The database after the use.\<close>

definition used_db :: db where
  "used_db = example_db\<lparr>db_leases := [example_root_row, example_child_row\<lparr>l_UsesConsumed := 1\<rparr>],
     db_lease_consumptions := [\<lparr>u_lease_id = ''c'', u_idempotency_key = ''sixteen-byte-key'',
       u_use_number = 1, u_consumed_at = 0\<rparr>]\<rparr>"

lemma child_used:
  "\<exists>consumption. ConsumeLease use_lib use_service ((example_env 0)\<lparr>ctx_request_id := i\<rparr>)
     \<lparr>cl_LeaseID = ''c'', cl_Token = child_token, cl_IdempotencyKey = ''sixteen-byte-key''\<rparr> example_db
   = (Inr consumption, used_db)"
proof -
  have "GetLeaseByID use_lib ''c'' example_db = Inr example_child_row"
    by (simp add: GetLeaseByID_def select_lease_def find_lease_def)
  moreover have "validIdempotencyKey ''sixteen-byte-key''"
    using trim_space_ascii_id [of "''sixteen-byte-key''"]
    by (simp add: validIdempotencyKey_def ascii_runes ascii_def is_space_def)
  moreover have "VerifyLeaseToken use_lib 0 child_token (uc_verificationKeys use_service) (uc_issuer use_service) ''billing''
      (uc_clockSkew use_service) = Inr child_claims"
    using child_verified by (simp add: use_service_def example_usecase_def)
  moreover have "l_Audience example_child_row = ''billing''" by (simp add: example_child_row_def)
  moreover have "\<exists>consumption. ConsumeLeaseUse use_lib ''c'' (replicate 32 (CHR ''b'')) ''sixteen-byte-key'' 0 example_db
      = (Inr consumption, used_db)"
    by (simp add: ConsumeLeaseUse_def consume_lease_use_tx_def BeginFunc_def find_lease_def find_workload_def used_db_def
      insert_consumption_def update_uses_def Let_def char_length_def pg_text_def pg_time_def duration_defs)
  moreover have "child_token \<noteq> []" by (simp add: token_text_def)
  moreover have "trunc_second 0 = 0" by (simp add: trunc_second_def)
  ultimately show ?thesis
    using child_matches by (simp add: ConsumeLease_def example_env_def)
qed

lemma child_token_value: "header_value child_token"
proof -
  have dot: "\<not> blank CHR ''.''" by (simp add: blank_def)
  have "header_value (a @ CHR ''.'' # b @ CHR ''.'' # c)" if "header_value a" "header_value c" for a b c :: bytes
    using that dot by (cases a; cases c rule: rev_cases) (auto simp: header_value_def)
  then show ?thesis using encoded_header_value by (simp add: token_text_def)
qed

lemma use_served:
  assumes "consume_request use_client use_consumer ''c'' child_token ''sixteen-byte-key'' = Inr q"
  shows "\<exists>c st'. Router use_http use_handler use_service use_env (on_wire use_client q) (RConsume ''c'') example_http_state
      = (c, st') \<and> gx_Status c = 200 \<and> hs_db st' = used_db"
proof -
  let ?r = "on_wire use_client q"
  have "header_value child_token" by (rule child_token_value)
  moreover have "header_value ''sixteen-byte-key''" "header_value ''Bearer consumer''" by (simp_all add: header_value_def blank_def)
  ultimately have sent: "in_header ?r ''Upsilon-Capability'' = child_token" "in_header ?r ''Idempotency-Key'' = ''sixteen-byte-key''"
    "in_header ?r ''Authorization'' = ''Bearer consumer''" "in_Body ?r = Some []"
    using consume_request_Inr [OF assms on_wire_received] by (simp_all add: use_consumer_def)
  have id: "in_header ?r ''X-Request-ID'' = []"
    using assms
    by (auto simp: consume_request_def new_request_def on_wire_def set_request_header_def Let_def
        split: sum.splits if_splits option.splits)
  have "validRequestID [] = False" by (simp add: validRequestID_def)
  then obtain c1 where c1: "requestContext use_env ?r = Some c1"
    by (simp add: requestContext_def id use_env_def example_http_env_def)
  let ?c = "securityHeaders use_handler c1"
  obtain m where m: "allow ''a'' 5 example_limiter = (True, m)"
    using example_allowed by (metis prod.collapse)
  have tls: "enforceTLS use_http use_handler ?r ?c = None"
    by (simp add: enforceTLS_def use_handler_def example_handler_def)
  have rate: "rateLimit use_env ?r ?c example_limiter = (None, m)"
    by (simp add: rateLimit_def use_env_def example_http_env_def on_wire_def m)
  have "Http_Text.bearerToken ascii_lib ''Bearer consumer'' = Some ''consumer''"
    by (simp add: Http_Text.bearerToken_def string_fields_def Let_def is_space_def equal_fold_def ascii_def)
  moreover have "sha256 use_lib ''consumer'' = sha256 example_lib ''consumer''" by simp
  ultimately have guard: "requireConsumer use_http use_handler ?r ?c = None"
    using sent(3) by (simp add: requireConsumer_def use_http_def use_handler_def use_consumer_def)
  obtain consumption where used: "ConsumeLease use_lib use_service ((example_env 0)\<lparr>ctx_request_id := gx_RequestID ?c\<rparr>)
     \<lparr>cl_LeaseID = ''c'', cl_Token = child_token, cl_IdempotencyKey = ''sixteen-byte-key''\<rparr> example_db = (Inr consumption, used_db)"
    using child_used by blast
  have "child_token \<noteq> []" by (simp add: token_text_def)
  then have "consumeLease use_http use_service use_env ?r ''c'' ?c example_db
      = (respond 200 (ConsumptionBody consumption) ?c, used_db)"
    using used sent(1,2) child_token_length
    by (simp add: consumeLease_def use_http_def use_env_def call_env_of_def not_less)
  then show ?thesis
    by (simp add: Router_def c1 serve_chain_def tls rate guard example_http_state_def)
qed

lemma use_request_built: "\<exists>q. consume_request use_client use_consumer ''c'' child_token ''sixteen-byte-key'' = Inr q"
  by (simp add: consume_request_def new_request_def token_char_def Let_def) (simp add: use_client_def example_client_def)

lemma use_addresses: "plain_addresses use_client" "plain_url (cn_baseURL use_consumer)" "u_Path (cn_baseURL use_consumer) = []"
  by (auto simp: plain_addresses_def plain_url_def use_client_def example_client_def use_consumer_def example_url_def)

lemma use_matches_documented: "gin_documented use_matches"
proof -
  have "tl (split_on CHR ''/'' (concat (map ((#) CHR ''/'') segments))) = segments"
    if "list_all (\<lambda>s. s \<noteq> [] \<and> CHR ''/'' \<notin> set s) segments" for segments
    using that split_on_joined by (simp add: list_all_iff)
  then show ?thesis by (auto simp: gin_documented_def use_matches_def)
qed

lemma use_route: "route_of use_matches ''POST'' ''/v1/leases/c/consume'' = RConsume ''c''"
  using route_of_consume [OF use_matches_documented, of "''c''"] by simp

lemma use_delivered:
  "delivers use_client use_matches use_transport use_http use_handler use_service use_env example_http_state used_db"
  unfolding delivers_def
proof (intro allI impI)
  fix q response
  assume "use_transport q = Some response"
  then have q: "consume_request use_client use_consumer ''c'' child_token ''sixteen-byte-key'' = Inr q"
    and status: "cp_StatusCode response = gx_Status (fst (Router use_http use_handler use_service use_env
      (on_wire use_client q) (route_of use_matches ''POST'' ''/v1/leases/c/consume'') example_http_state))"
    by (auto simp: use_transport_def split: if_splits)
  let ?r = "on_wire use_client q"
  have i: "list_all path_segment_char ''c''" by (simp add: path_segment_char_def)
  have "in_EscapedPath ?r = ''/v1/leases/c/consume''"
    using consume_path [OF use_addresses i q on_wire_received] by simp
  then have path: "path_unescape (in_EscapedPath ?r) = Some ''/v1/leases/c/consume''" using plain_path_decodes [OF i] by simp
  have "in_Method ?r = ''POST''" by (rule consume_request_Inr(4) [OF q on_wire_received])
  moreover obtain c st' where "Router use_http use_handler use_service use_env ?r (RConsume ''c'') example_http_state = (c, st')"
    "hs_db st' = used_db" using use_served [OF q] by blast
  ultimately show "\<exists>r path c st'. received use_client q r \<and> path_unescape (in_EscapedPath r) = Some path
      \<and> Router use_http use_handler use_service use_env r (route_of use_matches (in_Method r) path) example_http_state = (c, st')
      \<and> cp_StatusCode response = gx_Status c \<and> hs_db st' = used_db"
    using on_wire_received path status use_route by (intro exI [of _ ?r] exI [of _ "''/v1/leases/c/consume''"]) simp
qed

lemma use_consumed: "Consume use_client use_transport use_consumer ''c'' child_token ''sixteen-byte-key'' = Inr ()"
proof -
  obtain q where q: "consume_request use_client use_consumer ''c'' child_token ''sixteen-byte-key'' = Inr q"
    using use_request_built by blast
  obtain c st' where "Router use_http use_handler use_service use_env (on_wire use_client q) (RConsume ''c'')
      example_http_state = (c, st')" "gx_Status c = 200"
    using use_served [OF q] by blast
  moreover have "child_token \<noteq> []" by (simp add: token_text_def)
  ultimately show ?thesis using q by (simp add: Consume_def use_transport_def use_route)
qed

lemma use_authorized:
  "Authorize use_sdk example_authorize_env (Some use_request) child_token ''refund'' ''customer/cus_123'' use_verifier
   = (Inr child_claims, use_verifier)"
proof (rule cached_key_authorizes [OF _ child_plain child_token_length child_verified])
  have "resourceAllowed ascii_lib [''customer/cus_123''] ''customer/cus_123''"
    by (simp add: resourceAllowed_def Allows_iff CanonicalizeValue_Inr ok_def example_resources example_within)
  moreover have "Satisfied ascii_lib (prod_limits ''500'') (fmupd ''http_method'' m (prod_limits ''500''))" for m
    using Satisfied_self [OF example_valid_constraints(2) [of ascii_lib]]
    by (auto simp: Satisfied_def fmpred_iff satisfied_entry_def prod_limits_def split: if_splits)
  moreover have "ups_LeaseID (c_UPS child_claims) = ''c''" by (simp add: lease_claims_def)
  ultimately show "check_capability use_sdk use_request child_token child_claims ''refund'' ''customer/cus_123'' use_verifier
      = Inr child_claims"
    using use_consumed
    by (simp add: check_capability_Inr constraintsSatisfied_def consume_use_None use_verifier_def use_request_def use_sdk_def)
      (simp add: lease_claims_def example_child_row_def copyConstraints_def)
qed (simp_all add: use_sdk_def use_verifier_def lease_claims_def example_child_row_def)

lemma authorized_use_counted_witness:
  "\<exists>row \<in> set (db_lease_consumptions used_db). u_lease_id row = ''c'' \<and> u_idempotency_key row = ''sixteen-byte-key''"
proof -
  have is_uuid: "is_uuid use_lib = is_uuid example_lib" by (simp add: is_uuid_def fun_eq_iff)
  then have "store_ok (lib use_http) (hs_db example_http_state)"
    using example_store_ok
    by (simp add: store_ok_def db_ok_def workloads_ok_def lease_table_ok_def lease_row_ok_def uuid_canonical_def
        use_http_def example_http_state_def)
  moreover have "0 < sint (ups_MaxUses (c_UPS child_claims))" "ups_LeaseID (c_UPS child_claims) = ''c''"
    by (simp_all add: lease_claims_def)
  moreover have "vf_consumeLease use_verifier = Some (Consume use_client use_transport use_consumer)"
    by (simp add: use_verifier_def)
  moreover have "parse_uuid (lib use_http) = Some" "rq_header use_request ''Idempotency-Key'' = ''sixteen-byte-key''"
    "list_all path_segment_char ''c''" "header_value ''sixteen-byte-key''"
    by (simp_all add: use_http_def use_request_def path_segment_char_def header_value_def blank_def)
  ultimately show ?thesis
    using authorized_use_counted [OF _ use_authorized _ _ use_delivered use_matches_documented use_addresses _ child_token_value]
    by auto
qed

end
