(* ===== verification/Http_Mint.thy ===== *)
theory Http_Mint
  imports Http_Promises Lifecycle
begin

section \<open>Minting a lease over HTTP\<close>

text \<open>
  The whole path of \<open>POST /v1/leases\<close>: from the signed request to the row of the lease and the token
  in the answer.
\<close>

lemma minted_row_of:
  assumes "store_ok L s" "MintRootLease L u env request s = (Inr il, s')"
    and "w \<in> set (db_workloads s)" "mr_WorkloadID request = w_ID w"
  obtains row where "row \<in> set (db_leases s')" "parse_uuid L (l_ID (il_Lease il)) = Some (l_ID row)"
    "l_WorkloadID row = w_ID w" "l_TokenHash row = sha256 L (il_Token il)" "l_RevokedAt row = None"
    "l_Audience row = mr_Audience request" "l_Actions row = mr_Actions request"
    "l_Resources row = mr_Resources request"
    "within_grant (unicode L) (grant_context (w_Grant w)) (l_Audience row) (lease_context row) (l_IssuedAt row)"
proof -
  have ok: "db_ok L s" using assms(1) by (simp add: store_ok_def)
  obtain lease where lease: "prepare_root L u env request s = Inr lease"
    and issued: "issue L u env lease ''lease.root_minted'' (mr_WorkloadID request) s = (Inr il, s')"
    using assms(2) by (auto simp: MintRootLease_def split: sum.splits)
  have asked: "l_WorkloadID lease = mr_WorkloadID request" "l_Audience lease = mr_Audience request"
    "l_Actions lease = mr_Actions request" "l_Resources lease = mr_Resources request" "l_RevokedAt lease = None"
    by (rule prepare_root_Inr [OF lease]; simp)+
  from prepare_root_prepared [OF ok lease] obtain v where v: "v \<in> set (db_workloads s)"
      "parse_uuid L (l_WorkloadID lease) = Some (w_ID v)" "whole_seconds lease"
      "within_grant (unicode L) (grant_context (w_Grant v)) (l_Audience lease) (lease_context lease) (l_IssuedAt lease)"
    by (auto simp: root_prepared_def)
  have ids: "distinct (map w_ID (db_workloads s))" "parse_uuid L (w_ID w) = Some (w_ID w)"
    using ok assms(3) by (auto simp: db_ok_def workloads_ok_def list_all_iff is_uuid_def)
  then have "w_ID v = w_ID w" using v(2) asked(1) assms(4) by simp
  then have v_eq: "v = w" using distinct_key_inj [OF ids(1) v(1) assms(3)] by simp
  from issued obtain token row e where row: "il = \<lparr>il_Lease = lease\<lparr>l_TokenHash := sha256 L token\<rparr>, il_Token = token\<rparr>"
      "lease_row L (lease\<lparr>l_TokenHash := sha256 L token\<rparr>) = Some row"
      "s' = log_event e (s\<lparr>db_leases := db_leases s @ [row]\<rparr>)"
    by (rule issue_stored)
  note stored = lease_row_Some [OF row(2)]
  have authority: "lease_context row = lease_context lease" "l_Audience row = l_Audience lease"
    "l_IssuedAt row = l_IssuedAt lease"
    using stored_authority [OF row(2)] v(3) by (simp_all add: whole_seconds_def lease_context_def)
  show thesis
  proof (rule that)
    show "row \<in> set (db_leases s')" by (simp add: row(3) log_event_tables)
    show "parse_uuid L (l_ID (il_Lease il)) = Some (l_ID row)" using stored(1) by (simp add: row(1))
    show "l_WorkloadID row = w_ID w" using stored(3) asked(1) assms(4) ids(2) by simp
    show "l_TokenHash row = sha256 L (il_Token il)" using stored by (simp add: row(1))
    show "l_RevokedAt row = None"
      using row(2) asked(5) by (auto simp: lease_row_def split: option.splits)
    show "within_grant (unicode L) (grant_context (w_Grant w)) (l_Audience row) (lease_context row) (l_IssuedAt row)"
      using v(4) authority v_eq by simp
  qed (use stored asked in simp_all)
qed

text \<open>C9: a lease minted over HTTP is what a workload signed for. When \<open>POST /v1/leases\<close> answers 201,
  some workload that is not disabled has signed the method, the path, the timestamp, the nonce and
  the body of this request; the audience, actions and resources of the lease are those of the
  body, the lease belongs to that workload and stays within its grant, and the stored row is the
  one whose identifier and token the answer holds.\<close>
theorem http_mint_sound:
  assumes "store_ok (lib P) (hs_db st)"
    and "Router P h u env r RMint st = (c, st')" and "gx_Status c = 201"
  shows "\<exists>w body request lr row. signed_by P env r (hs_db st) w
    \<and> in_Body r = Some body \<and> decode_lease P body = Some request
    \<and> gx_Body c = LeaseBody lr \<and> row \<in> set (db_leases (hs_db st'))
    \<and> parse_uuid (lib P) (lr_ID lr) = Some (l_ID row) \<and> l_TokenHash row = sha256 (lib P) (lr_Token lr)
    \<and> l_WorkloadID row = w_ID w \<and> l_RevokedAt row = None \<and> l_Audience row = lq_Audience request
    \<and> l_Actions row = lq_Actions request \<and> l_Resources row = lq_Resources request
    \<and> within_grant (unicode (lib P)) (grant_context (w_Grant w)) (l_Audience row) (lease_context row)
        (l_IssuedAt row)"
  using assms(2)
proof (cases rule: Router_cases)
  case stopped
  then show ?thesis using assms(3) by simp
next
  case (handled c0 m)
  have run: "mintRootLease P u env r c0 (hs_db st) = (c, hs_db st')" using handled(2) by simp
  from run show ?thesis
  proof (cases rule: mintRootLease_cases)
    case refused
    then show ?thesis using assms(3) by simp
  next
    case authenticated
    then show ?thesis using assms(3) by simp
  next
    case (minted body request w s1 ttl issued)
    have auth: "authenticated_as P u env r body (hs_db st) w s1"
      using minted(1,2) by (auto simp: authenticated_as_def call_env_of_def dest: readJSON_body)
    from auth obtain stored t ns where signed: "signed_by P env r (hs_db st) stored"
        "w = stored\<lparr>w_AuthenticatedKeyThumbprint := t\<rparr>" "s1 = (hs_db st)\<lparr>db_workload_nonces := ns\<rparr>"
      by (rule authenticated_signed)
    have "stored \<in> set (db_workloads s1)"
      using signed GetWorkloadByID_Inr [of "lib P" "hs_db st"] assms(1) by (auto simp: signed_by_def store_ok_def)
    moreover have "store_ok (lib P) s1"
      using authenticated_step [OF auth] service.run_inv [OF assms(1) TrueI] by auto
    moreover have "mr_WorkloadID (asked_mint request w ttl) = w_ID stored"
      by (simp add: asked_mint_def signed(2))
    ultimately obtain row where row: "row \<in> set (db_leases (hs_db st'))"
        "parse_uuid (lib P) (l_ID (il_Lease issued)) = Some (l_ID row)"
        "l_WorkloadID row = w_ID stored" "l_TokenHash row = sha256 (lib P) (il_Token issued)" "l_RevokedAt row = None"
        "l_Audience row = lq_Audience request" "l_Actions row = lq_Actions request"
        "l_Resources row = lq_Resources request"
        "within_grant (unicode (lib P)) (grant_context (w_Grant stored)) (l_Audience row) (lease_context row) (l_IssuedAt row)"
      using minted_row_of [OF _ minted(4)] by (auto simp: asked_mint_def)
    have "in_Body r = Some body" "decode_lease P body = Some request"
      using minted(1) by (auto simp: readJSON_def split: option.splits sum.splits if_splits)
    moreover have "gx_Body c = LeaseBody (responseFromIssued issued)" using minted(5) by simp
    moreover have "lr_ID (responseFromIssued issued) = l_ID (il_Lease issued)"
      "lr_Token (responseFromIssued issued) = il_Token issued"
      by (simp_all add: responseFromIssued_def Let_def)
    ultimately show ?thesis using signed(1) row by metis
  qed
qed

subsection \<open>A concrete request\<close>

definition mint_body :: leaseRequest where
  "mint_body = \<lparr>lq_Audience = ''billing'', lq_Actions = [''refund'', ''read''], lq_Resources = [''customer/*''],
     lq_Expiration = zero_time, lq_TTL = ''1h'', lq_MaxDepth = 2, lq_ProofOfPossession = True, lq_MaxUses = 0,
     lq_Constraints = prod_limits ''1000''\<rparr>"

definition mint_http :: http_lib where
  "mint_http = \<lparr>lib = service_lib, parse_ip = (\<lambda>_. None), parse_cidr = (\<lambda>_. None),
     decode_lease = (\<lambda>_. Some mint_body), decode_delegate = (\<lambda>_. None),
     decode_workload = (\<lambda>_. None), decode_rotate = (\<lambda>_. None)\<rparr>"

definition mint_header :: "bytes \<Rightarrow> bytes" where
  "mint_header name =
    (if name = ''X-Request-ID'' then replicate 16 (CHR ''q'')
     else if name = ''X-Upsilon-Workload-ID'' then ''w1''
     else if name = ''X-Upsilon-Timestamp'' then ''0''
     else if name = ''X-Upsilon-Nonce'' then replicate 32 (CHR ''n'')
     else if name = ''X-Upsilon-Signature'' then raw_url_encode (replicate 64 (CHR ''s''))
     else [])"

definition mint_post :: http_in where
  "mint_post = example_post\<lparr>in_header := mint_header\<rparr>"

definition mint_env :: http_env where
  "mint_env = example_http_env\<lparr>he_auth := example_env 0, he_call := example_env 0\<rparr>"

definition mint_nonce_rows :: "nonce_row list" where
  "mint_nonce_rows = [\<lparr>n_workload_id = ''w1'', n_nonce_hash = example_hash, n_expires_at = minute\<rparr>]"

lemma one_hour: "parse_duration ''1h'' = Some hour"
proof -
  have "leading_int 0 ''1h'' = Some (1, ''h'')" by (simp add: is_digit_def digit_value_def)
  moreover have "takeWhile unit_char ''h'' = ''h''" "dropWhile unit_char ''h'' = []"
    by (simp_all add: unit_char_def is_digit_def)
  ultimately have "duration_component ''1h'' = Some (3600000000000, [])"
    by (simp add: duration_component_def duration_units_def)
  then have "duration_sum 0 ''1h'' = Some 3600000000000"
    by (simp add: duration_sum.simps)
  then show ?thesis
    by (simp add: parse_duration_def signed_digits_def duration_defs)
qed

lemma plain_hash: "CHR ''.'' \<notin> set m \<Longrightarrow> sha256 service_lib m = sha256 example_lib m"
  by (simp add: service_lib_def)

lemma mint_authenticated:
  "authenticateWorkload mint_http example_service ((example_env 0)\<lparr>ctx_request_id := i\<rparr>) mint_post ''{}'' example_db
   = (Inr ((example_workload ''w1'' ''worker-one'' (CHR ''k''))
         \<lparr>w_AuthenticatedKeyThumbprint := example_thumbprint (CHR ''k'')\<rparr>), nonce_db mint_nonce_rows)"
proof -
  define message where "message = signedRequestMessage service_lib ''POST'' ''/v1/leases'' ''0''
    (replicate 32 (CHR ''n'')) ''{}''"
  have "length message \<noteq> 0" by (simp add: message_def signedRequestMessage_def)
  moreover have "time_unix 0 = 0" "(0 :: int) \<noteq> zero_time" "trunc_second 0 = 0" "time_sub 0 0 = 0"
    by (simp_all add: time_unix_def zero_time_def trunc_second_def time_sub_def second_def)
  moreover have "authenticatedWorkloadKey service_lib (example_workload ''w1'' ''worker-one'' (CHR ''k'')) m
      (replicate 64 (CHR ''s'')) y = Some (example_thumbprint (CHR ''k''))" for m y
    by (simp add: authenticatedWorkloadKey_def PublicKeySize_def)
      (simp add: service_lib_def one_token_lib_def example_lib_def)
  moreover have "GetWorkloadByID service_lib ''w1'' example_db
      = Inr (example_workload ''w1'' ''worker-one'' (CHR ''k''))"
    by (simp add: GetWorkloadByID_def select_workload_def find_workload_def)
  moreover have "\<not> 0 < - minute" "\<not> minute < (0 :: int)" by (simp_all add: duration_defs)
  moreover have "ConsumeWorkloadNonce service_lib 0 ''w1'' example_hash minute example_db = (Inr (), nonce_db mint_nonce_rows)"
    using example_hash_length
    by (simp add: ConsumeWorkloadNonce_def consume_workload_nonce_tx_def BeginFunc_def find_workload_def
        mint_nonce_rows_def pg_time_def duration_defs)
  moreover have "parse_int64 ''0'' = Some 0"
    by (simp add: parse_int64_def signed_digits_def decimal_value_def is_digit_def digit_value_def)
  moreover have "sha256 service_lib (replicate 32 (CHR ''n'')) = example_hash" by (simp add: plain_hash)
  ultimately show ?thesis
    using example_nonce
    by (simp add: authenticateWorkload_def mint_post_def example_post_def mint_header_def mint_http_def
        message_def [symmetric] AuthenticateWorkload_def example_env_def example_service_def
        is_zero_time_def SignatureSize_def)
qed

lemma mint_read: "readJSON (decode_lease mint_http) mint_post = Inr (''{}'', mint_body)"
proof -
  have "json_unmarshal ''{}'' = Some (JObject [])" by code_simp
  then show ?thesis
    by (simp add: readJSON_def mint_post_def example_post_def maxRequestBodyBytes_def rejectDuplicateBodyKeys_def
        mint_http_def)
qed

lemma mint_answered:
  "\<exists>c st'. Router mint_http example_handler example_service mint_env mint_post RMint example_http_state = (c, st')
     \<and> gx_Status c = 201"
proof -
  let ?id = "replicate 16 (CHR ''q'')"
  have i: "validRequestID ?id"
    by (simp add: validRequestID_def ascii_runes url_safe_rune_def list_all_iff)
  obtain c1 where c1: "requestContext mint_env mint_post = Some c1" "gx_RequestID c1 = ?id"
    by (simp add: requestContext_def mint_post_def mint_header_def i set_header_def Let_def)
  let ?c = "securityHeaders example_handler c1"
  have id: "gx_RequestID ?c = ?id" by (simp add: securityHeaders_def set_header_def example_handler_def c1(2))
  obtain m where m: "allow ''a'' 5 example_limiter = (True, m)"
    using example_allowed by (metis prod.collapse)
  have tls: "enforceTLS mint_http example_handler mint_post ?c = None"
    by (simp add: enforceTLS_def example_handler_def)
  have rate: "rateLimit mint_env mint_post ?c example_limiter = (None, m)"
    by (simp add: rateLimit_def mint_env_def example_http_env_def mint_post_def example_post_def m)
  define w where "w = (example_workload ''w1'' ''worker-one'' (CHR ''k''))
    \<lparr>w_AuthenticatedKeyThumbprint := example_thumbprint (CHR ''k'')\<rparr>"
  have asked: "asked_mint mint_body w hour = mint_request"
    by (simp add: asked_mint_def mint_body_def mint_request_def w_def)
  have envs: "call_env_of ?c (he_auth mint_env) = (example_env 0)\<lparr>ctx_request_id := ?id\<rparr>"
    "call_env_of ?c (he_call mint_env) = (example_env 0)\<lparr>ctx_request_id := ?id\<rparr>" "lib mint_http = service_lib"
    by (simp_all add: call_env_of_def mint_env_def id mint_http_def)
  have "request_id_ok ?id"
    by (simp add: request_id_ok_def url_safe_char_def url_safe_rune_def list_all_iff)
  then obtain il s' where "MintRootLease service_lib example_service
      ((example_env 0)\<lparr>ctx_request_id := ?id\<rparr>) (asked_mint mint_body w hour) (nonce_db mint_nonce_rows) = (Inr il, s')"
    unfolding asked using mint_issued_nonces by blast
  moreover have "parseTTL (lq_TTL mint_body) (lq_Expiration mint_body) = Inr hour"
    using one_hour by (simp add: parseTTL_def mint_body_def is_zero_time_def duration_defs)
  ultimately have "mintRootLease mint_http example_service mint_env mint_post ?c example_db
    = (respond 201 (LeaseBody (responseFromIssued il)) ?c, s')"
    using mint_authenticated [of ?id, folded w_def]
    by (simp add: mintRootLease_def mint_read envs asked_mint_def)
  then show ?thesis
    by (simp add: Router_def c1 serve_chain_def tls rate example_http_state_def)
qed

lemma service_store_ok: "store_ok service_lib example_db"
proof -
  have "is_uuid service_lib = is_uuid example_lib" by (simp add: is_uuid_def fun_eq_iff)
  then show ?thesis
    using example_store_ok
    by (simp add: store_ok_def db_ok_def workloads_ok_def lease_table_ok_def lease_row_ok_def uuid_canonical_def)
qed

lemma http_mint_sound_witness:
  "\<exists>w (row :: Lease). signed_by mint_http mint_env mint_post example_db w \<and> l_WorkloadID row = w_ID w
     \<and> l_Audience row = ''billing'' \<and> l_Actions row = [''refund'', ''read'']"
proof -
  have st: "store_ok (lib mint_http) (hs_db example_http_state)"
    using service_store_ok by (simp add: mint_http_def example_http_state_def)
  obtain c st' where run: "Router mint_http example_handler example_service mint_env mint_post RMint example_http_state
      = (c, st')" "gx_Status c = 201"
    using mint_answered by blast
  have "lq_Audience request = ''billing'' \<and> lq_Actions request = [''refund'', ''read'']"
    if "decode_lease mint_http body = Some request" for body request
    using that by (auto simp: mint_http_def mint_body_def)
  moreover obtain w body request and row :: Lease where "signed_by mint_http mint_env mint_post (hs_db example_http_state) w"
      "decode_lease mint_http body = Some request" "l_WorkloadID row = w_ID w"
      "l_Audience row = lq_Audience request" "l_Actions row = lq_Actions request"
    using http_mint_sound [OF st run] by metis
  moreover have "hs_db example_http_state = example_db" by (simp add: example_http_state_def)
  ultimately show ?thesis by metis
qed

end
