(* ===== verification/Published.thy ===== *)
theory Published
  imports Http_Promises Authorization Promises
begin

section \<open>What the service publishes and a verifier reads\<close>

text \<open>
  The two documents a resource server fetches: the key set of \<open>/.well-known/jwks.json\<close> and the
  revocations of \<open>/.well-known/revocations.json\<close>. The service writes them (theories \<open>Jwks\<close> and
  \<open>Delivery\<close>), the verifier of the SDK reads them (theory \<open>Middleware\<close>).
\<close>

subsection \<open>Keys\<close>

definition read_key :: "Jwks.JSONWebKey \<Rightarrow> webKey" where
  "read_key k =
    \<lparr>wk_KeyType = jk_KeyType k, wk_Use = jk_Use k, wk_Algorithm = jk_Algorithm k, wk_KeyID = jk_KeyID k,
     wk_Curve = jk_Curve k, wk_X = jk_X k\<rparr>"

text \<open>
  The documented behaviour of \<open>json.Decoder\<close> on the structs \<open>keySet\<close> and \<open>webKey\<close>: the text of a key
  set that \<open>json.Marshal\<close> wrote decodes to the same keys.
\<close>

definition key_sets_decoded :: "sdk_lib \<Rightarrow> bool" where
  "key_sets_decoded S \<longleftrightarrow>
    (\<forall>keys. plain_json max_nesting_depth (key_set_json keys) \<longrightarrow>
       decode_key_set S (json_text (key_set_json keys)) = Some (map read_key keys))"

text \<open>An answer with this body, from where it was asked.\<close>

definition answered :: "sdk_lib \<Rightarrow> http_response \<Rightarrow> url \<Rightarrow> bytes \<Rightarrow> bool" where
  "answered S response target body \<longleftrightarrow>
    same_origin (unicode_of S) response target \<and> rs_StatusCode response = 200
    \<and> rs_Body response = Some body \<and> length body \<le> maxMetadataBytes"

lemma answered_body: "answered S response target body \<Longrightarrow> read_body response = Some body"
  by (simp add: answered_def read_body_def)

lemma web_keys_plain:
  assumes "web_keys_loop L seen keys = Inr ks" "k \<in> set ks"
  shows "plain_json d (web_key_json k) \<longleftrightarrow> 0 < d" "distinct_keys (web_key_json k)"
proof -
  have "\<exists>key. k = web_key L key"
    using assms by (induction L seen keys arbitrary: ks rule: web_keys_loop.induct) (auto split: if_splits sum.splits)
  then obtain key where k: "k = web_key L key" by blast
  show "plain_json d (web_key_json k) \<longleftrightarrow> 0 < d"
    by (simp add: k web_key_json_def web_key_def keyID_def plain_text_char_def)
  show "distinct_keys (web_key_json k)" by (simp add: web_key_json_def)
qed

lemma key_set_plain:
  assumes "web_keys_loop L seen keys = Inr ks"
  shows "plain_json max_nesting_depth (key_set_json ks)" "distinct_keys (key_set_json ks)"
proof -
  have "list_all (plain_json (max_nesting_depth - 2)) (map web_key_json ks)"
    "list_all distinct_keys (map web_key_json ks)"
    using web_keys_plain [OF assms] by (simp_all add: list_all_iff max_nesting_depth_def)
  then show "plain_json max_nesting_depth (key_set_json ks)" "distinct_keys (key_set_json ks)"
    by (simp_all add: key_set_json_def max_nesting_depth_def plain_text_char_def numeral_2_eq_2)
qed

text \<open>The verifier keeps what the service listed.\<close>

definition published_key :: "auth_lib \<Rightarrow> bytes list \<Rightarrow> bytes \<Rightarrow> bytes option" where
  "published_key L keys kid = find (\<lambda>key. keyID L key = kid) keys"

lemma fetch_published:
  assumes "web_keys_loop L seen keys = Inr ks" "fmdom m = seen" "digest_size L"
  shows "\<exists>m'. fetch_keys_loop L m (map read_key ks) = Inr m'
    \<and> (\<forall>kid. fmlookup m' kid = (case fmlookup m kid of Some k \<Rightarrow> Some k | None \<Rightarrow> published_key L keys kid))"
  using assms(1,2)
proof (induction keys arbitrary: seen ks m)
  case Nil
  then show ?case by (auto simp: published_key_def split: option.split)
next
  case (Cons key keys)
  have size: "length key = PublicKeySize" using Cons.prems(1) by (auto split: if_splits)
  show ?case
  proof (cases "keyID L key |\<in>| seen")
    case True
    then have "web_keys_loop L seen keys = Inr ks" using Cons.prems(1) size by simp
    from Cons.IH [OF this Cons.prems(2)] obtain m' where
      m': "fetch_keys_loop L m (map read_key ks) = Inr m'"
        "\<And>kid. fmlookup m' kid = (case fmlookup m kid of Some k \<Rightarrow> Some k | None \<Rightarrow> published_key L keys kid)"
      by blast
    have "fmlookup m (keyID L key) \<noteq> None" using True Cons.prems(2) by (auto simp: fmlookup_dom_iff)
    then have "fmlookup m' kid = (case fmlookup m kid of Some k \<Rightarrow> Some k
        | None \<Rightarrow> published_key L (key # keys) kid)" for kid
      using m'(2) [of kid] by (auto simp: published_key_def split: option.splits)
    with m'(1) show ?thesis by blast
  next
    case False
    then obtain rest where rest: "web_keys_loop L (finsert (keyID L key) seen) keys = Inr rest"
        "ks = web_key L key # rest"
      using Cons.prems(1) size by (auto split: sum.splits)
    let ?m = "fmupd (keyID L key) key m"
    have "fmdom ?m = finsert (keyID L key) seen" using Cons.prems(2) by simp
    from Cons.IH [OF rest(1) this] obtain m' where
      m': "fetch_keys_loop L ?m (map read_key rest) = Inr m'"
        "\<And>kid. fmlookup m' kid = (case fmlookup ?m kid of Some k \<Rightarrow> Some k | None \<Rightarrow> published_key L keys kid)"
      by blast
    have none: "fmlookup m (keyID L key) = None" using False Cons.prems(2) by (auto simp: fmlookup_dom_iff)
    have "length (sha256 L key) = 32" using assms(3) by (simp add: digest_size_def)
    then have "keyID L key \<noteq> []" by (auto simp: keyID_def)
    then have "fetch_keys_loop L m (map read_key ks) = Inr m'"
      using m'(1) none size
      by (simp add: rest(2) read_key_def web_key_def PublicKeyID_def)
    moreover have "fmlookup m' kid = (case fmlookup m kid of Some k \<Rightarrow> Some k
        | None \<Rightarrow> published_key L (key # keys) kid)" for kid
      using m'(2) [of kid] none by (auto simp: published_key_def split: option.splits)
    ultimately show ?thesis by blast
  qed
qed

lemma VerificationKeys_published:
  assumes "inj_on (keyID L) (set keys)" "list_all (\<lambda>k. length k = PublicKeySize) keys"
  shows "fmlookup (VerificationKeys L keys) kid = published_key L keys kid"
proof (cases "fmlookup (VerificationKeys L keys) kid")
  case None
  then have "kid \<notin> fset (fmdom (VerificationKeys L keys))" by (simp add: fmdom_notI)
  then have "\<forall>k \<in> set keys. keyID L k \<noteq> kid"
    using assms(2) unfolding VerificationKeys_dom by (auto simp: list_all_iff PublicKeySize_def)
  then show ?thesis using None by (simp add: published_key_def find_None_iff2)
next
  case (Some k)
  then have k: "k \<in> set keys" "keyID L k = kid"
    using VerificationKeys_fold [of L keys fmempty kid k] by (auto simp: VerificationKeys_def)
  then obtain k' where "find (\<lambda>key. keyID L key = kid) keys = Some k'"
    by (cases "find (\<lambda>key. keyID L key = kid) keys") (auto simp: find_None_iff_none)
  moreover from this have "k' \<in> set keys" "keyID L k' = kid" by (auto simp: find_Some_iff)
  ultimately show ?thesis
    using Some k assms(1) by (auto simp: published_key_def inj_on_def)
qed

lemma web_keys_sizes: "web_keys_loop L seen keys = Inr ks \<Longrightarrow> list_all (\<lambda>k. length k = PublicKeySize) keys"
  by (induction L seen keys arbitrary: ks rule: web_keys_loop.induct) (auto split: if_splits sum.splits)

text \<open>C37: the published keys arrive. A verifier that gets the document \<open>PublicKeysJWKS\<close> writes for the
  service's keys, from the origin it asked, holds exactly these keys afterwards, each under its own
  identifier: what it looks up is what \<open>VerificationKeys\<close> of the service answers. The service's
  keys have distinct identifiers.\<close>
theorem published_keys_arrive:
  assumes "key_sets_decoded S" and "digest_size (auth_of S)" and "inj_on (keyID (auth_of S)) (set keys)"
    and "PublicKeysJWKS (auth_of S) keys = Inr document"
    and "answered S response (vf_jwksURL v) document"
  shows "fetchKeys S v (Some response) = Inr (VerificationKeys (auth_of S) keys)"
proof -
  obtain ks where ks: "web_keys_loop (auth_of S) {||} keys = Inr ks" "ks \<noteq> []"
      "document = json_text (key_set_json ks)"
    using assms(4) by (auto simp: PublicKeysJWKS_def split: sum.splits if_splits)
  note plain = key_set_plain [OF ks(1)]
  have "ok (rejectDuplicateMetadataKeys document)"
    using json_unmarshal_text [OF plain(1)] plain(2) by (simp add: rejectDuplicateMetadataKeys_def ks(3))
  moreover have "decode_key_set S document = Some (map read_key ks)"
    using assms(1) plain(1) by (simp add: key_sets_decoded_def ks(3))
  ultimately have read: "fetchJSON S (vf_jwksURL v) (decode_key_set S) (Some response) = Inr (map read_key ks)"
    using assms(5) answered_body [OF assms(5)] by (simp add: fetchJSON_def answered_def not_less)
  obtain m where m: "fetch_keys_loop (auth_of S) fmempty (map read_key ks) = Inr m"
      "\<And>kid. fmlookup m kid = published_key (auth_of S) keys kid"
    using fetch_published [OF ks(1) _ assms(2), of fmempty] by auto
  have same: "m = VerificationKeys (auth_of S) keys"
    by (rule fmap_ext) (simp add: m(2) VerificationKeys_published [OF assms(3) web_keys_sizes [OF ks(1)]])
  obtain key where "key \<in> set keys" using ks by (cases keys) auto
  then have "fmlookup m (keyID (auth_of S) key) \<noteq> None"
    by (auto simp: m(2) published_key_def find_None_iff)
  then have "keyID (auth_of S) key |\<in>| fmdom m" by (auto simp: fmlookup_dom_iff)
  then have "fmdom m \<noteq> {||}" by auto
  then have "fmlen m \<noteq> 0" by (simp add: fmlen_def)
  then show ?thesis
    using read m(1) same by (simp add: fetchKeys_def)
qed

text \<open>A decoder of the example: the members in the order of the text.\<close>

definition text_of :: "json \<Rightarrow> bytes" where
  "text_of v = (case v of JString s \<Rightarrow> s | _ \<Rightarrow> [])"

definition read_web_key :: "json \<Rightarrow> webKey" where
  "read_web_key v = (let texts = (case v of JObject ms \<Rightarrow> map (text_of \<circ> snd) ms | _ \<Rightarrow> []) in
    \<lparr>wk_KeyType = texts ! 0, wk_Use = texts ! 1, wk_Algorithm = texts ! 2, wk_KeyID = texts ! 3,
     wk_Curve = texts ! 4, wk_X = texts ! 5\<rparr>)"

definition read_key_set :: "bytes \<Rightarrow> webKey list option" where
  "read_key_set body =
    (case json_unmarshal body of Some (JObject [(_, JArray vs)]) \<Rightarrow> Some (map read_web_key vs) | _ \<Rightarrow> None)"

definition published_sdk :: sdk_lib where
  "published_sdk = \<lparr>web = example_web, decode_key_set = read_key_set,
     decode_revocation_set = (\<lambda>_. Some \<lparr>rv_Revoked = [''c'', ''r''], rv_GeneratedAt = 0\<rparr>)\<rparr>"

definition published_answer :: "bytes \<Rightarrow> http_response" where
  "published_answer body =
    \<lparr>rs_origin = Some (''https'', ''h''), rs_StatusCode = 200, rs_Body = Some body, rs_ETag = []\<rparr>"

lemma published_sdk_simps [simp]: "auth (web published_sdk) = example_lib"
  by (simp add: published_sdk_def example_web_def)

lemma published_decoded: "key_sets_decoded published_sdk"
proof -
  have "read_web_key (web_key_json k) = read_key k" for k
    by (simp add: read_web_key_def web_key_json_def read_key_def text_of_def)
  then show ?thesis
    by (simp add: key_sets_decoded_def published_sdk_def read_key_set_def json_unmarshal_text)
      (simp add: key_set_json_def)
qed

lemma published_answered:
  "length body \<le> maxMetadataBytes \<Longrightarrow> answered published_sdk (published_answer body) example_url body"
  by (simp add: answered_def published_answer_def same_origin_def example_url_def equal_fold_def ascii_def)

lemma published_keys_arrive_witness:
  "\<exists>document. PublicKeysJWKS example_lib [example_key] = Inr document
    \<and> fetchKeys published_sdk example_verifier (Some (published_answer document))
        = Inr (VerificationKeys example_lib [example_key])"
proof -
  define document where "document = json_text (key_set_json [web_key example_lib example_key])"
  have published: "PublicKeysJWKS (auth_of published_sdk) [example_key] = Inr document"
    by (simp add: PublicKeysJWKS_def document_def PublicKeySize_def)
  have "length document \<le> maxMetadataBytes"
    by (simp add: document_def key_set_json_def web_key_json_def web_key_def keyID_def raw_url_encode_def
        length_b64_encode maxMetadataBytes_def example_lib_def)
  then have answer: "answered published_sdk (published_answer document) (vf_jwksURL example_verifier) document"
    using published_answered by (simp add: example_verifier_def)
  have "digest_size (auth_of published_sdk)" "inj_on (keyID (auth_of published_sdk)) (set [example_key])"
    using example_digest by simp_all
  from published_keys_arrive [OF published_decoded this published answer] show ?thesis
    using published by auto
qed

subsection \<open>Revocations\<close>

text \<open>
  The answer is what the service writes when its database is \<open>s\<close>, and its body decodes to that
  document, as \<open>encoding/json\<close> documents.
\<close>

definition fetched_snapshot ::
    "sdk_lib \<Rightarrow> http_lib \<Rightarrow> http_env \<Rightarrow> http_in \<Rightarrow> db \<Rightarrow> url \<Rightarrow> http_response \<Rightarrow> bool" where
  "fetched_snapshot S P henv r s target response \<longleftrightarrow>
    (\<exists>c ids generated body. gx_Status (revocations P henv r c s) = 200
      \<and> gx_Body (revocations P henv r c s) = RevocationsBody ids generated
      \<and> answered S response target body \<and> ok (rejectDuplicateMetadataKeys body)
      \<and> decode_revocation_set S body = Some \<lparr>rv_Revoked = ids, rv_GeneratedAt = generated\<rparr>)"

lemma fetched_snapshot_ids:
  assumes "fetched_snapshot S P henv r s target response" "vf_revocationsURL v = Some target"
  obtains generated ids where
    "fetchRevocations S v (Some response)
      = Inr (Some \<lparr>rv_Revoked = ids, rv_GeneratedAt = generated\<rparr>, rs_ETag response)"
    "ListActiveRevocationsCase (he_call henv) s = Inr ids"
proof -
  obtain c ids generated body where
    answer: "gx_Status (revocations P henv r c s) = 200"
      "gx_Body (revocations P henv r c s) = RevocationsBody ids generated"
    and body: "answered S response target body" "ok (rejectDuplicateMetadataKeys body)"
      "decode_revocation_set S body = Some \<lparr>rv_Revoked = ids, rv_GeneratedAt = generated\<rparr>"
    using assms(1) by (auto simp: fetched_snapshot_def)
  have "ListActiveRevocationsCase (he_call henv) s = Inr ids"
    using answer by (auto simp: revocations_def Let_def split: sum.splits if_splits)
  moreover have "fetchRevocations S v (Some response)
      = Inr (Some \<lparr>rv_Revoked = ids, rv_GeneratedAt = generated\<rparr>, rs_ETag response)"
    using assms(2) body answered_body [OF body(1)]
    by (simp add: fetchRevocations_def answered_def not_less)
  ultimately show thesis by (rule that [rotated])
qed

lemma fresh_revocation:
  assumes "fetched_snapshot S P henv r s target response" "vf_revocationsURL v = Some target"
    and "vf_revocationMode v \<noteq> RevocationExpiryOnly" "\<And>n. vf_revocationsExpire v \<le> clock n"
    and "l \<in> set (db_leases s)" "l_RevokedAt l \<noteq> None" "trunc_second (now (he_call henv)) < l_Expiration l"
  shows "isRevoked S clock (Some response) (l_ID l) v \<noteq> (Inr False, w)"
proof -
  have expired: "cachedRevocation v (clock n) i = None" for n i
    using assms(4) by (simp add: cachedRevocation_def not_less)
  obtain generated ids where ids: "fetchRevocations S v (Some response)
      = Inr (Some \<lparr>rv_Revoked = ids, rv_GeneratedAt = generated\<rparr>, rs_ETag response)"
      "ListActiveRevocationsCase (he_call henv) s = Inr ids"
    by (rule fetched_snapshot_ids [OF assms(1,2)])
  have "l_ID l \<in> set ids"
    using ids(2) assms(5-7) by (auto simp: ListActiveRevocationsCase_def ListActiveRevocations_def)
  then show ?thesis
    using assms(3) expired ids(1) by (simp add: isRevoked_def)
qed

text \<open>The gap: a revoked lease that has expired by the clock of the service is not published any more, so a
  verifier that fetches the snapshot then takes it for live, while it accepts the token itself for
  as long as its clock skew after the expiration.\<close>

theorem expired_revocation_forgotten:
  assumes "db_ok (lib P) s" and "fetched_snapshot S P henv r s target response" and "vf_revocationsURL v = Some target"
    and "vf_revocationMode v \<noteq> RevocationExpiryOnly" and "\<And>n. vf_revocationsExpire v \<le> clock n"
    and "l \<in> set (db_leases s)" and "l_Expiration l \<le> trunc_second (now (he_call henv))"
    and "isRevoked S clock (Some response) (l_ID l) v = (Inr b, w)"
  shows "\<not> b"
proof -
  have expired: "cachedRevocation v (clock n) i = None" for n i
    using assms(5) by (simp add: cachedRevocation_def not_less)
  obtain generated ids where ids: "fetchRevocations S v (Some response)
      = Inr (Some \<lparr>rv_Revoked = ids, rv_GeneratedAt = generated\<rparr>, rs_ETag response)"
      "ListActiveRevocationsCase (he_call henv) s = Inr ids"
    by (rule fetched_snapshot_ids [OF assms(2,3)])
  have "k = l" if "k \<in> set (db_leases s)" "l_ID k = l_ID l" for k
    using forest_ID [OF db_ok_forest [OF assms(1)]] that assms(6) by blast
  then have "l_ID l \<notin> set ids"
    using ids(2) assms(7) by (force simp: ListActiveRevocationsCase_def ListActiveRevocations_def)
  then show ?thesis
    using assms(4,8) expired ids(1) by (auto simp: isRevoked_def split: if_splits)
qed

text \<open>C4: a revocation reaches the verifiers before the lease expires. Once the service has answered that
  a lease is revoked, whatever it serves afterwards, a verifier whose cached revocations have expired
  and that fetches what the service then publishes authorizes no request whose token names that lease
  or one below it, delegated before or after, as long as the lease named has not expired by the clock
  of the service.\<close>
theorem revocation_reaches_verifiers:
  assumes "store_ok (lib P) s" and "RevokeLeaseLineage (lib P) ctx given actor t s = (Inr n, s')"
    and "parse_uuid (lib P) given = Some revoked" and "later = fold (run_service (lib P) u) eops s'"
    and "l \<in> set (db_leases later)" and "descendant (db_leases later) revoked (l_ID l)"
    and "trunc_second (now (he_call henv)) < l_Expiration l"
    and "verifier_ok S v" and "vf_revocationMode v \<noteq> RevocationExpiryOnly" and "vf_revocationsURL v = Some target"
    and "\<And>k. vf_revocationsExpire v \<le> en_revocation_clock env k"
    and "en_revocation_answer env = Some response" and "fetched_snapshot S P henv r later target response"
    and "ups_LeaseID (c_UPS claims) = l_ID l"
  shows "fst (Authorize S env (Some request) token action resource v) \<noteq> Inr claims"
proof
  assume "fst (Authorize S env (Some request) token action resource v) = Inr claims"
  then obtain w where "Authorize S env (Some request) token action resource v = (Inr claims, w)"
    by (metis prod.collapse)
  then show False
  proof (rule Authorize_Inr)
    fix kid k v1 v2
    assume key: "verifier_key S (en_key_clock env) (en_key_answer env) kid v = (Inr k, v1)"
      and "verifyProof S (en_proof_now env) (en_proof_jwt_now env) request token claims v1 = (Inr (), v2)"
      and run: "isRevoked S (en_revocation_clock env) (en_revocation_answer env) (ups_LeaseID (c_UPS claims)) v2
        = (Inr False, w)"
    moreover obtain keys expire where v1: "v1 = v\<lparr>vf_keys := keys, vf_keysExpire := expire\<rparr>"
      using verifier_key_cases [OF key] assms(8) unfolding verifier_ok_def by metis
    moreover have "fmlen (vf_proofReplay v1) \<le> max_replay_entries"
      using v1 assms(8) by (simp add: verifier_ok_def)
    ultimately obtain m where v2: "v2 = v1\<lparr>vf_proofReplay := m\<rparr>"
      using verifyProof_run by metis
    have ok: "store_ok (lib P) s'" by (rule store_ok_step [OF assms(1) RevokeLeaseLineage_safe [OF assms(1,2)]])
    have all: "list_all (\<lambda>_. True) eops" by (simp add: list_all_iff)
    have "db_ok (lib P) later" "db_extends s' later"
      using service.fold_inv [OF ok all, of u] service.fold_extends [OF ok all, of u] assms(4)
      by (simp_all add: store_ok_def)
    then have "l_RevokedAt l \<noteq> None"
      by (rule revocation_stays [OF assms(1-3) _ _ assms(5,6)])
    then show False
      using fresh_revocation [OF assms(13) _ _ _ assms(5) _ assms(7), of v2 "en_revocation_clock env" w]
        run assms(9-12,14) by (simp add: v2 v1)
  qed
qed

definition published_env :: http_env where
  "published_env = example_http_env\<lparr>he_call := example_env second\<rparr>"

abbreviation revoked_db :: db where
  "revoked_db \<equiv> snd (RevokeLeaseLineage example_lib [] ''r'' ''revoker'' second example_db)"

lemma published_env_simps [simp]: "he_call published_env = example_env second" "he_generated published_env = 0"
  by (simp_all add: published_env_def example_http_env_def)

lemma revoked_rows:
  "db_leases revoked_db =
    [example_root_row\<lparr>l_RevokedAt := Some second\<rparr>, example_child_row\<lparr>l_RevokedAt := Some second\<rparr>]"
  unfolding example_revocation_rows
  by (simp add: revoke_row_def example_run pg_time_def duration_defs)

lemma published_snapshot:
  "fetched_snapshot published_sdk example_http published_env example_post revoked_db example_url (published_answer ''{}'')"
proof -
  have "ListActiveRevocationsCase (example_env second) revoked_db = Inr [''c'', ''r'']"
    by (simp add: ListActiveRevocationsCase_def ListActiveRevocations_def revoked_rows example_env_def)
      (simp add: example_root_row_def trunc_second_def duration_defs)
  moreover have "example_header ''If-None-Match'' = []" by (simp add: example_header_def)
  moreover have "ok (rejectDuplicateMetadataKeys ''{}'')"
    using json_unmarshal_text [of "JObject []"]
    by (simp add: rejectDuplicateMetadataKeys_def max_nesting_depth_def)
  ultimately show ?thesis
    using published_answered [of "''{}''"]
    by (simp add: fetched_snapshot_def revocations_def revocations_etag_def example_post_def maxMetadataBytes_def Let_def)
      (auto simp: published_sdk_def)
qed

lemma revocation_reaches_verifiers_witness:
  "fst (Authorize published_sdk
      (example_authorize_env\<lparr>en_revocation_answer := Some (published_answer ''{}'')\<rparr>) (Some example_request)
      example_token ''read'' ''customer/cus_123'' (example_verifier\<lparr>vf_revocationsExpire := 0\<rparr>))
   \<noteq> Inr (example_claims\<lparr>c_UPS := (c_UPS example_claims)\<lparr>ups_LeaseID := ''c''\<rparr>\<rparr>)"
    (is "fst (Authorize _ ?env _ _ _ _ ?v) \<noteq> Inr ?claims")
proof -
  let ?l = "example_child_row\<lparr>l_RevokedAt := Some second\<rparr>"
  have lib: "lib example_http = example_lib" by (simp add: example_http_def)
  have ok: "store_ok (lib example_http) example_db" using example_store_ok lib by simp
  have run: "RevokeLeaseLineage (lib example_http) [] ''r'' ''revoker'' second example_db = (Inr 2, revoked_db)"
    "parse_uuid (lib example_http) ''r'' = Some ''r''"
    using example_revocation lib by simp_all
  have later: "revoked_db = fold (run_service (lib example_http) example_usecase) [] revoked_db" by simp
  have l: "?l \<in> set (db_leases revoked_db)" unfolding revoked_rows by simp
  moreover have "descendant (db_leases revoked_db) ''r'' (l_ID ?l)"
    using l by (intro descendant_child [OF descendant_self]) simp_all
  moreover have "trunc_second (now (he_call published_env)) < l_Expiration ?l"
    by (simp add: example_env_def trunc_second_def duration_defs)
  moreover have "verifier_ok published_sdk ?v"
    by (simp add: verifier_ok_def config_ok_def allowed_staleness_def keys_named_def example_verifier_def
        RevocationStrict_def RevocationBoundedStale_def duration_defs)
  moreover have "vf_revocationMode ?v \<noteq> RevocationExpiryOnly" "vf_revocationsURL ?v = Some example_url"
    "\<And>k. vf_revocationsExpire ?v \<le> en_revocation_clock ?env k"
    by (simp_all add: example_verifier_def RevocationStrict_def RevocationExpiryOnly_def example_authorize_env_def)
  moreover have "en_revocation_answer ?env = Some (published_answer ''{}'')" "ups_LeaseID (c_UPS ?claims) = l_ID ?l"
    by simp_all
  ultimately show ?thesis
    using published_snapshot by (intro revocation_reaches_verifiers [OF ok run later])
qed

end
