(* ===== verification/Migrate.thy ===== *)
theory Migrate
  imports Token "HOL-Library.List_Lexorder"
begin

section \<open>The migrations runner\<close>

text \<open>
  \<open>internal/repository/migrate.go\<close>. The schema of the database is a record: the rows of
  \<open>schema_migrations\<close>, when that table exists, and the columns of every other table. The
  directory is the list of entries that \<open>os.ReadDir\<close> answers.

  What a script does is the argument \<open>run_sql\<close>: it answers the schema after the script, or
  \<open>None\<close> when the script fails. Both functions of the package follow, with the queries of
  \<open>information_schema\<close> over the record. Connection failures are not modelled.
\<close>

subsection \<open>Data\<close>

record dir_entry =
  de_Name :: bytes
  de_IsDir :: bool
  de_Data :: "bytes option"

type_synonym migration_row = "bytes \<times> bytes option"

record schema =
  sm_migrations :: "migration_row list option"
  sm_tables :: "(bytes, bytes fset) fmap"

type_synonym script_runner = "bytes \<Rightarrow> schema \<Rightarrow> schema option"

definition recorded :: "schema \<Rightarrow> migration_row list" where
  "recorded s = (case sm_migrations s of None \<Rightarrow> [] | Some rows \<Rightarrow> rows)"

subsection \<open>Files\<close>

definition is_migration :: "dir_entry \<Rightarrow> bool" where
  "is_migration e \<longleftrightarrow> \<not> de_IsDir e \<and> has_suffix (de_Name e) ''.up.sql''"

definition migration_names :: "dir_entry list \<Rightarrow> bytes list" where
  "migration_names entries = sort (map de_Name (filter is_migration entries))"

definition read_entry :: "dir_entry list \<Rightarrow> bytes \<Rightarrow> bytes option" where
  "read_entry entries name = Option.bind (find (\<lambda>e. de_Name e = name) entries) de_Data"

subsection \<open>Queries\<close>

definition table_exists :: "schema \<Rightarrow> bytes \<Rightarrow> bool" where
  "table_exists s table \<longleftrightarrow> fmlookup (sm_tables s) table \<noteq> None"

definition countColumns :: "schema \<Rightarrow> bytes \<Rightarrow> bytes list \<Rightarrow> nat" where
  "countColumns s table columns =
    (case fmlookup (sm_tables s) table of
       None \<Rightarrow> 0
     | Some present \<Rightarrow> fcard (fset_of_list columns |\<inter>| present))"

definition hasColumns :: "schema \<Rightarrow> bytes \<Rightarrow> bytes list \<Rightarrow> bool" where
  "hasColumns s table columns \<longleftrightarrow> countColumns s table columns = length columns"

definition containsMigration :: "bytes list \<Rightarrow> bytes \<Rightarrow> bool" where
  "containsMigration migrations name \<longleftrightarrow> list_ex (\<lambda>migration. migration = name) migrations"

text \<open>\<open>INSERT INTO schema_migrations\<close>: the name is the primary key.\<close>

definition record_migration :: "bytes \<Rightarrow> bytes option \<Rightarrow> schema \<Rightarrow> schema result" where
  "record_migration name checksum s =
    (case sm_migrations s of
       None \<Rightarrow> Inl (Opaque ''record migration'')
     | Some rows \<Rightarrow>
         if name \<in> fst ` set rows then Inl (Opaque ''record migration'')
         else Inr (s\<lparr>sm_migrations := Some (rows @ [(name, checksum)])\<rparr>))"

subsection \<open>The baseline of a schema older than the table\<close>

record migration_stage =
  st_name :: bytes
  st_active :: bool
  st_columns :: "(bytes \<times> bytes list) list"
  st_tables :: "bytes list"

definition initial_columns :: "(bytes \<times> bytes list) list" where
  "initial_columns =
    [(''workloads'', [''id'', ''name'', ''public_key'', ''created_at'', ''updated_at'']),
     (''leases'', [''id'', ''workload_id'', ''parent_lease_id'', ''actions'', ''resources'', ''expires_at'', ''depth'',
        ''token_hash'', ''issued_at'', ''revoked_at'']),
     (''audit_events'', [''id'', ''workload_id'', ''lease_id'', ''event_type'', ''actor'', ''details'', ''occurred_at''])]"

definition stages :: "migration_stage list" where
  "stages =
    [\<lparr>st_name = ''000001_initial.up.sql'', st_active = True, st_columns = [], st_tables = []\<rparr>,
     \<lparr>st_name = ''000002_lease_audience.up.sql'', st_active = False,
       st_columns = [(''leases'', [''audience'', ''max_depth''])], st_tables = []\<rparr>,
     \<lparr>st_name = ''000003_security_hardening.up.sql'', st_active = False,
       st_columns = [(''workloads'', [''disabled_at''])], st_tables = [''workload_nonces'']\<rparr>]"

fun baseline_stages :: "bytes list \<Rightarrow> bool \<Rightarrow> migration_stage list \<Rightarrow> schema \<Rightarrow> schema result" where
  "baseline_stages migrations previousComplete [] s = Inr s"
| "baseline_stages migrations previousComplete (stage # rest) s =
    (let active = (st_active stage
           \<or> previousComplete \<and> list_all (\<lambda>(table, columns). hasColumns s table columns) (st_columns stage)
             \<and> list_all (table_exists s) (st_tables stage))
     in if \<not> active then baseline_stages migrations False rest s
        else if \<not> containsMigration migrations (st_name stage)
        then Inl (Opaque ''existing schema requires missing migration'')
        else case record_migration (st_name stage) None s of
          Inl err \<Rightarrow> Inl err
        | Inr s' \<Rightarrow> baseline_stages migrations True rest s')"

definition baselineExistingSchema :: "bytes list \<Rightarrow> schema \<Rightarrow> schema result" where
  "baselineExistingSchema migrations s =
    (if length (recorded s) \<noteq> 0 then Inr s
     else
       let workloads = table_exists s ''workloads''; leases = table_exists s ''leases'';
           auditEvents = table_exists s ''audit_events''
       in if \<not> workloads \<and> \<not> leases \<and> \<not> auditEvents then Inr s
       else if \<not> workloads \<or> \<not> leases \<or> \<not> auditEvents then Inl (Opaque ''existing schema is incomplete'')
       else if \<not> list_all (\<lambda>(table, columns). hasColumns s table columns) initial_columns
       then Inl (Opaque ''existing schema does not match the initial UpsilonAuth schema'')
       else if countColumns s ''leases'' [''audience'', ''max_depth''] = 1
       then Inl (Opaque ''existing lease schema is partially migrated'')
       else if (countColumns s ''workloads'' [''disabled_at''] = 1) \<noteq> table_exists s ''workload_nonces''
       then Inl (Opaque ''existing security schema is partially migrated'')
       else baseline_stages migrations True stages s)"

subsection \<open>Applying\<close>

text \<open>The table is created, or given its column of checksums, when it lacks them.\<close>

definition create_migration_table :: "schema \<Rightarrow> schema" where
  "create_migration_table s = s\<lparr>sm_migrations := Some (recorded s)\<rparr>"

definition set_checksum :: "bytes \<Rightarrow> bytes \<Rightarrow> schema \<Rightarrow> schema" where
  "set_checksum name digest s =
    s\<lparr>sm_migrations := map_option (map (\<lambda>row. if fst row = name then (name, Some digest) else row))
        (sm_migrations s)\<rparr>"

definition apply_migration :: "auth_lib \<Rightarrow> script_runner \<Rightarrow> bytes \<Rightarrow> bytes \<Rightarrow> schema \<Rightarrow> schema result" where
  "apply_migration L run_sql name data s =
    (let digest = sha256 L data
     in case map_of (recorded s) name of
       Some storedChecksum \<Rightarrow>
         (case storedChecksum of
            None \<Rightarrow> Inr (set_checksum name digest s)
          | Some stored \<Rightarrow>
              if stored = [] then Inr (set_checksum name digest s)
              else if stored \<noteq> digest then Inl (Opaque ''checksum mismatch'')
              else Inr s)
     | None \<Rightarrow>
         (case run_sql data s of
            None \<Rightarrow> Inl (Opaque ''apply migration'')
          | Some s' \<Rightarrow> record_migration name (Some digest) s'))"

fun apply_loop :: "auth_lib \<Rightarrow> script_runner \<Rightarrow> dir_entry list \<Rightarrow> bytes list \<Rightarrow> schema \<Rightarrow> schema result" where
  "apply_loop L run_sql entries [] s = Inr s"
| "apply_loop L run_sql entries (name # names) s =
    (case read_entry entries name of
       None \<Rightarrow> Inl (Opaque ''read migration'')
     | Some data \<Rightarrow>
     (case apply_migration L run_sql name data s of
       Inl err \<Rightarrow> Inl err
     | Inr s' \<Rightarrow> apply_loop L run_sql entries names s'))"

text \<open>All of it is one transaction, rolled back when it fails.\<close>

definition ApplyMigrations ::
    "auth_lib \<Rightarrow> script_runner \<Rightarrow> dir_entry list option \<Rightarrow> schema \<Rightarrow> unit result \<times> schema" where
  "ApplyMigrations L run_sql directory s =
    (case directory of
       None \<Rightarrow> (Inl (Opaque ''read migrations''), s)
     | Some entries \<Rightarrow>
       let names = migration_names entries
       in if names = [] then (Inl (Opaque ''no up migrations found''), s)
       else case baselineExistingSchema names (create_migration_table s) of
         Inl err \<Rightarrow> (Inl err, s)
       | Inr s1 \<Rightarrow>
         (case apply_loop L run_sql entries names s1 of
            Inl err \<Rightarrow> (Inl err, s)
          | Inr s2 \<Rightarrow> (Inr (), s2)))"

subsection \<open>Verifying\<close>

fun file_digests :: "auth_lib \<Rightarrow> dir_entry list \<Rightarrow> (bytes, bytes) fmap \<Rightarrow> (bytes, bytes) fmap result" where
  "file_digests L [] files = Inr files"
| "file_digests L (entry # entries) files =
    (if \<not> is_migration entry then file_digests L entries files
     else case de_Data entry of
       None \<Rightarrow> Inl (Opaque ''read migration'')
     | Some data \<Rightarrow> file_digests L entries (fmupd (de_Name entry) (sha256 L data) files))"

fun verify_rows :: "(bytes, bytes) fmap \<Rightarrow> bytes fset \<Rightarrow> migration_row list \<Rightarrow> bytes fset result" where
  "verify_rows files seen [] = Inr seen"
| "verify_rows files seen ((name, checksum) # rows) =
    (case (fmlookup files name, checksum) of
       (Some expected, Some stored) \<Rightarrow>
         if length stored \<noteq> 32 \<or> stored \<noteq> expected
         then Inl (Opaque ''migration is missing or has a checksum mismatch'')
         else verify_rows files (finsert name seen) rows
     | _ \<Rightarrow> Inl (Opaque ''migration is missing or has a checksum mismatch''))"

definition VerifyMigrations :: "auth_lib \<Rightarrow> dir_entry list option \<Rightarrow> schema \<Rightarrow> unit result" where
  "VerifyMigrations L directory s =
    (case directory of
       None \<Rightarrow> Inl (Opaque ''read migrations'')
     | Some entries \<Rightarrow>
     (case file_digests L entries fmempty of
       Inl err \<Rightarrow> Inl err
     | Inr files \<Rightarrow>
         if fmlen files = 0 then Inl (Opaque ''no up migrations found'')
         else case sm_migrations s of
           None \<Rightarrow> Inl (Opaque ''query migration state'')
         | Some rows \<Rightarrow>
           (case verify_rows files {||} (sort_key fst rows) of
              Inl err \<Rightarrow> Inl err
            | Inr seen \<Rightarrow>
                if fcard seen \<noteq> fmlen files then Inl (Opaque ''database has unapplied migrations'')
                else Inr ())))"

subsection \<open>What a run leaves\<close>

definition tracked :: "schema \<Rightarrow> bool" where
  "tracked s \<longleftrightarrow> sm_migrations s \<noteq> None \<and> distinct (map fst (recorded s))"

text \<open>The scripts of the repository do not touch \<open>schema_migrations\<close>.\<close>

definition leaves_migrations :: "script_runner \<Rightarrow> bool" where
  "leaves_migrations run_sql \<longleftrightarrow> (\<forall>data s s'. run_sql data s = Some s' \<longrightarrow> sm_migrations s' = sm_migrations s)"

lemma recorded_Some [simp]: "sm_migrations s = Some rows \<Longrightarrow> recorded s = rows"
  by (simp add: recorded_def)

lemma recorded_same: "sm_migrations s = sm_migrations t \<Longrightarrow> recorded s = recorded t"
  by (simp add: recorded_def)

lemma map_of_set_checksum:
  "map_of (map (\<lambda>row. if fst row = name then (name, Some d) else row) rows)
   = (if name \<in> fst ` set rows then (map_of rows)(name \<mapsto> Some d) else map_of rows)"
proof (induction rows)
  case (Cons row rows)
  then show ?case by (cases row) (auto simp: fun_eq_iff)
qed simp

lemma record_migration_Inr:
  assumes "record_migration name checksum s = Inr s'" "tracked s"
  shows "tracked s' \<and> map_of (recorded s') = (map_of (recorded s))(name \<mapsto> checksum)
    \<and> fst ` set (recorded s') = insert name (fst ` set (recorded s)) \<and> name \<notin> fst ` set (recorded s)"
proof -
  obtain rows where rows: "sm_migrations s = Some rows" "name \<notin> fst ` set rows"
      "s' = s\<lparr>sm_migrations := Some (rows @ [(name, checksum)])\<rparr>"
    using assms(1) by (auto simp: record_migration_def split: option.splits if_splits)
  have "map_of rows name = None" using rows(2) by (simp add: map_of_eq_None_iff)
  then have "map_of (rows @ [(name, checksum)]) = (map_of rows)(name \<mapsto> checksum)"
    by (auto simp: fun_eq_iff map_add_def split: option.split)
  then show ?thesis using rows assms(2) by (auto simp: tracked_def)
qed

lemma apply_migration_Inr:
  assumes "apply_migration L run_sql name data s = Inr s'" "tracked s" "leaves_migrations run_sql"
  shows "tracked s' \<and> map_of (recorded s') = (map_of (recorded s))(name \<mapsto> Some (sha256 L data))
    \<and> fst ` set (recorded s') = insert name (fst ` set (recorded s))"
proof (cases "map_of (recorded s) name")
  case None
  then obtain s1 where s1: "run_sql data s = Some s1" "record_migration name (Some (sha256 L data)) s1 = Inr s'"
    using assms(1) by (auto simp: apply_migration_def Let_def split: option.splits)
  then have "sm_migrations s1 = sm_migrations s" using assms(3) by (auto simp: leaves_migrations_def)
  then show ?thesis
    using record_migration_Inr [OF s1(2)] assms(2) recorded_same [of s1 s] by (simp add: tracked_def)
next
  case (Some checksum)
  obtain rows where rows: "sm_migrations s = Some rows" using assms(2) by (auto simp: tracked_def)
  have name: "name \<in> fst ` set rows" using Some rows by (force dest: map_of_SomeD)
  have "s' = set_checksum name (sha256 L data) s \<or> s' = s \<and> checksum = Some (sha256 L data)"
    using assms(1) Some by (auto simp: apply_migration_def Let_def split: option.splits if_splits)
  then show ?thesis
  proof
    assume s': "s' = set_checksum name (sha256 L data) s"
    have "map fst (recorded s') = map fst (recorded s)"
      by (simp add: s' set_checksum_def rows comp_def)
    then have "fst ` set (recorded s') = fst ` set (recorded s)" "distinct (map fst (recorded s'))"
      using assms(2) unfolding tracked_def by (metis list.set_map, simp)
    moreover have "sm_migrations s' \<noteq> None" by (simp add: s' set_checksum_def rows)
    moreover have "map_of (recorded s') = (map_of (recorded s))(name \<mapsto> Some (sha256 L data))"
      using name map_of_set_checksum [of name "sha256 L data" rows] by (simp add: s' set_checksum_def rows)
    moreover have "insert name (fst ` set (recorded s)) = fst ` set (recorded s)"
      using name rows by (simp add: insert_absorb)
    ultimately show ?thesis unfolding tracked_def by metis
  next
    assume "s' = s \<and> checksum = Some (sha256 L data)"
    then show ?thesis using Some assms(2) name rows by (auto simp: fun_eq_iff)
  qed
qed

lemma apply_loop_Inr:
  assumes "apply_loop L run_sql entries names s = Inr s'" "tracked s" "leaves_migrations run_sql"
  shows "tracked s'" "fst ` set (recorded s') = set names \<union> fst ` set (recorded s)"
    "\<forall>n \<in> set names. \<exists>data. read_entry entries n = Some data \<and> map_of (recorded s') n = Some (Some (sha256 L data))"
    "\<forall>n. n \<notin> set names \<longrightarrow> map_of (recorded s') n = map_of (recorded s) n"
proof -
  have "tracked s' \<and> fst ` set (recorded s') = set names \<union> fst ` set (recorded s)
    \<and> (\<forall>n \<in> set names. \<exists>data. read_entry entries n = Some data \<and> map_of (recorded s') n = Some (Some (sha256 L data)))
    \<and> (\<forall>n. n \<notin> set names \<longrightarrow> map_of (recorded s') n = map_of (recorded s) n)"
    using assms(1,2)
  proof (induction names arbitrary: s)
    case (Cons name names)
    then obtain data s1 where step: "read_entry entries name = Some data"
        "apply_migration L run_sql name data s = Inr s1" "apply_loop L run_sql entries names s1 = Inr s'"
      by (auto split: option.splits sum.splits)
    note first = apply_migration_Inr [OF step(2) Cons.prems(2) assms(3)]
    then have "tracked s1" by simp
    from Cons.IH [OF step(3) this] have rest: "tracked s' \<and> fst ` set (recorded s') = set names \<union> fst ` set (recorded s1)
      \<and> (\<forall>n \<in> set names. \<exists>data. read_entry entries n = Some data \<and> map_of (recorded s') n = Some (Some (sha256 L data)))
      \<and> (\<forall>n. n \<notin> set names \<longrightarrow> map_of (recorded s') n = map_of (recorded s1) n)" .
    have "map_of (recorded s') name = Some (Some (sha256 L data))" if "name \<notin> set names"
      using rest first that by simp
    then have "\<exists>data. read_entry entries n = Some data \<and> map_of (recorded s') n = Some (Some (sha256 L data))"
      if "n \<in> set (name # names)" for n
      using rest that step(1) by (cases "n \<in> set names") simp_all
    moreover have "map_of (recorded s') n = map_of (recorded s) n" if "n \<notin> set (name # names)" for n
      using rest first that by simp
    moreover have "fst ` set (recorded s') = set (name # names) \<union> fst ` set (recorded s)"
      using rest first by simp
    ultimately show ?case using rest by blast
  qed simp
  then show "tracked s'" "fst ` set (recorded s') = set names \<union> fst ` set (recorded s)"
    "\<forall>n \<in> set names. \<exists>data. read_entry entries n = Some data \<and> map_of (recorded s') n = Some (Some (sha256 L data))"
    "\<forall>n. n \<notin> set names \<longrightarrow> map_of (recorded s') n = map_of (recorded s) n" by blast+
qed

lemma baseline_stages_Inr:
  assumes "baseline_stages names p ss s = Inr s'" "tracked s"
  shows "tracked s' \<and> fst ` set (recorded s') \<subseteq> fst ` set (recorded s) \<union> set names"
  using assms
proof (induction names p ss s rule: baseline_stages.induct)
  case (2 names p stage rest s)
  let ?active = "st_active stage
     \<or> p \<and> list_all (\<lambda>(table, columns). hasColumns s table columns) (st_columns stage)
       \<and> list_all (table_exists s) (st_tables stage)"
  show ?case
  proof (cases ?active)
    case False
    then have "baseline_stages names False rest s = Inr s'" using 2(3) by (simp add: Let_def)
    then show ?thesis using 2(1) [OF refl False] 2(4) by simp
  next
    case True
    then obtain s1 where s1: "st_name stage \<in> set names" "record_migration (st_name stage) None s = Inr s1"
        "baseline_stages names True rest s1 = Inr s'"
      using 2(3) by (auto simp: Let_def containsMigration_def list_ex_iff split: sum.splits if_splits)
    note first = record_migration_Inr [OF s1(2) 2(4)]
    have "tracked s' \<and> fst ` set (recorded s') \<subseteq> fst ` set (recorded s1) \<union> set names"
      using 2(2) [OF refl] True s1 first by (auto simp: containsMigration_def list_ex_iff)
    then show ?thesis using first s1(1) by auto
  qed
qed simp

lemma baseline_Inr:
  assumes "baselineExistingSchema names s = Inr s'" "tracked s"
  shows "tracked s' \<and> fst ` set (recorded s') \<subseteq> fst ` set (recorded s) \<union> set names"
proof -
  have "s' = s \<or> baseline_stages names True stages s = Inr s'"
    using assms(1) by (auto simp: baselineExistingSchema_def Let_def split: if_splits)
  then show ?thesis using baseline_stages_Inr [OF _ assms(2)] assms(2) by blast
qed

lemma ApplyMigrations_Inr:
  assumes "ApplyMigrations L run_sql (Some entries) s = (Inr (), s')" "leaves_migrations run_sql"
    and "distinct (map fst (recorded s))"
  shows "tracked s'" "migration_names entries \<noteq> []"
    "set (migration_names entries) \<subseteq> fst ` set (recorded s')"
    "fst ` set (recorded s') \<subseteq> set (migration_names entries) \<union> fst ` set (recorded s)"
    "\<forall>n \<in> set (migration_names entries). \<exists>data. read_entry entries n = Some data
      \<and> map_of (recorded s') n = Some (Some (sha256 L data))"
proof -
  let ?names = "migration_names entries"
  have created: "tracked (create_migration_table s)" "recorded (create_migration_table s) = recorded s"
    using assms(3) by (simp_all add: tracked_def create_migration_table_def)
  obtain s1 where s1: "?names \<noteq> []" "baselineExistingSchema ?names (create_migration_table s) = Inr s1"
      "apply_loop L run_sql entries ?names s1 = Inr s'"
    using assms(1) by (auto simp: ApplyMigrations_def Let_def split: if_splits sum.splits)
  note base = baseline_Inr [OF s1(2) created(1)]
  then have "tracked s1" by simp
  note loop = apply_loop_Inr [OF s1(3) this assms(2)]
  show "tracked s'" "?names \<noteq> []" "set ?names \<subseteq> fst ` set (recorded s')"
    "fst ` set (recorded s') \<subseteq> set ?names \<union> fst ` set (recorded s)"
    "\<forall>n \<in> set ?names. \<exists>data. read_entry entries n = Some data \<and> map_of (recorded s') n = Some (Some (sha256 L data))"
    using loop base s1(1) created(2) by auto
qed

lemma file_digests_Inr:
  assumes "distinct (map de_Name entries)" "\<forall>e \<in> set entries. is_migration e \<longrightarrow> de_Data e \<noteq> None"
  shows "\<exists>files'. file_digests L entries files = Inr files' \<and>
    (\<forall>n. fmlookup files' n = (case find (\<lambda>e. is_migration e \<and> de_Name e = n) entries of
       Some e \<Rightarrow> map_option (sha256 L) (de_Data e) | None \<Rightarrow> fmlookup files n))"
  using assms
proof (induction entries arbitrary: files)
  case (Cons e entries)
  show ?case
  proof (cases "is_migration e")
    case False
    then show ?thesis using Cons by simp
  next
    case True
    then obtain data where data: "de_Data e = Some data" using Cons.prems(2) by auto
    have none: "find (\<lambda>e'. is_migration e' \<and> de_Name e' = de_Name e) entries = None"
      using Cons.prems(1) by (auto simp: find_None_iff) (metis imageI)
    obtain files' where "file_digests L entries (fmupd (de_Name e) (sha256 L data) files) = Inr files'"
      "\<forall>n. fmlookup files' n = (case find (\<lambda>e. is_migration e \<and> de_Name e = n) entries of
         Some e \<Rightarrow> map_option (sha256 L) (de_Data e) | None \<Rightarrow> fmlookup (fmupd (de_Name e) (sha256 L data) files) n)"
      using Cons.IH [of "fmupd (de_Name e) (sha256 L data) files"] Cons.prems by auto
    then show ?thesis using True data none by (auto split: option.splits)
  qed
qed simp

lemma verify_rows_Inr:
  assumes "\<forall>(name, checksum) \<in> set rows. \<exists>stored. checksum = Some stored \<and> length stored = 32
    \<and> fmlookup files name = Some stored"
  shows "verify_rows files seen rows = Inr (seen |\<union>| fset_of_list (map fst rows))"
  using assms by (induction files seen rows rule: verify_rows.induct) auto

lemma set_migration_names: "set (migration_names entries) = de_Name ` {e \<in> set entries. is_migration e}"
  by (auto simp: migration_names_def)

lemma read_entry_iff:
  "distinct (map de_Name entries) \<Longrightarrow> e \<in> set entries \<Longrightarrow> read_entry entries (de_Name e) = de_Data e"
  by (simp add: read_entry_def find_key_eq)

lemma migration_digest:
  assumes "distinct (map de_Name entries)" "e \<in> set entries" "is_migration e"
  shows "find (\<lambda>e'. is_migration e' \<and> de_Name e' = de_Name e) entries = Some e"
  using assms
proof (induction entries)
  case (Cons a entries)
  have "de_Name a \<noteq> de_Name e" if "e \<noteq> a"
    using that Cons.prems by (auto dest: imageI [of e "set entries" de_Name])
  then show ?case using Cons by (cases "e = a") auto
qed simp

definition example_entries :: "dir_entry list" where
  "example_entries = [\<lparr>de_Name = ''000001_initial.up.sql'', de_IsDir = False, de_Data = Some ''CREATE TABLE workloads ();''\<rparr>,
     \<lparr>de_Name = ''README.md'', de_IsDir = False, de_Data = None\<rparr>]"

definition example_schema :: schema where
  "example_schema = \<lparr>sm_migrations = None, sm_tables = fmempty\<rparr>"

definition migrated_schema :: schema where
  "migrated_schema = \<lparr>sm_migrations = Some [(''000001_initial.up.sql'',
     Some (sha256 example_lib ''CREATE TABLE workloads ();''))], sm_tables = fmupd ''workloads'' {||} fmempty\<rparr>"

definition example_script :: script_runner where
  "example_script data s = Some (s\<lparr>sm_tables := fmupd ''workloads'' {||} (sm_tables s)\<rparr>)"

lemma example_names: "migration_names example_entries = [''000001_initial.up.sql'']"
  by (simp add: migration_names_def example_entries_def is_migration_def has_suffix_rev)

lemma example_applied:
  "ApplyMigrations example_lib example_script (Some example_entries) example_schema = (Inr (), migrated_schema)"
proof -
  have "read_entry example_entries ''000001_initial.up.sql'' = Some ''CREATE TABLE workloads ();''"
    by (simp add: read_entry_def example_entries_def)
  then show ?thesis
    by (simp add: ApplyMigrations_def example_names baselineExistingSchema_def create_migration_table_def example_schema_def
        apply_migration_def record_migration_def example_script_def migrated_schema_def table_exists_def recorded_def)
qed

lemma example_script_facts:
  "leaves_migrations example_script" "digest_size example_lib" "distinct (map fst (recorded example_schema))"
  by (auto simp: leaves_migrations_def example_script_def digest_size_def example_lib_def recorded_def example_schema_def)

lemma applied_verify:
  assumes "ApplyMigrations L run_sql (Some entries) s = (Inr (), s')" and "leaves_migrations run_sql" and "digest_size L"
    and "distinct (map fst (recorded s))" and "distinct (map de_Name entries)"
    and "fst ` set (recorded s) \<subseteq> set (migration_names entries)"
  shows "VerifyMigrations L (Some entries) s' = Inr ()"
proof -
  let ?names = "migration_names entries"
  note applied = ApplyMigrations_Inr [OF assms(1,2,4)]
  have same: "fst ` set (recorded s') = set ?names" using applied(3,4) assms(6) by blast
  have readable: "\<forall>e \<in> set entries. is_migration e \<longrightarrow> de_Data e \<noteq> None"
  proof (intro ballI impI)
    fix e
    assume e: "e \<in> set entries" "is_migration e"
    then have "de_Name e \<in> set ?names" by (auto simp: set_migration_names)
    then show "de_Data e \<noteq> None" using applied(5) read_entry_iff [OF assms(5) e(1)] by (metis option.distinct(1))
  qed
  obtain files where files: "file_digests L entries fmempty = Inr files"
      "\<And>n. fmlookup files n = (case find (\<lambda>e. is_migration e \<and> de_Name e = n) entries of
         Some e \<Rightarrow> map_option (sha256 L) (de_Data e) | None \<Rightarrow> None)"
    using file_digests_Inr [OF assms(5) readable, of L fmempty, unfolded fmempty_lookup] by blast
  have lookup: "fmlookup files n = Some (sha256 L data)" if "n \<in> set ?names" "read_entry entries n = Some data" for n data
    using that migration_digest [OF assms(5)] read_entry_iff [OF assms(5)] files(2) by (auto simp: set_migration_names)
  have "fset (fmdom files) = set ?names"
  proof
    show "fset (fmdom files) \<subseteq> set ?names"
      using files(2) by (auto simp: fmlookup_dom_iff set_migration_names find_Some_iff split: option.splits)
    show "set ?names \<subseteq> fset (fmdom files)" using lookup applied(5) by (fastforce intro: fmdomI)
  qed
  then have dom: "fmdom files = fset_of_list ?names" by (metis fset_of_list.rep_eq fset_inject)
  obtain rows where rows: "sm_migrations s' = Some rows" "distinct (map fst rows)"
    using applied(1) by (auto simp: tracked_def)
  have "\<exists>stored. checksum = Some stored \<and> length stored = 32 \<and> fmlookup files name = Some stored"
    if "(name, checksum) \<in> set rows" for name checksum
  proof -
    have "map_of rows name = Some checksum" using rows(2) that by simp
    moreover have name: "name \<in> set ?names" using same that rows(1) by force
    then obtain data where data: "read_entry entries name = Some data" "map_of rows name = Some (Some (sha256 L data))"
      using applied(5) rows(1) by auto
    ultimately have "checksum = Some (sha256 L data)" by simp
    then show ?thesis
      using lookup [OF name data(1)] assms(3) by (intro exI [of _ "sha256 L data"]) (simp add: digest_size_def)
  qed
  then have "verify_rows files {||} (sort_key fst rows) = Inr (fset_of_list (map fst (sort_key fst rows)))"
    using verify_rows_Inr [of "sort_key fst rows" files "{||}"] by auto
  moreover have "fset_of_list (map fst (sort_key fst rows)) = fset_of_list ?names"
    using same rows(1) by (simp add: fset_eq_iff fset_of_list.rep_eq)
  moreover have "fmlen files \<noteq> 0"
    using dom applied(2) by (cases ?names) (simp_all add: fmlen_def)
  ultimately show ?thesis
    using rows(1) files(1) dom by (simp add: VerifyMigrations_def fmlen_def)
qed

text \<open>C39: a database that migrations were applied to verifies. When \<open>ApplyMigrations\<close> succeeds on a
  directory, then \<open>VerifyMigrations\<close> accepts the database for the same directory, unless it held
  records of migrations that the directory lacks: each script has been recorded once, with the
  digest of its file, whether it ran now, was recorded before, or was baselined.\<close>
theorem applied_migrations_verify:
  assumes "ApplyMigrations L run_sql (Some entries) s = (Inr (), s')" and "leaves_migrations run_sql" and "digest_size L"
    and "distinct (map fst (recorded s))" and "distinct (map de_Name entries)"
    and "fst ` set (recorded s) \<subseteq> set (migration_names entries)"
  shows "VerifyMigrations L (Some entries) s' = Inr ()"
  by (rule applied_verify [OF assms])

lemma applied_migrations_verify_witness:
  "VerifyMigrations example_lib (Some example_entries) migrated_schema = Inr ()"
proof -
  have "distinct (map de_Name example_entries)" by (simp add: example_entries_def)
  moreover have "fst ` set (recorded example_schema) \<subseteq> set (migration_names example_entries)"
    by (simp add: recorded_def example_schema_def)
  ultimately show ?thesis
    using applied_migrations_verify [OF example_applied example_script_facts] by simp
qed

text \<open>Applying migrations is idempotent. After a success, \<open>ApplyMigrations\<close> on the same directory
  succeeds again, changes nothing and runs no script, whatever the scripts would do.\<close>
theorem applying_again:
  assumes "ApplyMigrations L run_sql (Some entries) s = (Inr (), s')" and "leaves_migrations run_sql" and "digest_size L"
    and "distinct (map fst (recorded s))"
  shows "ApplyMigrations L run_sql' (Some entries) s' = (Inr (), s')"
proof -
  note applied = ApplyMigrations_Inr [OF assms(1,2,4)]
  obtain rows where rows: "sm_migrations s' = Some rows" using applied(1) by (auto simp: tracked_def)
  have "rows \<noteq> []" using applied(2,3) rows by auto
  moreover have "create_migration_table s' = s'" by (simp add: create_migration_table_def rows)
  moreover have "apply_loop L run_sql' entries names s' = Inr s'" if "set names \<subseteq> set (migration_names entries)" for names
    using that
  proof (induction names)
    case (Cons name names)
    then obtain data where data: "read_entry entries name = Some data" "map_of rows name = Some (Some (sha256 L data))"
      using applied(5) rows by auto
    have "length (sha256 L data) = 32" using assms(3) by (simp add: digest_size_def)
    then have "apply_migration L run_sql' name data s' = Inr s'"
      using data rows by (auto simp: apply_migration_def Let_def)
    then show ?case using Cons data by simp
  qed simp
  ultimately show ?thesis
    using applied(2) rows by (simp add: ApplyMigrations_def baselineExistingSchema_def Let_def)
qed

lemma applying_again_witness:
  "ApplyMigrations example_lib (\<lambda>_ _. None) (Some example_entries) migrated_schema = (Inr (), migrated_schema)"
  by (rule applying_again [OF example_applied example_script_facts])

lemma file_digests_readable:
  "file_digests L entries files = Inr files' \<Longrightarrow> \<forall>e \<in> set entries. is_migration e \<longrightarrow> de_Data e \<noteq> None"
  by (induction entries arbitrary: files) (auto split: if_splits option.splits)

lemma file_digests_lookup:
  assumes "distinct (map de_Name entries)" "file_digests L entries fmempty = Inr files" "e \<in> set entries" "is_migration e"
  shows "fmlookup files (de_Name e) = map_option (sha256 L) (de_Data e)"
proof -
  have readable: "\<forall>e \<in> set entries. is_migration e \<longrightarrow> de_Data e \<noteq> None"
    by (rule file_digests_readable [OF assms(2)])
  show ?thesis
    using file_digests_Inr [OF assms(1) readable, of L fmempty, unfolded fmempty_lookup] assms(2)
      migration_digest [OF assms(1,3,4)] by auto
qed

lemma tampered_loop:
  assumes "map_of (recorded s) name = Some (Some stored)" "stored \<noteq> []" "tracked s" "leaves_migrations run_sql"
    and "name \<in> set names" "read_entry entries name = Some data" "sha256 L data \<noteq> stored"
  shows "\<not> ok (apply_loop L run_sql entries names s)"
  using assms(1,3,5)
proof (induction names arbitrary: s)
  case (Cons n names)
  show ?case
  proof (cases "n = name")
    case True
    then show ?thesis
      using Cons.prems(1) assms(2,6,7) by (auto simp: apply_migration_def ok_def)
  next
    case False
    show ?thesis
    proof
      assume "ok (apply_loop L run_sql entries (n # names) s)"
      then obtain d s1 where s1: "apply_migration L run_sql n d s = Inr s1" "ok (apply_loop L run_sql entries names s1)"
        by (auto simp: ok_def split: option.splits sum.splits)
      note step = apply_migration_Inr [OF s1(1) Cons.prems(2) assms(4)]
      then show False
        using Cons.IH [of s1] Cons.prems False s1(2) by simp
    qed
  qed
qed simp

lemma tampered_rows:
  assumes "(name, Some stored) \<in> set rows" "fmlookup files name = Some d" "d \<noteq> stored"
  shows "\<not> ok (verify_rows files seen rows)"
  using assms by (induction files seen rows rule: verify_rows.induct) (auto simp: ok_def split: option.splits)

text \<open>C19: an applied migration cannot be modified. Once a script was applied, a directory that holds
  another text under its name, of another digest, is refused: \<open>VerifyMigrations\<close> fails, and
  \<open>ApplyMigrations\<close> fails and leaves the database as it is.\<close>
theorem modified_migration_refused:
  assumes "ApplyMigrations L run_sql (Some entries) s = (Inr (), s')" and "leaves_migrations run_sql" and "digest_size L"
    and "distinct (map fst (recorded s))" and "name \<in> set (migration_names entries)" and "read_entry entries name = Some data"
    and "distinct (map de_Name entries')" and "e \<in> set entries'" and "is_migration e" and "de_Name e = name"
    and "de_Data e = Some data'" and "sha256 L data' \<noteq> sha256 L data" and "leaves_migrations run_sql'"
  shows "\<not> ok (VerifyMigrations L (Some entries') s') \<and> (\<exists>err. ApplyMigrations L run_sql' (Some entries') s' = (Inl err, s'))"
proof -
  note applied = ApplyMigrations_Inr [OF assms(1,2,4)]
  obtain rows where rows: "sm_migrations s' = Some rows" using applied(1) by (auto simp: tracked_def)
  have row: "map_of rows name = Some (Some (sha256 L data))" using applied(5) assms(5,6) rows by auto
  have size: "length (sha256 L data) = 32" using assms(3) by (simp add: digest_size_def)
  have read: "read_entry entries' name = Some data'" using read_entry_iff [OF assms(7,8)] assms(10,11) by simp
  have name': "name \<in> set (migration_names entries')" using assms(8-10) by (auto simp: set_migration_names)
  have "\<not> ok (apply_loop L run_sql' entries' (migration_names entries') s')"
    using tampered_loop [OF _ _ applied(1) assms(13) name' read assms(12)] row rows size by fastforce
  moreover have "rows \<noteq> []" using row by auto
  moreover have "create_migration_table s' = s'" by (simp add: create_migration_table_def rows)
  ultimately have "\<exists>err. ApplyMigrations L run_sql' (Some entries') s' = (Inl err, s')"
    using name' rows
    by (auto simp: ApplyMigrations_def baselineExistingSchema_def Let_def ok_def split: sum.splits)
  moreover have "\<not> ok (VerifyMigrations L (Some entries') s')"
  proof
    assume "ok (VerifyMigrations L (Some entries') s')"
    then obtain files where files: "file_digests L entries' fmempty = Inr files"
        "ok (verify_rows files {||} (sort_key fst rows))"
      using rows by (auto simp: VerifyMigrations_def ok_def split: sum.splits if_splits)
    have "fmlookup files name = Some (sha256 L data')"
      using file_digests_lookup [OF assms(7) files(1) assms(8,9)] assms(10,11) by simp
    moreover have "(name, Some (sha256 L data)) \<in> set (sort_key fst rows)" using row by (simp add: map_of_SomeD)
    ultimately show False using tampered_rows [OF _ _ assms(12)] files(2) by blast
  qed
  ultimately show ?thesis by blast
qed

definition tampered_entries :: "dir_entry list" where
  "tampered_entries =
    [\<lparr>de_Name = ''000001_initial.up.sql'', de_IsDir = False, de_Data = Some ''DROP TABLE workloads;''\<rparr>]"

lemma modified_migration_refused_witness:
  "\<not> ok (VerifyMigrations example_lib (Some tampered_entries) migrated_schema)
   \<and> (\<exists>err. ApplyMigrations example_lib example_script (Some tampered_entries) migrated_schema = (Inl err, migrated_schema))"
proof (rule modified_migration_refused [OF example_applied example_script_facts,
      where name = "''000001_initial.up.sql''" and data = "''CREATE TABLE workloads ();''"
        and data' = "''DROP TABLE workloads;''" and e = "hd tampered_entries"])
  show "read_entry example_entries ''000001_initial.up.sql'' = Some ''CREATE TABLE workloads ();''"
    by (simp add: read_entry_def example_entries_def)
  show "is_migration (hd tampered_entries)"
    by (simp add: tampered_entries_def is_migration_def has_suffix_rev)
  show "sha256 example_lib ''DROP TABLE workloads;'' \<noteq> sha256 example_lib ''CREATE TABLE workloads ();''"
    by (simp add: example_lib_def)
  show "leaves_migrations example_script" by (rule example_script_facts)
qed (simp_all add: example_names tampered_entries_def)

end
