(* ===== verification/Trim.thy ===== *)
theory Trim
  imports Go_Text
begin

section \<open>Trimmed strings\<close>

text \<open>
  What is left of a string by \<open>strings.TrimSpace\<close> does not end in a space, and is not emptied by
  trimming it again: the last rune of a string is the same whether it is decoded forwards, as on
  the left, or backwards, as on the right.
\<close>

lemma rune_error_no_space [simp]: "\<not> is_space rune_error"
  by (simp add: is_space_def rune_error_def)

lemma decode_rune_size: "snd (decode_rune s) \<le> length s"
  by (cases s) (auto simp: decode_rune.simps decode_rune2_def decode_rune3_def decode_rune4_def split: list.split)

lemma rune_start_back_stop:
  "\<forall>c \<in> set cs. continuation c \<Longrightarrow> length cs \<le> n \<Longrightarrow> \<not> continuation b \<Longrightarrow>
   rune_start_back n (cs @ b # s) = length cs"
proof (induction cs arbitrary: n)
  case Nil
  then show ?case by (cases n) simp_all
next
  case (Cons c cs)
  then show ?case by (cases n) simp_all
qed

text \<open>A rune of more than one byte: a byte that continues no rune, then bytes that do.\<close>

lemma decode_rune_multi:
  assumes "decode_rune (b # cs) = (r, Suc (length cs))" "cs \<noteq> []"
  shows "\<forall>c \<in> set cs. continuation c" "length cs \<le> 3" "\<not> continuation b" "\<not> byte b < 0x80"
proof -
  have large: "0xC2 \<le> byte b" using assms by (auto simp: decode_rune.simps split: if_splits)
  then show "\<not> continuation b" "\<not> byte b < 0x80"
    by (simp_all add: continuation_def)
  show "length cs \<le> 3"
    using assms by (auto simp: decode_rune.simps decode_rune2_def decode_rune3_def decode_rune4_def split: if_splits list.splits)
  have "c \<in> set (take (snd (decode_rune (b # cs)) - 1) cs) \<Longrightarrow> continuation c" for c
    using decode_multi_tail [of c b cs] by (simp add: decode_rune.simps split: if_splits)
  then show "\<forall>c \<in> set cs. continuation c" using assms(1) by simp
qed

lemma last_rune:
  assumes "decode_rune v = (r, length v)" "v \<noteq> []" "is_space r"
  shows "decode_last_rune (u @ v) = (r, length v)"
proof -
  obtain b cs where v: "v = b # cs" using assms(2) by (cases v) auto
  show ?thesis
  proof (cases "cs = []")
    case True
    then have "byte b < 0x80"
      using assms v
      by (auto simp: decode_rune.simps decode_rune2_def decode_rune3_def decode_rune4_def split: if_splits)
    then show ?thesis using assms(1) v True by (simp add: decode_last_rune_def)
  next
    case False
    have "decode_rune (b # cs) = (r, Suc (length cs))" using assms(1) by (simp add: v)
    note multi = decode_rune_multi [OF this False]
    have "\<not> byte (last (u @ v)) < 0x80"
      using multi(1) False by (simp add: v continuation_def not_less)
    moreover have "rune_start_back 3 (rev (u @ v)) = length cs"
      using rune_start_back_stop [of "rev cs" 3 b "rev u"] multi(1-3) by (simp add: v)
    ultimately show ?thesis
      using assms by (simp add: decode_last_rune_def v del: decode_rune.simps)
  qed
qed

lemma last_rune_space:
  assumes "decode_last_rune w = (r, n)" "w \<noteq> []" "is_space r"
  obtains u v where "w = u @ v" "v \<noteq> []" "decode_rune v = (r, length v)"
proof (cases "byte (last w) < 0x80")
  case True
  then have "decode_rune [last w] = (r, length [last w])" "w = butlast w @ [last w]"
    using assms by (auto simp: decode_last_rune_def)
  then show ?thesis using that [of "butlast w" "[last w]"] by simp
next
  case False
  define k where "k = min (length w) (Suc (rune_start_back 3 (rev w)))"
  define v where "v = drop (length w - k) w"
  have k: "0 < k" "length v = k" using assms(2) by (auto simp: k_def v_def)
  have last: "decode_last_rune w = (if snd (decode_rune v) = k then decode_rune v else (rune_error, 1))"
    using assms(2) False by (simp add: decode_last_rune_def Let_def k_def v_def split: prod.split)
  then have "decode_rune v = (r, length v)"
    using assms(1,3) k by (cases "decode_rune v") (auto split: if_splits)
  moreover have "w = take (length w - k) w @ v" by (simp add: v_def)
  ultimately show ?thesis using that k by fastforce
qed

lemma trim_left_suffix:
  "\<exists>u. s = u @ trim_left s \<and> (u \<noteq> [] \<and> trim_left s = [] \<longrightarrow>
     (\<exists>u' v r. u = u' @ v \<and> v \<noteq> [] \<and> is_space r \<and> decode_rune v = (r, length v)))"
proof (induction s rule: trim_left.induct)
  case (2 b s)
  show ?case
  proof (cases "is_space (fst (decode_rune (b # s)))")
    case True
    obtain r n where rn: "decode_rune (b # s) = (r, n)" by fastforce
    have r: "is_space r" using True rn by simp
    define t where "t = drop (n - 1) s"
    have step: "trim_left (b # s) = trim_left t" using True rn by (simp add: t_def)
    obtain u where u: "t = u @ trim_left t" "u \<noteq> [] \<and> trim_left t = [] \<longrightarrow>
        (\<exists>u' v r. u = u' @ v \<and> v \<noteq> [] \<and> is_space r \<and> decode_rune v = (r, length v))"
      using 2 True unfolding rn t_def by auto
    define w where "w = trim_left t"
    have whole: "b # s = (b # take (n - 1) s @ u) @ w"
      using append_take_drop_id [of "n - 1" s] u(1) unfolding t_def [symmetric] w_def [symmetric] by simp
    show ?thesis
    proof (cases "u = [] \<and> w = []")
      case False
      then show ?thesis
        using whole u(2) unfolding step w_def [symmetric]
        by (intro exI [of _ "b # take (n - 1) s @ u"]) (metis Cons_eq_appendI append.assoc)
    next
      case empty: True
      then have "t = []" using u(1) by (simp add: w_def)
      then have "length s \<le> n - 1" by (simp add: t_def)
      moreover have "n \<le> length (b # s)" "0 < n"
        using decode_rune_size [of "b # s"] decode_rune_size_pos [of "b # s"] rn by simp_all
      ultimately have "n = length (b # s)" by simp
      then show ?thesis
        using rn r empty unfolding step w_def [symmetric]
        by (intro exI [of _ "b # s"] conjI impI exI [of _ "[]"] exI [of _ "b # s"] exI [of _ r]) simp_all
    qed
  qed simp
qed simp

lemma trim_right_last: "trim_right s = [] \<or> \<not> is_space (fst (decode_last_rune (trim_right s)))"
proof (induction s rule: trim_right.induct)
  case (1 s)
  then show ?case by (subst (1 2) trim_right.simps) auto
qed

lemma trim_again:
  assumes "s \<noteq> []" "\<not> is_space (fst (decode_last_rune s))"
  shows "trim_space s \<noteq> []"
proof -
  obtain u where u: "s = u @ trim_left s"
      "u \<noteq> [] \<and> trim_left s = [] \<longrightarrow>
        (\<exists>u' v r. u = u' @ v \<and> v \<noteq> [] \<and> is_space r \<and> decode_rune v = (r, length v))"
    using trim_left_suffix by blast
  have left: "trim_left s \<noteq> []"
  proof
    assume empty: "trim_left s = []"
    then have "s = u" using u(1) by simp
    then obtain u' v r where "s = u' @ v" "v \<noteq> []" "is_space r" "decode_rune v = (r, length v)"
      using u(2) assms(1) empty by blast
    then show False using last_rune [of v r u'] assms(2) by simp
  qed
  have "\<not> is_space (fst (decode_last_rune (trim_left s)))"
  proof
    assume space: "is_space (fst (decode_last_rune (trim_left s)))"
    obtain w v where v: "trim_left s = w @ v" "v \<noteq> []"
        "decode_rune v = (fst (decode_last_rune (trim_left s)), length v)"
      using last_rune_space [OF prod.collapse [symmetric] left space] by metis
    then have "decode_last_rune s = (fst (decode_last_rune (trim_left s)), length v)"
      using last_rune [OF v(3,2) space, of "u @ w"] u(1) by simp
    then show False using assms(2) space by simp
  qed
  then have "trim_right (trim_left s) = trim_left s" by (simp add: trim_right_id)
  then show ?thesis using left by (simp add: trim_space_def)
qed

lemma trimmed_nonempty [simp]: "trim_space (trim_space s) = [] \<longleftrightarrow> trim_space s = []"
proof
  assume "trim_space (trim_space s) = []"
  then show "trim_space s = []"
    using trim_again [of "trim_space s"] trim_right_last [of "trim_left s"] by (auto simp: trim_space_def)
qed simp

end
