(* ===== verification/Server.thy ===== *)
theory Server
  imports Migrate Delivery Lifecycle Trim
begin

section \<open>The server process\<close>

text \<open>
  \<open>cmd/upsilonauth/main.go\<close> up to the point where the server listens: the configuration read from
  the environment and from secret files, and the start of the process, which checks or applies the
  migrations and builds the use case and the handler. Listening and shutting down are not modelled.

  What the process reads is a record: the environment, the files it can read, the directories, and
  whether the database accepts the connection. Reading addresses and floating-point numbers from
  text (\<open>url.Parse\<close>, \<open>strconv.ParseFloat\<close>) are fields of it, too.
\<close>

subsection \<open>What the process reads\<close>

datatype float_value = Finite rat | Infinite | NotANumber

record process =
  environ :: "(bytes, bytes) fmap"
  disk :: "(bytes, bytes) fmap"
  read_dir :: "bytes \<Rightarrow> dir_entry list option"
  parse_url :: "bytes \<Rightarrow> url option"
  parse_float :: "bytes \<Rightarrow> float_value option"
  pool_config :: "bytes \<Rightarrow> bool"
  pool_opens :: "bytes \<Rightarrow> bool"

definition getenv :: "process \<Rightarrow> bytes \<Rightarrow> bytes" where
  "getenv E name = (case fmlookup (environ E) name of None \<Rightarrow> [] | Some value \<Rightarrow> value)"

definition envOrFile :: "process \<Rightarrow> bytes \<Rightarrow> bytes result" where
  "envOrFile E name =
    (let value = getenv E name; valueSet = (fmlookup (environ E) name \<noteq> None);
         fileName = trim_space (getenv E (name @ ''_FILE''))
     in if valueSet \<and> value \<noteq> [] \<and> fileName \<noteq> [] then Inl (Opaque ''mutually exclusive'')
        else if fileName = [] then Inr value
        else case fmlookup (disk E) fileName of
          None \<Rightarrow> Inl (Opaque ''read _FILE'')
        | Some data \<Rightarrow>
            if length data = 0 \<or> length data > 64 * 1024 then Inl (Opaque ''_FILE has an invalid size'')
            else Inr (trim_space data))"

definition envDuration :: "process \<Rightarrow> bytes \<Rightarrow> duration \<Rightarrow> duration result" where
  "envDuration E name fallback =
    (let value = trim_space (getenv E name)
     in if value = [] then Inr fallback
        else case parse_duration value of
          None \<Rightarrow> Inl (Opaque ''is invalid'')
        | Some parsed \<Rightarrow> Inr parsed)"

text \<open>\<open>strconv.ParseBool\<close>.\<close>

definition parse_bool :: "bytes \<Rightarrow> bool option" where
  "parse_bool s =
    (if s \<in> set [''1'', ''t'', ''T'', ''true'', ''TRUE'', ''True''] then Some True
     else if s \<in> set [''0'', ''f'', ''F'', ''false'', ''FALSE'', ''False''] then Some False
     else None)"

definition envBool :: "process \<Rightarrow> bytes \<Rightarrow> bool \<Rightarrow> bool result" where
  "envBool E name fallback =
    (let value = trim_space (getenv E name)
     in if value = [] then Inr fallback
        else case parse_bool value of
          None \<Rightarrow> Inl (Opaque ''must be a boolean'')
        | Some parsed \<Rightarrow> Inr parsed)"

definition envFloat :: "process \<Rightarrow> bytes \<Rightarrow> rat \<Rightarrow> rat result" where
  "envFloat E name fallback =
    (let value = trim_space (getenv E name)
     in if value = [] then Inr fallback
        else case parse_float E value of
          Some (Finite parsed) \<Rightarrow> Inr parsed
        | _ \<Rightarrow> Inl (Opaque ''must be a finite number''))"

definition envInt :: "process \<Rightarrow> bytes \<Rightarrow> go_int \<Rightarrow> go_int result" where
  "envInt E name fallback =
    (let value = trim_space (getenv E name)
     in if value = [] then Inr fallback
        else case parse_int64 value of
          None \<Rightarrow> Inl (Opaque ''strconv.Atoi'')
        | Some parsed \<Rightarrow> Inr (of_int parsed))"

definition splitCSV :: "bytes \<Rightarrow> bytes list" where
  "splitCSV value = filter (\<lambda>part. part \<noteq> []) (map trim_space (split_on CHR '','' value))"

subsection \<open>The query of an address\<close>

text \<open>
  \<open>url.Values\<close> of a raw query, as \<open>Query\<close> reads it: the pairs between ampersands, without those that
  hold a semicolon or an escape that is not one. \<open>Get\<close> answers the first value of a key.
\<close>

definition unhex :: "char \<Rightarrow> nat option" where
  "unhex c =
    (if is_digit c then Some (digit_value c)
     else if 97 \<le> byte c \<and> byte c \<le> 102 then Some (byte c - 87)
     else if 65 \<le> byte c \<and> byte c \<le> 70 then Some (byte c - 55)
     else None)"

fun query_unescape :: "bytes \<Rightarrow> bytes option" where
  "query_unescape [] = Some []"
| "query_unescape (c # s) =
    (if c = CHR ''%'' then
       (case s of
          a # b # rest \<Rightarrow>
            (case (unhex a, unhex b) of
               (Some x, Some y) \<Rightarrow> map_option ((#) (char_of (x * 16 + y))) (query_unescape rest)
             | _ \<Rightarrow> None)
        | _ \<Rightarrow> None)
     else map_option ((#) (if c = CHR ''+'' then CHR '' '' else c)) (query_unescape s))"

definition query_pair :: "bytes \<Rightarrow> (bytes \<times> bytes) option" where
  "query_pair part =
    (if CHR '';'' \<in> set part \<or> part = [] then None
     else let key = takeWhile (\<lambda>c. c \<noteq> CHR ''='') part; value = drop (length key + 1) part
     in case (query_unescape key, query_unescape value) of
       (Some k, Some v) \<Rightarrow> Some (k, v)
     | _ \<Rightarrow> None)"

definition query_get :: "bytes \<Rightarrow> bytes \<Rightarrow> bytes" where
  "query_get query key =
    (case map_of (List.map_filter query_pair (split_on CHR ''&'' query)) key of
       None \<Rightarrow> []
     | Some value \<Rightarrow> value)"

subsection \<open>The configuration\<close>

definition validateDatabaseTLS :: "unicode_lib \<Rightarrow> process \<Rightarrow> bytes \<Rightarrow> bool \<Rightarrow> unit result" where
  "validateDatabaseTLS U E databaseURL allowInsecure =
    (case parse_url E databaseURL of
       None \<Rightarrow> Inl (Opaque ''DATABASE_URL must be a valid PostgreSQL URL'')
     | Some parsed \<Rightarrow>
         if u_Scheme parsed \<noteq> ''postgres'' \<and> u_Scheme parsed \<noteq> ''postgresql'' \<or> u_Host parsed = []
         then Inl (Opaque ''DATABASE_URL must be a valid PostgreSQL URL'')
         else if \<not> allowInsecure
           \<and> to_lower U (query_get (u_RawQuery parsed) ''sslmode'') \<notin> set [''require'', ''verify-ca'', ''verify-full'']
         then Inl (Opaque ''DATABASE_URL must explicitly require TLS'')
         else Inr ())"

definition validConfiguredSecret :: "bytes \<Rightarrow> bool" where
  "validConfiguredSecret value =
    (if length value < 32 \<or> length value > 256 \<or> trim_space value \<noteq> value then False
     else case raw_url_decode value of
       None \<Rightarrow> False
     | Some decoded \<Rightarrow>
       if length decoded < 24 then False
       else
         let counts = map (\<lambda>r. (r, rune_count (runes value) r)) (remdups (runes value));
             maximum = fold max (map snd counts) 0
         in length counts \<ge> 8 \<and> maximum * 2 \<le> length value)"

record applicationConfig =
  ap_databaseURL :: bytes
  ap_adminToken :: bytes
  ap_consumptionToken :: bytes
  ap_issuer :: bytes
  ap_privateKey :: bytes
  ap_previousPublicKeys :: "bytes list"
  ap_maxTTL :: duration
  ap_clockSkew :: duration
  ap_requestWindow :: duration
  ap_requireTLS :: bool
  ap_trustForwardedProto :: bool
  ap_trustedProxies :: "bytes list"
  ap_tlsCertFile :: bytes
  ap_tlsKeyFile :: bytes
  ap_migrationsDirectory :: bytes
  ap_rateLimitPerMinute :: rat
  ap_rateLimitBurst :: go_int
  ap_environment :: bytes
  ap_migrationMode :: bytes

text \<open>The body of \<open>loadConfig\<close> in its order: the environment and the credentials, the keys, the times,
  the transport, the migrations and the rate limit.\<close>

definition load_credentials :: "unicode_lib \<Rightarrow> process \<Rightarrow> bytes \<Rightarrow> (bytes \<times> bytes \<times> bytes \<times> bytes) result" where
  "load_credentials U E environment =
    (case envOrFile E ''DATABASE_URL'' of
       Inl err \<Rightarrow> Inl err
     | Inr databaseURLValue \<Rightarrow>
     (case envOrFile E ''ADMIN_TOKEN'' of
       Inl err \<Rightarrow> Inl err
     | Inr adminToken \<Rightarrow>
     (case envOrFile E ''CONSUMPTION_TOKEN'' of
       Inl err \<Rightarrow> Inl err
     | Inr consumptionToken \<Rightarrow>
     let databaseURL = trim_space databaseURLValue; issuer = trim_space (getenv E ''TOKEN_ISSUER'')
     in if databaseURL = [] \<or> \<not> validConfiguredSecret adminToken \<or> \<not> validConfiguredSecret consumptionToken
         \<or> adminToken = consumptionToken \<or> issuer = []
     then Inl (Opaque ''DATABASE_URL, TOKEN_ISSUER, and distinct high-entropy tokens are required'')
     else (case envBool E ''ALLOW_INSECURE_DATABASE'' False of
       Inl err \<Rightarrow> Inl err
     | Inr allowInsecureDatabase \<Rightarrow>
     (case validateDatabaseTLS U E databaseURL allowInsecureDatabase of
       Inl err \<Rightarrow> Inl err
     | Inr _ \<Rightarrow>
     if environment = ''production'' \<and> allowInsecureDatabase
     then Inl (Opaque ''ALLOW_INSECURE_DATABASE is forbidden in production'')
     else Inr (databaseURL, adminToken, consumptionToken, issuer))))))"

definition load_keys :: "auth_lib \<Rightarrow> process \<Rightarrow> (bytes \<times> bytes list) result" where
  "load_keys L E =
    (case envOrFile E ''SIGNING_PRIVATE_KEY'' of
       Inl err \<Rightarrow> Inl err
     | Inr privateKeyValue \<Rightarrow>
     (case ParsePrivateKey L privateKeyValue of
       Inl _ \<Rightarrow> Inl (Opaque ''SIGNING_PRIVATE_KEY must contain a base64-encoded Ed25519 seed or private key'')
     | Inr privateKey \<Rightarrow>
     (case envOrFile E ''PREVIOUS_PUBLIC_KEYS'' of
       Inl err \<Rightarrow> Inl err
     | Inr previousKeysValue \<Rightarrow>
     (case ParsePublicKeys L previousKeysValue of
       Inl _ \<Rightarrow> Inl (Opaque ''PREVIOUS_PUBLIC_KEYS contains an invalid Ed25519 public key'')
     | Inr previousKeys \<Rightarrow> Inr (privateKey, previousKeys)))))"

definition load_times :: "process \<Rightarrow> (duration \<times> duration \<times> duration) result" where
  "load_times E =
    (case envDuration E ''MAX_LEASE_TTL'' (5 * minute) of
       Inl err \<Rightarrow> Inl err
     | Inr maxTTL \<Rightarrow>
     (case envDuration E ''TOKEN_CLOCK_SKEW'' (5 * second) of
       Inl err \<Rightarrow> Inl err
     | Inr clockSkew \<Rightarrow>
     (case envDuration E ''SIGNED_REQUEST_WINDOW'' (30 * second) of
       Inl err \<Rightarrow> Inl err
     | Inr requestWindow \<Rightarrow>
     if maxTTL \<le> 0 \<or> maxTTL > 24 * hour \<or> clockSkew < 0 \<or> clockSkew > minute \<or> requestWindow \<le> 0
       \<or> requestWindow > 5 * minute
     then Inl (Opaque ''lease timing configuration is outside safe bounds'')
     else Inr (maxTTL, clockSkew, requestWindow))))"

definition check_issuer :: "process \<Rightarrow> bytes \<Rightarrow> bytes \<Rightarrow> unit result" where
  "check_issuer E environment issuer =
    (case parse_url E issuer of
       None \<Rightarrow> Inl (Opaque ''TOKEN_ISSUER must be an absolute URL without credentials, query, or fragment'')
     | Some issuerURL \<Rightarrow>
     if u_Scheme issuerURL \<noteq> ''http'' \<and> u_Scheme issuerURL \<noteq> ''https'' \<or> u_Host issuerURL = []
       \<or> u_User issuerURL \<noteq> None \<or> u_RawQuery issuerURL \<noteq> [] \<or> u_Fragment issuerURL \<noteq> []
     then Inl (Opaque ''TOKEN_ISSUER must be an absolute URL without credentials, query, or fragment'')
     else if environment = ''production'' \<and> u_Scheme issuerURL \<noteq> ''https''
     then Inl (Opaque ''TOKEN_ISSUER must use https in production'')
     else Inr ())"

definition load_transport :: "process \<Rightarrow> bytes \<Rightarrow> bytes \<Rightarrow> (bytes \<times> bytes \<times> bool \<times> bool \<times> bytes list) result" where
  "load_transport E environment issuer =
    (let tlsCertFile = trim_space (getenv E ''TLS_CERT_FILE''); tlsKeyFile = trim_space (getenv E ''TLS_KEY_FILE'')
     in if (tlsCertFile = []) \<noteq> (tlsKeyFile = [])
     then Inl (Opaque ''TLS_CERT_FILE and TLS_KEY_FILE must be configured together'')
     else case envBool E ''REQUIRE_TLS'' True of
       Inl err \<Rightarrow> Inl err
     | Inr requireTLS \<Rightarrow>
     (case envBool E ''TRUST_FORWARDED_PROTO'' False of
       Inl err \<Rightarrow> Inl err
     | Inr trustForwardedProto \<Rightarrow>
     if requireTLS \<and> tlsCertFile = [] \<and> \<not> trustForwardedProto
     then Inl (Opaque ''TLS enforcement requires certificate files or TRUST_FORWARDED_PROTO=true'')
     else if environment = ''production'' \<and> \<not> requireTLS
     then Inl (Opaque ''REQUIRE_TLS cannot be disabled in production'')
     else (case check_issuer E environment issuer of
       Inl err \<Rightarrow> Inl err
     | Inr _ \<Rightarrow>
     let trustedProxies = splitCSV (getenv E ''TRUSTED_PROXY_CIDRS'')
     in if trustForwardedProto \<and> length trustedProxies = 0
     then Inl (Opaque ''TRUSTED_PROXY_CIDRS is required when TRUST_FORWARDED_PROTO=true'')
     else Inr (tlsCertFile, tlsKeyFile, requireTLS, trustForwardedProto, trustedProxies))))"

definition load_migrations :: "unicode_lib \<Rightarrow> process \<Rightarrow> bytes \<Rightarrow> (bytes \<times> bytes) result" where
  "load_migrations U E environment =
    (let directory = trim_space (getenv E ''MIGRATIONS_DIR'');
         migrationsDirectory = (if directory = [] then ''migrations'' else directory);
         mode = to_lower U (trim_space (getenv E ''MIGRATION_MODE''));
         migrationMode = (if mode = [] then (if environment = ''development'' then ''apply'' else ''verify'')
           else mode)
     in if migrationMode \<noteq> ''apply'' \<and> migrationMode \<noteq> ''verify''
     then Inl (Opaque ''MIGRATION_MODE must be apply or verify'')
     else Inr (migrationsDirectory, migrationMode))"

definition load_limits :: "process \<Rightarrow> (rat \<times> go_int) result" where
  "load_limits E =
    (case envFloat E ''RATE_LIMIT_PER_MINUTE'' 120 of
       Inl _ \<Rightarrow> Inl (Opaque ''RATE_LIMIT_PER_MINUTE must be between 0 and 10000'')
     | Inr ratePerMinute \<Rightarrow>
     if ratePerMinute \<le> 0 \<or> ratePerMinute > 10000
     then Inl (Opaque ''RATE_LIMIT_PER_MINUTE must be between 0 and 10000'')
     else case envInt E ''RATE_LIMIT_BURST'' 30 of
       Inl _ \<Rightarrow> Inl (Opaque ''RATE_LIMIT_BURST must be between 1 and 1000'')
     | Inr rateBurst \<Rightarrow>
     if sint rateBurst \<le> 0 \<or> sint rateBurst > 1000
     then Inl (Opaque ''RATE_LIMIT_BURST must be between 1 and 1000'')
     else Inr (ratePerMinute, rateBurst))"

definition loadConfig :: "auth_lib \<Rightarrow> process \<Rightarrow> applicationConfig result" where
  "loadConfig L E =
    (let environment = to_lower (unicode L) (trim_space (getenv E ''UPSILON_ENV''))
     in if environment \<noteq> ''development'' \<and> environment \<noteq> ''production''
     then Inl (Opaque ''UPSILON_ENV must be explicitly set to development or production'')
     else case load_credentials (unicode L) E environment of
       Inl err \<Rightarrow> Inl err
     | Inr (databaseURL, adminToken, consumptionToken, issuer) \<Rightarrow>
     (case load_keys L E of
       Inl err \<Rightarrow> Inl err
     | Inr (privateKey, previousKeys) \<Rightarrow>
     (case load_times E of
       Inl err \<Rightarrow> Inl err
     | Inr (maxTTL, clockSkew, requestWindow) \<Rightarrow>
     (case load_transport E environment issuer of
       Inl err \<Rightarrow> Inl err
     | Inr (tlsCertFile, tlsKeyFile, requireTLS, trustForwardedProto, trustedProxies) \<Rightarrow>
     (case load_migrations (unicode L) E environment of
       Inl err \<Rightarrow> Inl err
     | Inr (migrationsDirectory, migrationMode) \<Rightarrow>
     (case load_limits E of
       Inl err \<Rightarrow> Inl err
     | Inr (ratePerMinute, rateBurst) \<Rightarrow>
     Inr \<lparr>ap_databaseURL = databaseURL, ap_adminToken = adminToken, ap_consumptionToken = consumptionToken,
       ap_issuer = issuer, ap_privateKey = privateKey, ap_previousPublicKeys = previousKeys,
       ap_maxTTL = maxTTL, ap_clockSkew = clockSkew, ap_requestWindow = requestWindow,
       ap_requireTLS = requireTLS, ap_trustForwardedProto = trustForwardedProto,
       ap_trustedProxies = trustedProxies, ap_tlsCertFile = tlsCertFile, ap_tlsKeyFile = tlsKeyFile,
       ap_migrationsDirectory = migrationsDirectory, ap_rateLimitPerMinute = ratePerMinute,
       ap_rateLimitBurst = rateBurst, ap_environment = environment, ap_migrationMode = migrationMode\<rparr>))))))"

subsection \<open>The start of the process\<close>

record server =
  sv_usecase :: LeaseUsecase
  sv_handler :: Handler
  sv_limiter :: ipLimiter
  sv_certFile :: bytes
  sv_keyFile :: bytes

definition published :: "applicationConfig \<Rightarrow> bytes list" where
  "published config = Public (ap_privateKey config) # ap_previousPublicKeys config"

definition usecase_config :: "auth_lib \<Rightarrow> applicationConfig \<Rightarrow> Config" where
  "usecase_config L config =
    \<lparr>cf_HasRepository = True, cf_PrivateKey = ap_privateKey config,
     cf_VerificationKeys = VerificationKeys L (published config), cf_Issuer = ap_issuer config,
     cf_MaxTTL = ap_maxTTL config, cf_ClockSkew = ap_clockSkew config,
     cf_RequestWindow = ap_requestWindow config\<rparr>"

definition delivery_config :: "applicationConfig \<Rightarrow> DeliveryConfig" where
  "delivery_config config =
    \<lparr>dc_HasUsecase = True, dc_PublicKeys = published config, dc_AdminToken = ap_adminToken config,
     dc_ConsumptionToken = ap_consumptionToken config, dc_RequireTLS = ap_requireTLS config,
     dc_TrustForwardedProto = ap_trustForwardedProto config, dc_TrustedProxies = ap_trustedProxies config,
     dc_RateLimitPerMinute = ap_rateLimitPerMinute config, dc_RateLimitBurst = ap_rateLimitBurst config,
     dc_HasReadiness = True\<rparr>"

definition build :: "http_lib \<Rightarrow> applicationConfig \<Rightarrow> server result" where
  "build P config =
    (case NewLeaseUsecase (usecase_config (lib P) config) of
       Inl err \<Rightarrow> Inl err
     | Inr leaseUsecase \<Rightarrow>
     (case NewHandler P (delivery_config config) of
       Inl err \<Rightarrow> Inl err
     | Inr (handler, limiter) \<Rightarrow>
         Inr \<lparr>sv_usecase = leaseUsecase, sv_handler = handler, sv_limiter = limiter,
           sv_certFile = ap_tlsCertFile config, sv_keyFile = ap_tlsKeyFile config\<rparr>))"

definition migrate_database :: "http_lib \<Rightarrow> script_runner \<Rightarrow> process \<Rightarrow> applicationConfig \<Rightarrow> schema \<Rightarrow> unit result \<times> schema" where
  "migrate_database P run_sql E config s =
    (let directory = read_dir E (ap_migrationsDirectory config)
     in if ap_migrationMode config = ''apply'' then ApplyMigrations (lib P) run_sql directory s
        else (VerifyMigrations (lib P) directory s, s))"

definition start :: "http_lib \<Rightarrow> script_runner \<Rightarrow> process \<Rightarrow> schema \<Rightarrow> server result \<times> schema" where
  "start P run_sql E s =
    (case loadConfig (lib P) E of
       Inl err \<Rightarrow> (Inl err, s)
     | Inr config \<Rightarrow>
     if \<not> pool_config E (ap_databaseURL config) then (Inl (Opaque ''invalid DATABASE_URL''), s)
     else if \<not> pool_opens E (ap_databaseURL config) then (Inl (Opaque ''connect''), s)
     else (case migrate_database P run_sql E config s of
       (Inl err, s1) \<Rightarrow> (Inl err, s1)
     | (Inr _, s1) \<Rightarrow> (build P config, s1)))"

subsection \<open>What a loaded configuration satisfies\<close>

text \<open>The server and its handler ask the same of a secret.\<close>

lemma validConfiguredSecret_admin: "validConfiguredSecret value = validAdminToken value"
  by (simp add: validConfiguredSecret_def validAdminToken_def Let_def comp_def split: option.split)

text \<open>An address of a database that the driver must reach over TLS.\<close>

definition tls_database :: "unicode_lib \<Rightarrow> process \<Rightarrow> bytes \<Rightarrow> bool" where
  "tls_database U E databaseURL \<longleftrightarrow>
    (\<exists>u. parse_url E databaseURL = Some u
      \<and> to_lower U (query_get (u_RawQuery u) ''sslmode'') \<in> set [''require'', ''verify-ca'', ''verify-full''])"

definition https_address :: "process \<Rightarrow> bytes \<Rightarrow> bool" where
  "https_address E address \<longleftrightarrow> (\<exists>u. parse_url E address = Some u \<and> u_Scheme u = ''https'' \<and> u_Host u \<noteq> [])"

lemma load_credentials_Inr:
  assumes "load_credentials U E environment = Inr (databaseURL, adminToken, consumptionToken, issuer)"
  shows "validAdminToken adminToken \<and> validAdminToken consumptionToken \<and> adminToken \<noteq> consumptionToken
    \<and> issuer = trim_space (getenv E ''TOKEN_ISSUER'') \<and> issuer \<noteq> []
    \<and> (environment = ''production'' \<longrightarrow> tls_database U E databaseURL)"
  using assms unfolding load_credentials_def Let_def case_error_Inr guard_Inr
  by (elim exE conjE)
    (auto simp: validConfiguredSecret_admin validateDatabaseTLS_def tls_database_def split: option.splits if_splits)

lemma load_times_Inr:
  assumes "load_times E = Inr (maxTTL, clockSkew, requestWindow)"
  shows "0 < maxTTL \<and> maxTTL \<le> 24 * hour \<and> 0 \<le> clockSkew \<and> clockSkew \<le> minute \<and> 0 < requestWindow
    \<and> requestWindow \<le> 5 * minute"
  using assms unfolding load_times_def case_error_Inr guard_Inr by (elim exE conjE) auto

lemma load_transport_Inr:
  assumes "load_transport E environment issuer = Inr (cert, key, requireTLS, trust, proxies)"
  shows "(cert = []) = (key = []) \<and> (requireTLS \<and> cert = [] \<longrightarrow> trust)
    \<and> (environment = ''production'' \<longrightarrow> requireTLS \<and> https_address E issuer)
    \<and> proxies = splitCSV (getenv E ''TRUSTED_PROXY_CIDRS'') \<and> (trust \<longrightarrow> proxies \<noteq> [])"
  using assms unfolding load_transport_def Let_def case_error_Inr guard_Inr
  by (elim exE conjE) (auto simp: check_issuer_def https_address_def split: option.splits if_splits)

lemma load_limits_Inr:
  assumes "load_limits E = Inr (rate, burst)"
  shows "0 < rate \<and> rate \<le> 10000 \<and> 0 < sint burst \<and> sint burst \<le> 1000"
  using assms unfolding load_limits_def case_error_Inr guard_Inr by (elim exE conjE) auto

lemma ParsePrivateKey_length:
  assumes "ParsePrivateKey L encoded = Inr key" "\<And>s. length s = 32 \<Longrightarrow> length (ed25519_from_seed L s) = 64"
  shows "length key = PrivateKeySize"
  using assms unfolding ParsePrivateKey_def by (auto simp: SeedSize_def PrivateKeySize_def split: option.splits if_splits)

text \<open>\<open>NewKeyFromSeed\<close> puts the seed first in the private key.\<close>

definition seeds_first :: "auth_lib \<Rightarrow> bool" where
  "seeds_first L \<longleftrightarrow> (\<forall>s. length s = SeedSize \<longrightarrow> Seed (ed25519_from_seed L s) = s)"

lemma load_keys_pair: "load_keys L E = Inr (privateKey, previousKeys) \<Longrightarrow> seeds_first L \<Longrightarrow> key_pair L privateKey"
  unfolding load_keys_def case_error_Inr
  by (elim exE conjE) (auto simp: ParsePrivateKey_def seeds_first_def key_pair_def split: option.splits if_splits)

lemma parse_public_keys_lengths:
  "parse_public_keys_loop L seen keys parts = Inr keys' \<Longrightarrow> list_all (\<lambda>k. length k = PublicKeySize) keys \<Longrightarrow>
   list_all (\<lambda>k. length k = PublicKeySize) keys'"
  by (induction L seen keys parts rule: parse_public_keys_loop.induct) (auto split: option.splits if_splits)

lemma ParsePublicKeys_lengths:
  "ParsePublicKeys L encoded = Inr keys \<Longrightarrow> list_all (\<lambda>k. length k = PublicKeySize) keys"
  using parse_public_keys_lengths by (auto simp: ParsePublicKeys_def split: if_splits)

lemma load_keys_Inr:
  assumes "load_keys L E = Inr (privateKey, previousKeys)" "\<And>s. length s = 32 \<Longrightarrow> length (ed25519_from_seed L s) = 64"
  shows "length privateKey = PrivateKeySize \<and> list_all (\<lambda>k. length k = PublicKeySize) previousKeys"
  using assms(1) unfolding load_keys_def case_error_Inr
  by (elim exE conjE) (auto dest: ParsePrivateKey_length [OF _ assms(2)] ParsePublicKeys_lengths)

lemma loadConfig_Inr:
  assumes "loadConfig L E = Inr c"
  obtains environment where "ap_environment c = environment"
    and "environment = ''development'' \<or> environment = ''production''"
    and "load_credentials (unicode L) E environment
      = Inr (ap_databaseURL c, ap_adminToken c, ap_consumptionToken c, ap_issuer c)"
    and "load_keys L E = Inr (ap_privateKey c, ap_previousPublicKeys c)"
    and "load_times E = Inr (ap_maxTTL c, ap_clockSkew c, ap_requestWindow c)"
    and "load_transport E environment (ap_issuer c)
      = Inr (ap_tlsCertFile c, ap_tlsKeyFile c, ap_requireTLS c, ap_trustForwardedProto c, ap_trustedProxies c)"
    and "load_migrations (unicode L) E environment = Inr (ap_migrationsDirectory c, ap_migrationMode c)"
    and "load_limits E = Inr (ap_rateLimitPerMinute c, ap_rateLimitBurst c)"
  using assms unfolding loadConfig_def Let_def case_error_Inr guard_Inr
  by (elim exE conjE) (auto simp: case_error_Inr)

text \<open>C20: a configuration that loads is a safe one. The lifetimes, the clock skew, the request window and
  the rate limit are within their bounds; the two secrets are different and strong; requests come
  over TLS that the process or a trusted proxy ends, unless TLS is turned off, which production does
  not allow; and in production the issuer is an https address and the database is reached over TLS.\<close>
theorem loaded_config_safe:
  assumes "loadConfig L E = Inr c"
  shows "0 < ap_maxTTL c \<and> ap_maxTTL c \<le> 24 * hour \<and> 0 \<le> ap_clockSkew c \<and> ap_clockSkew c \<le> minute
    \<and> 0 < ap_requestWindow c \<and> ap_requestWindow c \<le> 5 * minute
    \<and> 0 < ap_rateLimitPerMinute c \<and> ap_rateLimitPerMinute c \<le> 10000
    \<and> 0 < sint (ap_rateLimitBurst c) \<and> sint (ap_rateLimitBurst c) \<le> 1000
    \<and> validAdminToken (ap_adminToken c) \<and> validAdminToken (ap_consumptionToken c)
    \<and> ap_adminToken c \<noteq> ap_consumptionToken c
    \<and> (ap_requireTLS c \<longrightarrow> ap_tlsCertFile c \<noteq> [] \<and> ap_tlsKeyFile c \<noteq> []
        \<or> ap_trustForwardedProto c \<and> ap_trustedProxies c \<noteq> [])
    \<and> (ap_environment c = ''production'' \<longrightarrow>
        ap_requireTLS c \<and> https_address E (ap_issuer c) \<and> tls_database (unicode L) E (ap_databaseURL c))"
proof -
  obtain environment where env: "ap_environment c = environment"
    and parts: "load_credentials (unicode L) E environment
      = Inr (ap_databaseURL c, ap_adminToken c, ap_consumptionToken c, ap_issuer c)"
      "load_times E = Inr (ap_maxTTL c, ap_clockSkew c, ap_requestWindow c)"
      "load_transport E environment (ap_issuer c)
        = Inr (ap_tlsCertFile c, ap_tlsKeyFile c, ap_requireTLS c, ap_trustForwardedProto c, ap_trustedProxies c)"
      "load_limits E = Inr (ap_rateLimitPerMinute c, ap_rateLimitBurst c)"
    by (rule loadConfig_Inr [OF assms])
  show ?thesis
    using env load_credentials_Inr [OF parts(1)] load_times_Inr [OF parts(2)] load_transport_Inr [OF parts(3)]
      load_limits_Inr [OF parts(4)] by blast
qed

subsection \<open>Starting\<close>

text \<open>What \<open>ed25519.NewKeyFromSeed\<close> documents of its sizes.\<close>

definition seeds_documented :: "auth_lib \<Rightarrow> bool" where
  "seeds_documented L \<longleftrightarrow> (\<forall>s. length s = SeedSize \<longrightarrow> length (ed25519_from_seed L s) = PrivateKeySize)"

lemma published_key_lengths:
  assumes "loadConfig L E = Inr c" "seeds_documented L"
  shows "length (ap_privateKey c) = PrivateKeySize" "list_all (\<lambda>k. length k = PublicKeySize) (published c)"
proof -
  obtain environment where keys: "load_keys L E = Inr (ap_privateKey c, ap_previousPublicKeys c)"
    by (rule loadConfig_Inr [OF assms(1)])
  have "length (ed25519_from_seed L s) = 64" if "length s = 32" for s
    using assms(2) that by (simp add: seeds_documented_def SeedSize_def PrivateKeySize_def)
  from load_keys_Inr [OF keys this]
  have "length (ap_privateKey c) = PrivateKeySize \<and> list_all (\<lambda>k. length k = PublicKeySize) (ap_previousPublicKeys c)" .
  then show "length (ap_privateKey c) = PrivateKeySize" "list_all (\<lambda>k. length k = PublicKeySize) (published c)"
    by (simp_all add: published_def Public_def PrivateKeySize_def PublicKeySize_def)
qed

lemma VerificationKeys_lookup:
  assumes "k \<in> set keys" "length k = PublicKeySize" "inj_on (keyID L) (set keys)"
  shows "fmlookup (VerificationKeys L keys) (keyID L k) = Some k"
proof -
  have "keyID L k \<in> fset (fmdom (VerificationKeys L keys))"
    unfolding VerificationKeys_dom using assms(1,2) by (simp add: PublicKeySize_def)
  then obtain k' where k': "fmlookup (VerificationKeys L keys) (keyID L k) = Some k'"
    by (meson fmlookup_dom_iff)
  then have "k' \<in> set keys" "keyID L k' = keyID L k"
    using VerificationKeys_fold [of L keys fmempty "keyID L k" k'] by (auto simp: VerificationKeys_def)
  then show ?thesis using k' assms(1,3) by (metis inj_onD)
qed

lemma VerificationKeys_wf:
  assumes "digest_size L"
  shows "fmpred (\<lambda>i key. i \<noteq> [] \<and> length key = PublicKeySize) (VerificationKeys L keys)"
proof (rule fmpredI)
  fix i key
  assume "fmlookup (VerificationKeys L keys) i = Some key"
  then have key: "length key = 32" "keyID L key = i"
    using VerificationKeys_fold [of L keys fmempty i key] by (auto simp: VerificationKeys_def)
  have "length (sha256 L key) = 32" using assms by (simp add: digest_size_def)
  then have "keyID L key \<noteq> []" by (auto simp: keyID_def)
  then show "i \<noteq> [] \<and> length key = PublicKeySize" using key by (simp add: PublicKeySize_def)
qed

lemma proxies_networks:
  "parse_proxies_loop P vs = Inr (proxies, networks) \<Longrightarrow> v \<in> set vs \<Longrightarrow> trim_space v \<noteq> [] \<Longrightarrow> networks \<noteq> []"
proof (induction vs arbitrary: proxies networks)
  case (Cons g vs)
  show ?case
  proof (cases "trim_space g = []")
    case True
    then show ?thesis using Cons.IH [of proxies networks] Cons.prems by auto
  next
    case False
    then show ?thesis using Cons.prems(1) by (auto simp: Let_def split: option.splits sum.splits)
  qed
qed simp

lemma splitCSV_trimmed: "v \<in> set (splitCSV value) \<Longrightarrow> trim_space v \<noteq> []"
  by (auto simp: splitCSV_def)

lemma build_usecase:
  assumes "loadConfig L E = Inr c" "digest_size L" "seeds_documented L"
  shows "ok (NewLeaseUsecase (usecase_config L c))"
proof -
  obtain environment where
    times: "load_times E = Inr (ap_maxTTL c, ap_clockSkew c, ap_requestWindow c)" and
    credentials: "load_credentials (unicode L) E environment
      = Inr (ap_databaseURL c, ap_adminToken c, ap_consumptionToken c, ap_issuer c)"
    by (rule loadConfig_Inr [OF assms(1)])
  note keys = published_key_lengths [OF assms(1,3)]
  have "Public (ap_privateKey c) \<in> set (published c)" by (simp add: published_def)
  then have "fmdom (VerificationKeys L (published c)) \<noteq> {||}"
    using keys(2) VerificationKeys_dom [of L "published c"] by (auto simp: list_all_iff PublicKeySize_def)
  then have "fmlen (VerificationKeys L (published c)) \<noteq> 0" by (simp add: fmlen_def)
  moreover have "trim_space (ap_issuer c) \<noteq> []" using load_credentials_Inr [OF credentials] by auto
  ultimately show ?thesis
    using keys(1) load_times_Inr [OF times] VerificationKeys_wf [OF assms(2)]
    by (simp add: NewLeaseUsecase_def usecase_config_def not_less not_le)
qed

lemma build_handler:
  assumes "loadConfig (lib P) E = Inr c" "seeds_documented (lib P)"
  shows "ok (NewHandler P (delivery_config c)) \<longleftrightarrow> ok (parseTrustedProxies P (ap_trustedProxies c))"
proof -
  obtain environment where
    limits: "load_limits E = Inr (ap_rateLimitPerMinute c, ap_rateLimitBurst c)" and
    credentials: "load_credentials (unicode (lib P)) E environment
      = Inr (ap_databaseURL c, ap_adminToken c, ap_consumptionToken c, ap_issuer c)" and
    transport: "load_transport E environment (ap_issuer c)
      = Inr (ap_tlsCertFile c, ap_tlsKeyFile c, ap_requireTLS c, ap_trustForwardedProto c, ap_trustedProxies c)"
    by (rule loadConfig_Inr [OF assms(1)])
  have "\<not> list_ex (\<lambda>key. length key \<noteq> PublicKeySize) (published c)"
    using published_key_lengths(2) [OF assms] by (simp add: list_all_iff list_ex_iff)
  moreover have "networks \<noteq> []"
    if "parseTrustedProxies P (ap_trustedProxies c) = Inr (proxies, networks)" "ap_trustForwardedProto c" for proxies networks
  proof -
    have "ap_trustForwardedProto c" by (rule that(2))
    then obtain v where v: "v \<in> set (ap_trustedProxies c)"
      using load_transport_Inr [OF transport] by (metis list.set_sel(1))
    have "trim_space v \<noteq> []"
      using v load_transport_Inr [OF transport] splitCSV_trimmed by metis
    with v show ?thesis using proxies_networks that(1) unfolding parseTrustedProxies_def by metis
  qed
  moreover have "published c \<noteq> []" by (simp add: published_def)
  ultimately show ?thesis
    using load_credentials_Inr [OF credentials] load_limits_Inr [OF limits]
    by (auto simp: NewHandler_def delivery_config_def ok_def split: sum.splits)
qed

text \<open>C38: a configuration that loads starts the server. What can still fail is outside it: the address of
  the database, its connection, the migrations, and the notation of the trusted proxies. No check of
  \<open>NewLeaseUsecase\<close>, and no other check of \<open>NewHandler\<close>, refuses what \<open>loadConfig\<close> let through.\<close>
theorem loaded_config_starts:
  assumes "loadConfig (lib P) E = Inr c" and "digest_size (lib P)" and "seeds_documented (lib P)"
  shows "ok (fst (start P run_sql E s)) \<longleftrightarrow>
    pool_config E (ap_databaseURL c) \<and> pool_opens E (ap_databaseURL c)
    \<and> ok (fst (migrate_database P run_sql E c s)) \<and> ok (parseTrustedProxies P (ap_trustedProxies c))"
proof -
  have "ok (build P c) \<longleftrightarrow> ok (parseTrustedProxies P (ap_trustedProxies c))"
    using build_usecase [OF assms] build_handler [OF assms(1,3)]
    by (auto simp: build_def ok_def split: sum.splits)
  then show ?thesis
    using assms(1) by (auto simp: start_def ok_def split: prod.splits sum.splits)
qed

subsection \<open>Changing keys\<close>

lemma start_Inr:
  assumes "start P run_sql E s = (Inr srv, s')"
  obtains c where "loadConfig (lib P) E = Inr c" "build P c = Inr srv"
  using assms by (auto simp: start_def split: sum.splits if_splits prod.splits)

lemma NewLeaseUsecase_skew: "NewLeaseUsecase config = Inr u \<Longrightarrow> 0 \<le> uc_clockSkew u"
  by (auto simp: NewLeaseUsecase_def split: if_splits)

lemma build_Inr:
  assumes "build P c = Inr srv"
  shows "NewLeaseUsecase (usecase_config (lib P) c) = Inr (sv_usecase srv)"
    and "dh_publicKeys (sv_handler srv) = published c"
    and "uc_verificationKeys (sv_usecase srv) = VerificationKeys (lib P) (published c)"
    and "uc_privateKey (sv_usecase srv) = ap_privateKey c"
    and "list_all (\<lambda>k. length k = PublicKeySize) (published c)"
  using assms
  by (auto simp: build_def NewHandler_def NewLeaseUsecase_def delivery_config_def usecase_config_def list_all_iff
      list_ex_iff split: sum.splits if_splits)

lemma started_keys:
  assumes "start P run_sql E s = (Inr srv, s')" "key \<in> set (dh_publicKeys (sv_handler srv))"
    and "inj_on (keyID (lib P)) (set (dh_publicKeys (sv_handler srv)))"
  shows "fmlookup (uc_verificationKeys (sv_usecase srv)) (keyID (lib P) key) = Some key"
proof (rule start_Inr [OF assms(1)])
  fix c
  assume "build P c = Inr srv"
  note built = build_Inr [OF this]
  show ?thesis
    using VerificationKeys_lookup [of key "published c" "lib P"] assms(2,3) built(2,3,5) by (simp add: list_all_iff)
qed

text \<open>The key of a server is among those it publishes.\<close>

lemma own_key_published:
  assumes "start P run_sql E s = (Inr srv, s')"
  shows "Public (uc_privateKey (sv_usecase srv)) \<in> set (dh_publicKeys (sv_handler srv))"
proof (rule start_Inr [OF assms])
  fix c
  assume "build P c = Inr srv"
  then show ?thesis using build_Inr by (simp add: published_def)
qed

text \<open>C8: tokens outlive a change of keys. A token of at most 16 KiB that one run of the server minted is
  accepted by another run, started from another configuration, from its issue until its expiration,
  up to the clock skew of the other run, if the other run has the same issuer and the public key of
  the first among its keys: its own, or one of \<open>PREVIOUS_PUBLIC_KEYS\<close>. The other run's keys have
  distinct identifiers, and the issuer's name and the workload's identifier are valid UTF-8.\<close>
theorem token_survives_restart:
  assumes "start P run_sql E s = (Inr srv, t)" and "start P run_sql' E' s' = (Inr srv', t')"
    and "uc_issuer (sv_usecase srv') = uc_issuer (sv_usecase srv)"
    and "Public (uc_privateKey (sv_usecase srv)) \<in> set (dh_publicKeys (sv_handler srv'))"
    and "inj_on (keyID (lib P)) (set (dh_publicKeys (sv_handler srv')))"
    and "tokens_documented (lib P)" and "digest_size (lib P)" and "db_ok (lib P) d"
    and "valid_string (uc_issuer (sv_usecase srv))" and "valid_string (mr_WorkloadID request)"
    and "MintRootLease (lib P) (sv_usecase srv) env request d = (Inr il, d')"
    and "length (il_Token il) \<le> MaxLeaseTokenBytes"
    and "l_IssuedAt (il_Lease il) - uc_clockSkew (sv_usecase srv') \<le> moment"
    and "moment < l_Expiration (il_Lease il) + uc_clockSkew (sv_usecase srv')"
    and "seeds_first (lib P)" and "exact_times (il_Lease il)"
  shows "VerifyLeaseToken (lib P) moment (il_Token il) (uc_verificationKeys (sv_usecase srv'))
      (uc_issuer (sv_usecase srv')) (mr_Audience request) (uc_clockSkew (sv_usecase srv'))
    = Inr (lease_claims (sv_usecase srv) (il_Lease il))"
proof -
  obtain c where c: "loadConfig (lib P) E = Inr c" "build P c = Inr srv" using start_Inr [OF assms(1)] .
  note made = build_Inr(1) [OF c(2)]
  have pair: "key_pair (lib P) (uc_privateKey (sv_usecase srv))"
    unfolding build_Inr(4) [OF c(2)] by (rule loadConfig_Inr [OF c(1)]) (rule load_keys_pair [OF _ assms(15)])
  obtain c' where made': "NewLeaseUsecase (usecase_config (lib P) c') = Inr (sv_usecase srv')"
    using start_Inr [OF assms(2)] build_Inr(1) by metis
  show ?thesis
    unfolding assms(3)
    using minted_verifies [OF assms(6,7,8) made assms(9,10) started_keys [OF assms(2,4,5)] assms(11,12)
        NewLeaseUsecase_skew [OF made'] assms(13,14) pair assms(16)]
    by simp
qed

subsection \<open>A concrete process\<close>

definition example_environ :: "bytes \<Rightarrow> bytes \<Rightarrow> (bytes \<times> bytes) list" where
  "example_environ privateKey previous =
    [(''UPSILON_ENV'', '' Production''), (''DATABASE_URL'', ''postgres://h/d?sslmode=verify-full''),
     (''ADMIN_TOKEN'', ''abcdefghijklmnopqrstuvwxyz012345''),
     (''CONSUMPTION_TOKEN'', ''ABCDEFGHIJKLMNOPQRSTUVWXYZ012345''), (''TOKEN_ISSUER'', ''i''),
     (''SIGNING_PRIVATE_KEY'', raw_url_encode privateKey), (''PREVIOUS_PUBLIC_KEYS'', previous),
     (''MAX_LEASE_TTL'', ''24h''), (''TOKEN_CLOCK_SKEW'', ''0''), (''SIGNED_REQUEST_WINDOW'', ''1m''), (''TLS_CERT_FILE'', ''cert.pem''), (''TLS_KEY_FILE'', ''key.pem'')]"

definition plain_url :: "bytes \<Rightarrow> bytes \<Rightarrow> url" where
  "plain_url scheme query = \<lparr>u_Scheme = scheme, u_Opaque = [], u_User = None, u_Host = ''h'', u_Path = [],
     u_RawPath = [], u_OmitHost = False, u_ForceQuery = False, u_RawQuery = query, u_Fragment = [],
     u_RawFragment = []\<rparr>"

definition example_process :: "bytes \<Rightarrow> bytes \<Rightarrow> process" where
  "example_process privateKey previous =
    \<lparr>environ = fmap_of_list (example_environ privateKey previous), disk = fmempty,
     read_dir = (\<lambda>directory. if directory = ''migrations'' then Some example_entries else None),
     parse_url = (\<lambda>address. Some (if address = ''i'' then plain_url ''https'' []
       else plain_url ''postgres'' ''a=b&sslmode=verify%2Dfull'')),
     parse_float = (\<lambda>_. None), pool_config = (\<lambda>_. True), pool_opens = (\<lambda>_. True)\<rparr>"

definition loaded_example :: "bytes \<Rightarrow> bytes list \<Rightarrow> applicationConfig" where
  "loaded_example privateKey previousKeys = \<lparr>ap_databaseURL = ''postgres://h/d?sslmode=verify-full'',
     ap_adminToken = ''abcdefghijklmnopqrstuvwxyz012345'',
     ap_consumptionToken = ''ABCDEFGHIJKLMNOPQRSTUVWXYZ012345'', ap_issuer = ''i'', ap_privateKey = privateKey,
     ap_previousPublicKeys = previousKeys, ap_maxTTL = 24 * hour, ap_clockSkew = 0, ap_requestWindow = minute,
     ap_requireTLS = True, ap_trustForwardedProto = False, ap_trustedProxies = [],
     ap_tlsCertFile = ''cert.pem'', ap_tlsKeyFile = ''key.pem'', ap_migrationsDirectory = ''migrations'',
     ap_rateLimitPerMinute = 120, ap_rateLimitBurst = 30, ap_environment = ''production'',
     ap_migrationMode = ''verify''\<rparr>"

lemma example_getenv:
  "getenv (example_process privateKey previous) name =
     (case map_of (example_environ privateKey previous) name of None \<Rightarrow> [] | Some v \<Rightarrow> v)"
  by (simp add: getenv_def example_process_def fmlookup_of_list)

lemma example_trims:
  "trim_space ''i'' = ''i''" "trim_space ''24h'' = ''24h''" "trim_space ''0'' = ''0''" "trim_space ''1m'' = ''1m''"
  "trim_space ''cert.pem'' = ''cert.pem''" "trim_space ''key.pem'' = ''key.pem''"
  "trim_space '' Production'' = ''Production''"
  "trim_space ''postgres://h/d?sslmode=verify-full'' = ''postgres://h/d?sslmode=verify-full''"
  "trim_space ''abcdefghijklmnopqrstuvwxyz012345'' = ''abcdefghijklmnopqrstuvwxyz012345''"
  "trim_space ''ABCDEFGHIJKLMNOPQRSTUVWXYZ012345'' = ''ABCDEFGHIJKLMNOPQRSTUVWXYZ012345''"
proof -
  have "trim_left '' Production'' = ''Production''" by (simp add: is_space_def)
  moreover have "trim_right ''Production'' = ''Production''"
    by (simp add: trim_right_id decode_last_rune_def is_space_def)
  ultimately show "trim_space '' Production'' = ''Production''" by (simp add: trim_space_def)
qed (rule trim_space_ascii_id; simp add: is_space_def)+

lemma one_component:
  assumes "leading_int 0 s = Some (v, t)" "length t \<noteq> length s" "CHR ''.'' \<notin> set t" "\<forall>c \<in> set t. \<not> is_digit c"
    and "map_of duration_units t = Some nanos" "v * nanos < 2 ^ 63" "0 < nanos"
  shows "duration_sum 0 s = Some (v * nanos)"
proof -
  have "takeWhile unit_char t = t" "dropWhile unit_char t = []"
    using assms(3,4) by (auto simp: unit_char_def takeWhile_eq_all_conv dropWhile_eq_Nil_conv)
  moreover have "hd t \<noteq> CHR ''.''" if "t \<noteq> []" using that assms(3) by (metis list.set_sel(1))
  moreover have "v \<le> 2 ^ 63 div nanos"
    using assms(6,7) by (metis less_eq_div_iff_mult_less_eq less_imp_le)
  ultimately have "duration_component s = Some (v * nanos, [])"
    using assms(1,2,5,6) by (cases t) (auto simp: duration_component_def Let_def)
  moreover have "s \<noteq> []" using assms(1,2) by auto
  ultimately show ?thesis using assms(6) by (subst duration_sum.simps) (simp add: duration_sum.simps)
qed

lemma example_durations: "parse_duration ''24h'' = Some (24 * hour)" "parse_duration ''0'' = Some 0"
  "parse_duration ''1m'' = Some minute"
proof -
  have "duration_sum 0 ''24h'' = Some (24 * 3600000000000)"
    by (rule one_component [where t = "''h''"]) (simp_all add: is_digit_def digit_value_def duration_units_def)
  moreover have "duration_sum 0 ''1m'' = Some (1 * 60000000000)"
    by (rule one_component [where t = "''m''"]) (simp_all add: is_digit_def digit_value_def duration_units_def)
  ultimately show "parse_duration ''24h'' = Some (24 * hour)" "parse_duration ''1m'' = Some minute"
    by (simp_all add: parse_duration_def signed_digits_def duration_defs)
  show "parse_duration ''0'' = Some 0" by (simp add: parse_duration_def signed_digits_def)
qed

lemma b64_decode_groups:
  "length s mod 4 = 0 \<Longrightarrow> \<forall>c \<in> set s. char_index 0 al c \<noteq> None \<Longrightarrow>
   \<exists>d. b64_decode al s = Some d \<and> 4 * length d = 3 * length s"
proof (induction al s rule: b64_decode.induct)
  case (1 al a b c d rest)
  then have "length rest mod 4 = 0" by (simp; presburger)
  then obtain r where "b64_decode al rest = Some r" "4 * length r = 3 * length rest" using 1 by fastforce
  then show ?case using 1(3) by (auto simp: Let_def)
qed auto

lemma distinct_rune_count: "distinct rs \<Longrightarrow> rune_count rs r \<le> 1"
proof (induction rs)
  case (Cons x rs)
  have "filter (\<lambda>y. y = x) rs = []" using Cons.prems by (auto simp: filter_empty_conv)
  then show ?case using Cons by (auto simp: rune_count_def)
qed (simp add: rune_count_def)

lemma fold_max_le: "(\<And>r. f r \<le> b) \<Longrightarrow> m \<le> b \<Longrightarrow> fold max (map f rs) m \<le> b" for b :: nat
  by (induction rs arbitrary: m) simp_all

text \<open>A secret of different characters is strong enough.\<close>

lemma distinct_secret:
  assumes "32 \<le> length secret" "length secret \<le> 256" "length secret mod 4 = 0" "trim_space secret = secret" "ascii secret"
    and "distinct secret" "\<forall>c \<in> set secret. char_index 0 url_alphabet c \<noteq> None \<and> \<not> is_newline c"
  shows "validAdminToken secret"
proof -
  obtain d where d: "raw_url_decode secret = Some d" "4 * length d = 3 * length secret"
    using b64_decode_groups [of secret url_alphabet] assms(3,7) by (auto simp: raw_url_decode_def filter_id_conv)
  have runes: "runes secret = map byte secret" using assms(5) by (simp add: ascii_runes)
  have "distinct (runes secret)" using assms(6) unfolding runes by (simp add: distinct_map inj_on_def)
  then have kinds: "remdups (runes secret) = runes secret" by simp
  have "fold max (map (rune_count (runes secret)) (runes secret)) 0 \<le> 1"
    by (rule fold_max_le [OF distinct_rune_count [OF \<open>distinct (runes secret)\<close>]]) simp
  then have "fold max (map (rune_count (runes secret)) (runes secret)) 0 * 2 \<le> length secret"
    using assms(1) by linarith
  moreover have "8 \<le> length (runes secret)" using assms(1) by (simp add: runes)
  moreover have "24 \<le> length d" using assms(1) d(2) by linarith
  ultimately show ?thesis
    using assms(1,2,4) d(1) by (simp add: validAdminToken_def Let_def kinds)
qed

lemma example_secrets:
  "validAdminToken ''abcdefghijklmnopqrstuvwxyz012345''" "validAdminToken ''ABCDEFGHIJKLMNOPQRSTUVWXYZ012345''"
  by (rule distinct_secret; simp add: example_trims ascii_def url_alphabet_def is_newline_def)+

lemma example_credentials:
  "load_credentials ascii_lib (example_process privateKey previous) ''production'' =
   Inr (''postgres://h/d?sslmode=verify-full'', ''abcdefghijklmnopqrstuvwxyz012345'', ''ABCDEFGHIJKLMNOPQRSTUVWXYZ012345'', ''i'')"
proof -
  let ?E = "example_process privateKey previous"
  have "envOrFile ?E ''DATABASE_URL'' = Inr ''postgres://h/d?sslmode=verify-full''"
    "envOrFile ?E ''ADMIN_TOKEN'' = Inr ''abcdefghijklmnopqrstuvwxyz012345''"
    "envOrFile ?E ''CONSUMPTION_TOKEN'' = Inr ''ABCDEFGHIJKLMNOPQRSTUVWXYZ012345''"
    "envBool ?E ''ALLOW_INSECURE_DATABASE'' False = Inr False"
    by (simp_all add: envOrFile_def envBool_def example_getenv example_environ_def)
  moreover have "query_get ''a=b&sslmode=verify%2Dfull'' ''sslmode'' = ''verify-full''"
    by code_simp
  then have "validateDatabaseTLS ascii_lib ?E ''postgres://h/d?sslmode=verify-full'' False = Inr ()"
    by (simp add: validateDatabaseTLS_def example_process_def plain_url_def to_lower_def ascii_def ascii_lower_def)
  ultimately show ?thesis
    using example_secrets
    by (simp add: load_credentials_def example_trims validConfiguredSecret_admin example_getenv example_environ_def)
qed

lemma example_keys:
  assumes "length privateKey = 64" "ed25519_from_seed L (take 32 privateKey) = privateKey"
    and "ParsePublicKeys L previous = Inr keys"
  shows "load_keys L (example_process privateKey previous) = Inr (privateKey, keys)"
proof -
  have "envOrFile (example_process privateKey previous) ''SIGNING_PRIVATE_KEY'' = Inr (raw_url_encode privateKey)"
    "envOrFile (example_process privateKey previous) ''PREVIOUS_PUBLIC_KEYS'' = Inr previous"
    by (simp_all add: envOrFile_def example_getenv example_environ_def)
  moreover have "ParsePrivateKey L (raw_url_encode privateKey) = Inr privateKey"
    using assms(1,2) by (simp add: ParsePrivateKey_def decodeBase64_def SeedSize_def PrivateKeySize_def Seed_def)
  ultimately show ?thesis using assms(3) by (simp add: load_keys_def)
qed

lemma example_lower: "to_lower ascii_lib ''Production'' = ''production''"
  by code_simp

lemma example_loads:
  assumes "unicode L = ascii_lib" "length privateKey = 64" "ed25519_from_seed L (take 32 privateKey) = privateKey"
    and "ParsePublicKeys L previous = Inr keys"
  shows "loadConfig L (example_process privateKey previous) = Inr (loaded_example privateKey keys)"
proof -
  let ?E = "example_process privateKey previous"
  have "to_lower ascii_lib (trim_space (getenv ?E ''UPSILON_ENV'')) = ''production''"
    by (simp add: example_getenv example_environ_def example_trims example_lower)
  moreover have "load_times ?E = Inr (24 * hour, 0, minute)"
    by (simp add: load_times_def envDuration_def example_getenv example_environ_def example_trims example_durations)
      (simp add: duration_defs)
  moreover have "check_issuer ?E ''production'' ''i'' = Inr ()" "splitCSV [] = []"
    by (simp_all add: check_issuer_def example_process_def plain_url_def splitCSV_def)
  then have "load_transport ?E ''production'' ''i'' = Inr (''cert.pem'', ''key.pem'', True, False, [])"
    by (simp add: load_transport_def envBool_def example_getenv example_environ_def example_trims)
  moreover have "load_migrations ascii_lib ?E ''production'' = Inr (''migrations'', ''verify'')"
    by (simp add: load_migrations_def example_getenv example_environ_def to_lower_def ascii_def)
  moreover have "load_limits ?E = Inr (120, 30)"
    by (simp add: load_limits_def envFloat_def envInt_def example_getenv example_environ_def)
  ultimately show ?thesis
    using example_credentials example_keys [OF assms(2-4)]
    by (simp add: loadConfig_def assms(1) loaded_example_def)
qed

lemma loaded_config_safe_witness:
  "https_address (example_process example_seed []) ''i''
   \<and> tls_database ascii_lib (example_process example_seed []) ''postgres://h/d?sslmode=verify-full''"
proof -
  have "unicode example_lib = ascii_lib" by (simp add: example_lib_def)
  moreover have "loadConfig example_lib (example_process example_seed []) = Inr (loaded_example example_seed [])"
    by (rule example_loads)
      (simp_all add: example_seed_def example_lib_def ParsePublicKeys_def replicate_add [symmetric])
  ultimately show ?thesis
    using loaded_config_safe [of example_lib "example_process example_seed []" "loaded_example example_seed []"]
    by (simp add: loaded_example_def)
qed

text \<open>A server started with the first key, and one started after a change to a second key.\<close>

definition second_seed :: bytes where
  "second_seed = replicate 64 (CHR ''m'')"

definition process_http :: http_lib where
  "process_http = \<lparr>lib = service_lib, parse_ip = (\<lambda>_. None), parse_cidr = (\<lambda>_. None),
     decode_lease = (\<lambda>_. None), decode_delegate = (\<lambda>_. None), decode_workload = (\<lambda>_. None),
     decode_rotate = (\<lambda>_. None)\<rparr>"

definition applied_schema :: schema where
  "applied_schema = \<lparr>sm_migrations = Some [(''000001_initial.up.sql'',
     Some (sha256 service_lib ''CREATE TABLE workloads ();''))], sm_tables = fmupd ''workloads'' {||} fmempty\<rparr>"

lemma service_lib_facts: "digest_size service_lib" "seeds_documented service_lib"
  "ed25519_from_seed service_lib s = s @ s" "lib process_http = service_lib"
proof -
  show "digest_size service_lib"
    using one_token_documented(3) [OF minted_plain, of minted_hash example_seed] by (simp add: service_lib_def)
qed (simp_all add: seeds_documented_def service_lib_def one_token_lib_def example_lib_def SeedSize_def
  PrivateKeySize_def process_http_def)

lemma applied_verified: "VerifyMigrations service_lib (Some example_entries) applied_schema = Inr ()"
proof -
  have "length (sha256 service_lib data) = 32" for data
    using service_lib_facts(1) by (simp add: digest_size_def)
  then show ?thesis
    by (simp add: VerifyMigrations_def example_entries_def is_migration_def has_suffix_rev applied_schema_def fmlen_def)
qed

lemma example_migrated:
  "migrate_database process_http run_sql (example_process privateKey previous) (loaded_example privateKey keys) applied_schema
   = (Inr (), applied_schema)"
  using applied_verified by (simp add: migrate_database_def loaded_example_def example_process_def service_lib_facts)

lemma example_first:
  "loadConfig (lib process_http) (example_process example_seed []) = Inr (loaded_example example_seed [])"
  unfolding service_lib_facts
  by (rule example_loads) (simp_all add: example_seed_def service_lib_facts ParsePublicKeys_def replicate_add [symmetric])

lemma loaded_config_starts_witness:
  "ok (fst (start process_http example_script (example_process example_seed []) applied_schema))"
proof -
  have facts: "digest_size (lib process_http)" "seeds_documented (lib process_http)" by (simp_all add: service_lib_facts)
  have "parseTrustedProxies process_http [] = Inr ([], [])" by (simp add: parseTrustedProxies_def)
  moreover have "pool_config (example_process example_seed []) address" "pool_opens (example_process example_seed []) address"
    "ap_trustedProxies (loaded_example example_seed []) = []" for address
    by (simp_all add: example_process_def loaded_example_def)
  ultimately show ?thesis
    using loaded_config_starts [OF example_first facts] example_migrated by simp
qed

lemma example_previous: "ParsePublicKeys service_lib (raw_url_encode example_key) = Inr [example_key]"
proof -
  let ?s = "raw_url_encode example_key"
  have "set ?s \<subseteq> set url_alphabet" using set_b64_encode [OF url_alphabet_facts(2)] by (simp add: raw_url_encode_def)
  moreover have "length ?s = 43" by (rule length_raw_url_encode_32) simp
  then have "?s \<noteq> []" by auto
  then have "hd ?s \<in> set ?s" "last ?s \<in> set ?s" by simp_all
  moreover have "byte c < 0x80 \<and> \<not> is_space (byte c) \<and> c \<noteq> CHR '',''" if "c \<in> set url_alphabet" for c
    using that by (auto simp: url_alphabet_def is_space_def)
  ultimately have "trim_space ?s = ?s" "CHR '','' \<notin> set ?s" using trim_space_ascii_id by blast+
  then show ?thesis
    using \<open>?s \<noteq> []\<close>
    by (simp add: ParsePublicKeys_def split_on_single decodeBase64_def PublicKeySize_def)
qed

lemma example_second:
  "loadConfig (lib process_http) (example_process second_seed (raw_url_encode example_key))
   = Inr (loaded_example second_seed [example_key])"
  unfolding service_lib_facts
  by (rule example_loads) (simp_all add: second_seed_def service_lib_facts example_previous replicate_add [symmetric])

lemma build_values:
  assumes "build P c = Inr srv"
  shows "sv_usecase srv = \<lparr>uc_privateKey = ap_privateKey c, uc_verificationKeys = VerificationKeys (lib P) (published c),
    uc_issuer = ap_issuer c, uc_maxTTL = ap_maxTTL c, uc_clockSkew = ap_clockSkew c,
    uc_requestWindow = ap_requestWindow c\<rparr>"
  using build_Inr(1) [OF assms] by (auto simp: NewLeaseUsecase_def usecase_config_def split: if_splits)

lemma example_starts:
  assumes "loadConfig (lib process_http) (example_process privateKey previous) = Inr (loaded_example privateKey keys)"
  obtains srv where "start process_http example_script (example_process privateKey previous) applied_schema
      = (Inr srv, applied_schema)" "build process_http (loaded_example privateKey keys) = Inr srv"
proof -
  have "digest_size (lib process_http)" "seeds_documented (lib process_http)" by (simp_all add: service_lib_facts)
  then have "ok (NewLeaseUsecase (usecase_config (lib process_http) (loaded_example privateKey keys)))"
    "ok (NewHandler process_http (delivery_config (loaded_example privateKey keys)))"
    using build_usecase [OF assms] build_handler [OF assms]
    by (simp_all add: loaded_example_def parseTrustedProxies_def)
  then obtain srv where "build process_http (loaded_example privateKey keys) = Inr srv"
    by (auto simp: build_def ok_def)
  then show ?thesis
    using that assms example_migrated by (simp add: start_def) (simp add: example_process_def)
qed

lemma token_survives_restart_witness:
  "\<exists>srv srv' claims.
     start process_http example_script (example_process example_seed []) applied_schema = (Inr srv, applied_schema)
     \<and> start process_http example_script (example_process second_seed (raw_url_encode example_key)) applied_schema
         = (Inr srv', applied_schema)
     \<and> VerifyLeaseToken service_lib 0 minted_token (uc_verificationKeys (sv_usecase srv')) ''i'' ''billing'' 0 = Inr claims"
proof -
  obtain srv where srv: "start process_http example_script (example_process example_seed []) applied_schema
      = (Inr srv, applied_schema)" "build process_http (loaded_example example_seed []) = Inr srv"
    by (rule example_starts [OF example_first])
  obtain srv' where srv': "start process_http example_script
      (example_process second_seed (raw_url_encode example_key)) applied_schema = (Inr srv', applied_schema)"
      "build process_http (loaded_example second_seed [example_key]) = Inr srv'"
    by (rule example_starts [OF example_second])
  have keys: "published (loaded_example example_seed []) = [example_key]"
    "published (loaded_example second_seed [example_key]) = [replicate 32 (CHR ''m''), example_key]"
    by (simp_all add: published_def loaded_example_def example_public) (simp add: Public_def second_seed_def)
  have "VerificationKeys service_lib [example_key] = fmap_of_list [(example_kid, example_key)]"
    by (rule fmap_ext) (simp add: VerificationKeys_def PublicKeySize_def fmlookup_of_list)
  then have first: "sv_usecase srv = example_service"
    unfolding build_values [OF srv(2)] keys service_lib_facts
    by (simp add: loaded_example_def example_service_def)
  have second: "uc_issuer (sv_usecase srv') = ''i''" "uc_clockSkew (sv_usecase srv') = 0"
    "dh_publicKeys (sv_handler srv') = [replicate 32 (CHR ''m''), example_key]"
    using build_values [OF srv'(2)] build_Inr(2) [OF srv'(2)] keys(2) by (simp_all add: loaded_example_def)
  have "sha256 service_lib m = sha256 example_lib m" if "CHR ''.'' \<notin> set m" for m
    using that by (simp add: service_lib_def)
  then have distinct_ids: "keyID service_lib (replicate 32 (CHR ''m'')) \<noteq> example_kid"
    by (simp add: keyID_def raw_url_encode_inj example_lib_def replicate_eq_replicate)
  obtain il d' where il: "MintRootLease service_lib example_service (example_env 0) mint_request example_db = (Inr il, d')"
    "il_Token il = minted_token" "il_Lease il = hashed_lease"
    using mint_issued by blast
  have values_of: "uc_issuer example_service = ''i''" "uc_privateKey example_service = example_seed"
    "mr_Audience mint_request = ''billing''" "valid_string (mr_WorkloadID mint_request)"
    "l_IssuedAt hashed_lease = 0" "0 < l_Expiration minted_lease" "exact_times hashed_lease"
    by (simp_all add: example_service_def mint_request_def minted_lease_def exact_times_def duration_defs)
  have firsts: "seeds_first service_lib"
    by (simp add: seeds_first_def SeedSize_def Seed_def service_lib_def) (simp add: one_token_lib_def example_lib_def)
  have "VerifyLeaseToken (lib process_http) 0 (il_Token il) (uc_verificationKeys (sv_usecase srv'))
      (uc_issuer (sv_usecase srv')) (mr_Audience mint_request) (uc_clockSkew (sv_usecase srv'))
    = Inr (lease_claims (sv_usecase srv) (il_Lease il))"
    by (rule token_survives_restart [OF srv(1) srv'(1), where d = example_db and d' = d' and env = "example_env 0"])
      (simp_all add: first second service_lib_facts values_of il example_public distinct_ids service_db_ok firsts
        minted_token_length one_token_documented(1) [OF minted_plain, of minted_hash example_seed, folded service_lib_def])
  then show ?thesis using srv(1) srv'(1) second values_of il by (auto simp: service_lib_facts)
qed

end
