(* ===== verification/Tools.thy ===== *)
theory Tools
  imports Server Client
begin

section \<open>The command line tools\<close>

text \<open>
  The programs under \<open>cmd/\<close> that operators run beside the server: \<open>migrate\<close>, \<open>dbcheck\<close>, \<open>keygen\<close> and
  \<open>upsilon\<close>. A flag is an option, \<open>None\<close> when it is not given; parsing the command line is not
  modelled. What a program prints is part of its result.
\<close>

subsection \<open>cmd/migrate\<close>

definition envDefault :: "process \<Rightarrow> bytes \<Rightarrow> bytes \<Rightarrow> bytes" where
  "envDefault E name fallback = (let value = trim_space (getenv E name) in if value \<noteq> [] then value else fallback)"

definition flag_value :: "bytes option \<Rightarrow> bytes \<Rightarrow> bytes" where
  "flag_value flag fallback = (case flag of None \<Rightarrow> fallback | Some value \<Rightarrow> value)"

definition migrate ::
    "auth_lib \<Rightarrow> script_runner \<Rightarrow> process \<Rightarrow> bytes option \<Rightarrow> bytes option \<Rightarrow> schema \<Rightarrow> unit result \<times> schema" where
  "migrate L run_sql E modeFlag directoryFlag s =
    (let mode = flag_value modeFlag ''apply'';
         directory = flag_value directoryFlag (envDefault E ''MIGRATIONS_DIR'' ''migrations'')
     in if mode \<noteq> ''apply'' \<and> mode \<noteq> ''verify'' then (Inl (Opaque ''mode must be apply or verify''), s)
        else case envOrFile E ''DATABASE_URL'' of
          Inl _ \<Rightarrow> (Inl (Opaque ''DATABASE_URL or DATABASE_URL_FILE is required''), s)
        | Inr databaseURL \<Rightarrow>
          if trim_space databaseURL = [] then (Inl (Opaque ''DATABASE_URL or DATABASE_URL_FILE is required''), s)
          else if \<not> pool_config E (trim_space databaseURL) \<or> \<not> pool_opens E (trim_space databaseURL)
          then (Inl (Opaque ''connect''), s)
          else if mode = ''apply'' then ApplyMigrations L run_sql (read_dir E directory) s
          else (VerifyMigrations L (read_dir E directory) s, s))"

subsection \<open>cmd/dbcheck\<close>

definition information_tables :: "schema \<Rightarrow> bytes \<Rightarrow> bool" where
  "information_tables s table \<longleftrightarrow> (if table = ''schema_migrations'' then sm_migrations s \<noteq> None else table_exists s table)"

definition information_columns :: "schema \<Rightarrow> bytes \<Rightarrow> bytes \<Rightarrow> bool" where
  "information_columns s table column \<longleftrightarrow>
    (case fmlookup (sm_tables s) table of None \<Rightarrow> False | Some columns \<Rightarrow> column |\<in>| columns)"

text \<open>Each name that is found is printed; the first that is missing ends the program.\<close>

fun require_all :: "(bytes \<Rightarrow> bool) \<Rightarrow> bytes \<Rightarrow> bytes list \<Rightarrow> bytes list \<times> unit result" where
  "require_all exists label [] = ([], Inr ())"
| "require_all exists label (name # names) =
    (if \<not> exists name then ([], Inl (Opaque (''required name is missing: '' @ name)))
     else let (printed, outcome) = require_all exists label names in ((label @ name) # printed, outcome))"

definition required_tables :: "bytes list" where
  "required_tables = [''workloads'', ''leases'', ''audit_events'', ''workload_nonces'', ''schema_migrations'']"

definition dbcheck :: "process \<Rightarrow> schema \<Rightarrow> bytes list \<times> unit result" where
  "dbcheck E s =
    (let databaseURL = getenv E ''DATABASE_URL''
     in if databaseURL = [] then ([], Inl (Opaque ''DATABASE_URL is required''))
        else if \<not> pool_config E databaseURL \<or> \<not> pool_opens E databaseURL then ([], Inl (Opaque ''connect''))
        else case require_all (information_tables s) [] required_tables of
          (printed, Inl err) \<Rightarrow> (printed, Inl err)
        | (tables, Inr _) \<Rightarrow>
          (case require_all (information_columns s ''leases'') ''leases.'' [''audience'', ''max_depth''] of
            (printed, Inl err) \<Rightarrow> (tables @ printed, Inl err)
          | (columns, Inr _) \<Rightarrow>
              if \<not> information_columns s ''workloads'' ''disabled_at''
              then (tables @ columns, Inl (Opaque ''required workload column is missing: disabled_at''))
              else (tables @ columns @ [''workloads.disabled_at''], Inr ())))"

subsection \<open>cmd/keygen\<close>

text \<open>
  The outcomes of \<open>randomBytes\<close> and of \<open>ed25519.GenerateKey\<close>, which answers a private key with its
  public key, are arguments, \<open>None\<close> when the random source fails.
\<close>

definition keygen ::
    "bytes option \<Rightarrow> bytes option \<Rightarrow> bytes option \<Rightarrow> bytes option \<Rightarrow> bytes option \<Rightarrow> (bytes \<times> bytes) list result" where
  "keygen adminBytes consumptionBytes databaseBytes serverKey workloadKey =
    (case (adminBytes, consumptionBytes, databaseBytes, serverKey, workloadKey) of
       (Some admin, Some consumption, Some database, Some serverPrivate, Some workloadPrivate) \<Rightarrow>
         Inr [(''POSTGRES_PASSWORD'', raw_url_encode database), (''ADMIN_TOKEN'', raw_url_encode admin),
           (''CONSUMPTION_TOKEN'', raw_url_encode consumption),
           (''SIGNING_PRIVATE_KEY'', raw_url_encode (Seed serverPrivate)),
           (''SIGNING_PUBLIC_KEY'', raw_url_encode (Public serverPrivate)),
           (''WORKLOAD_PRIVATE_KEY'', raw_url_encode (Seed workloadPrivate)),
           (''WORKLOAD_PUBLIC_KEY'', raw_url_encode (Public workloadPrivate))]
     | _ \<Rightarrow> Inl (Opaque ''random source''))"

subsection \<open>cmd/upsilon\<close>

definition secretFromEnvironment :: "process \<Rightarrow> bytes \<Rightarrow> bytes result" where
  "secretFromEnvironment E name =
    (let value = getenv E name; valueSet = (fmlookup (environ E) name \<noteq> None);
         fileName = trim_space (getenv E (name @ ''_FILE''))
     in if valueSet \<and> value \<noteq> [] \<and> fileName \<noteq> [] then Inl (Opaque ''mutually exclusive'')
        else case (if fileName = [] then Inr value
          else case fmlookup (disk E) fileName of
            None \<Rightarrow> Inl (Opaque ''read _FILE'')
          | Some data \<Rightarrow>
              if length data = 0 \<or> length data > 4096 then Inl (Opaque ''_FILE has invalid size'') else Inr data) of
          Inl err \<Rightarrow> Inl err
        | Inr value \<Rightarrow> if trim_space value = [] then Inl (Opaque ''is required'') else Inr (trim_space value))"

text \<open>What the program prints: the lease or the lineage that the service answered.\<close>

datatype printed = Inspected "LeaseInspection option" | Traced "LeaseInspection list option"

definition upsilon ::
    "client_lib \<Rightarrow> transport \<Rightarrow> process \<Rightarrow> bytes option \<Rightarrow> bool \<Rightarrow> bytes list \<Rightarrow> client_error + printed" where
  "upsilon C send E baseURL allowInsecure remaining =
    (case remaining of
       [command, leaseID] \<Rightarrow>
         if command \<noteq> ''inspect'' \<and> command \<noteq> ''trace'' then Inl (Failed (Opaque ''usage''))
         else (case secretFromEnvironment E ''UPSILON_ADMIN_TOKEN'' of
           Inl err \<Rightarrow> Inl (Failed err)
         | Inr adminToken \<Rightarrow>
         (case NewControlPlane C (flag_value baseURL (envDefault E ''UPSILON_BASE_URL'' ''https://127.0.0.1:8080''))
             allowInsecure of
           Inl err \<Rightarrow> Inl (Failed err)
         | Inr control \<Rightarrow>
             if command = ''inspect'' then map_sum (\<lambda>err. err) Inspected (GetLeaseCall C send control adminToken leaseID)
             else map_sum (\<lambda>err. err) Traced (TraceLeaseCall C send control adminToken leaseID)))
     | _ \<Rightarrow> Inl (Failed (Opaque ''usage'')))"

subsection \<open>Deploying\<close>

text \<open>
  A deployment applies the migrations with \<open>cmd/migrate\<close> and starts the server in the mode \<open>verify\<close>
  on the same directory and database: the server's check of the migrations passes.
\<close>

lemma migrate_apply:
  assumes "migrate L run_sql E None (Some directory) s = (Inr (), s')"
  shows "ApplyMigrations L run_sql (read_dir E directory) s = (Inr (), s')"
  using assms by (auto simp: migrate_def flag_value_def Let_def split: sum.splits if_splits)

lemma migrated_server_passes:
  assumes "migrate (lib P) run_sql E None (Some (ap_migrationsDirectory config)) s = (Inr (), s')"
    and "read_dir E (ap_migrationsDirectory config) = Some entries" and "ap_migrationMode config = ''verify''"
    and "leaves_migrations run_sql" and "digest_size (lib P)" and "distinct (map fst (recorded s))"
    and "distinct (map de_Name entries)" and "fst ` set (recorded s) \<subseteq> set (migration_names entries)"
  shows "migrate_database P run_sql' E config s' = (Inr (), s')"
  using applied_verify [of "lib P" run_sql entries s s'] migrate_apply [OF assms(1)] assms(2-)
  by (simp add: migrate_database_def)

text \<open>The signing keys that \<open>cmd/keygen\<close> prints are read back: the private key by \<open>ParsePrivateKey\<close>, and the
  public key by \<open>ParsePublicKeys\<close>, where it stands for the key once it is retired.\<close>

lemma encoded_trimmed:
  assumes "s \<noteq> []"
  shows "trim_space (raw_url_encode s) = raw_url_encode s" "CHR '','' \<notin> set (raw_url_encode s)"
proof -
  let ?s = "raw_url_encode s"
  have "set ?s \<subseteq> set url_alphabet"
    using set_b64_encode [OF url_alphabet_facts(2)] by (simp add: raw_url_encode_def)
  moreover have "byte c < 0x80 \<and> \<not> is_space (byte c) \<and> c \<noteq> CHR '',''" if "c \<in> set url_alphabet" for c
    using that by (auto simp: url_alphabet_def is_space_def)
  moreover have "?s \<noteq> []" using assms raw_url_encode_inj [of s "[]"] by (auto simp: raw_url_encode_def)
  then have "hd ?s \<in> set ?s" "last ?s \<in> set ?s" by simp_all
  ultimately show "trim_space ?s = ?s" "CHR '','' \<notin> set ?s" using trim_space_ascii_id by blast+
qed

lemma keygen_keys_load:
  assumes "keygen admin consumption database (Some serverPrivate) workloadKey = Inr settings"
    and "length serverPrivate = PrivateKeySize" and "ed25519_from_seed L (Seed serverPrivate) = serverPrivate"
  shows "\<exists>private public. map_of settings ''SIGNING_PRIVATE_KEY'' = Some private
    \<and> map_of settings ''SIGNING_PUBLIC_KEY'' = Some public
    \<and> ParsePrivateKey L private = Inr serverPrivate \<and> ParsePublicKeys L public = Inr [Public serverPrivate]"
proof -
  have sizes: "length (Seed serverPrivate) = SeedSize" "length (Public serverPrivate) = PublicKeySize"
    using assms(2) by (simp_all add: Seed_def Public_def PrivateKeySize_def SeedSize_def PublicKeySize_def)
  then have "Public serverPrivate \<noteq> []" by (auto simp: PublicKeySize_def)
  note plain = encoded_trimmed [OF this]
  have "raw_url_encode (Public serverPrivate) \<noteq> []"
    using \<open>Public serverPrivate \<noteq> []\<close> raw_url_encode_inj [of _ "[]"] by (auto simp: raw_url_encode_def)
  then have "ParsePublicKeys L (raw_url_encode (Public serverPrivate)) = Inr [Public serverPrivate]"
    using plain sizes by (simp add: ParsePublicKeys_def split_on_single decodeBase64_def)
  moreover have "ParsePrivateKey L (raw_url_encode (Seed serverPrivate)) = Inr serverPrivate"
    using sizes assms(3) by (simp add: ParsePrivateKey_def decodeBase64_def)
  ultimately show ?thesis
    using assms(1) by (auto simp: keygen_def split: option.splits)
qed

end
