(* ===== verification/Spec2Isabelle.thy ===== *)
theory Spec2Isabelle
  imports Race Use_Path Http_Mint Published Tools
begin

section \<open>upsilonAuth: a verification development\<close>

text \<open>
  upsilonAuth is a capability service. A workload registers with a grant, the most it may ever be
  given; it mints root leases within the grant and delegates weaker leases to other workloads;
  each lease is a signed token. Resource servers verify tokens with the SDK, without asking the
  service on each request. Administrators register and disable workloads, rotate their keys and
  revoke leases together with everything below them.

  The parts and how they call each other (all paths are below \<open>src/\<close>):

    \<^item> A request enters \<open>internal/delivery\<close>, which routes it through its middlewares, checks bearer
      tokens and signed requests, and calls \<open>internal/usecase\<close>.
    \<^item> The use cases authenticate workloads, check a lease with \<open>internal/attenuation\<close> (on
      \<open>internal/resource\<close> and \<open>internal/constraints\<close>), sign its token with \<open>internal/crypto\<close>, and
      store it with \<open>internal/repository\<close>.
    \<^item> The repository runs each operation as one transaction on the tables of \<open>migrations/\<close>.
    \<^item> A resource server runs \<open>sdk/go/middleware\<close>, which fetches the published keys and
      revocations, verifies a token with \<open>internal/crypto\<close>, checks a proof of possession with
      \<open>sdk/go/pop\<close>, and compares the capability with the request.
    \<^item> Workloads and resource servers call the service through \<open>sdk/go/client\<close>, which signs requests
      and reads the answers.
    \<^item> \<open>cmd/upsilonauth\<close> reads the configuration, checks or applies the migrations with
      \<open>internal/repository/migrate.go\<close>, builds the use case and the handler, and listens.
\<close>

subsection \<open>Theories and code\<close>

text \<open>
  Basis: \<open>Prelude\<close> (types the components share, the collections of rewrite rules, generic lemmas),
  \<open>Go_Text\<close>, \<open>Trim\<close>, \<open>Go_Strings\<close>, \<open>Base64\<close>, \<open>Json\<close>, \<open>Json_Text\<close>, \<open>Float64\<close> and \<open>Http_Text\<close> (what the code uses
  of the Go standard library), \<open>Go_Errors\<close> (the sentinel errors of each package), \<open>Interfaces\<close> (the
  contracts between components, as locales).

    \<^item> \<open>Resource\<close>: \<open>internal/resource/resource.go\<close>. \<open>Constraints\<close>: \<open>internal/constraints/constraints.go\<close>.
      \<open>Attenuation\<close>: \<open>internal/attenuation/attenuation.go\<close>. Each has one definition per function, with
      the name of the function, and interprets the contract \<open>scope_check\<close>.
    \<^item> \<open>Token\<close>, \<open>Jwks\<close>: \<open>internal/crypto/ed25519.go\<close>. \<open>Token_Text\<close> and \<open>One_Token\<close> show that the texts
      the service signs meet the rules of the verifier, and give a concrete library.
    \<^item> \<open>Domain\<close>: the records of \<open>internal/domain/domain.go\<close>.
    \<^item> \<open>Repository\<close>: \<open>internal/repository/repository.go\<close> over the record \<open>db\<close>, one field per table, with
      the constraints of \<open>migrations/\<close> as predicates. \<open>Lineage\<close>, \<open>Integrity\<close>, \<open>Transactions\<close> and \<open>Store\<close>
      show that each transaction keeps the invariant \<open>db_ok\<close> and moves the database forward
      (\<open>db_extends\<close>), and interpret \<open>guarded_store\<close>; \<open>Promises\<close> holds what follows for any sequence, and
      \<open>Race\<close> writes \<open>DisableWorkload\<close> out among the transactions that commit while it runs.
    \<^item> \<open>Usecase\<close>: \<open>internal/usecase/usecase.go\<close>. \<open>Identifiers\<close>, \<open>Issuance\<close>, \<open>Delegation\<close> and \<open>Lifecycle\<close>
      hold what it establishes; \<open>System\<close> is the step relation of a service whose requests interleave
      with any operation of the repository.
    \<^item> \<open>Limiter\<close> and \<open>Delivery\<close>: \<open>internal/delivery/delivery.go\<close>. The handlers write a record \<open>gin\<close>; the
      state is \<open>http_state\<close>: the database, the rate limiter and the counters. \<open>Routes\<close> is the table of
      routes that \<open>Router\<close> hands to Gin and the route a path takes. \<open>Http_Service\<close>,
      \<open>Http_Promises\<close> and \<open>Http_Mint\<close> show how the interface refines the use cases.
    \<^item> \<open>Pop\<close>: \<open>sdk/go/pop/pop.go\<close>. \<open>Middleware\<close>: \<open>sdk/go/middleware/middleware.go\<close>, its state the record
      \<open>Verifier\<close>. \<open>Authorization\<close> shows its invariant and what an authorized request went through.
    \<^item> \<open>Client\<close>: \<open>sdk/go/client/client.go\<close> and \<open>api.go\<close>. A call builds a request, hands it to the argument
      that stands for the HTTP client, and reads the response.
    \<^item> \<open>Grant_Path\<close>, \<open>Published\<close>, \<open>Client_Service\<close> and \<open>Use_Path\<close>: the service, the clients and the
      resource servers together.
    \<^item> \<open>Migrate\<close>: \<open>internal/repository/migrate.go\<close> over the record \<open>schema\<close>; a run is one transaction,
      and what a script does to the schema is an argument.
    \<^item> \<open>Server\<close>: \<open>cmd/upsilonauth/main.go\<close>. The record \<open>process\<close> holds the environment and the files;
      \<open>loadConfig\<close> follows the code in parts (\<open>load_credentials\<close> to \<open>load_limits\<close>), and \<open>start\<close> is \<open>main\<close> up
      to the point where the server listens.
    \<^item> \<open>Tools\<close>: \<open>cmd/migrate\<close>, \<open>cmd/dbcheck\<close>, \<open>cmd/keygen\<close> and \<open>cmd/upsilon\<close>, each program one definition.
\<close>

subsection \<open>What is shown\<close>

text \<open>
    \<^item> Authority only shrinks: \<open>Covers\<close> and \<open>AtLeastAsStrong\<close> decide inclusion, \<open>Validate\<close> accepts exactly
      the weaker leases, chains of delegations stay within the grant, for every reachable state of
      the service and up to the request a resource server authorizes.
    \<^item> The database: integrity as an invariant, revocation exact and final, disabling final whatever
      transactions run beside it, up to the leases that others delegate further below meanwhile
      (\<open>disabling_is_final\<close>, \<open>disabling_race\<close>), uses numbered and bounded, nonces refused until they expire, the refinement of the repository by
      the use cases and of the use cases by the HTTP interface.
    \<^item> Tokens, proofs and documents: what verifies was signed; what the service signs or publishes
      is accepted or read back; a proof is accepted once.
    \<^item> The interface: which credential each change of the database needs, refusals that change
      nothing, what a signed request binds, the bound of the rate limiter.
    \<^item> The clients: what the SDK signs is authenticated, and a use that a resource server relies on was
      counted by the service for that lease: the address the client builds takes the route that
      consumes it. A revocation reaches a verifier that fetches the published list before the lease
      expires; afterwards the list forgets it (\<open>expired_revocation_forgotten\<close>).
    \<^item> The process: a configuration that loads is safe and starts, tokens outlive a change of keys,
      applied migrations verify and cannot be modified.
\<close>

subsection \<open>Modelling choices\<close>

text \<open>
  Strings are lists of characters that stand for bytes. Go's \<open>int\<close> and \<open>int64\<close> are 64-bit words
  where they can overflow (depths, uses, counters), instants and durations are integers of
  nanoseconds: the code bounds them far below \<open>2^63\<close>, and \<open>time_sub\<close> saturates as Go does. A
  \<open>float64\<close> is the rational it stands for, rounded after each operation, where arm64 may fuse two. Errors are values
  (\<open>go_error + 'a\<close>), an early return is a branch. Maps are finite maps; where Go iterates over one,
  the result does not depend on the order.

  Each operation of the repository is one step, at the moment its transaction commits. The code earns
  that with locks, except that \<open>DisableWorkload\<close>, and a rotation that revokes, take no lock on the
  lineages they revoke: the sequences of \<open>Promises\<close> and \<open>System\<close> are those in which they run by
  themselves, and \<open>Race\<close> shows what remains otherwise. What a client sends is what the server reads, up to
  blanks around a header's value and the headers that \<open>net/http\<close> adds (\<open>received\<close>).

  Bounds and fuel: the parser of JSON runs on twice the length of its input plus two, one unit for
  each value and each character (\<open>json_unmarshal_text\<close>), with the nesting limit of \<open>encoding/json\<close>;
  the recursive queries run on the number of leases, and depths in a well-formed table are
  smaller than that (\<open>depths_below\<close>, \<open>lineage_iff\<close>), so that more fuel changes no answer
  (\<open>recursive_queries_end\<close>). All other loops are structural or have a
  measure.

  Libraries are parameters: SHA-256, Ed25519, the JWT library, Unicode beyond ASCII, the \<open>uuid\<close> type
  of PostgreSQL (\<open>auth_lib\<close>), URLs (\<open>web_lib\<close>, \<open>client_lib\<close>, \<open>process\<close>), the decoding of documents into structs (\<open>sdk_lib\<close>,
  \<open>http_lib\<close>, \<open>client_lib\<close>), \<open>net.ParseIP\<close>, \<open>net.ParseCIDR\<close> and \<open>strconv.ParseFloat\<close>. What is assumed of them is named where it is used
  (\<open>digest_size\<close>, \<open>parse_sound\<close>, \<open>tokens_documented\<close>, \<open>uuid_canonical\<close>, \<open>key_sets_decoded\<close>, \<open>plain_addresses\<close>,
  \<open>gin_documented\<close> and others) and holds for the libraries of the examples. What is said of tokens is said of claims
  that JSON carries without loss (\<open>text_claims\<close>). What a call reads from outside, the clock, the random source, the
  answers of other servers, is an argument (\<open>call_env\<close>, \<open>http_env\<close>, \<open>authorize_env\<close>).
\<close>

subsection \<open>Not modelled\<close>

text \<open>
  Pure input and output: the connection pool and its failures, the advisory lock of the migrations,
  log lines, sockets, signals, timeouts and shutdown. How Gin matches a path with a pattern, an argument
  of \<open>route_of\<close>; elsewhere a request comes with its route. The recovery from panics, which the modelled code does not raise. The generation
  of keys, a call of the standard library, and \<open>SignClaims\<close>, which only tests call. The smoke test, the health check and the example, which call a running service and
  have no logic of their own, and the parsing of command lines.
\<close>

end
